(* ===== verification/Prelude.thy ===== *)
theory Prelude
  imports Main "HOL-Library.Word"
begin

text \<open>
  What every component shares: Go's fixed-width integers as words, errors and panics as
  values, the sequencing of fallible operations over an explicit state, and the byte orders
  of Go's package \<^verbatim>\<open>encoding/binary\<close>.
\<close>

unbundle bit_operations_syntax

section \<open>Go's integer types\<close>

text \<open>
  \<^verbatim>\<open>byte\<close>, \<^verbatim>\<open>uint16\<close>, \<^verbatim>\<open>uint32\<close> and \<^verbatim>\<open>int64\<close> are words of their width, so
  arithmetic wraps as it does in Go; \<^verbatim>\<open>int32\<close> and \<^verbatim>\<open>int64\<close> are read with \<^term>\<open>sint\<close>
  and compared with \<open><s\<close>. Go's \<^verbatim>\<open>int\<close> (64 bits on every platform the library runs on)
  holds only lengths and chunk stream IDs here, far from its limits, and is \<^typ>\<open>int\<close>
  or, where it is a length, \<^typ>\<open>nat\<close>.
\<close>

type_synonym byte = "8 word"
type_synonym uint16 = "16 word"
type_synonym uint32 = "32 word"
type_synonym int32 = "32 word"
type_synonym int64 = "64 word"

section \<open>Dynamic values\<close>

text \<open>
  The dynamic values of \<^verbatim>\<open>interface{}\<close> that the program hands to an encoder or gets from a
  decoder. A struct is encoded under the names of its \<^verbatim>\<open>amf0\<close> tags; floating-point numbers are
  opaque, their 64 bits are kept.
\<close>

datatype goValue =
    GoNil
  | GoBool bool
  | GoInt int
  | GoInt64 int64
  | GoUint32 uint32
  | GoUint8 byte
  | GoFloat64 "64 word"
  | GoString string
  | GoBytes "byte list"
  | GoMap "(string \<times> goValue) list"
  | GoStruct "(string \<times> goValue) list"
  | GoECMAArray "(string \<times> goValue) list"
  | GoSlice "goValue list"

section \<open>Errors, panics and results\<close>

text \<open>
  The values of Go's \<^verbatim>\<open>error\<close> interface that the library creates or tests for.
  The two decode errors of package \<^verbatim>\<open>message\<close> and the two rejections of \<^verbatim>\<open>error.go\<close> are types of
  their own; a rejection keeps its result as the argument list it came in.
  \<^verbatim>\<open>fmt.Errorf\<close> and \<^verbatim>\<open>errors.Errorf\<close> keep their format string and their numeric
  arguments; \<^verbatim>\<open>errors.Wrapf\<close> keeps the wrapped error, which \<^verbatim>\<open>errors.Is\<close> looks through
  and \<open>==\<close> does not.
\<close>

datatype rtmp_error =
    EOF
  | ErrUnexpectedEOF
  | ErrShortBuffer
  | ErrNoProgress
  | ErrIO string
  | ErrDeadlineExceeded
  | ErrPassThroughMsg
  | ErrClosed
  | UnknownDataBodyDecodeError string "goValue list"
  | UnknownCommandBodyDecodeError string int64 "goValue list"
  | ConnectRejectedError int64 "goValue list"
  | CreateStreamRejectedError int64 "goValue list"
  | Errorf string "int list"
  | Wrapf rtmp_error string

text \<open>\<^verbatim>\<open>errors.Is(err, target)\<close> for a target that wraps nothing.\<close>

fun errors_Is :: "rtmp_error \<Rightarrow> rtmp_error \<Rightarrow> bool" where
  "errors_Is (Wrapf e m) t = (Wrapf e m = t \<or> errors_Is e t)"
| "errors_Is e t = (e = t)"

text \<open>
  What a Go function with an \<^verbatim>\<open>error\<close> result can do: return a value, return an error, or
  panic. A panic is not an error: \<^verbatim>\<open>if err != nil\<close> does not see it, only \<^verbatim>\<open>recover\<close> does.
\<close>

datatype 'a result = Ok 'a | Err rtmp_error | Panic string

abbreviation is_Ok :: "'a result \<Rightarrow> bool" where
  "is_Ok r \<equiv> (\<exists>a. r = Ok a)"

section \<open>Sequencing over a state\<close>

text \<open>
  An operation on a state returns its result and the state it leaves, also when it fails.
  \<open>bind_io m f\<close> is Go's \<^verbatim>\<open>x, err := m(); if err != nil { return err }\<close> followed by \<open>f x\<close>.
\<close>

type_synonym ('s, 'a) io = "'s \<Rightarrow> 'a result \<times> 's"

definition return_io :: "'a \<Rightarrow> ('s, 'a) io" where
  "return_io a s = (Ok a, s)"

definition fail_io :: "rtmp_error \<Rightarrow> ('s, 'a) io" where
  "fail_io e s = (Err e, s)"

definition panic_io :: "string \<Rightarrow> ('s, 'a) io" where
  "panic_io p s = (Panic p, s)"

definition bind_io :: "('s, 'a) io \<Rightarrow> ('a \<Rightarrow> ('s, 'b) io) \<Rightarrow> ('s, 'b) io" where
  "bind_io m f s =
     (case fst (m s) of
        Ok a \<Rightarrow> f a (snd (m s))
      | Err e \<Rightarrow> (Err e, snd (m s))
      | Panic p \<Rightarrow> (Panic p, snd (m s)))"

text \<open>\<^verbatim>\<open>errors.Wrapf(err, msg)\<close> on the error of an operation.\<close>

definition wrap_io :: "string \<Rightarrow> ('s, 'a) io \<Rightarrow> ('s, 'a) io" where
  "wrap_io msg m s =
     (case fst (m s) of Err e \<Rightarrow> (Err (Wrapf e msg), snd (m s)) | _ \<Rightarrow> m s)"

named_theorems io_simps \<open>how the sequencing operations compute\<close>

lemma bind_io_Ok [io_simps]: "fst (m s) = Ok a \<Longrightarrow> bind_io m f s = f a (snd (m s))"
  by (simp add: bind_io_def)

lemma bind_io_Err [io_simps]: "fst (m s) = Err e \<Longrightarrow> bind_io m f s = (Err e, snd (m s))"
  by (simp add: bind_io_def)

lemma bind_io_Panic [io_simps]: "fst (m s) = Panic p \<Longrightarrow> bind_io m f s = (Panic p, snd (m s))"
  by (simp add: bind_io_def)

lemma wrap_io_Ok [io_simps]: "fst (m s) = Ok a \<Longrightarrow> wrap_io msg m s = (Ok a, snd (m s))"
  by (cases "m s") (simp add: wrap_io_def)

lemma wrap_io_Err [io_simps]: "fst (m s) = Err e \<Longrightarrow> wrap_io msg m s = (Err (Wrapf e msg), snd (m s))"
  by (simp add: wrap_io_def)

lemma snd_wrap_io [simp]: "snd (wrap_io msg m s) = snd (m s)"
  by (auto simp: wrap_io_def split: result.splits)

lemma return_io_simps [simp]: "return_io a s = (Ok a, s)" "fst (return_io a s) = Ok a"
  by (simp_all add: return_io_def)

lemma fail_io_simps [simp]: "fail_io e s = (Err e, s)"
  by (simp add: fail_io_def)

lemma panic_io_simps [simp]: "panic_io p s = (Panic p, s)"
  by (simp add: panic_io_def)

lemma bind_io_return [simp]: "bind_io (return_io a) f s = f a s"
  by (simp add: bind_io_def)

text \<open>When a sequence succeeds, each part of it did.\<close>

lemma bind_io_OkE:
  assumes "bind_io m f s = (Ok b, s')"
  obtains a where "fst (m s) = Ok a" and "f a (snd (m s)) = (Ok b, s')"
  using assms by (auto simp: bind_io_def split: result.splits)

text \<open>A quantity that every part of a sequence keeps is kept by the sequence.\<close>

lemma bind_io_pres:
  assumes "\<And>s. I (snd (m s)) = I s" and "\<And>a s. I (snd (f a s)) = I s"
  shows "I (snd (bind_io m f s)) = I s"
  using assms by (auto simp: bind_io_def split: result.splits)

section \<open>Recovering\<close>

text \<open>A deferred \<^verbatim>\<open>recover\<close> turns a panic into the function's error.\<close>

definition recovered :: "'a result \<times> 's \<Rightarrow> 'a result \<times> 's" where
  "recovered r = (case fst r of Panic p \<Rightarrow> Err (Errorf (''Panic: '' @ p) []) | x \<Rightarrow> x, snd r)"

section \<open>Triples\<close>

text \<open>
  From a state with \<open>P\<close>, an operation that succeeds leaves \<open>Q\<close> of its result, and one that fails or
  panics leaves \<open>E\<close>. The rules follow the structure of an operation.
\<close>

definition triple :: "('s \<Rightarrow> bool) \<Rightarrow> ('s, 'a) io \<Rightarrow> ('a \<Rightarrow> 's \<Rightarrow> bool) \<Rightarrow> ('s \<Rightarrow> bool) \<Rightarrow> bool" where
  "triple P m Q E \<longleftrightarrow> (\<forall>s. P s \<longrightarrow> (case fst (m s) of Ok a \<Rightarrow> Q a (snd (m s)) | _ \<Rightarrow> E (snd (m s))))"

named_theorems triples \<open>triples of operations\<close>

lemma tripleI:
  assumes "\<And>s a s'. P s \<Longrightarrow> m s = (Ok a, s') \<Longrightarrow> Q a s'"
    and "\<And>s e s'. P s \<Longrightarrow> m s = (Err e, s') \<Longrightarrow> E s'"
    and "\<And>s p s'. P s \<Longrightarrow> m s = (Panic p, s') \<Longrightarrow> E s'"
  shows "triple P m Q E"
  using assms by (auto simp: triple_def split: result.splits) (metis prod.collapse)+

lemma triple_any: "(\<And>s. P s \<Longrightarrow> R (snd (m s))) \<Longrightarrow> triple P m (\<lambda>_. R) R"
  by (auto simp: triple_def split: result.splits)

lemma triple_state: "triple P m (\<lambda>_. R) R \<Longrightarrow> P s \<Longrightarrow> R (snd (m s))"
  by (cases "fst (m s)") (auto simp: triple_def split: result.splits)

lemma triple_weaken:
  assumes "triple P m Q E" and "\<And>s. P' s \<Longrightarrow> P s" and "\<And>a s. Q a s \<Longrightarrow> Q' a s" and "\<And>s. E s \<Longrightarrow> E' s"
  shows "triple P' m Q' E'"
  using assms by (fastforce simp: triple_def split: result.splits)

lemma triple_bind:
  assumes "triple P m Q E" and "\<And>a. triple (Q a) (f a) R E"
  shows "triple P (bind_io m f) R E"
  using assms by (fastforce simp: triple_def bind_io_def split: result.splits)

lemma triple_return [triples]: "triple (Q a) (return_io a) Q E"
  by (simp add: triple_def)

lemma triple_fail [triples]: "triple E (fail_io e) Q E"
  by (simp add: triple_def)

lemma triple_panic [triples]: "triple E (panic_io p) Q E"
  by (simp add: triple_def)

section \<open>Byte orders\<close>

text \<open>
  \<^verbatim>\<open>binary.BigEndian.Uint32(b)\<close> and \<^verbatim>\<open>PutUint32(b, v)\<close>, their little-endian and 16-bit
  variants, as the shifts and ORs of Go's \<^verbatim>\<open>encoding/binary\<close>.
\<close>

definition uint16_be :: "byte list \<Rightarrow> uint16" where
  "uint16_be b = ucast (b ! 1) OR push_bit 8 (ucast (b ! 0))"

definition put_uint16_be :: "uint16 \<Rightarrow> byte list" where
  "put_uint16_be v = [ucast (drop_bit 8 v), ucast v]"

definition uint32_be :: "byte list \<Rightarrow> uint32" where
  "uint32_be b = ucast (b ! 3) OR push_bit 8 (ucast (b ! 2)) OR push_bit 16 (ucast (b ! 1))
     OR push_bit 24 (ucast (b ! 0))"

definition put_uint32_be :: "uint32 \<Rightarrow> byte list" where
  "put_uint32_be v = [ucast (drop_bit 24 v), ucast (drop_bit 16 v), ucast (drop_bit 8 v), ucast v]"

definition uint32_le :: "byte list \<Rightarrow> uint32" where
  "uint32_le b = ucast (b ! 0) OR push_bit 8 (ucast (b ! 1)) OR push_bit 16 (ucast (b ! 2))
     OR push_bit 24 (ucast (b ! 3))"

definition put_uint32_le :: "uint32 \<Rightarrow> byte list" where
  "put_uint32_le v = [ucast v, ucast (drop_bit 8 v), ucast (drop_bit 16 v), ucast (drop_bit 24 v)]"

lemma length_put [simp]:
  "length (put_uint16_be w) = 2" "length (put_uint32_be v) = 4" "length (put_uint32_le v) = 4"
  by (simp_all add: put_uint16_be_def put_uint32_be_def put_uint32_le_def)

lemma uint16_be_put [simp]: "uint16_be (put_uint16_be v) = v"
  unfolding uint16_be_def put_uint16_be_def
  by (rule bit_word_eqI) (auto simp: bit_simps ac_simps)

lemma octet_cases:
  fixes n :: nat
  obtains "n < 8" | m where "n = m + 8" "m < 8" | m where "n = m + 16" "m < 8"
    | m where "n = m + 24" "m < 8" | "32 \<le> n"
proof -
  have "n < 8 \<or> n = (n - 8) + 8 \<and> n - 8 < 8 \<or> n = (n - 16) + 16 \<and> n - 16 < 8
     \<or> n = (n - 24) + 24 \<and> n - 24 < 8 \<or> 32 \<le> n"
    by arith
  then show thesis
    using that by blast
qed

lemma uint32_be_put [simp]: "uint32_be (put_uint32_be v) = v"
proof (rule bit_word_eqI)
  fix n :: nat
  assume "n < LENGTH(32)"
  then show "bit (uint32_be (put_uint32_be v)) n = bit v n"
    by (cases n rule: octet_cases) (auto simp: uint32_be_def put_uint32_be_def bit_simps ac_simps)
qed

lemma uint32_le_put [simp]: "uint32_le (put_uint32_le v) = v"
proof (rule bit_word_eqI)
  fix n :: nat
  assume "n < LENGTH(32)"
  then show "bit (uint32_le (put_uint32_le v)) n = bit v n"
    by (cases n rule: octet_cases) (auto simp: uint32_le_def put_uint32_le_def bit_simps ac_simps)
qed

lemma put_uint32_be_of [simp]: "put_uint32_be (uint32_be [a, b, c, d]) = [a, b, c, d]"
  by (auto simp: put_uint32_be_def uint32_be_def intro!: bit_word_eqI)
    (auto simp: bit_simps ac_simps dest: bit_imp_le_length)

lemma four_bytes:
  assumes "4 \<le> length xs"
  obtains a b c d ys where "xs = a # b # c # d # ys"
  using assms by (auto simp: Suc_le_length_iff eval_nat_numeral)

text \<open>
  The chunk header's 24-bit fields: \<^verbatim>\<open>copy(cache32bits[1:], buf[0:3])\<close> on a zeroed buffer
  before reading, and the last three bytes of the four when writing.
\<close>

lemma uint32_be_24:
  assumes "unat v < 2 ^ 24"
  shows "uint32_be (0 # tl (put_uint32_be v)) = v"
proof -
  have hi: "\<not> bit v n" if "24 \<le> n" for n
  proof
    assume "bit v n"
    moreover have "take_bit 24 v = v"
      using assms by (simp add: word_unat_eq_iff unsigned_take_bit_eq take_bit_nat_eq_self)
    ultimately have "bit (take_bit 24 v) n" by simp
    with that show False by (simp add: bit_take_bit_iff)
  qed
  show ?thesis
  proof (rule bit_word_eqI)
    fix n :: nat
    assume "n < LENGTH(32)"
    then show "bit (uint32_be (0 # tl (put_uint32_be v))) n = bit v n"
      by (cases n rule: octet_cases) (auto simp: uint32_be_def put_uint32_be_def bit_simps ac_simps hi)
  qed
qed

lemma nth_append_left: "i < length xs \<Longrightarrow> (xs @ ys) ! i = xs ! i"
  by (simp add: nth_append)

end
