(* ===== verification/Go_IO.thy ===== *)
theory Go_IO
  imports Prelude
begin

text \<open>
  The part of Go's standard library that every codec of the program rests on: the interfaces
  \<^verbatim>\<open>io.Reader\<close> and \<^verbatim>\<open>io.Writer\<close> as locales, \<^verbatim>\<open>io.ReadAtLeast\<close> and the copies
  \<^verbatim>\<open>io.Copy\<close>/\<^verbatim>\<open>io.CopyN\<close> as loops over them, and the two kinds of reader and writer the
  program uses: a network connection and a \<^verbatim>\<open>bytes.Buffer\<close>.
\<close>

section \<open>Readers\<close>

text \<open>
  \<open>rd n s\<close> is \<^verbatim>\<open>r.Read(p)\<close> with \<^verbatim>\<open>len(p) = n\<close>: the bytes placed in \<^verbatim>\<open>p\<close>, the error if
  there was one, and the reader afterwards. A single \<^verbatim>\<open>Read\<close> may return fewer bytes than asked.
\<close>

type_synonym 's reader = "nat \<Rightarrow> 's \<Rightarrow> (byte list \<times> rtmp_error option) \<times> 's"

text \<open>
  The loop of \<^verbatim>\<open>io.ReadAtLeast(r, buf, min)\<close>, \<open>len\<close> being \<^verbatim>\<open>len(buf)\<close>: read until \<open>min\<close> bytes
  are there or an error comes. Fuel \<open>Suc min\<close> is enough for a reader that never returns zero
  bytes without an error (\<open>read_loop_enough\<close> below).
\<close>

fun read_loop :: "'s reader \<Rightarrow> nat \<Rightarrow> nat \<Rightarrow> nat \<Rightarrow> byte list \<Rightarrow> 's
    \<Rightarrow> (byte list \<times> rtmp_error option) \<times> 's" where
  "read_loop rd 0 len mn acc s = ((acc, Some ErrNoProgress), s)"
| "read_loop rd (Suc k) len mn acc s =
     (if mn \<le> length acc then ((acc, None), s)
      else case rd (len - length acc) s of
             ((bs, None), s') \<Rightarrow> read_loop rd k len mn (acc @ bs) s'
           | ((bs, Some e), s') \<Rightarrow> ((acc @ bs, Some e), s'))"

text \<open>The result \<open>Ok bs\<close> stands for \<^verbatim>\<open>buf[:n]\<close>, the bytes read.\<close>

definition ReadAtLeast :: "'s reader \<Rightarrow> nat \<Rightarrow> nat \<Rightarrow> ('s, byte list) io" where
  "ReadAtLeast rd len mn s =
     (if len < mn then (Err ErrShortBuffer, s)
      else case read_loop rd (Suc mn) len mn [] s of
             ((bs, eo), s') \<Rightarrow>
               (if mn \<le> length bs then Ok bs
                else case eo of
                       None \<Rightarrow> Err ErrNoProgress
                     | Some e \<Rightarrow> Err (if bs \<noteq> [] \<and> e = EOF then ErrUnexpectedEOF else e), s'))"

definition ReadFull :: "'s reader \<Rightarrow> nat \<Rightarrow> ('s, byte list) io" where
  "ReadFull rd n = ReadAtLeast rd n n"

text \<open>
  \<^verbatim>\<open>io.Copy(buf, io.LimitReader(r, n))\<close> into a \<^verbatim>\<open>bytes.Buffer\<close>, which is \<^verbatim>\<open>buf.ReadFrom\<close>: read
  until the limit is used up or the reader fails; \<^verbatim>\<open>io.EOF\<close> is not an error. Each round asks for
  all that is left; with smaller requests the same bytes arrive. Fuel \<open>Suc n\<close> is enough.
\<close>

fun copy_loop :: "'s reader \<Rightarrow> nat \<Rightarrow> nat \<Rightarrow> byte list \<Rightarrow> 's
    \<Rightarrow> (byte list \<times> rtmp_error option) \<times> 's" where
  "copy_loop rd 0 n acc s = ((acc, Some ErrNoProgress), s)"
| "copy_loop rd (Suc k) n acc s =
     (if n = 0 then ((acc, None), s)
      else case rd n s of
             ((bs, None), s') \<Rightarrow> copy_loop rd k (n - length bs) (acc @ bs) s'
           | ((bs, Some e), s') \<Rightarrow> ((acc @ bs, if e = EOF then None else Some e), s'))"

definition copy_limited :: "'s reader \<Rightarrow> nat \<Rightarrow> 's \<Rightarrow> (byte list \<times> rtmp_error option) \<times> 's" where
  "copy_limited rd n s = copy_loop rd (Suc n) n [] s"

text \<open>A quantity that every \<^verbatim>\<open>Read\<close> keeps is kept by the loops built on it.\<close>

lemma read_loop_pres:
  assumes "\<And>n s. I (snd (rd n s)) = I s"
  shows "I (snd (read_loop rd k len mn acc s)) = I s"
proof (induction k arbitrary: acc s)
  case (Suc k)
  show ?case
    using Suc.IH assms [of "len - length acc" s]
    by (auto split: prod.splits option.splits)
qed simp

lemma ReadAtLeast_pres:
  assumes "\<And>n s. I (snd (rd n s)) = I s"
  shows "I (snd (ReadAtLeast rd len mn s)) = I s"
  using read_loop_pres [of I rd "Suc mn" len mn "[]" s, OF assms]
  by (auto simp: ReadAtLeast_def simp del: read_loop.simps split: prod.splits)

lemma copy_loop_pres:
  assumes "\<And>n s. I (snd (rd n s)) = I s"
  shows "I (snd (copy_loop rd k n acc s)) = I s"
proof (induction k arbitrary: n acc s)
  case (Suc k)
  show ?case
    using Suc.IH assms [of n s] by (auto split: prod.splits option.splits)
qed simp

lemma copy_limited_pres:
  assumes "\<And>n s. I (snd (rd n s)) = I s"
  shows "I (snd (copy_limited rd n s)) = I s"
  unfolding copy_limited_def by (rule copy_loop_pres) (rule assms)

section \<open>The contract of a reader\<close>

text \<open>
  What \<^verbatim>\<open>io.Reader\<close> promises: \<open>pending s\<close> are the bytes still to come and \<open>final s\<close> the error
  after the last of them. A \<^verbatim>\<open>Read\<close> returns a non-empty prefix, as short as it likes.
\<close>

locale io_reader =
  fixes rd :: "'s reader"
    and pending :: "'s \<Rightarrow> byte list"
    and final :: "'s \<Rightarrow> rtmp_error"
  assumes read_end: "pending s = [] \<Longrightarrow> 0 < n \<Longrightarrow> rd n s = (([], Some (final s)), s)"
    and read_some: "pending s \<noteq> [] \<Longrightarrow> 0 < n \<Longrightarrow>
      \<exists>k s'. 0 < k \<and> k \<le> n \<and> k \<le> length (pending s)
        \<and> rd n s = ((take k (pending s), None), s')
        \<and> pending s' = drop k (pending s) \<and> final s' = final s"
begin

lemma read_loop_enough:
  assumes "mn \<le> len" and "mn \<le> length acc + length (pending s)" and "mn - length acc < k"
    and "length acc \<le> len"
  shows "\<exists>j s'. mn \<le> length acc + j \<and> length acc + j \<le> len \<and> j \<le> length (pending s)
    \<and> read_loop rd k len mn acc s = ((acc @ take j (pending s), None), s')
    \<and> pending s' = drop j (pending s) \<and> final s' = final s"
  using assms
proof (induction k arbitrary: acc s)
  case 0
  then show ?case by simp
next
  case (Suc k)
  show ?case
  proof (cases "mn \<le> length acc")
    case True
    with Suc.prems show ?thesis by (intro exI [of _ 0]) simp
  next
    case False
    with Suc.prems have "pending s \<noteq> []" and "0 < len - length acc" by auto
    then obtain i s1 where i: "0 < i" "i \<le> len - length acc" "i \<le> length (pending s)"
      and rd: "rd (len - length acc) s = ((take i (pending s), None), s1)"
      and s1: "pending s1 = drop i (pending s)" "final s1 = final s"
      using read_some [of s "len - length acc"] by blast
    have "\<exists>j s'. mn \<le> length (acc @ take i (pending s)) + j
        \<and> length (acc @ take i (pending s)) + j \<le> len \<and> j \<le> length (pending s1)
        \<and> read_loop rd k len mn (acc @ take i (pending s)) s1
            = (((acc @ take i (pending s)) @ take j (pending s1), None), s')
        \<and> pending s' = drop j (pending s1) \<and> final s' = final s1"
      using Suc.prems i s1 False by (intro Suc.IH) auto
    then obtain j s' where j: "mn \<le> length (acc @ take i (pending s)) + j"
        "length (acc @ take i (pending s)) + j \<le> len" "j \<le> length (pending s1)"
      and run: "read_loop rd k len mn (acc @ take i (pending s)) s1
            = (((acc @ take i (pending s)) @ take j (pending s1), None), s')"
      and s': "pending s' = drop j (pending s1)" "final s' = final s1"
      by blast
    show ?thesis
      using False rd run s' s1 j i
      by (intro exI [of _ "i + j"] exI [of _ s']) (auto simp: take_add ac_simps)
  qed
qed

lemma read_loop_short:
  assumes "length acc + length (pending s) < mn" and "mn \<le> len"
    and "length (pending s) < k"
  shows "\<exists>s'. read_loop rd k len mn acc s = ((acc @ pending s, Some (final s)), s')
    \<and> pending s' = [] \<and> final s' = final s"
  using assms
proof (induction k arbitrary: acc s)
  case 0
  then show ?case by simp
next
  case (Suc k)
  have more: "0 < len - length acc" "\<not> mn \<le> length acc" using Suc.prems by auto
  show ?case
  proof (cases "pending s = []")
    case True
    with more show ?thesis by (simp add: read_end)
  next
    case False
    with more obtain i s1 where i: "0 < i" "i \<le> length (pending s)"
      and rd: "rd (len - length acc) s = ((take i (pending s), None), s1)"
      and s1: "pending s1 = drop i (pending s)" "final s1 = final s"
      using read_some [of s "len - length acc"] by blast
    have "\<exists>s'. read_loop rd k len mn (acc @ take i (pending s)) s1
        = (((acc @ take i (pending s)) @ pending s1, Some (final s1)), s')
        \<and> pending s' = [] \<and> final s' = final s1"
      using Suc.prems i s1 by (intro Suc.IH) auto
    with more rd s1 show ?thesis by auto
  qed
qed

text \<open>
  \<^verbatim>\<open>ReadAtLeast\<close> on a buffer longer than the minimum returns some number of bytes between the
  two; only with \<open>len = mn\<close> is the number determined.
\<close>

lemma ReadAtLeast_enough:
  assumes "mn \<le> len" and "mn \<le> length (pending s)"
  shows "\<exists>j s'. mn \<le> j \<and> j \<le> len \<and> j \<le> length (pending s)
    \<and> ReadAtLeast rd len mn s = (Ok (take j (pending s)), s')
    \<and> pending s' = drop j (pending s) \<and> final s' = final s"
  using read_loop_enough [of mn len "[]" s "Suc mn"] assms
  by (auto simp: ReadAtLeast_def min_absorb2 simp del: read_loop.simps)

lemma ReadFull_reads:
  assumes "n \<le> length (pending s)"
  shows "fst (ReadAtLeast rd n n s) = Ok (take n (pending s))"
    and "pending (snd (ReadAtLeast rd n n s)) = drop n (pending s)"
    and "final (snd (ReadAtLeast rd n n s)) = final s"
proof -
  obtain j s' where "n \<le> j" "j \<le> n" "ReadAtLeast rd n n s = (Ok (take j (pending s)), s')"
    "pending s' = drop j (pending s)" "final s' = final s"
    using ReadAtLeast_enough [of n n s] assms by auto
  then show "fst (ReadAtLeast rd n n s) = Ok (take n (pending s))"
    and "pending (snd (ReadAtLeast rd n n s)) = drop n (pending s)"
    and "final (snd (ReadAtLeast rd n n s)) = final s"
    by auto
qed

lemma ReadAtLeast_short:
  assumes "length (pending s) < mn" and "mn \<le> len"
  shows "fst (ReadAtLeast rd len mn s)
      = Err (if pending s \<noteq> [] \<and> final s = EOF then ErrUnexpectedEOF else final s)"
    and "pending (snd (ReadAtLeast rd len mn s)) = []"
proof -
  obtain s' where "read_loop rd (Suc mn) len mn [] s = ((pending s, Some (final s)), s')"
    "pending s' = []"
    using read_loop_short [of "[]" s mn len "Suc mn"] assms by auto
  then show "fst (ReadAtLeast rd len mn s)
      = Err (if pending s \<noteq> [] \<and> final s = EOF then ErrUnexpectedEOF else final s)"
    and "pending (snd (ReadAtLeast rd len mn s)) = []"
    using assms by (auto simp: ReadAtLeast_def simp del: read_loop.simps)
qed

text \<open>Whatever the outcome, what is read is a prefix: the rest is still to come.\<close>

lemma ReadAtLeast_suffix:
  assumes "mn \<le> len"
  shows "\<exists>j. pending (snd (ReadAtLeast rd len mn s)) = drop j (pending s)
    \<and> (is_Ok (fst (ReadAtLeast rd len mn s)) \<longrightarrow> mn \<le> j \<and> j \<le> length (pending s))"
proof (cases "mn \<le> length (pending s)")
  case True
  then show ?thesis using ReadAtLeast_enough [OF assms True] by auto
next
  case False
  then show ?thesis
    using ReadAtLeast_short [of s mn len] assms by (intro exI [of _ "length (pending s)"]) auto
qed

lemma copy_loop_copies:
  assumes "n < k"
  shows "\<exists>s'. copy_loop rd k n acc s =
      ((acc @ take n (pending s),
        if n \<le> length (pending s) \<or> final s = EOF then None else Some (final s)), s')
    \<and> pending s' = drop n (pending s) \<and> final s' = final s"
  using assms
proof (induction k arbitrary: n acc s)
  case 0
  then show ?case by simp
next
  case (Suc k)
  consider "n = 0" | "0 < n" "pending s = []" | "0 < n" "pending s \<noteq> []" by auto
  then show ?case
  proof cases
    case 3
    then obtain i s1 where i: "0 < i" "i \<le> n" "i \<le> length (pending s)"
      and rd: "rd n s = ((take i (pending s), None), s1)"
      and s1: "pending s1 = drop i (pending s)" "final s1 = final s"
      using read_some [of s n] by blast
    from i Suc.prems have "n - i < k" by auto
    then obtain s' where "copy_loop rd k (n - i) (acc @ take i (pending s)) s1 =
      (((acc @ take i (pending s)) @ take (n - i) (pending s1),
        if n - i \<le> length (pending s1) \<or> final s1 = EOF then None else Some (final s1)), s')"
      "pending s' = drop (n - i) (pending s1)" "final s' = final s1"
      using Suc.IH by blast
    moreover have "take i (pending s) @ take (n - i) (drop i (pending s)) = take n (pending s)"
      using i by (metis le_add_diff_inverse take_add)
    moreover have "(n - i \<le> length (pending s1)) = (n \<le> length (pending s))"
      using i s1 by auto
    ultimately show ?thesis using 3 rd s1 i by (simp add: min_absorb2)
  qed (auto simp: read_end)
qed

lemma copy_limited_copies:
  shows "fst (copy_limited rd n s) = (take n (pending s),
        if n \<le> length (pending s) \<or> final s = EOF then None else Some (final s))"
    and "pending (snd (copy_limited rd n s)) = drop n (pending s)"
    and "final (snd (copy_limited rd n s)) = final s"
proof -
  obtain s' where "copy_loop rd (Suc n) n [] s = (([] @ take n (pending s),
        if n \<le> length (pending s) \<or> final s = EOF then None else Some (final s)), s')"
    "pending s' = drop n (pending s)" "final s' = final s"
    using copy_loop_copies [of n "Suc n" "[]" s] by auto
  then show "fst (copy_limited rd n s) = (take n (pending s),
        if n \<le> length (pending s) \<or> final s = EOF then None else Some (final s))"
    and "pending (snd (copy_limited rd n s)) = drop n (pending s)"
    and "final (snd (copy_limited rd n s)) = final s"
    by (simp_all add: copy_limited_def)
qed

end

section \<open>A network connection as a reader\<close>

text \<open>
  What the peer sends arrives in pieces (\<open>segs\<close>): one \<^verbatim>\<open>Read\<close>, of the connection itself or of
  the \<^verbatim>\<open>bufio.Reader\<close> in front of it, returns at most the rest of one piece. How the bytes are cut
  into pieces is up to the network. After the last piece comes \<open>net_end\<close>: \<^verbatim>\<open>io.EOF\<close>, or the
  error of a broken connection.
\<close>

record netConn =
  segs :: "byte list list"
  net_end :: rtmp_error

fun seg_read :: "nat \<Rightarrow> byte list list \<Rightarrow> (byte list \<times> byte list list) option" where
  "seg_read n [] = None"
| "seg_read n (b # bs) = (if b = [] then seg_read n bs else Some (take n b, drop n b # bs))"

definition net_Read :: "netConn reader" where
  "net_Read n c =
     (case seg_read n (segs c) of
        None \<Rightarrow> (([], Some (net_end c)), c)
      | Some (bs, ss) \<Rightarrow> ((bs, None), c\<lparr>segs := ss\<rparr>))"

definition net_pending :: "netConn \<Rightarrow> byte list" where
  "net_pending c = concat (segs c)"

lemma seg_read_None: "seg_read n ss = None \<longleftrightarrow> concat ss = []"
  by (induction n ss rule: seg_read.induct) auto

lemma seg_read_Some:
  "seg_read n ss = Some (bs, ss') \<Longrightarrow> 0 < n \<Longrightarrow>
    \<exists>k. 0 < k \<and> k \<le> n \<and> k \<le> length (concat ss) \<and> bs = take k (concat ss) \<and> concat ss' = drop k (concat ss)"
proof (induction n ss rule: seg_read.induct)
  case (2 n b bs')
  show ?case
  proof (cases "b = []")
    case True
    with 2 show ?thesis by auto
  next
    case False
    with 2 show ?thesis by (intro exI [of _ "min n (length b)"]) (auto simp: min_def)
  qed
qed simp

interpretation net: io_reader net_Read net_pending net_end
proof
  fix s :: netConn and n :: nat
  assume "net_pending s = []"
  then show "net_Read n s = (([], Some (net_end s)), s)"
    using seg_read_None [of n "segs s"] by (auto simp: net_Read_def net_pending_def)
next
  fix s :: netConn and n :: nat
  assume ne: "net_pending s \<noteq> []" and n: "0 < n"
  then obtain bs ss where eq: "seg_read n (segs s) = Some (bs, ss)"
    using seg_read_None [of n "segs s"] by (auto simp: net_pending_def)
  from seg_read_Some [OF eq n] obtain k where "0 < k" "k \<le> n" "k \<le> length (concat (segs s))"
    "bs = take k (concat (segs s))" "concat ss = drop k (concat (segs s))" by blast
  then show "\<exists>k s'. 0 < k \<and> k \<le> n \<and> k \<le> length (net_pending s)
        \<and> net_Read n s = ((take k (net_pending s), None), s')
        \<and> net_pending s' = drop k (net_pending s) \<and> net_end s' = net_end s"
    using eq by (intro exI [of _ k] exI [of _ "s\<lparr>segs := ss\<rparr>"])
      (simp add: net_Read_def net_pending_def)
qed

section \<open>A buffer as a reader\<close>

text \<open>
  A \<^verbatim>\<open>bytes.Buffer\<close> is its unread bytes. \<^verbatim>\<open>Read\<close> returns as many as fit and \<^verbatim>\<open>io.EOF\<close> when there
  are none (and \<^verbatim>\<open>len(p) > 0\<close>).
\<close>

definition buf_Read :: "byte list reader" where
  "buf_Read n b = (if b = [] then (([], if n = 0 then None else Some EOF), b)
                   else ((take n b, None), drop n b))"

interpretation bbuf: io_reader buf_Read "\<lambda>b. b" "\<lambda>_. EOF"
proof
  fix s :: "byte list" and n :: nat
  assume "s \<noteq> []" and "0 < n"
  then show "\<exists>k s'. 0 < k \<and> k \<le> n \<and> k \<le> length s \<and> buf_Read n s = ((take k s, None), s')
      \<and> s' = drop k s \<and> EOF = EOF"
    by (intro exI [of _ "min n (length s)"]) (auto simp: buf_Read_def min_def)
qed (simp add: buf_Read_def)

lemma buf_ReadFull [simp]:
  "n \<le> length b \<Longrightarrow> ReadAtLeast buf_Read n n b = (Ok (take n b), drop n b)"
  using bbuf.ReadFull_reads [of n b] by (simp add: prod_eq_iff)

section \<open>Writers\<close>

text \<open>
  \<open>wr bs s\<close> is \<^verbatim>\<open>w.Write(bs)\<close>. The contract: a write that succeeds has appended its bytes; a
  \<open>healthy\<close> writer succeeds and stays healthy. A write never panics.
\<close>

type_synonym 'w "writer" = "byte list \<Rightarrow> ('w, unit) io"

locale io_writer =
  fixes wr :: "'w writer"
    and written :: "'w \<Rightarrow> byte list"
    and healthy :: "'w \<Rightarrow> bool"
  assumes write_appends: "fst (wr bs w) = Ok () \<Longrightarrow> written (snd (wr bs w)) = written w @ bs"
    and write_healthy: "healthy w \<Longrightarrow> fst (wr bs w) = Ok () \<and> healthy (snd (wr bs w))"
    and write_no_panic: "fst (wr bs w) \<noteq> Panic p"
begin

lemma healthy_write:
  assumes "healthy w"
  shows "fst (wr bs w) = Ok ()" and "healthy (snd (wr bs w))"
    and "written (snd (wr bs w)) = written w @ bs"
  using write_healthy [OF assms] write_appends by auto

end

text \<open>A \<^verbatim>\<open>bytes.Buffer\<close> as a writer never fails.\<close>

definition buf_Write :: "byte list writer" where
  "buf_Write bs b = (Ok (), b @ bs)"

interpretation wbuf: io_writer buf_Write "\<lambda>b. b" "\<lambda>_. True"
  by unfold_locales (simp_all add: buf_Write_def)

text \<open>
  The connection behind its \<^verbatim>\<open>bufio.Writer\<close>: \<open>out\<close> is what was accepted, in order; \<open>faults\<close> says
  which of the coming calls of \<^verbatim>\<open>Write\<close> and \<^verbatim>\<open>Flush\<close> fail and how (the empty list: none does).
\<close>

record netSink =
  out :: "byte list"
  faults :: "rtmp_error option list"

definition sink_call :: "byte list \<Rightarrow> (netSink, unit) io" where
  "sink_call bs w =
     (case faults w of
        Some e # fs \<Rightarrow> (Err e, w\<lparr>faults := fs\<rparr>)
      | fs \<Rightarrow> (Ok (), w\<lparr>out := out w @ bs, faults := tl fs\<rparr>))"

definition sink_Write :: "netSink writer" where
  "sink_Write = sink_call"

definition sink_Flush :: "(netSink, unit) io" where
  "sink_Flush = sink_call []"

interpretation sink: io_writer sink_Write out "\<lambda>w. faults w = []"
  by unfold_locales (auto simp: sink_Write_def sink_call_def split: list.splits option.splits)

lemma sink_Flush_healthy [simp]: "faults w = [] \<Longrightarrow> sink_Flush w = (Ok (), w)"
  by (simp add: sink_Flush_def sink_call_def)

text \<open>
  \<^verbatim>\<open>io.CopyN(dst, src, n)\<close> from a \<^verbatim>\<open>bytes.Buffer\<close>: pieces of at most 32 KiB are read and written
  until \<open>n\<close> bytes are copied, the buffer is empty (then \<^verbatim>\<open>io.EOF\<close>), or a write fails.
\<close>

function copyN :: "'w writer \<Rightarrow> nat \<Rightarrow> byte list \<Rightarrow> 'w \<Rightarrow> (unit result \<times> byte list) \<times> 'w" where
  "copyN wr n b w =
     (if n = 0 then ((Ok (), b), w)
      else if b = [] then ((Err EOF, b), w)
      else let m = min n 32768 in
        (case wr (take m b) w of
           (Ok _, w') \<Rightarrow> copyN wr (n - length (take m b)) (drop m b) w'
         | (Err e, w') \<Rightarrow> ((Err e, drop m b), w')
         | (Panic p, w') \<Rightarrow> ((Panic p, drop m b), w')))"
  by pat_completeness auto
termination
  by (relation "measure (\<lambda>(wr, n, b, w). n)") (auto simp: min_def split: if_splits)

declare copyN.simps [simp del]

context io_writer
begin

lemma copyN_healthy:
  assumes "healthy w" and "n \<le> length b"
  shows "\<exists>w'. copyN wr n b w = ((Ok (), drop n b), w') \<and> healthy w'
    \<and> written w' = written w @ take n b"
  using assms
proof (induction n arbitrary: b w rule: less_induct)
  case (less n)
  show ?case
  proof (cases "n = 0")
    case True
    with less.prems show ?thesis by (subst copyN.simps) simp
  next
    case False
    define m where "m = min n 32768"
    from False less.prems have m: "0 < m" "m \<le> n" "m \<le> length b" and b: "b \<noteq> []"
      by (auto simp: m_def)
    define w1 where "w1 = snd (wr (take m b) w)"
    have w1: "healthy w1" "written w1 = written w @ take m b"
      and wr: "wr (take m b) w = (Ok (), w1)"
      using healthy_write [OF less.prems(1), of "take m b"]
      by (auto simp: w1_def prod_eq_iff)
    have "\<exists>w'. copyN wr (n - m) (drop m b) w1 = ((Ok (), drop (n - m) (drop m b)), w')
        \<and> healthy w' \<and> written w' = written w1 @ take (n - m) (drop m b)"
      using m less.prems w1 by (intro less.IH) auto
    moreover have "take m b @ take (n - m) (drop m b) = take n b"
      using m by (metis le_add_diff_inverse take_add)
    ultimately show ?thesis
      using False b m wr w1
      by (subst copyN.simps) (simp flip: m_def add: Let_def min_absorb2)
  qed
qed

end

end
