(* ===== verification/Chunk_Header.thy ===== *)
theory Chunk_Header
  imports Go_IO
begin

text \<open>
  \<^verbatim>\<open>chunk_header.go\<close>: the basic header (format and chunk stream ID, 1 to 3 bytes) and the
  message header (11, 7, 3 or 0 bytes, with an extended timestamp of 4 more) in front of every
  chunk, decoded from any \<^verbatim>\<open>io.Reader\<close> and encoded to any \<^verbatim>\<open>io.Writer\<close>.
\<close>

section \<open>Data\<close>

record chunkBasicHeader =
  bh_fmt :: byte
  bh_chunkStreamID :: int

text \<open>\<^verbatim>\<open>type ExtendedTimestampMode byte\<close> with its three constants (\<^verbatim>\<open>chunk_stream_reader.go\<close>).\<close>

datatype ExtendedTimestampMode =
    ExtendedTimestampUnused
  | ExtendedTimestampUsed
  | ExtendedTimestampDeltaUsed

record chunkMessageHeader =
  mh_timestamp :: uint32
  mh_timestampDelta :: uint32
  mh_messageLength :: uint32
  mh_messageTypeID :: byte
  mh_messageStreamID :: uint32
  mh_extendedTimestampMode :: ExtendedTimestampMode

text \<open>Go's zero values, \<^verbatim>\<open>var bh chunkBasicHeader\<close> and \<^verbatim>\<open>var mh chunkMessageHeader\<close>.\<close>

definition zero_basicHeader :: chunkBasicHeader where
  "zero_basicHeader = \<lparr>bh_fmt = 0, bh_chunkStreamID = 0\<rparr>"

definition zero_messageHeader :: chunkMessageHeader where
  "zero_messageHeader = \<lparr>mh_timestamp = 0, mh_timestampDelta = 0, mh_messageLength = 0,
     mh_messageTypeID = 0, mh_messageStreamID = 0,
     mh_extendedTimestampMode = ExtendedTimestampUnused\<rparr>"

section \<open>The basic header\<close>

text \<open>
  Only the length of the scratch buffer \<^verbatim>\<open>buf\<close> matters: a short one is replaced by three bytes.
  In the three-byte form the code reads at least 2 bytes into \<^verbatim>\<open>buf[1:]\<close>, the whole rest of the
  buffer, where the other reads are into a slice of exactly the length they need.
\<close>

definition decodeChunkBasicHeader :: "'s reader \<Rightarrow> nat \<Rightarrow> ('s, chunkBasicHeader) io" where
  "decodeChunkBasicHeader rd bufLen =
     (let len = (if bufLen < 3 then 3 else bufLen) in
      bind_io (ReadAtLeast rd 1 1) (\<lambda>b0.
        let fmtTy = drop_bit 6 (b0 ! 0 AND 0xc0);
            csID = uint (b0 ! 0 AND 0x3f) in
        if csID = 0 then
          bind_io (ReadAtLeast rd 1 1) (\<lambda>b1.
            return_io \<lparr>bh_fmt = fmtTy, bh_chunkStreamID = uint (b1 ! 0) + 64\<rparr>)
        else if csID = 1 then
          bind_io (ReadAtLeast rd (len - 1) 2) (\<lambda>b.
            return_io \<lparr>bh_fmt = fmtTy, bh_chunkStreamID = uint (b ! 1) * 256 + uint (b ! 0) + 64\<rparr>)
        else return_io \<lparr>bh_fmt = fmtTy, bh_chunkStreamID = csID\<rparr>))"

definition encodeChunkBasicHeader :: "'w writer \<Rightarrow> chunkBasicHeader \<Rightarrow> ('w, unit) io" where
  "encodeChunkBasicHeader wr mh =
     (let buf0 = push_bit 6 (bh_fmt mh AND 0x03);
          csID = bh_chunkStreamID mh in
      if csID \<ge> 2 \<and> csID \<le> 63 then
        wr [buf0 OR word_of_int (csID AND 0x3f)]
      else if csID \<ge> 64 \<and> csID \<le> 319 then
        wr [buf0 OR (0 AND 0x3f), word_of_int (csID - 64)]
      else if csID \<ge> 320 \<and> csID \<le> 65599 then
        wr [buf0 OR (1 AND 0x3f), word_of_int ((csID - 64) mod 256), word_of_int ((csID - 64) div 256)]
      else fail_io (Errorf ''Chunk stream id is out of range: %d must be in range [2, 65599]'' [csID]))"

section \<open>The message header\<close>

text \<open>
  The 24-bit timestamp or delta \<open>0xffffff\<close> announces an extended one of 32 bits. With format 3
  nothing is read, unless the mode of the chunk stream (\<open>mode\<close>, from its earlier headers) says
  that an extended timestamp is in use.
\<close>

definition uint24_be :: "byte list \<Rightarrow> uint32" where
  "uint24_be b = uint32_be (0 # take 3 b)"

definition decodeChunkMessageHeader :: "'s reader \<Rightarrow> byte \<Rightarrow> nat \<Rightarrow> chunkMessageHeader
    \<Rightarrow> ExtendedTimestampMode \<Rightarrow> ('s, chunkMessageHeader) io" where
  "decodeChunkMessageHeader rd fm bufLen mh mode =
     (if fm = 0 then
        bind_io (ReadAtLeast rd 11 11) (\<lambda>buf.
          let mh1 = mh\<lparr>mh_timestamp := uint24_be (take 3 buf),
                       mh_messageLength := uint24_be (take 3 (drop 3 buf)),
                       mh_messageTypeID := buf ! 6,
                       mh_messageStreamID := uint32_le (take 4 (drop 7 buf)),
                       mh_extendedTimestampMode := ExtendedTimestampUnused\<rparr> in
          if mh_timestamp mh1 = 0xffffff then
            bind_io (ReadAtLeast rd 4 4) (\<lambda>ext.
              return_io (mh1\<lparr>mh_extendedTimestampMode := ExtendedTimestampUsed,
                             mh_timestamp := uint32_be ext\<rparr>))
          else return_io mh1)
      else if fm = 1 then
        bind_io (ReadAtLeast rd 7 7) (\<lambda>buf.
          let mh1 = mh\<lparr>mh_timestampDelta := uint24_be (take 3 buf),
                       mh_messageLength := uint24_be (take 3 (drop 3 buf)),
                       mh_messageTypeID := buf ! 6,
                       mh_extendedTimestampMode := ExtendedTimestampUnused\<rparr> in
          if mh_timestampDelta mh1 = 0xffffff then
            bind_io (ReadAtLeast rd 4 4) (\<lambda>ext.
              return_io (mh1\<lparr>mh_extendedTimestampMode := ExtendedTimestampDeltaUsed,
                             mh_timestampDelta := uint32_be ext\<rparr>))
          else return_io mh1)
      else if fm = 2 then
        bind_io (ReadAtLeast rd 3 3) (\<lambda>buf.
          let mh1 = mh\<lparr>mh_timestampDelta := uint24_be (take 3 buf),
                       mh_extendedTimestampMode := ExtendedTimestampUnused\<rparr> in
          if mh_timestampDelta mh1 = 0xffffff then
            bind_io (ReadAtLeast rd 4 4) (\<lambda>ext.
              return_io (mh1\<lparr>mh_extendedTimestampMode := ExtendedTimestampDeltaUsed,
                             mh_timestampDelta := uint32_be ext\<rparr>))
          else return_io mh1)
      else if fm = 3 then
        (case mode of
           ExtendedTimestampUsed \<Rightarrow>
             bind_io (ReadAtLeast rd 4 4) (\<lambda>ext.
               return_io (mh\<lparr>mh_timestamp := uint32_be ext, mh_extendedTimestampMode := mode\<rparr>))
         | ExtendedTimestampDeltaUsed \<Rightarrow>
             bind_io (ReadAtLeast rd 4 4) (\<lambda>ext.
               return_io (mh\<lparr>mh_timestampDelta := uint32_be ext, mh_extendedTimestampMode := mode\<rparr>))
         | ExtendedTimestampUnused \<Rightarrow> return_io (mh\<lparr>mh_extendedTimestampMode := mode\<rparr>))
      else panic_io ''Unexpected fmt'')"

definition put_uint24_be :: "uint32 \<Rightarrow> byte list" where
  "put_uint24_be v = tl (put_uint32_be v)"

definition encodeChunkMessageHeader :: "'w writer \<Rightarrow> byte \<Rightarrow> chunkMessageHeader \<Rightarrow> ('w, unit) io" where
  "encodeChunkMessageHeader wr fm mh =
     (if fm = 0 then
        let ext = (mh_timestamp mh \<ge> 0xffffff);
            ts = (if ext then 0xffffff else mh_timestamp mh) in
        wr (put_uint24_be ts @ put_uint24_be (mh_messageLength mh) @ [mh_messageTypeID mh]
            @ put_uint32_le (mh_messageStreamID mh)
            @ (if ext then put_uint32_be (mh_timestamp mh) else []))
      else if fm = 1 then
        let ext = (mh_timestampDelta mh \<ge> 0xffffff);
            td = (if ext then 0xffffff else mh_timestampDelta mh) in
        wr (put_uint24_be td @ put_uint24_be (mh_messageLength mh) @ [mh_messageTypeID mh]
            @ (if ext then put_uint32_be (mh_timestampDelta mh) else []))
      else if fm = 2 then
        let ext = (mh_timestampDelta mh \<ge> 0xffffff);
            td = (if ext then 0xffffff else mh_timestampDelta mh) in
        wr (put_uint24_be td
            @ (if ext then put_uint32_be (mh_timestampDelta mh) else []))
      else if fm = 3 then return_io ()
      else panic_io ''Unexpected fmt'')"

section \<open>The bytes of a header\<close>

text \<open>What the encoders hand to their single \<^verbatim>\<open>Write\<close>, as functions of the header.\<close>

definition basicHeader_bytes :: "chunkBasicHeader \<Rightarrow> byte list" where
  "basicHeader_bytes mh =
     (let b = push_bit 6 (bh_fmt mh AND 3); c = bh_chunkStreamID mh in
      if c \<le> 63 then [b OR word_of_int c]
      else if c \<le> 319 then [b, word_of_int (c - 64)]
      else [b OR 1, word_of_int ((c - 64) mod 256), word_of_int ((c - 64) div 256)])"

definition ext_bytes :: "uint32 \<Rightarrow> byte list" where
  "ext_bytes t = (if t \<ge> 0xffffff then put_uint32_be t else [])"

definition messageHeader_bytes :: "byte \<Rightarrow> chunkMessageHeader \<Rightarrow> byte list" where
  "messageHeader_bytes fm mh =
     (if fm = 0 then put_uint24_be (min 0xffffff (mh_timestamp mh)) @ put_uint24_be (mh_messageLength mh)
        @ [mh_messageTypeID mh] @ put_uint32_le (mh_messageStreamID mh) @ ext_bytes (mh_timestamp mh)
      else if fm = 1 then put_uint24_be (min 0xffffff (mh_timestampDelta mh))
        @ put_uint24_be (mh_messageLength mh) @ [mh_messageTypeID mh] @ ext_bytes (mh_timestampDelta mh)
      else if fm = 2 then put_uint24_be (min 0xffffff (mh_timestampDelta mh)) @ ext_bytes (mh_timestampDelta mh)
      else [])"

definition valid_csid :: "int \<Rightarrow> bool" where
  "valid_csid c \<longleftrightarrow> 2 \<le> c \<and> c \<le> 65599"

definition valid_fmt :: "byte \<Rightarrow> bool" where
  "valid_fmt f \<longleftrightarrow> f = 0 \<or> f = 1 \<or> f = 2 \<or> f = 3"

lemma int_and_63: "0 \<le> c \<Longrightarrow> c \<le> 63 \<Longrightarrow> c AND 63 = (c :: int)"
  using take_bit_int_eq_self [of c 6] by (simp add: take_bit_eq_mask mask_eq_exp_minus_1)

lemma encodeChunkBasicHeader_writes:
  assumes "valid_csid (bh_chunkStreamID mh)"
  shows "encodeChunkBasicHeader wr mh = wr (basicHeader_bytes mh)"
  using assms
  by (auto simp: encodeChunkBasicHeader_def basicHeader_bytes_def valid_csid_def Let_def int_and_63)

lemma encodeChunkMessageHeader_writes:
  assumes "valid_fmt fm" and "fm \<noteq> 3"
  shows "encodeChunkMessageHeader wr fm mh = wr (messageHeader_bytes fm mh)"
  using assms
  by (auto simp: encodeChunkMessageHeader_def messageHeader_bytes_def valid_fmt_def ext_bytes_def
      Let_def min_def)


section \<open>Decoding what was encoded\<close>

text \<open>Taking the first byte apart: the format in the upper two bits, six bits below.\<close>

lemma low_bits:
  fixes x :: byte
  assumes "unat x < 64"
  shows "x AND 0x3f = x" and "drop_bit 6 x = 0"
proof -
  have "take_bit 6 x = x"
    using assms by (simp add: word_unat_eq_iff unsigned_take_bit_eq take_bit_nat_eq_self)
  then show "x AND 0x3f = x" by (simp add: take_bit_eq_mask mask_eq_exp_minus_1)
  show "drop_bit 6 x = 0"
    unfolding word_unat_eq_iff unat_drop_bit_eq unsigned_0
    using assms by (simp add: drop_bit_eq_div)
qed

lemma first_byte:
  fixes x :: byte
  assumes "valid_fmt f" and "unat x < 64"
  shows "drop_bit 6 ((push_bit 6 (f AND 3) OR x) AND 0xc0) = f"
    and "(push_bit 6 (f AND 3) OR x) AND 0x3f = x"
proof -
  have "drop_bit 6 ((push_bit 6 (f AND 3) OR x) AND 0xc0)
      = (drop_bit 6 (push_bit 6 (f AND 3)) OR drop_bit 6 x) AND drop_bit 6 0xc0"
    by (simp only: drop_bit_and drop_bit_or)
  with assms low_bits [OF assms(2)]
  show "drop_bit 6 ((push_bit 6 (f AND 3) OR x) AND 0xc0) = f"
    by (auto simp: valid_fmt_def)
  have "(push_bit 6 (f AND 3) OR x) AND 0x3f = (push_bit 6 (f AND 3) AND 0x3f) OR (x AND 0x3f)"
    by (simp only: bit.conj_disj_distrib2)
  with assms low_bits [OF assms(2)] show "(push_bit 6 (f AND 3) OR x) AND 0x3f = x"
    by (auto simp: valid_fmt_def)
qed

lemma uint_word_of_int_byte: "0 \<le> c \<Longrightarrow> c < 256 \<Longrightarrow> uint (word_of_int c :: byte) = c"
  by (simp add: uint_word_of_int take_bit_eq_mod)

lemma unat_word_of_int_byte: "0 \<le> c \<Longrightarrow> c < 256 \<Longrightarrow> unat (word_of_int c :: byte) = nat c"
  by (metis uint_word_of_int_byte unat_eq_nat_uint)

text \<open>
  The header comes back, and exactly its bytes are consumed: for two-byte IDs with any scratch
  buffer, for three-byte IDs only when the scratch buffer has no more than three bytes.
\<close>

context io_reader
begin

lemma decodeChunkBasicHeader_encoded:
  assumes "valid_csid (bh_chunkStreamID bh)" and "valid_fmt (bh_fmt bh)"
    and "bh_chunkStreamID bh \<le> 319 \<or> bufLen \<le> 3"
    and pend: "pending s = basicHeader_bytes bh @ rest"
  shows "fst (decodeChunkBasicHeader rd bufLen s) = Ok bh"
    and "pending (snd (decodeChunkBasicHeader rd bufLen s)) = rest"
    and "final (snd (decodeChunkBasicHeader rd bufLen s)) = final s"
proof -
  obtain f c where bh: "bh = \<lparr>bh_fmt = f, bh_chunkStreamID = c\<rparr>" by (cases bh)
  define p where "p = push_bit 6 (f AND 3)"
  have f: "valid_fmt f" and c: "2 \<le> c" "c \<le> 65599" using assms(1,2) bh by (auto simp: valid_csid_def)
  define s1 where "s1 = snd (ReadAtLeast rd (Suc 0) (Suc 0) s)"
  have fmt: "drop_bit 6 ((p OR x) AND 0xc0) = f" "(p OR x) AND 0x3f = x" if "unat x < 64" for x
    using first_byte [OF f that] by (simp_all only: p_def)
  have read1: "fst (ReadAtLeast rd (Suc 0) (Suc 0) t) = Ok [b]"
      "pending (snd (ReadAtLeast rd (Suc 0) (Suc 0) t)) = r"
      "final (snd (ReadAtLeast rd (Suc 0) (Suc 0) t)) = final t" if "pending t = b # r" for t b r
    using ReadFull_reads [of 1 t] that by simp_all
  consider "c \<le> 63" | "64 \<le> c" "c \<le> 319" | "320 \<le> c" by linarith
  then have "fst (decodeChunkBasicHeader rd bufLen s) = Ok bh
     \<and> pending (snd (decodeChunkBasicHeader rd bufLen s)) = rest
     \<and> final (snd (decodeChunkBasicHeader rd bufLen s)) = final s"
  proof cases
    case 1
    define x :: byte where "x = word_of_int c"
    have x: "uint x = c" "unat x < 64"
      using 1 c by (simp_all add: x_def uint_word_of_int_byte unat_word_of_int_byte)
    have "pending s = (p OR x) # rest"
      using pend bh 1 by (simp add: basicHeader_bytes_def p_def x_def)
    from read1 [OF this] show ?thesis
      using fmt [OF x(2)] x c bh
      by (simp add: decodeChunkBasicHeader_def io_simps Let_def)
  next
    case 2
    define x :: byte where "x = word_of_int (c - 64)"
    have x: "uint x = c - 64"
      using 2 by (simp add: x_def uint_word_of_int_byte del: of_int_diff)
    have "pending s = p # x # rest"
      using pend bh 2 by (simp add: basicHeader_bytes_def p_def x_def)
    from read1 [OF this] have s1: "pending s1 = x # rest" "final s1 = final s"
      and r1: "fst (ReadAtLeast rd (Suc 0) (Suc 0) s) = Ok [p]"
      by (simp_all add: s1_def)
    from read1 [OF s1(1)] s1(2) r1 show ?thesis
      using fmt [of 0] x bh
      by (simp add: decodeChunkBasicHeader_def io_simps Let_def flip: s1_def)
  next
    case 3
    define lo :: byte where "lo = word_of_int ((c - 64) mod 256)"
    define hi :: byte where "hi = word_of_int ((c - 64) div 256)"
    have "uint lo = (c - 64) mod 256" "uint hi = (c - 64) div 256"
      using 3 c by (simp_all add: lo_def hi_def uint_word_of_int_byte)
    then have x: "uint hi * 256 + uint lo + 64 = c" by simp
    have "pending s = (p OR 1) # lo # hi # rest"
      using pend bh 3 by (simp add: basicHeader_bytes_def p_def lo_def hi_def)
    from read1 [OF this] have s1: "pending s1 = lo # hi # rest" "final s1 = final s"
      and r1: "fst (ReadAtLeast rd (Suc 0) (Suc 0) s) = Ok [p OR 1]"
      by (simp_all add: s1_def)
    have r2: "fst (ReadAtLeast rd 2 2 s1) = Ok [lo, hi]"
      "pending (snd (ReadAtLeast rd 2 2 s1)) = rest" "final (snd (ReadAtLeast rd 2 2 s1)) = final s"
      using ReadFull_reads [of 2 s1] s1 by simp_all
    have len: "(if bufLen < 3 then 3 else bufLen) - Suc 0 = 2"
      using assms(3) 3 bh by auto
    from r1 r2 x bh fmt [of 1] show ?thesis
      unfolding decodeChunkBasicHeader_def Let_def One_nat_def len
      by (simp add: io_simps flip: s1_def)
  qed
  then show "fst (decodeChunkBasicHeader rd bufLen s) = Ok bh"
    and "pending (snd (decodeChunkBasicHeader rd bufLen s)) = rest"
    and "final (snd (decodeChunkBasicHeader rd bufLen s)) = final s"
    by blast+
qed

end


text \<open>The three- and four-byte fields, as lists of their bytes.\<close>

lemma uint24_be_put: "unat v < 2 ^ 24 \<Longrightarrow> uint24_be (put_uint24_be v) = v"
  using uint32_be_24 [of v] by (simp add: uint24_be_def put_uint24_be_def put_uint32_be_def)

lemma length_put_uint24_be [simp]: "length (put_uint24_be v) = 3"
  by (simp add: put_uint24_be_def)

lemma uint24_field: "unat v < 2 ^ 24 \<Longrightarrow> uint24_be (take 3 (put_uint24_be v @ ys)) = v"
  by (simp add: uint24_be_put)

lemma min_24: "unat (min 0xffffff v :: uint32) < 16777216"
  by (simp add: min_def word_le_nat_alt)

lemma min_24_eq: "(min 0xffffff v = (0xffffff :: uint32)) = (v \<ge> 0xffffff)"
  by (auto simp: min_def)

lemma length_ext_bytes: "length (ext_bytes t) = (if t \<ge> 0xffffff then 4 else 0)"
  by (simp add: ext_bytes_def)

text \<open>What a reader of the encoded header gets, starting from the header \<open>mh0\<close>.\<close>

definition decoded_messageHeader :: "byte \<Rightarrow> chunkMessageHeader \<Rightarrow> chunkMessageHeader
    \<Rightarrow> chunkMessageHeader" where
  "decoded_messageHeader fm mh0 mh =
     (if fm = 0 then
        mh0\<lparr>mh_timestamp := mh_timestamp mh, mh_messageLength := mh_messageLength mh,
            mh_messageTypeID := mh_messageTypeID mh, mh_messageStreamID := mh_messageStreamID mh,
            mh_extendedTimestampMode :=
              (if mh_timestamp mh \<ge> 0xffffff then ExtendedTimestampUsed else ExtendedTimestampUnused)\<rparr>
      else if fm = 1 then
        mh0\<lparr>mh_timestampDelta := mh_timestampDelta mh, mh_messageLength := mh_messageLength mh,
            mh_messageTypeID := mh_messageTypeID mh,
            mh_extendedTimestampMode :=
              (if mh_timestampDelta mh \<ge> 0xffffff then ExtendedTimestampDeltaUsed else ExtendedTimestampUnused)\<rparr>
      else if fm = 2 then
        mh0\<lparr>mh_timestampDelta := mh_timestampDelta mh,
            mh_extendedTimestampMode :=
              (if mh_timestampDelta mh \<ge> 0xffffff then ExtendedTimestampDeltaUsed else ExtendedTimestampUnused)\<rparr>
      else mh0\<lparr>mh_extendedTimestampMode := ExtendedTimestampUnused\<rparr>)"

context io_reader
begin

text \<open>A fixed part of \<open>n\<close> bytes, then the four bytes of an extended timestamp if there is one.\<close>

lemma ReadFull_append:
  assumes "pending s = bs @ rest" and "length bs = n"
  shows "fst (ReadAtLeast rd n n s) = Ok bs" and "pending (snd (ReadAtLeast rd n n s)) = rest"
    and "final (snd (ReadAtLeast rd n n s)) = final s"
  using ReadFull_reads [of n s] assms by simp_all

lemma read_ext:
  assumes "pending s = ext_bytes t @ rest" and "t \<ge> 0xffffff"
  shows "fst (ReadAtLeast rd 4 4 s) = Ok (put_uint32_be t)"
    and "pending (snd (ReadAtLeast rd 4 4 s)) = rest"
    and "final (snd (ReadAtLeast rd 4 4 s)) = final s"
  using ReadFull_append [of s "put_uint32_be t" rest 4] assms by (simp_all add: ext_bytes_def)

lemma decodeChunkMessageHeader_encoded:
  fixes mh0 mh :: chunkMessageHeader and bufLen :: nat
  assumes fm: "valid_fmt fm" and len: "unat (mh_messageLength mh) < 2 ^ 24"
    and pend: "pending s = messageHeader_bytes fm mh @ rest"
    and mode: "fm = 3 \<Longrightarrow> mode = ExtendedTimestampUnused"
  defines "d \<equiv> decodeChunkMessageHeader rd fm bufLen mh0 mode s"
  shows "fst d = Ok (decoded_messageHeader fm mh0 mh) \<and> pending (snd d) = rest
    \<and> final (snd d) = final s"
proof -
  consider "fm = 0" | "fm = 1" | "fm = 2" | "fm = 3" using fm by (auto simp: valid_fmt_def)
  then show ?thesis
  proof cases
    case 1
    let ?t = "mh_timestamp mh"
    define hd where "hd = put_uint24_be (min 0xffffff ?t) @ put_uint24_be (mh_messageLength mh)
      @ [mh_messageTypeID mh] @ put_uint32_le (mh_messageStreamID mh)"
    define s1 where "s1 = snd (ReadAtLeast rd 11 11 s)"
    have "pending s = hd @ ext_bytes ?t @ rest"
      using pend 1 by (simp add: messageHeader_bytes_def hd_def)
    from ReadFull_append [OF this, of 11]
    have r: "fst (ReadAtLeast rd 11 11 s) = Ok hd" "pending s1 = ext_bytes ?t @ rest" "final s1 = final s"
      by (simp_all add: hd_def s1_def)
    have f: "uint24_be (take 3 hd) = min 0xffffff ?t"
      "uint24_be (take 3 (drop 3 hd)) = mh_messageLength mh" "hd ! 6 = mh_messageTypeID mh"
      "uint32_le (take 4 (drop 7 hd)) = mh_messageStreamID mh"
      using len by (simp_all add: hd_def uint24_be_put min_24 nth_append)
    show ?thesis
      using 1 r f read_ext [of s1 ?t rest]
      by (cases "?t \<ge> 0xffffff")
        (auto simp: d_def decodeChunkMessageHeader_def decoded_messageHeader_def io_simps Let_def
          ext_bytes_def min_24_eq min_def simp flip: s1_def)
  next
    case 2
    let ?t = "mh_timestampDelta mh"
    define hd where "hd = put_uint24_be (min 0xffffff ?t) @ put_uint24_be (mh_messageLength mh)
      @ [mh_messageTypeID mh]"
    define s1 where "s1 = snd (ReadAtLeast rd 7 7 s)"
    have "pending s = hd @ ext_bytes ?t @ rest"
      using pend 2 by (simp add: messageHeader_bytes_def hd_def)
    from ReadFull_append [OF this, of 7]
    have r: "fst (ReadAtLeast rd 7 7 s) = Ok hd" "pending s1 = ext_bytes ?t @ rest" "final s1 = final s"
      by (simp_all add: hd_def s1_def)
    have f: "uint24_be (take 3 hd) = min 0xffffff ?t"
      "uint24_be (take 3 (drop 3 hd)) = mh_messageLength mh" "hd ! 6 = mh_messageTypeID mh"
      using len by (simp_all add: hd_def uint24_be_put min_24 nth_append)
    show ?thesis
      using 2 r f read_ext [of s1 ?t rest]
      by (cases "?t \<ge> 0xffffff")
        (auto simp: d_def decodeChunkMessageHeader_def decoded_messageHeader_def io_simps Let_def
          ext_bytes_def min_24_eq min_def simp flip: s1_def)
  next
    case 3
    let ?t = "mh_timestampDelta mh"
    define hd where "hd = put_uint24_be (min 0xffffff ?t)"
    define s1 where "s1 = snd (ReadAtLeast rd 3 3 s)"
    have "pending s = hd @ ext_bytes ?t @ rest"
      using pend 3 by (simp add: messageHeader_bytes_def hd_def)
    from ReadFull_append [OF this, of 3]
    have r: "fst (ReadAtLeast rd 3 3 s) = Ok hd" "pending s1 = ext_bytes ?t @ rest" "final s1 = final s"
      by (simp_all add: hd_def s1_def)
    have f: "uint24_be (take 3 hd) = min 0xffffff ?t"
      by (simp add: hd_def uint24_be_put min_24)
    show ?thesis
      using 3 r f read_ext [of s1 ?t rest]
      by (cases "?t \<ge> 0xffffff")
        (auto simp: d_def decodeChunkMessageHeader_def decoded_messageHeader_def io_simps Let_def
          ext_bytes_def min_24_eq min_def simp flip: s1_def)
  next
    case 4
    then show ?thesis
      using pend mode
      by (simp add: d_def decodeChunkMessageHeader_def decoded_messageHeader_def messageHeader_bytes_def)
  qed
qed

end

end
