(* ===== verification/Control_State.thy ===== *)
theory Control_State
  imports Prelude
begin

text \<open>
  \<^verbatim>\<open>conn_state.go\<close>: the flow-control state of one direction of a connection (chunk size,
  acknowledgement window, bandwidth) and its configuration.
\<close>

section \<open>Configuration\<close>

abbreviation DefaultChunkSize :: uint32 where "DefaultChunkSize \<equiv> 128"
abbreviation MaxChunkSize :: uint32 where "MaxChunkSize \<equiv> 0xffffff"
abbreviation MaxInt32 :: int32 where "MaxInt32 \<equiv> 0x7fffffff"
abbreviation MaxUint32 :: int where "MaxUint32 \<equiv> 0xffffffff"

record StreamControlStateConfig =
  cfg_DefaultChunkSize :: uint32
  cfg_MaxChunkSize :: uint32
  cfg_MaxChunkStreams :: int
  cfg_DefaultAckWindowSize :: int32
  cfg_MaxAckWindowSize :: int32
  cfg_DefaultBandwidthWindowSize :: int32
  cfg_DefaultBandwidthLimitType :: byte
  cfg_MaxBandwidthWindowSize :: int32
  cfg_MaxMessageSize :: uint32
  cfg_MaxMessageStreams :: int

definition config_normalize :: "StreamControlStateConfig \<Rightarrow> StreamControlStateConfig" where
  "config_normalize cb = cb\<lparr>
     cfg_DefaultChunkSize := (if cfg_DefaultChunkSize cb = 0 then DefaultChunkSize else cfg_DefaultChunkSize cb),
     cfg_MaxChunkSize := (if cfg_MaxChunkSize cb = 0 then MaxChunkSize else cfg_MaxChunkSize cb),
     cfg_MaxChunkStreams := (if cfg_MaxChunkStreams cb = 0 then MaxUint32 else cfg_MaxChunkStreams cb),
     cfg_DefaultAckWindowSize := (if cfg_DefaultAckWindowSize cb = 0 then MaxInt32 else cfg_DefaultAckWindowSize cb),
     cfg_MaxAckWindowSize := (if cfg_MaxAckWindowSize cb = 0 then MaxInt32 else cfg_MaxAckWindowSize cb),
     cfg_DefaultBandwidthWindowSize :=
       (if cfg_DefaultBandwidthWindowSize cb = 0 then MaxInt32 else cfg_DefaultBandwidthWindowSize cb),
     cfg_MaxBandwidthWindowSize :=
       (if cfg_MaxBandwidthWindowSize cb = 0 then MaxInt32 else cfg_MaxBandwidthWindowSize cb),
     cfg_MaxMessageStreams := (if cfg_MaxMessageStreams cb = 0 then MaxUint32 else cfg_MaxMessageStreams cb),
     cfg_MaxMessageSize := (if cfg_MaxMessageSize cb = 0 then MaxChunkSize else cfg_MaxMessageSize cb)\<rparr>"

definition zero_config :: StreamControlStateConfig where
  "zero_config = \<lparr>cfg_DefaultChunkSize = 0, cfg_MaxChunkSize = 0, cfg_MaxChunkStreams = 0,
     cfg_DefaultAckWindowSize = 0, cfg_MaxAckWindowSize = 0, cfg_DefaultBandwidthWindowSize = 0,
     cfg_DefaultBandwidthLimitType = 0, cfg_MaxBandwidthWindowSize = 0, cfg_MaxMessageSize = 0,
     cfg_MaxMessageStreams = 0\<rparr>"

definition defaultStreamControlStateConfig :: StreamControlStateConfig where
  "defaultStreamControlStateConfig = config_normalize zero_config"

section \<open>State and operations\<close>

record StreamControlState =
  chunkSize :: uint32
  ackWindowSize :: int32
  bandwidthWindowSize :: int32
  bandwidthLimitType :: byte
  scs_config :: StreamControlStateConfig

text \<open>\<^verbatim>\<open>NewStreamControlState(config)\<close>; \<^term>\<open>None\<close> is a nil pointer.\<close>

definition NewStreamControlState :: "StreamControlStateConfig option \<Rightarrow> StreamControlState" where
  "NewStreamControlState config =
     (let c = (case config of None \<Rightarrow> defaultStreamControlStateConfig | Some c \<Rightarrow> c) in
      \<lparr>chunkSize = cfg_DefaultChunkSize c, ackWindowSize = cfg_DefaultAckWindowSize c,
       bandwidthWindowSize = cfg_DefaultBandwidthWindowSize c,
       bandwidthLimitType = cfg_DefaultBandwidthLimitType c, scs_config = c\<rparr>)"

definition SetChunkSize :: "uint32 \<Rightarrow> (StreamControlState, unit) io" where
  "SetChunkSize sz0 s =
     (let sz = (if sz0 > MaxChunkSize then MaxChunkSize else sz0) in
      if sz > cfg_MaxChunkSize (scs_config s) then
        (Err (Errorf ''Exceeded configured max chunk size: Limit = %d, Value = %d''
               [uint (cfg_MaxChunkSize (scs_config s)), uint sz]), s)
      else (Ok (), s\<lparr>chunkSize := sz\<rparr>))"

definition SetAckWindowSize :: "int32 \<Rightarrow> (StreamControlState, unit) io" where
  "SetAckWindowSize sz0 s =
     (if cfg_MaxAckWindowSize (scs_config s) <s sz0 then
        (Err (Errorf ''Exceeded configured max ack window size: Limit = %d, Value = %d''
               [sint (cfg_MaxAckWindowSize (scs_config s)), sint sz0]), s)
      else (Ok (), s\<lparr>ackWindowSize := sz0\<rparr>))"

section \<open>Invariants\<close>

text \<open>
  The chunk size in use is positive (a chunk of size 0 would never finish a message) and within
  both the protocol's and the configured bound; the window is within the configured one.
\<close>

definition wf_control :: "StreamControlState \<Rightarrow> bool" where
  "wf_control s \<longleftrightarrow> 0 < chunkSize s \<and> chunkSize s \<le> MaxChunkSize
     \<and> chunkSize s \<le> cfg_MaxChunkSize (scs_config s)
     \<and> sint (ackWindowSize s) \<le> sint (cfg_MaxAckWindowSize (scs_config s))"

text \<open>A configuration whose defaults respect its own limits.\<close>

definition wf_config :: "StreamControlStateConfig \<Rightarrow> bool" where
  "wf_config c \<longleftrightarrow> 0 < cfg_DefaultChunkSize c \<and> cfg_DefaultChunkSize c \<le> MaxChunkSize
     \<and> cfg_DefaultChunkSize c \<le> cfg_MaxChunkSize c
     \<and> sint (cfg_DefaultAckWindowSize c) \<le> sint (cfg_MaxAckWindowSize c)"

lemma config_normalize_idem [simp]: "config_normalize (config_normalize c) = config_normalize c"
  by (simp add: config_normalize_def)

lemma wf_default_config [simp]: "wf_config defaultStreamControlStateConfig"
  by (simp add: wf_config_def defaultStreamControlStateConfig_def config_normalize_def zero_config_def)

lemma wf_New:
  "wf_config (case config of None \<Rightarrow> defaultStreamControlStateConfig | Some c \<Rightarrow> c)
    \<Longrightarrow> wf_control (NewStreamControlState config)"
  by (auto simp: wf_config_def wf_control_def NewStreamControlState_def Let_def)

lemma SetChunkSize_wf:
  "wf_control s \<Longrightarrow> 0 < sz0 \<Longrightarrow> wf_control (snd (SetChunkSize sz0 s))"
  by (auto simp: wf_control_def SetChunkSize_def Let_def)

lemma SetChunkSize_config [simp]: "scs_config (snd (SetChunkSize sz0 s)) = scs_config s"
  by (simp add: SetChunkSize_def Let_def)

lemma SetAckWindowSize_wf: "wf_control s \<Longrightarrow> wf_control (snd (SetAckWindowSize sz0 s))"
  by (auto simp: wf_control_def SetAckWindowSize_def word_sless_alt)

end
