(* ===== verification/Chunk_Stream.thy ===== *)
theory Chunk_Stream
  imports Chunk_Header Control_State "HOL-Library.Finite_Map" "HOL-Library.Signed_Division"
begin

text \<open>
  The state of one chunk stream in each direction (\<^verbatim>\<open>chunk_stream_reader.go\<close>,
  \<^verbatim>\<open>chunk_stream_writer.go\<close>) and the byte-counting reader between the chunk layer and the
  connection (\<^verbatim>\<open>chunk_streamer_reader.go\<close>).
\<close>

section \<open>Chunk streams\<close>

text \<open>\<open>buf\<close> is a \<^verbatim>\<open>bytes.Buffer\<close>: the bytes written to it and not read yet.\<close>

record chunkStreamReader =
  basicHeader :: chunkBasicHeader
  messageHeader :: chunkMessageHeader
  timestamp :: uint32
  timestampDelta :: uint32
  messageLength :: uint32
  messageTypeID :: byte
  messageStreamID :: uint32
  extendedTimestampMode :: ExtendedTimestampMode
  buf :: "byte list"
  completed :: bool

text \<open>Go's zero value, \<^verbatim>\<open>&ChunkStreamReader{}\<close>.\<close>

definition zero_reader :: chunkStreamReader where
  "zero_reader = \<lparr>basicHeader = zero_basicHeader, messageHeader = zero_messageHeader,
     timestamp = 0, timestampDelta = 0, messageLength = 0, messageTypeID = 0, messageStreamID = 0,
     extendedTimestampMode = ExtendedTimestampUnused, buf = [], completed = False\<rparr>"

text \<open>
  The writer embeds a \<^verbatim>\<open>ChunkStreamReader\<close>, so its record extends the reader's. Its channels
  are only ever closed, never sent on: \<open>doneClosed\<close> and \<open>closeClosed\<close> say whether \<^verbatim>\<open>doneCh\<close> and
  \<^verbatim>\<open>closeCh\<close> are.
\<close>

record chunkStreamWriter = chunkStreamReader +
  doneClosed :: bool
  closeClosed :: bool
  lastErr :: "rtmp_error option"
  newChunk :: bool

text \<open>\<^verbatim>\<open>ChunkStreamReader.Read\<close> and \<^verbatim>\<open>ChunkStreamWriter.Write\<close>: those of the buffer.\<close>

definition ChunkStreamReader_Read :: "('a chunkStreamReader_scheme) reader" where
  "ChunkStreamReader_Read n r = (fst (buf_Read n (buf r)), r\<lparr>buf := snd (buf_Read n (buf r))\<rparr>)"

definition ChunkStreamWriter_Write :: "chunkStreamWriter writer" where
  "ChunkStreamWriter_Write bs w = (fst (buf_Write bs (buf w)), w\<lparr>buf := snd (buf_Write bs (buf w))\<rparr>)"

interpretation csbuf: io_reader "ChunkStreamReader_Read :: ('a chunkStreamReader_scheme) reader" buf "\<lambda>_. EOF"
proof
  fix s :: "'a chunkStreamReader_scheme" and n :: nat
  assume "buf s \<noteq> []" and "0 < n"
  then show "\<exists>k s'. 0 < k \<and> k \<le> n \<and> k \<le> length (buf s)
      \<and> ChunkStreamReader_Read n s = ((take k (buf s), None), s') \<and> buf s' = drop k (buf s) \<and> EOF = EOF"
    by (intro exI [of _ "min n (length (buf s))"])
      (auto simp: ChunkStreamReader_Read_def buf_Read_def min_def)
qed (simp add: ChunkStreamReader_Read_def buf_Read_def)

interpretation cswbuf: io_writer ChunkStreamWriter_Write buf "\<lambda>_. True"
  by unfold_locales (simp_all add: ChunkStreamWriter_Write_def buf_Write_def)

section \<open>The counting reader\<close>

record chunkStreamerReader =
  csr_reader :: netConn
  totalReadBytes :: uint32
  fragmentReadBytes :: uint32

definition csr_Read :: "chunkStreamerReader reader" where
  "csr_Read n r =
     (case net_Read n (csr_reader r) of
        ((bs, e), c) \<Rightarrow>
          ((bs, e), r\<lparr>csr_reader := c,
                     totalReadBytes := totalReadBytes r + of_nat (length bs),
                     fragmentReadBytes := fragmentReadBytes r + of_nat (length bs)\<rparr>))"

definition ResetFragmentReadBytes :: "chunkStreamerReader \<Rightarrow> chunkStreamerReader" where
  "ResetFragmentReadBytes r = r\<lparr>fragmentReadBytes := 0\<rparr>"

definition csr_pending :: "chunkStreamerReader \<Rightarrow> byte list" where
  "csr_pending r = net_pending (csr_reader r)"

definition csr_end :: "chunkStreamerReader \<Rightarrow> rtmp_error" where
  "csr_end r = net_end (csr_reader r)"

text \<open>Counting does not disturb the contract of the reader below.\<close>

interpretation csr: io_reader csr_Read csr_pending csr_end
proof
  fix s :: chunkStreamerReader and n :: nat
  assume "csr_pending s = []" and "0 < n"
  then show "csr_Read n s = (([], Some (csr_end s)), s)"
    by (simp add: csr_Read_def csr_pending_def csr_end_def net.read_end)
next
  fix s :: chunkStreamerReader and n :: nat
  assume "csr_pending s \<noteq> []" and "0 < n"
  then obtain k c where "0 < k" "k \<le> n" "k \<le> length (csr_pending s)"
    "net_Read n (csr_reader s) = ((take k (csr_pending s), None), c)"
    "net_pending c = drop k (csr_pending s)" "net_end c = csr_end s"
    using net.read_some [of "csr_reader s" n] by (auto simp: csr_pending_def csr_end_def)
  then show "\<exists>k s'. 0 < k \<and> k \<le> n \<and> k \<le> length (csr_pending s)
        \<and> csr_Read n s = ((take k (csr_pending s), None), s')
        \<and> csr_pending s' = drop k (csr_pending s) \<and> csr_end s' = csr_end s"
    by (intro exI [of _ k])
      (simp add: csr_Read_def csr_pending_def [of "_\<lparr>csr_reader := _, totalReadBytes := _,
         fragmentReadBytes := _\<rparr>"] csr_end_def [of "_\<lparr>csr_reader := _, totalReadBytes := _,
         fragmentReadBytes := _\<rparr>"])
qed

text \<open>
  The counter and the bytes still to come add up: the total is exactly what was consumed,
  modulo \<open>2 ^ 32\<close>.
\<close>

definition byte_account :: "chunkStreamerReader \<Rightarrow> uint32" where
  "byte_account r = totalReadBytes r + of_nat (length (csr_pending r))"

lemma csr_Read_account: "byte_account (snd (csr_Read n r)) = byte_account r"
proof (cases "n = 0 \<or> csr_pending r = []")
  case True
  then show ?thesis
  proof
    assume "n = 0"
    have zero: "seg_read 0 ss = Some (bs, ss') \<Longrightarrow> bs = [] \<and> concat ss' = concat ss" for ss bs ss'
      by (induction "0::nat" ss rule: seg_read.induct) (auto split: if_splits)
    then show ?thesis
      using \<open>n = 0\<close>
      by (auto simp: byte_account_def csr_Read_def net_Read_def csr_pending_def net_pending_def
          split: option.splits dest!: zero)
  next
    assume "csr_pending r = []"
    then show ?thesis
      using seg_read_None [of n "segs (csr_reader r)"]
      by (auto simp: byte_account_def csr_Read_def net_Read_def csr_pending_def net_pending_def
          split: option.splits)
  qed
next
  case False
  then obtain k c where "k \<le> length (csr_pending r)"
    "net_Read n (csr_reader r) = ((take k (csr_pending r), None), c)"
    "net_pending c = drop k (csr_pending r)"
    using net.read_some [of "csr_reader r" n] by (auto simp: csr_pending_def)
  then show ?thesis
    by (simp add: byte_account_def csr_Read_def csr_pending_def of_nat_diff min_absorb2)
qed

lemma ReadAtLeast_account [simp]:
  "byte_account (snd (ReadAtLeast csr_Read len mn r)) = byte_account r"
  by (rule ReadAtLeast_pres) (rule csr_Read_account)

lemma copy_limited_account [simp]:
  "byte_account (snd (copy_limited csr_Read n r)) = byte_account r"
  by (rule copy_limited_pres) (rule csr_Read_account)

end
