(* ===== verification/User_Control.thy ===== *)
theory User_Control
  imports Go_IO
begin

text \<open>
  \<^verbatim>\<open>message/user_control_event.go\<close>, \<^verbatim>\<open>user_control_event_encoder.go\<close> and
  \<^verbatim>\<open>user_control_event_decoder.go\<close>: the events inside a user control message.
\<close>

section \<open>Events\<close>

text \<open>
  \<^verbatim>\<open>UserCtrlEvent\<close> is \<^verbatim>\<open>interface{}\<close>: the last constructor stands for a value of any other type,
  nil included, which the encoder refuses.
\<close>

datatype UserCtrlEvent =
    UserCtrlEventStreamBegin (evt_StreamID: uint32)
  | UserCtrlEventStreamEOF uint32
  | UserCtrlEventStreamDry uint32
  | UserCtrlEventSetBufferLength uint32 uint32
  | UserCtrlEventStreamIsRecorded uint32
  | UserCtrlEventPingRequest uint32
  | UserCtrlEventPingResponse uint32
  | UserCtrlEventOther

section \<open>Encoder\<close>

definition encodeStreamBegin :: "'w writer \<Rightarrow> uint32 \<Rightarrow> ('w, unit) io" where
  "encodeStreamBegin wr sid = wr (put_uint16_be 0 @ put_uint32_be sid)"

definition encodeStreamEOF :: "'w writer \<Rightarrow> uint32 \<Rightarrow> ('w, unit) io" where
  "encodeStreamEOF wr sid = wr (put_uint16_be 1 @ put_uint32_be sid)"

definition encodeStreamDry :: "'w writer \<Rightarrow> uint32 \<Rightarrow> ('w, unit) io" where
  "encodeStreamDry wr sid = wr (put_uint16_be 2 @ put_uint32_be sid)"

definition encodeSetBufferLength :: "'w writer \<Rightarrow> uint32 \<Rightarrow> uint32 \<Rightarrow> ('w, unit) io" where
  "encodeSetBufferLength wr sid ms = wr (put_uint16_be 3 @ put_uint32_be sid @ put_uint32_be ms)"

definition encodeStreamIsRecorded :: "'w writer \<Rightarrow> uint32 \<Rightarrow> ('w, unit) io" where
  "encodeStreamIsRecorded wr sid = wr (put_uint16_be 4 @ put_uint32_be sid)"

definition encodePingRequest :: "'w writer \<Rightarrow> uint32 \<Rightarrow> ('w, unit) io" where
  "encodePingRequest wr ts = wr (put_uint16_be 6 @ put_uint32_be ts)"

definition encodePingResponse :: "'w writer \<Rightarrow> uint32 \<Rightarrow> ('w, unit) io" where
  "encodePingResponse wr ts = wr (put_uint16_be 7 @ put_uint32_be ts)"

fun userCtrl_Encode :: "'w writer \<Rightarrow> UserCtrlEvent \<Rightarrow> ('w, unit) io" where
  "userCtrl_Encode wr (UserCtrlEventStreamBegin sid) = encodeStreamBegin wr sid"
| "userCtrl_Encode wr (UserCtrlEventStreamEOF sid) = encodeStreamEOF wr sid"
| "userCtrl_Encode wr (UserCtrlEventStreamDry sid) = encodeStreamDry wr sid"
| "userCtrl_Encode wr (UserCtrlEventSetBufferLength sid ms) = encodeSetBufferLength wr sid ms"
| "userCtrl_Encode wr (UserCtrlEventStreamIsRecorded sid) = encodeStreamIsRecorded wr sid"
| "userCtrl_Encode wr (UserCtrlEventPingRequest ts) = encodePingRequest wr ts"
| "userCtrl_Encode wr (UserCtrlEventPingResponse ts) = encodePingResponse wr ts"
| "userCtrl_Encode wr UserCtrlEventOther = fail_io (Errorf ''Unsupported type for UserCtrl: Type = %T'' [])"

lemmas encode_event_defs = encodeStreamBegin_def
  encodeStreamEOF_def
  encodeStreamDry_def
  encodeSetBufferLength_def
  encodeStreamIsRecorded_def
  encodePingRequest_def
  encodePingResponse_def

section \<open>Decoder\<close>

definition decodeStreamBegin :: "'s reader \<Rightarrow> ('s, UserCtrlEvent) io" where
  "decodeStreamBegin rd =
     bind_io (ReadAtLeast rd 4 4) (\<lambda>buf. return_io (UserCtrlEventStreamBegin (uint32_be buf)))"

definition decodeStreamEOF :: "'s reader \<Rightarrow> ('s, UserCtrlEvent) io" where
  "decodeStreamEOF rd =
     bind_io (ReadAtLeast rd 4 4) (\<lambda>buf. return_io (UserCtrlEventStreamEOF (uint32_be buf)))"

definition decodeStreamDry :: "'s reader \<Rightarrow> ('s, UserCtrlEvent) io" where
  "decodeStreamDry rd =
     bind_io (ReadAtLeast rd 4 4) (\<lambda>buf. return_io (UserCtrlEventStreamDry (uint32_be buf)))"

definition decodeSetBufferLength :: "'s reader \<Rightarrow> ('s, UserCtrlEvent) io" where
  "decodeSetBufferLength rd =
     bind_io (ReadAtLeast rd 8 8) (\<lambda>buf.
       return_io (UserCtrlEventSetBufferLength (uint32_be (take 4 buf)) (uint32_be (take 4 (drop 4 buf)))))"

definition decodeStreamIsRecorded :: "'s reader \<Rightarrow> ('s, UserCtrlEvent) io" where
  "decodeStreamIsRecorded rd =
     bind_io (ReadAtLeast rd 4 4) (\<lambda>buf. return_io (UserCtrlEventStreamIsRecorded (uint32_be buf)))"

definition decodePingRequest :: "'s reader \<Rightarrow> ('s, UserCtrlEvent) io" where
  "decodePingRequest rd =
     bind_io (ReadAtLeast rd 4 4) (\<lambda>buf. return_io (UserCtrlEventPingRequest (uint32_be buf)))"

definition decodePingResponse :: "'s reader \<Rightarrow> ('s, UserCtrlEvent) io" where
  "decodePingResponse rd =
     bind_io (ReadAtLeast rd 4 4) (\<lambda>buf. return_io (UserCtrlEventPingResponse (uint32_be buf)))"

definition userCtrl_Decode :: "'s reader \<Rightarrow> ('s, UserCtrlEvent) io" where
  "userCtrl_Decode rd =
     bind_io (ReadAtLeast rd 2 2) (\<lambda>buf.
       let eventType = uint16_be buf in
       if eventType = 0 then decodeStreamBegin rd
       else if eventType = 1 then decodeStreamEOF rd
       else if eventType = 2 then decodeStreamDry rd
       else if eventType = 3 then decodeSetBufferLength rd
       else if eventType = 4 then decodeStreamIsRecorded rd
       else if eventType = 6 then decodePingRequest rd
       else if eventType = 7 then decodePingResponse rd
       else fail_io (Errorf ''Unsupported type for UserCtrl: TypeID = %d'' [uint eventType]))"

lemmas decode_event_defs = decodeStreamBegin_def
  decodeStreamEOF_def
  decodeStreamDry_def
  decodeSetBufferLength_def
  decodeStreamIsRecorded_def
  decodePingRequest_def
  decodePingResponse_def

section \<open>The codec is a round trip\<close>

fun userCtrl_bytes :: "UserCtrlEvent \<Rightarrow> byte list" where
  "userCtrl_bytes (UserCtrlEventStreamBegin sid) = put_uint16_be 0 @ put_uint32_be sid"
| "userCtrl_bytes (UserCtrlEventStreamEOF sid) = put_uint16_be 1 @ put_uint32_be sid"
| "userCtrl_bytes (UserCtrlEventStreamDry sid) = put_uint16_be 2 @ put_uint32_be sid"
| "userCtrl_bytes (UserCtrlEventSetBufferLength sid ms) =
     put_uint16_be 3 @ put_uint32_be sid @ put_uint32_be ms"
| "userCtrl_bytes (UserCtrlEventStreamIsRecorded sid) = put_uint16_be 4 @ put_uint32_be sid"
| "userCtrl_bytes (UserCtrlEventPingRequest ts) = put_uint16_be 6 @ put_uint32_be ts"
| "userCtrl_bytes (UserCtrlEventPingResponse ts) = put_uint16_be 7 @ put_uint32_be ts"
| "userCtrl_bytes UserCtrlEventOther = []"

lemma userCtrl_Encode_writes: "e \<noteq> UserCtrlEventOther \<Longrightarrow> userCtrl_Encode wr e = wr (userCtrl_bytes e)"
  by (cases e) (simp_all add: encode_event_defs)

context io_reader
begin

lemma userCtrl_Decode_encoded:
  assumes "e \<noteq> UserCtrlEventOther" and "pending s = userCtrl_bytes e @ rest"
  shows "fst (userCtrl_Decode rd s) = Ok e" and "pending (snd (userCtrl_Decode rd s)) = rest"
proof -
  define s1 where "s1 = snd (ReadAtLeast rd 2 2 s)"
  have tag: "fst (ReadAtLeast rd 2 2 s) = Ok (put_uint16_be t)" "pending s1 = bs @ rest"
    if "userCtrl_bytes e = put_uint16_be t @ bs" for t bs
    using ReadFull_reads [of 2 s] assms that by (simp_all add: s1_def)
  have one: "fst (ReadAtLeast rd 4 4 s1) = Ok (put_uint32_be v)"
    "pending (snd (ReadAtLeast rd 4 4 s1)) = rest" if "pending s1 = put_uint32_be v @ rest" for v
    using ReadFull_reads [of 4 s1] that by simp_all
  have two: "fst (ReadAtLeast rd 8 8 s1) = Ok (put_uint32_be v @ put_uint32_be w)"
    "pending (snd (ReadAtLeast rd 8 8 s1)) = rest"
    if "pending s1 = put_uint32_be v @ put_uint32_be w @ rest" for v w
    using ReadFull_reads [of 8 s1] that by simp_all
  have "fst (userCtrl_Decode rd s) = Ok e \<and> pending (snd (userCtrl_Decode rd s)) = rest"
    using assms(1) tag
    by (cases e)
      (force simp: userCtrl_Decode_def decode_event_defs io_simps Let_def one two simp flip: s1_def)+
  then show "fst (userCtrl_Decode rd s) = Ok e" and "pending (snd (userCtrl_Decode rd s)) = rest"
    by blast+
qed

end

end
