(* ===== verification/Amf.thy ===== *)
theory Amf
  imports Prelude
begin

text \<open>
  The boundary to the AMF0 codec, package \<^verbatim>\<open>github.com/yutopp/go-amf0\<close>, which is not part of
  the repository. Its decoder and encoder are parameters, one function for each static type the
  program decodes into; the rest of \<^verbatim>\<open>message/amf_convertible.go\<close> is modelled here.
\<close>

section \<open>The codec as a parameter\<close>

text \<open>
  \<open>amf_encode v\<close>: the bytes \<^verbatim>\<open>Encode(v)\<close> writes, or its error. \<open>amf_decode_\<dots>\<close>: \<^verbatim>\<open>Decode(&v)\<close> for
  \<open>v\<close> of that static type, on a \<^verbatim>\<open>bytes.Buffer\<close>; it leaves the buffer after the value's last
  byte, on which the program relies when it goes on reading the same buffer.
\<close>

record amf0 =
  amf_encode :: "goValue \<Rightarrow> byte list result"
  amf_decode_string :: "(byte list, string) io"
  amf_decode_int64 :: "(byte list, int64) io"
  amf_decode_uint32 :: "(byte list, uint32) io"
  amf_decode_value :: "(byte list, goValue) io"
  amf_decode_object :: "(byte list, (string \<times> goValue) list) io"

section \<open>\<^verbatim>\<open>NewAMFDecoder\<close> and \<^verbatim>\<open>NewAMFEncoder\<close>\<close>

text \<open>\<^verbatim>\<open>type EncodingType uint8\<close>: any byte, of which two have a name.\<close>

type_synonym EncodingType = byte

abbreviation EncodingTypeAMF0 :: EncodingType where "EncodingTypeAMF0 \<equiv> 0"
abbreviation EncodingTypeAMF3 :: EncodingType where "EncodingTypeAMF3 \<equiv> 3"

text \<open>
  Both panic unless the encoding is AMF0; with AMF0 the rest of the function goes on with the
  codec \<open>amf\<close>.
\<close>

definition NewAMFDecoder :: "EncodingType \<Rightarrow> ('s, unit) io" where
  "NewAMFDecoder encTy =
     (if encTy = EncodingTypeAMF3 then panic_io ''Unsupported encoding: AMF3''
      else if encTy = EncodingTypeAMF0 then return_io ()
      else panic_io ''Unreachable'')"

definition NewAMFEncoder :: "EncodingType \<Rightarrow> ('s, unit) io" where
  "NewAMFEncoder encTy =
     (if encTy = EncodingTypeAMF3 then panic_io ''Unsupported encoding: AMF3''
      else if encTy = EncodingTypeAMF0 then return_io ()
      else panic_io ''Unreachable'')"

text \<open>\<^verbatim>\<open>e.Encode(v)\<close> on an encoder that writes to a \<^verbatim>\<open>bytes.Buffer\<close>.\<close>

definition amf_Encode :: "amf0 \<Rightarrow> goValue \<Rightarrow> (byte list, unit) io" where
  "amf_Encode amf v b =
     (case amf_encode amf v of
        Ok bs \<Rightarrow> (Ok (), b @ bs)
      | Err e \<Rightarrow> (Err e, b)
      | Panic p \<Rightarrow> (Panic p, b))"

lemma amf_Encode_Ok [simp]: "amf_encode amf v = Ok bs \<Longrightarrow> amf_Encode amf v b = (Ok (), b @ bs)"
  by (simp add: amf_Encode_def)

lemma amf_Encode_OkD:
  "amf_Encode amf v b = (Ok u, b') \<Longrightarrow> \<exists>bs. amf_encode amf v = Ok bs \<and> b' = b @ bs"
  by (auto simp: amf_Encode_def split: result.splits)

end
