(* ===== verification/Message.thy ===== *)
theory Message
  imports User_Control Amf
begin

text \<open>
  Package \<^verbatim>\<open>message\<close>: the RTMP messages (\<^verbatim>\<open>message.go\<close>), their encoder (\<^verbatim>\<open>encoder.go\<close>) and
  decoder (\<^verbatim>\<open>decoder.go\<close>). In the program the encoder writes to a \<^verbatim>\<open>ChunkStreamWriter\<close> and the
  decoder reads from a \<^verbatim>\<open>ChunkStreamReader\<close>; both are \<^verbatim>\<open>bytes.Buffer\<close>s, so here the writer and
  the reader are the buffer's bytes.
\<close>

section \<open>Type IDs and messages\<close>

type_synonym TypeID = byte

abbreviation TypeIDSetChunkSize :: TypeID where "TypeIDSetChunkSize \<equiv> 1"
abbreviation TypeIDAbortMessage :: TypeID where "TypeIDAbortMessage \<equiv> 2"
abbreviation TypeIDAck :: TypeID where "TypeIDAck \<equiv> 3"
abbreviation TypeIDUserCtrl :: TypeID where "TypeIDUserCtrl \<equiv> 4"
abbreviation TypeIDWinAckSize :: TypeID where "TypeIDWinAckSize \<equiv> 5"
abbreviation TypeIDSetPeerBandwidth :: TypeID where "TypeIDSetPeerBandwidth \<equiv> 6"
abbreviation TypeIDAudioMessage :: TypeID where "TypeIDAudioMessage \<equiv> 8"
abbreviation TypeIDVideoMessage :: TypeID where "TypeIDVideoMessage \<equiv> 9"
abbreviation TypeIDDataMessageAMF3 :: TypeID where "TypeIDDataMessageAMF3 \<equiv> 15"
abbreviation TypeIDSharedObjectMessageAMF3 :: TypeID where "TypeIDSharedObjectMessageAMF3 \<equiv> 16"
abbreviation TypeIDCommandMessageAMF3 :: TypeID where "TypeIDCommandMessageAMF3 \<equiv> 17"
abbreviation TypeIDDataMessageAMF0 :: TypeID where "TypeIDDataMessageAMF0 \<equiv> 18"
abbreviation TypeIDSharedObjectMessageAMF0 :: TypeID where "TypeIDSharedObjectMessageAMF0 \<equiv> 19"
abbreviation TypeIDCommandMessageAMF0 :: TypeID where "TypeIDCommandMessageAMF0 \<equiv> 20"
abbreviation TypeIDAggregateMessage :: TypeID where "TypeIDAggregateMessage \<equiv> 22"

text \<open>
  A payload or body is an \<^verbatim>\<open>io.Reader\<close>; it is modelled by the bytes it will deliver. A decoded
  message shares the decoder's buffer, whose remaining bytes are that payload. The limit type of
  \<^verbatim>\<open>SetPeerBandwidth\<close> is any byte, as in the code.
\<close>

datatype message =
    MsgSetChunkSize uint32
  | MsgAbortMessage uint32
  | MsgAck uint32
  | MsgUserCtrl UserCtrlEvent
  | MsgWinAckSize int32
  | MsgSetPeerBandwidth int32 byte
  | MsgAudioMessage "byte list"
  | MsgVideoMessage "byte list"
  | MsgDataMessage string EncodingType "byte list"
  | MsgSharedObjectMessageAMF3
  | MsgSharedObjectMessageAMF0
  | MsgCommandMessage string int64 EncodingType "byte list"
  | MsgAggregateMessage

fun message_TypeID :: "message \<Rightarrow> TypeID result" where
  "message_TypeID (MsgSetChunkSize _) = Ok TypeIDSetChunkSize"
| "message_TypeID (MsgAbortMessage _) = Ok TypeIDAbortMessage"
| "message_TypeID (MsgAck _) = Ok TypeIDAck"
| "message_TypeID (MsgUserCtrl _) = Ok TypeIDUserCtrl"
| "message_TypeID (MsgWinAckSize _) = Ok TypeIDWinAckSize"
| "message_TypeID (MsgSetPeerBandwidth _ _) = Ok TypeIDSetPeerBandwidth"
| "message_TypeID (MsgAudioMessage _) = Ok TypeIDAudioMessage"
| "message_TypeID (MsgVideoMessage _) = Ok TypeIDVideoMessage"
| "message_TypeID (MsgDataMessage _ enc _) =
     (if enc = EncodingTypeAMF3 then Ok TypeIDDataMessageAMF3
      else if enc = EncodingTypeAMF0 then Ok TypeIDDataMessageAMF0
      else Panic ''Unreachable'')"
| "message_TypeID MsgSharedObjectMessageAMF3 = Ok TypeIDSharedObjectMessageAMF3"
| "message_TypeID MsgSharedObjectMessageAMF0 = Ok TypeIDSharedObjectMessageAMF0"
| "message_TypeID (MsgCommandMessage _ _ enc _) =
     (if enc = EncodingTypeAMF3 then Ok TypeIDCommandMessageAMF3
      else if enc = EncodingTypeAMF0 then Ok TypeIDCommandMessageAMF0
      else Panic ''Unreachable'')"
| "message_TypeID MsgAggregateMessage = Ok TypeIDAggregateMessage"

section \<open>Encoder\<close>

type_synonym encoder = "(byte list, unit) io"

definition encodeSetChunkSize :: "uint32 \<Rightarrow> encoder" where
  "encodeSetChunkSize sz =
     (if sz < 1 \<or> sz > 0x7fffffff then
        fail_io (Errorf ''Invalid format: chunk size is out of range [1, 0x80000000)'' [])
      else buf_Write (put_uint32_be (sz AND 0x7fffffff)))"

definition encodeAbortMessage :: "uint32 \<Rightarrow> encoder" where
  "encodeAbortMessage chunkStreamID = buf_Write (put_uint32_be chunkStreamID)"

definition encodeAck :: "uint32 \<Rightarrow> encoder" where
  "encodeAck sequenceNumber = buf_Write (put_uint32_be sequenceNumber)"

definition encodeUserCtrl :: "UserCtrlEvent \<Rightarrow> encoder" where
  "encodeUserCtrl event = userCtrl_Encode buf_Write event"

definition encodeWinAckSize :: "int32 \<Rightarrow> encoder" where
  "encodeWinAckSize sz = buf_Write (put_uint32_be sz)"

definition encodeSetPeerBandwidth :: "int32 \<Rightarrow> byte \<Rightarrow> encoder" where
  "encodeSetPeerBandwidth sz limit = buf_Write (put_uint32_be sz @ [limit])"

text \<open>\<^verbatim>\<open>io.Copy(enc.w, m.Payload)\<close>: all the bytes of the payload.\<close>

definition encodeAudioMessage :: "byte list \<Rightarrow> encoder" where
  "encodeAudioMessage payload = buf_Write payload"

definition encodeVideoMessage :: "byte list \<Rightarrow> encoder" where
  "encodeVideoMessage payload = buf_Write payload"

definition encodeSharedObjectMessageAMF3 :: encoder where
  "encodeSharedObjectMessageAMF3 = fail_io (Errorf ''Not implemented: SharedObjectMessageAMF3'' [])"

definition encodeDataMessage :: "amf0 \<Rightarrow> string \<Rightarrow> EncodingType \<Rightarrow> byte list \<Rightarrow> encoder" where
  "encodeDataMessage amf name enc body =
     bind_io (NewAMFEncoder enc) (\<lambda>_.
     bind_io (amf_Encode amf (GoString name)) (\<lambda>_.
     buf_Write body))"

definition encodeSharedObjectMessageAMF0 :: encoder where
  "encodeSharedObjectMessageAMF0 = fail_io (Errorf ''Not implemented: SharedObjectMessageAMF0'' [])"

definition encodeCommandMessage :: "amf0 \<Rightarrow> string \<Rightarrow> int64 \<Rightarrow> EncodingType \<Rightarrow> byte list \<Rightarrow> encoder" where
  "encodeCommandMessage amf name tid enc body =
     bind_io (NewAMFEncoder enc) (\<lambda>_.
     bind_io (amf_Encode amf (GoString name)) (\<lambda>_.
     bind_io (amf_Encode amf (GoInt64 tid)) (\<lambda>_.
     buf_Write body)))"

definition encodeAggregateMessage :: encoder where
  "encodeAggregateMessage = fail_io (Errorf ''Not implemented: AggregateMessage'' [])"

fun message_Encode :: "amf0 \<Rightarrow> message \<Rightarrow> encoder" where
  "message_Encode amf (MsgSetChunkSize sz) = encodeSetChunkSize sz"
| "message_Encode amf (MsgAbortMessage csid) = encodeAbortMessage csid"
| "message_Encode amf (MsgAck n) = encodeAck n"
| "message_Encode amf (MsgUserCtrl e) = encodeUserCtrl e"
| "message_Encode amf (MsgWinAckSize sz) = encodeWinAckSize sz"
| "message_Encode amf (MsgSetPeerBandwidth sz limit) = encodeSetPeerBandwidth sz limit"
| "message_Encode amf (MsgAudioMessage p) = encodeAudioMessage p"
| "message_Encode amf (MsgVideoMessage p) = encodeVideoMessage p"
| "message_Encode amf (MsgDataMessage name enc body) = encodeDataMessage amf name enc body"
| "message_Encode amf MsgSharedObjectMessageAMF3 = encodeSharedObjectMessageAMF3"
| "message_Encode amf (MsgCommandMessage name tid enc body) = encodeCommandMessage amf name tid enc body"
| "message_Encode amf MsgSharedObjectMessageAMF0 = encodeSharedObjectMessageAMF0"
| "message_Encode amf MsgAggregateMessage = encodeAggregateMessage"

section \<open>Decoder\<close>

type_synonym decoder = "(byte list, message) io"

definition decodeSetChunkSize :: decoder where
  "decodeSetChunkSize =
     bind_io (ReadAtLeast buf_Read 4 4) (\<lambda>buf.
       let total = uint32_be buf;
           bit = drop_bit 31 (total AND 0x80000000);
           sz = total AND 0x7fffffff in
       if bit \<noteq> 0 then fail_io (Errorf ''Invalid format: bit must be 0'' [])
       else if sz = 0 then fail_io (Errorf ''Invalid format: chunk size is 0'' [])
       else return_io (MsgSetChunkSize sz))"

definition decodeAbortMessage :: decoder where
  "decodeAbortMessage =
     bind_io (ReadAtLeast buf_Read 4 4) (\<lambda>buf. return_io (MsgAbortMessage (uint32_be buf)))"

definition decodeAck :: decoder where
  "decodeAck =
     bind_io (ReadAtLeast buf_Read 4 4) (\<lambda>buf. return_io (MsgAck (uint32_be buf)))"

definition decodeUserCtrl :: decoder where
  "decodeUserCtrl =
     bind_io (wrap_io ''Failed to decode UserCtrl'' (userCtrl_Decode buf_Read)) (\<lambda>event.
       return_io (MsgUserCtrl event))"

definition decodeWinAckSize :: decoder where
  "decodeWinAckSize =
     bind_io (ReadAtLeast buf_Read 4 4) (\<lambda>buf. return_io (MsgWinAckSize (uint32_be buf)))"

definition decodeSetPeerBandwidth :: decoder where
  "decodeSetPeerBandwidth =
     bind_io (ReadAtLeast buf_Read 5 5) (\<lambda>buf.
       return_io (MsgSetPeerBandwidth (uint32_be (take 4 buf)) (buf ! 4)))"

text \<open>The payload is the reader itself: all that is left in the buffer, which stays there.\<close>

definition decodeAudioMessage :: decoder where
  "decodeAudioMessage r = (Ok (MsgAudioMessage r), r)"

definition decodeVideoMessage :: decoder where
  "decodeVideoMessage r = (Ok (MsgVideoMessage r), r)"

definition decodeDataMessageAMF3 :: decoder where
  "decodeDataMessageAMF3 = fail_io (Errorf ''Not implemented: DataMessageAMF3'' [])"

definition decodeSharedObjectMessageAMF3 :: decoder where
  "decodeSharedObjectMessageAMF3 = fail_io (Errorf ''Not implemented: SharedObjectMessageAMF3'' [])"

definition decodeCommandMessageAMF3 :: decoder where
  "decodeCommandMessageAMF3 = fail_io (Errorf ''Not implemented: CommandMessageAMF3'' [])"

definition decodeDataMessage :: "amf0 \<Rightarrow> EncodingType \<Rightarrow> decoder" where
  "decodeDataMessage amf encTy =
     bind_io (wrap_io ''Failed to decode name'' (amf_decode_string amf)) (\<lambda>name.
       (\<lambda>r. (Ok (MsgDataMessage name encTy r), r)))"

definition decodeCommandMessage :: "amf0 \<Rightarrow> EncodingType \<Rightarrow> decoder" where
  "decodeCommandMessage amf encTy =
     bind_io (wrap_io ''Failed to decode name'' (amf_decode_string amf)) (\<lambda>name.
     bind_io (wrap_io ''Failed to decode transactionID'' (amf_decode_int64 amf)) (\<lambda>tid.
       (\<lambda>r. (Ok (MsgCommandMessage name tid encTy r), r))))"

definition decodeDataMessageAMF0 :: "amf0 \<Rightarrow> decoder" where
  "decodeDataMessageAMF0 amf = decodeDataMessage amf EncodingTypeAMF0"

definition decodeSharedObjectMessageAMF0 :: decoder where
  "decodeSharedObjectMessageAMF0 = fail_io (Errorf ''Not implemented: SharedObjectMessageAMF0'' [])"

definition decodeCommandMessageAMF0 :: "amf0 \<Rightarrow> decoder" where
  "decodeCommandMessageAMF0 amf = decodeCommandMessage amf EncodingTypeAMF0"

definition decodeAggregateMessage :: decoder where
  "decodeAggregateMessage = fail_io (Errorf ''Not implemented: AggregateMessage'' [])"

definition message_Decode :: "amf0 \<Rightarrow> TypeID \<Rightarrow> decoder" where
  "message_Decode amf typeID =
     (if typeID = TypeIDSetChunkSize then decodeSetChunkSize
      else if typeID = TypeIDAbortMessage then decodeAbortMessage
      else if typeID = TypeIDAck then decodeAck
      else if typeID = TypeIDUserCtrl then decodeUserCtrl
      else if typeID = TypeIDWinAckSize then decodeWinAckSize
      else if typeID = TypeIDSetPeerBandwidth then decodeSetPeerBandwidth
      else if typeID = TypeIDAudioMessage then decodeAudioMessage
      else if typeID = TypeIDVideoMessage then decodeVideoMessage
      else if typeID = TypeIDDataMessageAMF3 then decodeDataMessageAMF3
      else if typeID = TypeIDSharedObjectMessageAMF3 then decodeSharedObjectMessageAMF3
      else if typeID = TypeIDCommandMessageAMF3 then decodeCommandMessageAMF3
      else if typeID = TypeIDDataMessageAMF0 then decodeDataMessageAMF0 amf
      else if typeID = TypeIDSharedObjectMessageAMF0 then decodeSharedObjectMessageAMF0
      else if typeID = TypeIDCommandMessageAMF0 then decodeCommandMessageAMF0 amf
      else if typeID = TypeIDAggregateMessage then decodeAggregateMessage
      else fail_io (Errorf ''Unexpected message type(decode): ID = %d'' [uint typeID]))"

section \<open>The codec is a round trip\<close>

text \<open>
  What the program relies on of the AMF0 codec for one value: decoding what was encoded gives
  it back and leaves what follows. It is stated value by value, because AMF0 sends an integer
  as a double and cannot represent all of them.
\<close>

definition amf_string_ok :: "amf0 \<Rightarrow> string \<Rightarrow> bool" where
  "amf_string_ok amf s \<longleftrightarrow> (\<forall>bs rest. amf_encode amf (GoString s) = Ok bs \<longrightarrow>
     amf_decode_string amf (bs @ rest) = (Ok s, rest))"

definition amf_int64_ok :: "amf0 \<Rightarrow> int64 \<Rightarrow> bool" where
  "amf_int64_ok amf i \<longleftrightarrow> (\<forall>bs rest. amf_encode amf (GoInt64 i) = Ok bs \<longrightarrow>
     amf_decode_int64 amf (bs @ rest) = (Ok i, rest))"

fun amf_fits :: "amf0 \<Rightarrow> message \<Rightarrow> bool" where
  "amf_fits amf (MsgDataMessage name _ _) = amf_string_ok amf name"
| "amf_fits amf (MsgCommandMessage name tid _ _) = (amf_string_ok amf name \<and> amf_int64_ok amf tid)"
| "amf_fits amf _ = True"

text \<open>The part of a message that its decoder leaves in the buffer.\<close>

fun message_payload :: "message \<Rightarrow> byte list" where
  "message_payload (MsgAudioMessage p) = p"
| "message_payload (MsgVideoMessage p) = p"
| "message_payload (MsgDataMessage _ _ p) = p"
| "message_payload (MsgCommandMessage _ _ _ p) = p"
| "message_payload _ = []"

lemmas encode_message_defs = encodeSetChunkSize_def encodeAbortMessage_def encodeAck_def
  encodeUserCtrl_def encodeWinAckSize_def encodeSetPeerBandwidth_def encodeAudioMessage_def
  encodeVideoMessage_def encodeSharedObjectMessageAMF3_def encodeSharedObjectMessageAMF0_def
  encodeDataMessage_def encodeCommandMessage_def encodeAggregateMessage_def

lemmas decode_message_defs = decodeSetChunkSize_def decodeAbortMessage_def decodeAck_def
  decodeUserCtrl_def decodeWinAckSize_def decodeSetPeerBandwidth_def decodeAudioMessage_def
  decodeVideoMessage_def decodeDataMessageAMF3_def decodeSharedObjectMessageAMF3_def
  decodeCommandMessageAMF3_def decodeDataMessageAMF0_def decodeDataMessage_def
  decodeSharedObjectMessageAMF0_def decodeCommandMessageAMF0_def decodeCommandMessage_def
  decodeAggregateMessage_def

lemma chunk_size_bits:
  fixes v :: uint32
  assumes "v \<le> 0x7fffffff"
  shows "v AND 0x7fffffff = v" and "drop_bit 31 v = 0"
proof -
  have "unat v < 2 ^ 31" using assms by (simp add: word_le_nat_alt)
  then have t: "take_bit 31 v = v"
    by (simp add: word_unat_eq_iff unsigned_take_bit_eq take_bit_nat_eq_self)
  then show "v AND 0x7fffffff = v" by (simp add: take_bit_eq_mask mask_eq_exp_minus_1)
  show "drop_bit 31 v = 0"
    unfolding word_unat_eq_iff unat_drop_bit_eq unsigned_0
    using \<open>unat v < 2 ^ 31\<close> by (simp add: drop_bit_eq_div)
qed

text \<open>An encoder only appends to its buffer, whatever the buffer holds.\<close>

lemma userCtrl_Encode_buf:
  "userCtrl_Encode buf_Write e b =
     (if e = UserCtrlEventOther then (Err (Errorf ''Unsupported type for UserCtrl: Type = %T'' []), b)
      else (Ok (), b @ userCtrl_bytes e))"
  using userCtrl_Encode_writes [of e buf_Write] by (cases e) (simp_all add: buf_Write_def)

lemma message_Encode_appends:
  assumes "message_Encode amf msg b = (Ok (), b')"
  obtains bs where "b' = b @ bs" and "\<And>c. message_Encode amf msg c = (Ok (), c @ bs)"
proof -
  have "\<exists>bs. b' = b @ bs \<and> (\<forall>c. message_Encode amf msg c = (Ok (), c @ bs))"
    using assms
    by (cases msg)
      (auto simp: encode_message_defs buf_Write_def userCtrl_Encode_buf NewAMFEncoder_def bind_io_def
        amf_Encode_def fail_io_def panic_io_def return_io_def split: if_splits result.splits)
  then show thesis using that by blast
qed

text \<open>The bytes of the two kinds of message that start with AMF values.\<close>

lemma encodeDataMessage_Ok:
  "encodeDataMessage amf name enc body b = (Ok (), b') \<longleftrightarrow>
     enc = EncodingTypeAMF0 \<and> (\<exists>n. amf_encode amf (GoString name) = Ok n \<and> b' = b @ n @ body)"
  by (auto simp: encodeDataMessage_def NewAMFEncoder_def bind_io_def amf_Encode_def buf_Write_def
      panic_io_def return_io_def split: if_splits result.splits)

lemma encodeCommandMessage_Ok:
  "encodeCommandMessage amf name tid enc body b = (Ok (), b') \<longleftrightarrow>
     enc = EncodingTypeAMF0 \<and> (\<exists>n t. amf_encode amf (GoString name) = Ok n
       \<and> amf_encode amf (GoInt64 tid) = Ok t \<and> b' = b @ n @ t @ body)"
  by (auto simp: encodeCommandMessage_def NewAMFEncoder_def bind_io_def amf_Encode_def buf_Write_def
      panic_io_def return_io_def split: if_splits result.splits)

lemma decode_encoded:
  assumes "message_Encode amf msg [] = (Ok (), bs)" and "message_TypeID msg = Ok ty"
    and "amf_fits amf msg"
  shows "message_Decode amf ty bs = (Ok msg, message_payload msg)"
proof (cases msg)
  case (MsgSetChunkSize sz)
  with assms have sz: "sz \<noteq> 0" "sz \<le> 0x7fffffff" "bs = put_uint32_be sz" "ty = 1"
    by (auto simp: encode_message_defs buf_Write_def chunk_size_bits split: if_splits)
  then show ?thesis
    using MsgSetChunkSize chunk_size_bits [OF sz(2)]
    by (auto simp: message_Decode_def decode_message_defs bind_io_def Let_def)
next
  case (MsgUserCtrl e)
  with assms have e: "e \<noteq> UserCtrlEventOther" "bs = userCtrl_bytes e" "ty = 4"
    by (auto simp: encode_message_defs userCtrl_Encode_buf split: if_splits)
  then show ?thesis
    using MsgUserCtrl bbuf.userCtrl_Decode_encoded [of e bs "[]"]
    by (auto simp: message_Decode_def decode_message_defs io_simps)
next
  case (MsgDataMessage name enc body)
  with assms show ?thesis
    by (auto simp: message_Decode_def decode_message_defs encodeDataMessage_Ok io_simps
        amf_string_ok_def)
next
  case (MsgCommandMessage name tid enc body)
  with assms show ?thesis
    by (auto simp: message_Decode_def decode_message_defs encodeCommandMessage_Ok io_simps
        amf_string_ok_def amf_int64_ok_def)
qed (use assms in \<open>auto simp: encode_message_defs message_Decode_def decode_message_defs
        buf_Write_def bind_io_def nth_append\<close>)

section \<open>An instance of the AMF0 parameter\<close>

text \<open>
  For the witnesses: strings as AMF0 has them (marker 2, a 16-bit length, the bytes), integers
  as marker 0 and eight bytes, which here hold the integer itself and not a double, objects as
  the empty object.
\<close>

definition char_byte :: "char \<Rightarrow> byte" where
  "char_byte c = of_nat (of_char c)"

definition byte_char :: "byte \<Rightarrow> char" where
  "byte_char b = char_of (unat b)"

definition sample_encode :: "goValue \<Rightarrow> byte list result" where
  "sample_encode v =
     (case v of
        GoString s \<Rightarrow> (if length s < 65536 then Ok (2 # put_uint16_be (of_nat (length s)) @ map char_byte s)
                       else Err (Errorf ''too long'' []))
      | GoInt64 i \<Rightarrow> Ok (0 # put_uint32_be (ucast (drop_bit 32 i)) @ put_uint32_be (ucast i))
      | GoUint32 i \<Rightarrow> Ok (0 # put_uint32_be 0 @ put_uint32_be i)
      | GoNil \<Rightarrow> Ok [5]
      | GoMap m \<Rightarrow> Ok [3, 0, 0, 9]
      | GoStruct m \<Rightarrow> Ok [3, 0, 0, 9]
      | _ \<Rightarrow> Err (Errorf ''unsupported'' []))"

definition sample_decode_string :: "(byte list, string) io" where
  "sample_decode_string =
     bind_io (ReadAtLeast buf_Read 3 3) (\<lambda>h.
       if h ! 0 = 2 then
         bind_io (ReadAtLeast buf_Read (unat (uint16_be (tl h))) (unat (uint16_be (tl h)))) (\<lambda>s.
           return_io (map byte_char s))
       else fail_io (Errorf ''not a string'' []))"

definition sample_decode_number :: "(byte list, uint32 \<times> uint32) io" where
  "sample_decode_number =
     bind_io (ReadAtLeast buf_Read 9 9) (\<lambda>h.
       if h ! 0 = 0 then return_io (uint32_be (take 4 (tl h)), uint32_be (drop 5 h))
       else fail_io (Errorf ''not a number'' []))"

definition sample_amf :: amf0 where
  "sample_amf = \<lparr>amf_encode = sample_encode, amf_decode_string = sample_decode_string,
     amf_decode_int64 = bind_io sample_decode_number (\<lambda>(hi, lo).
       return_io (push_bit 32 (ucast hi) OR ucast lo)),
     amf_decode_uint32 = bind_io sample_decode_number (\<lambda>(hi, lo). return_io lo),
     amf_decode_value = bind_io (ReadAtLeast buf_Read 1 1) (\<lambda>h.
       if h = [5] then return_io GoNil else fail_io (Errorf ''unsupported'' [])),
     amf_decode_object = bind_io (ReadAtLeast buf_Read 4 4) (\<lambda>h.
       if h = [3, 0, 0, 9] then return_io [] else fail_io (Errorf ''unsupported'' []))\<rparr>"

lemma byte_char_inverse [simp]: "byte_char (char_byte c) = c"
  by (simp add: byte_char_def char_byte_def unat_of_nat take_bit_nat_eq_self)

lemma sample_string_ok:
  assumes "length s < 65536"
  shows "amf_string_ok sample_amf s"
proof -
  have "unat (of_nat (length s) :: uint16) = length s"
    using assms by (simp add: unat_of_nat take_bit_nat_eq_self)
  then show ?thesis
    using assms
    by (auto simp: amf_string_ok_def sample_amf_def sample_encode_def sample_decode_string_def
        bind_io_def comp_def)
qed

lemma word64_halves:
  "push_bit 32 (ucast (ucast (drop_bit 32 i) :: uint32)) OR ucast (ucast i :: uint32) = (i :: int64)"
  by (rule bit_word_eqI) (auto simp: bit_simps)

lemma sample_int64_ok: "amf_int64_ok sample_amf i"
  using word64_halves [of i]
  by (auto simp: amf_int64_ok_def sample_amf_def sample_encode_def sample_decode_number_def
      bind_io_def)

end
