(* ===== verification/Chunk_Read.thy ===== *)
theory Chunk_Read
  imports Chunk_Stream Message
begin

text \<open>
  The reading half of \<^verbatim>\<open>ChunkStreamer\<close> (\<^verbatim>\<open>chunk_streamer.go\<close>): chunks are read one after the
  other and put together, per chunk stream, until a message is complete. The \<^verbatim>\<open>ChunkStreamer\<close>
  struct is split by the goroutine that uses a field: the message loop owns the reading half
  below, the write loop and the callers of \<^verbatim>\<open>Write\<close> own the other one (\<open>Chunk_Write\<close>).
\<close>

section \<open>State\<close>

record chunkReadSide =
  rx_r :: chunkStreamerReader
  readers :: "(int, chunkStreamReader) fmap"
  peerState :: StreamControlState
  rx_config :: StreamControlStateConfig

abbreviation rx_pending :: "chunkReadSide \<Rightarrow> byte list" where
  "rx_pending s \<equiv> csr_pending (rx_r s)"

abbreviation ctrlMsgChunkStreamID :: int where "ctrlMsgChunkStreamID \<equiv> 2"

text \<open>\<^verbatim>\<open>cacheBuffer: make([]byte, 64*1024)\<close>, the scratch buffer of the header decoders.\<close>

abbreviation cacheBufferLen :: nat where "cacheBufferLen \<equiv> 65536"

text \<open>Reading from \<^verbatim>\<open>cs.r\<close> as an operation on the whole state.\<close>

definition with_r :: "(chunkStreamerReader, 'a) io \<Rightarrow> (chunkReadSide, 'a) io" where
  "with_r m s = (fst (m (rx_r s)), s\<lparr>rx_r := snd (m (rx_r s))\<rparr>)"

lemma with_r_simps [simp]:
  "fst (with_r m s) = fst (m (rx_r s))" "snd (with_r m s) = s\<lparr>rx_r := snd (m (rx_r s))\<rparr>"
  by (simp_all add: with_r_def)

section \<open>One chunk\<close>

definition prepareChunkReader :: "int \<Rightarrow> (chunkReadSide, chunkStreamReader) io" where
  "prepareChunkReader chunkStreamID s =
     (case fmlookup (readers s) chunkStreamID of
        Some r \<Rightarrow> (Ok r, s)
      | None \<Rightarrow>
          (if int (fcard (fmdom (readers s))) \<ge> cfg_MaxChunkStreams (rx_config s) then
             (Err (Errorf ''Creating chunk streams limit exceeded(Reader): Limit = %d''
                    [cfg_MaxChunkStreams (rx_config s)]), s)
           else (Ok zero_reader, s\<lparr>readers := fmupd chunkStreamID zero_reader (readers s)\<rparr>)))"

text \<open>A reader that delivered its message is emptied before the next one.\<close>

definition restartReader :: "chunkStreamReader \<Rightarrow> chunkStreamReader" where
  "restartReader r = (if completed r then r\<lparr>buf := [], completed := False\<rparr> else r)"

text \<open>The headers into the reader, by format.\<close>

definition applyChunkHeader ::
  "chunkBasicHeader \<Rightarrow> chunkMessageHeader \<Rightarrow> chunkStreamReader \<Rightarrow> chunkStreamReader" where
  "applyChunkHeader bh mh r0 =
     (let r = r0\<lparr>basicHeader := bh, messageHeader := mh\<rparr> in
      if bh_fmt bh = 0 then
        r\<lparr>timestamp := mh_timestamp mh, timestampDelta := 0, messageLength := mh_messageLength mh,
          messageTypeID := mh_messageTypeID mh, messageStreamID := mh_messageStreamID mh,
          extendedTimestampMode := mh_extendedTimestampMode mh\<rparr>
      else if bh_fmt bh = 1 then
        r\<lparr>timestampDelta := mh_timestampDelta mh, messageLength := mh_messageLength mh,
          messageTypeID := mh_messageTypeID mh,
          extendedTimestampMode := mh_extendedTimestampMode mh\<rparr>
      else if bh_fmt bh = 2 then
        r\<lparr>timestampDelta := mh_timestampDelta mh,
          extendedTimestampMode := mh_extendedTimestampMode mh\<rparr>
      else
        (case extendedTimestampMode r of
           ExtendedTimestampUsed \<Rightarrow> r\<lparr>timestamp := mh_timestamp mh\<rparr>
         | ExtendedTimestampDeltaUsed \<Rightarrow> r\<lparr>timestampDelta := mh_timestampDelta mh\<rparr>
         | ExtendedTimestampUnused \<Rightarrow> r))"

text \<open>
  The payload of the chunk: as much as the message still misses, at most a chunk's worth. When
  the connection ends inside the payload, \<^verbatim>\<open>io.CopyBuffer\<close> reports no error and the message
  stays incomplete. The result is the chunk stream the chunk belongs to; the reader itself is
  in the table.
\<close>

definition missing :: "chunkStreamReader \<Rightarrow> int" where
  "missing r = int (unat (messageLength r)) - int (length (buf r))"

definition chunkAmount :: "StreamControlState \<Rightarrow> chunkStreamReader \<Rightarrow> nat" where
  "chunkAmount peer r =
     (if word_of_int (missing r) > chunkSize peer then unat (chunkSize peer) else nat (missing r))"

text \<open>\<^verbatim>\<open>// read completed, update timestamp\<close>\<close>

definition completeReader :: "chunkStreamReader \<Rightarrow> chunkStreamReader" where
  "completeReader r = r\<lparr>timestamp := timestamp r + timestampDelta r, completed := True\<rparr>"

definition readChunkPayload :: "int \<Rightarrow> chunkStreamReader \<Rightarrow> (chunkReadSide, int) io" where
  "readChunkPayload csid r s =
     (if missing r \<le> 0 then (Panic ''invalid state'', s\<lparr>readers := fmupd csid r (readers s)\<rparr>)
      else
        let res = copy_limited csr_Read (chunkAmount (peerState s) r) (rx_r s);
            r1 = r\<lparr>buf := buf r @ fst (fst res)\<rparr>;
            r2 = (if snd (fst res) = None \<and> missing r1 = 0 then completeReader r1 else r1) in
        (case snd (fst res) of Some e \<Rightarrow> Err e | None \<Rightarrow> Ok csid,
         s\<lparr>rx_r := snd res, readers := fmupd csid r2 (readers s)\<rparr>))"

definition readChunk :: "(chunkReadSide, int) io" where
  "readChunk =
     bind_io (with_r (decodeChunkBasicHeader csr_Read cacheBufferLen)) (\<lambda>bh.
     bind_io (wrap_io ''Failed to prepare chunk reader'' (prepareChunkReader (bh_chunkStreamID bh))) (\<lambda>r.
     bind_io (with_r (decodeChunkMessageHeader csr_Read (bh_fmt bh) cacheBufferLen zero_messageHeader
                (extendedTimestampMode r))) (\<lambda>mh.
     if bh_fmt bh > 3 then panic_io ''unsupported chunk''
     else readChunkPayload (bh_chunkStreamID bh) (applyChunkHeader bh mh (restartReader r)))))"

section \<open>Reading consumes input\<close>

text \<open>
  Every successful \<^verbatim>\<open>readChunk\<close> consumes at least the first byte of a basic header; the loop over
  chunks ends for that reason.
\<close>

lemma bind_io_le:
  fixes M :: "'s \<Rightarrow> nat"
  assumes "\<And>s. M (snd (m s)) \<le> M s" and "\<And>a s. M (snd (f a s)) \<le> M s"
  shows "M (snd (bind_io m f s)) \<le> M s"
  using assms order_trans by (fastforce simp: bind_io_def split: result.splits)

abbreviation rx_left :: "chunkReadSide \<Rightarrow> nat" where
  "rx_left s \<equiv> length (rx_pending s)"

lemma ReadAtLeast_le: "mn \<le> len \<Longrightarrow>
    length (csr_pending (snd (ReadAtLeast csr_Read len mn r))) \<le> length (csr_pending r)"
  using csr.ReadAtLeast_suffix [of mn len r] by auto

lemma ReadAtLeast_less:
  assumes "0 < mn" and "mn \<le> len" and "fst (ReadAtLeast csr_Read len mn r) = Ok bs"
  shows "length (csr_pending (snd (ReadAtLeast csr_Read len mn r))) < length (csr_pending r)"
  using csr.ReadAtLeast_suffix [of mn len r] assms by auto

lemma decodeChunkMessageHeader_le:
  "length (csr_pending (snd (decodeChunkMessageHeader csr_Read fm n mh mode r))) \<le> length (csr_pending r)"
  unfolding decodeChunkMessageHeader_def Let_def
  by (auto intro!: bind_io_le [where M = "\<lambda>r. length (csr_pending r)"] ReadAtLeast_le
      split: ExtendedTimestampMode.splits)

lemma decodeChunkBasicHeader_less:
  assumes "fst (decodeChunkBasicHeader csr_Read n r) = Ok bh"
  shows "length (csr_pending (snd (decodeChunkBasicHeader csr_Read n r))) < length (csr_pending r)"
proof -
  define s1 where "s1 = snd (ReadAtLeast csr_Read 1 1 r)"
  obtain b where b: "fst (ReadAtLeast csr_Read 1 1 r) = Ok b"
    using assms by (auto simp: decodeChunkBasicHeader_def bind_io_def Let_def split: result.splits)
  have 1: "length (csr_pending s1) < length (csr_pending r)"
    unfolding s1_def by (rule ReadAtLeast_less [OF _ _ b]) simp_all
  have 2: "length (csr_pending (snd (bind_io (ReadAtLeast csr_Read len mn) (\<lambda>a. return_io (g a)) s1)))
      \<le> length (csr_pending s1)" if "mn \<le> len" for len mn and g :: "byte list \<Rightarrow> chunkBasicHeader"
    using that by (intro bind_io_le [where M = "\<lambda>r. length (csr_pending r)"])
      (simp_all add: ReadAtLeast_le)
  show ?thesis
    unfolding decodeChunkBasicHeader_def Let_def bind_io_Ok [of "ReadAtLeast csr_Read 1 1", OF b]
      s1_def [symmetric]
    using 1 by (auto intro!: le_less_trans [OF 2 1])
qed

lemma readChunkPayload_r:
  "rx_r (snd (readChunkPayload csid r s)) =
     (if missing r \<le> 0 then rx_r s
      else snd (copy_limited csr_Read (chunkAmount (peerState s) r) (rx_r s)))"
  by (simp add: readChunkPayload_def Let_def)

lemma readChunkPayload_le: "rx_left (snd (readChunkPayload csid r s)) \<le> rx_left s"
  by (simp add: readChunkPayload_r csr.copy_limited_copies)

lemma prepareChunkReader_r [simp]: "rx_r (snd (prepareChunkReader csid s)) = rx_r s"
  by (auto simp: prepareChunkReader_def split: option.splits)

lemma readChunk_consumes:
  assumes "fst (readChunk s) = Ok csid"
  shows "rx_left (snd (readChunk s)) < rx_left s"
proof -
  obtain bh where bh: "fst (with_r (decodeChunkBasicHeader csr_Read cacheBufferLen) s) = Ok bh"
    using assms by (auto simp: readChunk_def bind_io_def split: result.splits)
  define s1 where "s1 = snd (with_r (decodeChunkBasicHeader csr_Read cacheBufferLen) s)"
  have "rx_left s1 < rx_left s"
    using decodeChunkBasicHeader_less [of cacheBufferLen "rx_r s" bh] bh by (simp add: s1_def)
  moreover have "rx_left (snd (readChunk s)) \<le> rx_left s1"
    unfolding readChunk_def bind_io_Ok [of "with_r _", OF bh] s1_def [symmetric]
    by (intro bind_io_le [where M = rx_left])
      (simp_all add: decodeChunkMessageHeader_le readChunkPayload_le)
  ultimately show ?thesis by simp
qed

section \<open>A whole message\<close>

text \<open>
  \<^verbatim>\<open>cs.controlStreamWriter\<close> is a function the connection sets (the control stream's \<^verbatim>\<open>Write\<close>):
  chunk stream ID, timestamp and message. What it works on, the writing half and the rest of the
  connection, is the state \<open>'t\<close> next to the reading half.
\<close>

type_synonym 't controlStreamWriter = "int \<Rightarrow> uint32 \<Rightarrow> message \<Rightarrow> ('t, unit) io"

definition sendAck :: "'t controlStreamWriter \<Rightarrow> uint32 \<Rightarrow> ('t, unit) io" where
  "sendAck ctl readBytes = ctl ctrlMsgChunkStreamID 0 (MsgAck readBytes)"

text \<open>\<^verbatim>\<open>uint32(cs.peerState.ackWindowSize/2)\<close>: a signed division, then the bits as unsigned.\<close>

definition ackThreshold :: "int32 \<Rightarrow> uint32" where
  "ackThreshold w = word_of_int (sint w sdiv 2)"

definition acknowledge :: "'t controlStreamWriter \<Rightarrow> (chunkReadSide \<times> 't, unit) io" where
  "acknowledge ctl st =
     (let s = fst st; t = snd st in
      if fragmentReadBytes (rx_r s) \<ge> ackThreshold (ackWindowSize (peerState s)) then
        (case sendAck ctl (totalReadBytes (rx_r s)) t of
           (Ok _, t') \<Rightarrow> (Ok (), (s\<lparr>rx_r := ResetFragmentReadBytes (rx_r s)\<rparr>, t'))
         | (Err e, t') \<Rightarrow> (Err e, (s, t'))
         | (Panic p, t') \<Rightarrow> (Panic p, (s, t')))
      else (Ok (), st))"

definition with_rx :: "(chunkReadSide, 'a) io \<Rightarrow> (chunkReadSide \<times> 't, 'a) io" where
  "with_rx m st = (fst (m (fst st)), (snd (m (fst st)), snd st))"

definition chunkCompleted :: "int \<Rightarrow> chunkReadSide \<Rightarrow> bool" where
  "chunkCompleted csid s = (case fmlookup (readers s) csid of Some r \<Rightarrow> completed r | None \<Rightarrow> False)"

text \<open>One round of the loop \<^verbatim>\<open>again: ... goto again\<close>: a chunk, and an acknowledgement if it is due.\<close>

definition chunkRound :: "'t controlStreamWriter \<Rightarrow> (chunkReadSide \<times> 't, int) io" where
  "chunkRound ctl = bind_io (with_rx readChunk) (\<lambda>csid. bind_io (acknowledge ctl) (\<lambda>_. return_io csid))"

lemma acknowledge_left [simp]: "rx_pending (fst (snd (acknowledge ctl st))) = rx_pending (fst st)"
  by (auto simp: acknowledge_def Let_def ResetFragmentReadBytes_def csr_pending_def
      split: prod.splits result.splits)

lemma chunkRound_consumes:
  assumes "fst (chunkRound ctl st) = Ok csid"
  shows "rx_left (fst (snd (chunkRound ctl st))) < rx_left (fst st)"
proof -
  obtain c where c: "fst (readChunk (fst st)) = Ok c"
    using assms by (auto simp: chunkRound_def with_rx_def bind_io_def split: result.splits)
  have "rx_pending (fst (snd (chunkRound ctl st))) = rx_pending (snd (readChunk (fst st)))"
    using c by (simp add: chunkRound_def with_rx_def bind_io_def split: result.splits)
  with readChunk_consumes [OF c] show ?thesis by simp
qed

function newChunkReader :: "'t controlStreamWriter \<Rightarrow> (chunkReadSide \<times> 't, int) io" where
  "newChunkReader ctl st =
     (case fst (chunkRound ctl st) of
        Ok csid \<Rightarrow>
          (let st' = snd (chunkRound ctl st) in
           if chunkCompleted csid (fst st') then (Ok csid, st') else newChunkReader ctl st')
      | Err e \<Rightarrow> (Err e, snd (chunkRound ctl st))
      | Panic p \<Rightarrow> (Panic p, snd (chunkRound ctl st)))"
  by pat_completeness auto
termination
  by (relation "measure (\<lambda>(ctl, st). rx_left (fst st))") (auto dest: chunkRound_consumes)

declare newChunkReader.simps [simp del]

lemma newChunkReader_consumes:
  "fst (newChunkReader ctl st) = Ok csid \<Longrightarrow> rx_left (fst (snd (newChunkReader ctl st))) < rx_left (fst st)"
proof (induction ctl st rule: newChunkReader.induct)
  case (1 ctl st)
  show ?case
  proof (cases "fst (chunkRound ctl st)")
    case (Ok c)
    have less: "rx_left (fst (snd (chunkRound ctl st))) < rx_left (fst st)" by (rule chunkRound_consumes [OF Ok])
    show ?thesis
    proof (cases "chunkCompleted c (fst (snd (chunkRound ctl st)))")
      case True
      then have "newChunkReader ctl st = (Ok c, snd (chunkRound ctl st))"
        by (subst newChunkReader.simps) (simp add: Ok Let_def)
      then show ?thesis using less by simp
    next
      case False
      then have eq: "newChunkReader ctl st = newChunkReader ctl (snd (chunkRound ctl st))"
        by (subst newChunkReader.simps) (simp add: Ok Let_def)
      show ?thesis using "1.IH" [OF Ok refl False] "1.prems" less unfolding eq by simp
    qed
  qed (use "1.prems" in \<open>simp_all add: newChunkReader.simps [of ctl st]\<close>)
qed

text \<open>
  \<^verbatim>\<open>ChunkStreamer.Read\<close>: the message, the message stream it is for, and what \<^verbatim>\<open>Read\<close> returns,
  the chunk stream ID and the timestamp. The decoder reads from the buffer of the reader.
\<close>

record ChunkMessage =
  cm_StreamID :: uint32
  cm_Message :: message

definition decodeFrom :: "amf0 \<Rightarrow> int \<Rightarrow> (chunkReadSide, int \<times> uint32 \<times> ChunkMessage) io" where
  "decodeFrom amf csid s =
     (case fmlookup (readers s) csid of
        None \<Rightarrow> (Panic ''nil reader'', s)
      | Some r \<Rightarrow>
          (case message_Decode amf (messageTypeID r) (buf r) of
             (res, b) \<Rightarrow>
               (case res of
                  Ok msg \<Rightarrow> Ok (bh_chunkStreamID (basicHeader r), timestamp r,
                              \<lparr>cm_StreamID = messageStreamID r, cm_Message = msg\<rparr>)
                | Err e \<Rightarrow> Err e
                | Panic p \<Rightarrow> Panic p,
                s\<lparr>readers := fmupd csid (r\<lparr>buf := b\<rparr>) (readers s)\<rparr>)))"

definition streamer_Read :: "amf0 \<Rightarrow> 't controlStreamWriter
    \<Rightarrow> (chunkReadSide \<times> 't, int \<times> uint32 \<times> ChunkMessage) io" where
  "streamer_Read amf ctl =
     bind_io (newChunkReader ctl) (\<lambda>csid. with_rx (decodeFrom amf csid))"

section \<open>What the reading half keeps\<close>

text \<open>
  The counter of read bytes is exact, modulo \<open>2 ^ 32\<close>, over every operation; the table of chunk
  streams stays within its configured limit; the peer's state and the configuration are not
  touched by reading.
\<close>

abbreviation rx_account :: "chunkReadSide \<Rightarrow> uint32" where
  "rx_account s \<equiv> byte_account (rx_r s)"

lemma decodeChunkBasicHeader_account [simp]:
  "byte_account (snd (decodeChunkBasicHeader csr_Read n r)) = byte_account r"
  unfolding decodeChunkBasicHeader_def Let_def
  by (auto intro!: bind_io_pres [where I = byte_account])

lemma decodeChunkMessageHeader_account [simp]:
  "byte_account (snd (decodeChunkMessageHeader csr_Read fm n mh mode r)) = byte_account r"
  unfolding decodeChunkMessageHeader_def Let_def
  by (auto intro!: bind_io_pres [where I = byte_account] split: ExtendedTimestampMode.splits)

lemma readChunkPayload_account [simp]: "rx_account (snd (readChunkPayload csid r s)) = rx_account s"
  by (simp add: readChunkPayload_r)

lemma readChunk_account: "rx_account (snd (readChunk s)) = rx_account s"
  unfolding readChunk_def by (rule bind_io_pres [where I = rx_account] | simp)+

definition readers_within :: "chunkReadSide \<Rightarrow> bool" where
  "readers_within s \<longleftrightarrow> int (fcard (fmdom (readers s))) \<le> max 0 (cfg_MaxChunkStreams (rx_config s))"

lemma fcard_fmupd: "fcard (fmdom (fmupd k v m)) =
    (if k |\<in>| fmdom m then fcard (fmdom m) else Suc (fcard (fmdom m)))"
  by (simp add: fcard_finsert_if)

lemma prepareChunkReader_Ok:
  assumes "fst (prepareChunkReader csid s) = Ok r"
  shows "fmlookup (readers (snd (prepareChunkReader csid s))) csid = Some r"
    and "readers_within s \<Longrightarrow> readers_within (snd (prepareChunkReader csid s))"
    and "peerState (snd (prepareChunkReader csid s)) = peerState s"
    and "rx_config (snd (prepareChunkReader csid s)) = rx_config s"
  using assms
  by (auto simp: prepareChunkReader_def readers_within_def fcard_finsert_if fmlookup_dom_iff
      split: option.splits if_splits)

text \<open>One chunk, and a whole message: the table stays within its limit.\<close>

definition rx_keeps :: "chunkReadSide \<Rightarrow> chunkReadSide \<Rightarrow> bool" where
  "rx_keeps s s' \<longleftrightarrow> peerState s' = peerState s \<and> rx_config s' = rx_config s
     \<and> (readers_within s \<longrightarrow> readers_within s') \<and> fmdom (readers s) |\<subseteq>| fmdom (readers s')"

lemma rx_keeps_refl [simp]: "rx_keeps s s"
  by (simp add: rx_keeps_def)

lemma rx_keeps_trans: "rx_keeps s s' \<Longrightarrow> rx_keeps s' s'' \<Longrightarrow> rx_keeps s s''"
  by (auto simp: rx_keeps_def)

lemma rx_keeps_r [simp]: "rx_keeps s (s\<lparr>rx_r := r\<rparr>)"
  by (simp add: rx_keeps_def readers_within_def)

lemma rx_keeps_prepare: "rx_keeps s (snd (prepareChunkReader csid s))"
  by (auto simp: prepareChunkReader_def rx_keeps_def readers_within_def fcard_finsert_if split: option.splits)

lemma rx_keeps_payload:
  assumes "csid |\<in>| fmdom (readers s)"
  shows "rx_keeps s (snd (readChunkPayload csid r s))"
  using assms by (auto simp: readChunkPayload_def rx_keeps_def readers_within_def Let_def fcard_finsert_if)

lemma rx_keeps_readChunk: "rx_keeps s (snd (readChunk s))"
proof -
  define k where "k bh r = bind_io (with_r (decodeChunkMessageHeader csr_Read (bh_fmt bh) cacheBufferLen zero_messageHeader
                (extendedTimestampMode r))) (\<lambda>mh.
     if bh_fmt bh > 3 then panic_io ''unsupported chunk''
     else readChunkPayload (bh_chunkStreamID bh) (applyChunkHeader bh mh (restartReader r)))" for bh r
  have k: "rx_keeps s (snd (k bh r s))" if "bh_chunkStreamID bh |\<in>| fmdom (readers s)" for bh r s
  proof -
    have "rx_keeps s' (snd (readChunkPayload (bh_chunkStreamID bh) x s'))" if "s' = s\<lparr>rx_r := y\<rparr>" for s' x y
      using that \<open>bh_chunkStreamID bh |\<in>| fmdom (readers s)\<close> by (intro rx_keeps_payload) simp
    then show ?thesis
      by (auto simp: k_def bind_io_def intro: rx_keeps_trans [OF rx_keeps_r] split: result.split)
  qed
  have p: "rx_keeps s (snd (bind_io (wrap_io m (prepareChunkReader (bh_chunkStreamID bh))) (k bh) s))" for s bh m
  proof (cases "fst (prepareChunkReader (bh_chunkStreamID bh) s)")
    case (Ok r)
    then have "bh_chunkStreamID bh |\<in>| fmdom (readers (snd (prepareChunkReader (bh_chunkStreamID bh) s)))"
      by (intro fmdomI) (rule prepareChunkReader_Ok(1))
    from rx_keeps_trans [OF rx_keeps_prepare k [OF this]] show ?thesis
      using Ok by (simp add: bind_io_def wrap_io_def)
  qed (simp_all add: bind_io_def wrap_io_def rx_keeps_prepare)
  show ?thesis
    unfolding readChunk_def k_def [symmetric]
    by (auto simp: bind_io_def [of "with_r _"] intro: rx_keeps_trans [OF rx_keeps_r p] split: result.split)
qed

lemma rx_keeps_round: "rx_keeps (fst st) (fst (snd (chunkRound ctl st)))"
proof -
  have "rx_keeps (fst st) (fst (snd (acknowledge ctl st)))" for st
    by (auto simp: acknowledge_def Let_def split: prod.split result.split)
  then show ?thesis
    using rx_keeps_readChunk [of "fst st"]
    by (auto simp: chunkRound_def bind_io_def with_rx_def intro: rx_keeps_trans split: result.split)
qed

lemma newChunkReader_keeps: "rx_keeps (fst st) (fst (snd (newChunkReader ctl st)))"
proof (induction ctl st rule: newChunkReader.induct)
  case (1 ctl st)
  show ?case
  proof (cases "fst (chunkRound ctl st)")
    case (Ok c)
    with "1.IH" [OF Ok refl] rx_keeps_round [of st ctl] show ?thesis
      by (subst newChunkReader.simps) (auto simp: Let_def intro: rx_keeps_trans)
  qed (simp_all add: newChunkReader.simps [of ctl st] rx_keeps_round)
qed

text \<open>What an acknowledgement does to the rest of the connection is what its writer does.\<close>

lemma chunkRound_other:
  assumes ctl: "\<And>csid ts msg t. R t (snd (ctl csid ts msg t))" and refl: "\<And>t. R t t"
  shows "R (snd st) (snd (snd (chunkRound ctl st)))"
proof -
  have "R (snd st) (snd (snd (acknowledge ctl st)))" for st
    using ctl [of "snd st" 2 0 "MsgAck (totalReadBytes (rx_r (fst st)))"] refl
    by (auto simp: acknowledge_def sendAck_def Let_def split: prod.splits result.splits)
  from this [of "(snd (readChunk (fst st)), snd st)"] show ?thesis
    using refl by (auto simp: chunkRound_def bind_io_def with_rx_def split: result.split)
qed

lemma newChunkReader_other:
  assumes "\<And>csid ts msg t. R t (snd (ctl csid ts msg t))" and same: "\<And>t. R t t"
    and trans: "\<And>t t' t''. R t t' \<Longrightarrow> R t' t'' \<Longrightarrow> R t t''"
  shows "R (snd st) (snd (snd (newChunkReader ctl st)))"
  using assms(1)
proof (induction ctl st rule: newChunkReader.induct)
  case (1 ctl st)
  note round = chunkRound_other [of R, OF "1.prems" same, of st]
  show ?case
  proof (cases "fst (chunkRound ctl st)")
    case (Ok c)
    show ?thesis
    proof (cases "chunkCompleted c (fst (snd (chunkRound ctl st)))")
      case True
      then show ?thesis using round by (subst newChunkReader.simps) (simp add: Ok Let_def)
    next
      case False
      from trans [OF round "1.IH" [OF Ok refl False "1.prems"]] False show ?thesis
        by (subst newChunkReader.simps) (simp add: Ok Let_def)
    qed
  qed (simp_all add: newChunkReader.simps [of ctl st] round)
qed

end
