(* ===== verification/Chunk_Write.thy ===== *)
theory Chunk_Write
  imports Chunk_Stream Message
begin

text \<open>
  The writing half of \<^verbatim>\<open>ChunkStreamer\<close> (\<^verbatim>\<open>chunk_streamer.go\<close>): the writer of each chunk stream,
  the headers it compresses against what it sent before, and the writing of one chunk. The
  queue of the write loop and the waiting for a busy writer are in \<open>Write_Sched\<close>.
\<close>

section \<open>State\<close>

record chunkWriteSide =
  tx_w :: netSink
  writers :: "(int, chunkStreamWriter) fmap"
  selfState :: StreamControlState
  tx_config :: StreamControlStateConfig

definition with_w :: "(netSink, 'a) io \<Rightarrow> (chunkWriteSide, 'a) io" where
  "with_w m s = (fst (m (tx_w s)), s\<lparr>tx_w := snd (m (tx_w s))\<rparr>)"

lemma with_w_simps [simp]:
  "fst (with_w m s) = fst (m (tx_w s))" "snd (with_w m s) = s\<lparr>tx_w := snd (m (tx_w s))\<rparr>"
  by (simp_all add: with_w_def)

section \<open>Writers\<close>

text \<open>
  A new writer's last timestamp is \<^verbatim>\<open>math.MaxUint32\<close>, so that the first message looks like one
  with the time going back and gets a full header. Its \<^verbatim>\<open>doneCh\<close> is closed: it is not busy.
\<close>

definition new_writer :: "int \<Rightarrow> chunkStreamWriter" where
  "new_writer csid = chunkStreamReader.extend
     (zero_reader\<lparr>basicHeader := zero_basicHeader\<lparr>bh_chunkStreamID := csid\<rparr>,
        messageHeader := zero_messageHeader\<lparr>mh_timestamp := 0xffffffff\<rparr>\<rparr>)
     \<lparr>doneClosed = True, closeClosed = False, lastErr = None, newChunk = True\<rparr>"

definition prepareChunkWriter :: "int \<Rightarrow> (chunkWriteSide, chunkStreamWriter) io" where
  "prepareChunkWriter chunkStreamID s =
     (case fmlookup (writers s) chunkStreamID of
        Some w \<Rightarrow> (Ok w, s)
      | None \<Rightarrow>
          (if int (fcard (fmdom (writers s))) \<ge> cfg_MaxChunkStreams (tx_config s) then
             (Err (Errorf ''Creating chunk streams limit exceeded(Writer): Limit = %d''
                    [cfg_MaxChunkStreams (tx_config s)]), s)
           else (Ok (new_writer chunkStreamID),
                 s\<lparr>writers := fmupd chunkStreamID (new_writer chunkStreamID) (writers s)\<rparr>)))"

text \<open>
  \<^verbatim>\<open>updateWriterHeader\<close>: what of the header the peer already knows decides the format. The
  variable \<^verbatim>\<open>fmt\<close> of the code is followed through its five assignments.
\<close>

definition updateWriterHeader :: "chunkStreamWriter \<Rightarrow> chunkStreamWriter" where
  "updateWriterHeader w =
     (let mh0 = messageHeader w;
          changed = (mh_messageLength mh0 \<noteq> messageLength w \<or> messageTypeID w \<noteq> mh_messageTypeID mh0);
          mh1 = (if changed then mh0\<lparr>mh_messageLength := messageLength w,
                                     mh_messageTypeID := messageTypeID w\<rparr> else mh0);
          fmt1 = (if changed then 1 else 2 :: byte);
          timed = (timestamp w \<noteq> mh_timestamp mh1 \<or> newChunk w);
          forward = (timestamp w \<ge> mh_timestamp mh1);
          delta = (if timed then (if forward then timestamp w - mh_timestamp mh1 else 0)
                   else timestampDelta w);
          fmt2 = (if timed \<and> \<not> forward then 0 else fmt1);
          fmt3 = (if delta = mh_timestampDelta mh1 \<and> fmt2 = 2 then 3 else fmt2);
          mh2 = mh1\<lparr>mh_timestampDelta := delta, mh_timestamp := timestamp w\<rparr>;
          other = (mh_messageStreamID mh2 \<noteq> messageStreamID w);
          fmt4 = (if other then 0 else fmt3);
          mh3 = (if other then mh2\<lparr>mh_messageStreamID := messageStreamID w\<rparr> else mh2) in
      w\<lparr>timestampDelta := delta, newChunk := False, messageHeader := mh3,
        basicHeader := (basicHeader w)\<lparr>bh_fmt := fmt4\<rparr>\<rparr>)"

section \<open>One chunk\<close>

definition chunkSendLen :: "StreamControlState \<Rightarrow> chunkStreamWriter \<Rightarrow> nat" where
  "chunkSendLen self w =
     (if of_nat (length (buf w)) > chunkSize self then unat (chunkSize self) else length (buf w))"

text \<open>
  \<^verbatim>\<open>io.CopyN(cs.w, writer, n)\<close> from the writer's buffer, then \<^verbatim>\<open>cs.w.Flush()\<close>. The result is
  whether the buffer is empty: the message is written.
\<close>

definition writeChunkPayload :: "int \<Rightarrow> chunkStreamWriter \<Rightarrow> nat \<Rightarrow> (chunkWriteSide, bool) io" where
  "writeChunkPayload csid w n s =
     (let res = copyN sink_Write n (buf w) (tx_w s);
          w1 = w\<lparr>buf := snd (fst res)\<rparr>;
          s1 = s\<lparr>tx_w := snd res, writers := fmupd csid w1 (writers s)\<rparr> in
      case fst (fst res) of
        Ok _ \<Rightarrow> bind_io (with_w sink_Flush) (\<lambda>_. return_io (buf w1 = [])) s1
      | Err e \<Rightarrow> (Err e, s1)
      | Panic p \<Rightarrow> (Panic p, s1))"

definition writeChunk :: "int \<Rightarrow> (chunkWriteSide, bool) io" where
  "writeChunk csid s =
     (case fmlookup (writers s) csid of
        None \<Rightarrow> (Panic ''nil writer'', s)
      | Some w0 \<Rightarrow>
          (let w = updateWriterHeader w0 in
           bind_io (with_w (encodeChunkBasicHeader sink_Write (basicHeader w))) (\<lambda>_.
           bind_io (with_w (encodeChunkMessageHeader sink_Write (bh_fmt (basicHeader w)) (messageHeader w))) (\<lambda>_.
           writeChunkPayload csid w (chunkSendLen (selfState s) w)))
             (s\<lparr>writers := fmupd csid w (writers s)\<rparr>)))"

section \<open>What one chunk puts on the wire\<close>

definition chunk_bytes :: "StreamControlState \<Rightarrow> chunkStreamWriter \<Rightarrow> byte list" where
  "chunk_bytes self w =
     basicHeader_bytes (basicHeader w) @ messageHeader_bytes (bh_fmt (basicHeader w)) (messageHeader w)
       @ take (chunkSendLen self w) (buf w)"

lemma updateWriterHeader_fmt: "valid_fmt (bh_fmt (basicHeader (updateWriterHeader w)))"
  by (auto simp: updateWriterHeader_def Let_def valid_fmt_def)

lemma updateWriterHeader_keeps [simp]:
  "buf (updateWriterHeader w) = buf w"
  "bh_chunkStreamID (basicHeader (updateWriterHeader w)) = bh_chunkStreamID (basicHeader w)"
  "timestamp (updateWriterHeader w) = timestamp w"
  "messageLength (updateWriterHeader w) = messageLength w"
  "messageTypeID (updateWriterHeader w) = messageTypeID w"
  "messageStreamID (updateWriterHeader w) = messageStreamID w"
  "doneClosed (updateWriterHeader w) = doneClosed w"
  "closeClosed (updateWriterHeader w) = closeClosed w"
  "lastErr (updateWriterHeader w) = lastErr w"
  "newChunk (updateWriterHeader w) = False"
  by (simp_all add: updateWriterHeader_def Let_def)

lemma updateWriterHeader_records [simp]:
  "mh_timestamp (messageHeader (updateWriterHeader w)) = timestamp w"
  "mh_timestampDelta (messageHeader (updateWriterHeader w)) = timestampDelta (updateWriterHeader w)"
  "mh_messageLength (messageHeader (updateWriterHeader w)) = messageLength w"
  "mh_messageTypeID (messageHeader (updateWriterHeader w)) = messageTypeID w"
  "mh_messageStreamID (messageHeader (updateWriterHeader w)) = messageStreamID w"
  by (auto simp: updateWriterHeader_def Let_def)

lemma chunkSendLen_update [simp]: "chunkSendLen self (updateWriterHeader w) = chunkSendLen self w"
  by (simp add: chunkSendLen_def)

lemma chunkSendLen_le: "chunkSendLen self w \<le> length (buf w)"
proof (cases "of_nat (length (buf w)) > chunkSize self")
  case True
  then have "unat (chunkSize self) < unat (of_nat (length (buf w)) :: uint32)"
    by (simp add: word_less_nat_alt)
  also have "\<dots> \<le> length (buf w)" by (simp add: unat_of_nat)
  finally show ?thesis using True by (simp add: chunkSendLen_def)
qed (simp add: chunkSendLen_def)

text \<open>On a connection that accepts everything, a chunk is written whole.\<close>

lemma writeChunk_writes:
  assumes w: "fmlookup (writers s) csid = Some w0" and csid: "valid_csid (bh_chunkStreamID (basicHeader w0))"
    and ok: "faults (tx_w s) = []"
  defines "w \<equiv> updateWriterHeader w0"
  shows "writeChunk csid s = (Ok (length (buf w0) \<le> chunkSendLen (selfState s) w0),
      s\<lparr>tx_w := \<lparr>out = out (tx_w s) @ chunk_bytes (selfState s) w, faults = []\<rparr>,
        writers := fmupd csid (w\<lparr>buf := drop (chunkSendLen (selfState s) w0) (buf w0)\<rparr>) (writers s)\<rparr>)"
proof -
  let ?f = "bh_fmt (basicHeader w)" and ?n = "chunkSendLen (selfState s) w0"
  define k0 where "k0 = tx_w s"
  define k1 where "k1 = snd (sink_Write (basicHeader_bytes (basicHeader w)) k0)"
  define k2 where "k2 = snd (encodeChunkMessageHeader sink_Write ?f (messageHeader w) k1)"
  have k1: "fst (sink_Write (basicHeader_bytes (basicHeader w)) k0) = Ok ()"
    "faults k1 = []" "out k1 = out k0 @ basicHeader_bytes (basicHeader w)"
    using sink.healthy_write [of k0] ok by (simp_all add: k1_def k0_def)
  have enc1: "encodeChunkBasicHeader sink_Write (basicHeader w)
      = sink_Write (basicHeader_bytes (basicHeader w))"
    using csid by (intro encodeChunkBasicHeader_writes) (simp add: w_def)
  have "fst (encodeChunkMessageHeader sink_Write ?f (messageHeader w) k1) = Ok ()
      \<and> faults k2 = [] \<and> out k2 = out k1 @ messageHeader_bytes ?f (messageHeader w)"
  proof (cases "?f = 3")
    case True
    then show ?thesis
      using k1 by (simp add: k2_def encodeChunkMessageHeader_def messageHeader_bytes_def)
  next
    case False
    then show ?thesis
      using sink.healthy_write [of k1] k1 updateWriterHeader_fmt [of w0]
      by (simp add: k2_def encodeChunkMessageHeader_writes w_def)
  qed
  then have enc2: "fst (encodeChunkMessageHeader sink_Write ?f (messageHeader w) k1) = Ok ()"
    and k2: "faults k2 = []" "out k2 = out k1 @ messageHeader_bytes ?f (messageHeader w)"
    by simp_all
  from sink.copyN_healthy [of k2 ?n "buf w0"] k2 chunkSendLen_le
  obtain k3 where k3: "copyN sink_Write ?n (buf w0) k2 = ((Ok (), drop ?n (buf w0)), k3)"
    "faults k3 = []" "out k3 = out k2 @ take ?n (buf w0)" by blast
  have k3_eq: "k3 = \<lparr>out = out k0 @ chunk_bytes (selfState s) w, faults = []\<rparr>"
    using k3 k2 k1 by (cases k3) (simp add: chunk_bytes_def w_def)
  show ?thesis
    using w k1 enc2 k3
    by (simp add: writeChunk_def Let_def bind_io_def enc1 writeChunkPayload_def flip: w_def k0_def k1_def k2_def)
      (simp add: k3_eq w_def k0_def bind_io_def)
qed

end
