(* ===== verification/Write_Sched.thy ===== *)
theory Write_Sched
  imports Chunk_Read Chunk_Write
begin

text \<open>
  The concurrency of writing (\<^verbatim>\<open>chunk_streamer.go\<close>, \<^verbatim>\<open>chunk_stream_writer.go\<close>): goroutines that
  call \<^verbatim>\<open>ChunkStreamer.Write\<close>, the bounded queue of writers, and the one goroutine that runs
  \<^verbatim>\<open>chunkStreamerWriterSched.Run\<close>. Each step below is what a goroutine does between two points
  at which others can run; a step that blocks is not enabled.
\<close>

section \<open>State\<close>

abbreviation maxWriterQueueSize :: nat where "maxWriterQueueSize \<equiv> 64"

text \<open>
  Where a call of \<^verbatim>\<open>Write\<close> is: it has its writer; it holds \<^verbatim>\<open>aqM\<close> and waits in \<^verbatim>\<open>select\<close>; it has
  acquired the writer; it has pointed the shared encoder at the writer; it has encoded the
  message; it has filled in the header fields and set \<^verbatim>\<open>newChunk\<close>; it has returned.
\<close>

datatype callPhase = CallPrepared | CallWaiting | CallAcquired | CallEncoding | CallEncoded
  | CallFilled | CallReturned "unit result"

record writeCall =
  wc_csid :: int
  wc_timestamp :: uint32
  wc_cmsg :: ChunkMessage
  wc_phase :: callPhase

text \<open>
  The write loop waits for work, is about to put a writer back into the queue, or has ended;
  then \<^verbatim>\<open>cs.err\<close> is set and \<^verbatim>\<open>cs.done\<close> is closed.
\<close>

datatype loopPhase = LoopReceiving | LoopRequeue int | LoopEnded "rtmp_error option"

record streamerSystem =
  tx :: chunkWriteSide
  queue :: "int list"
  encTarget :: "int option"
  calls :: "nat \<Rightarrow> writeCall option"
  loop :: loopPhase
  stopClosed :: bool

definition NewChunkStreamer_system :: "netSink \<Rightarrow> StreamControlStateConfig option \<Rightarrow> streamerSystem" where
  "NewChunkStreamer_system w config =
     (let c = (case config of None \<Rightarrow> defaultStreamControlStateConfig | Some c \<Rightarrow> c) in
      \<lparr>tx = \<lparr>tx_w = w, writers = fmempty, selfState = NewStreamControlState (Some c), tx_config = c\<rparr>,
       queue = [], encTarget = None, calls = (\<lambda>_. None), loop = LoopReceiving, stopClosed = False\<rparr>)"

section \<open>\<^verbatim>\<open>ChunkStreamWriter.Wait\<close>\<close>

text \<open>
  The arms of the \<^verbatim>\<open>select\<close>, each if it is ready. Acquiring replaces \<^verbatim>\<open>doneCh\<close> by an open
  channel. The arm of \<^verbatim>\<open>closeCh\<close> returns \<^verbatim>\<open>w.lastErr\<close>, which may be nil.
\<close>

definition wait_done :: "chunkStreamWriter \<Rightarrow> (unit result \<times> chunkStreamWriter) option" where
  "wait_done w =
     (if doneClosed w then
        Some (case lastErr w of Some e \<Rightarrow> (Err e, w) | None \<Rightarrow> (Ok (), w\<lparr>doneClosed := False\<rparr>))
      else None)"

definition wait_closed :: "chunkStreamWriter \<Rightarrow> (unit result \<times> chunkStreamWriter) option" where
  "wait_closed w =
     (if closeClosed w then Some (case lastErr w of Some e \<Rightarrow> Err e | None \<Rightarrow> Ok (), w) else None)"

definition wait_expired :: "chunkStreamWriter \<Rightarrow> (unit result \<times> chunkStreamWriter) option" where
  "wait_expired w = Some (Err ErrDeadlineExceeded, w)"

section \<open>\<^verbatim>\<open>ChunkStreamer.Write\<close>, step by step\<close>

definition set_call :: "nat \<Rightarrow> writeCall \<Rightarrow> callPhase \<Rightarrow> streamerSystem \<Rightarrow> streamerSystem" where
  "set_call i c p S = S\<lparr>calls := (calls S)(i \<mapsto> c\<lparr>wc_phase := p\<rparr>)\<rparr>"

definition put_writer :: "int \<Rightarrow> chunkStreamWriter \<Rightarrow> streamerSystem \<Rightarrow> streamerSystem" where
  "put_writer csid w S = S\<lparr>tx := (tx S)\<lparr>writers := fmupd csid w (writers (tx S))\<rparr>\<rparr>"

definition call_enter :: "nat \<Rightarrow> int \<Rightarrow> uint32 \<Rightarrow> ChunkMessage \<Rightarrow> streamerSystem \<Rightarrow> streamerSystem" where
  "call_enter i csid ts cmsg S =
     (let c = \<lparr>wc_csid = csid, wc_timestamp = ts, wc_cmsg = cmsg, wc_phase = CallPrepared\<rparr> in
      case wrap_io ''Failed to prepare chunk writer'' (prepareChunkWriter csid) (tx S) of
        (Ok _, s) \<Rightarrow> set_call i c CallPrepared (S\<lparr>tx := s\<rparr>)
      | (Err e, s) \<Rightarrow> set_call i c (CallReturned (Err e)) (S\<lparr>tx := s\<rparr>)
      | (Panic p, s) \<Rightarrow> set_call i c (CallReturned (Panic p)) (S\<lparr>tx := s\<rparr>))"

text \<open>The outcome of \<^verbatim>\<open>Wait\<close>; \<^verbatim>\<open>NewChunkWriter\<close> wraps its error.\<close>

definition call_wait :: "(chunkStreamWriter \<Rightarrow> (unit result \<times> chunkStreamWriter) option)
    \<Rightarrow> nat \<Rightarrow> writeCall \<Rightarrow> streamerSystem \<Rightarrow> streamerSystem option" where
  "call_wait arm i c S =
     (case fmlookup (writers (tx S)) (wc_csid c) of
        None \<Rightarrow> None
      | Some w \<Rightarrow>
          (case arm w of
             None \<Rightarrow> None
           | Some (Ok _, w') \<Rightarrow> Some (set_call i c CallAcquired (put_writer (wc_csid c) w' S))
           | Some (Err e, w') \<Rightarrow>
               Some (set_call i c (CallReturned (Err (Wrapf e ''Failed to wait chunk writer''))) (put_writer (wc_csid c) w' S))
           | Some (Panic p, w') \<Rightarrow> Some (set_call i c (CallReturned (Panic p)) (put_writer (wc_csid c) w' S))))"

text \<open>\<^verbatim>\<open>cs.msgEnc.Reset(writer)\<close>: there is one encoder, shared by all callers.\<close>

definition call_reset :: "nat \<Rightarrow> writeCall \<Rightarrow> streamerSystem \<Rightarrow> streamerSystem" where
  "call_reset i c S = set_call i c CallEncoding (S\<lparr>encTarget := Some (wc_csid c)\<rparr>)"

text \<open>\<^verbatim>\<open>cs.msgEnc.Encode(cmsg.Message)\<close>, into whatever writer the encoder points at now.\<close>

definition call_encode :: "amf0 \<Rightarrow> nat \<Rightarrow> writeCall \<Rightarrow> streamerSystem \<Rightarrow> streamerSystem" where
  "call_encode amf i c S =
     (case Option.bind (encTarget S) (fmlookup (writers (tx S))) of
        None \<Rightarrow> set_call i c (CallReturned (Panic ''nil writer'')) S
      | Some w \<Rightarrow>
          (case message_Encode amf (cm_Message (wc_cmsg c)) (buf w) of
             (r, b) \<Rightarrow>
               set_call i c (case r of Ok _ \<Rightarrow> CallEncoded | Err e \<Rightarrow> CallReturned (Err e) | Panic p \<Rightarrow> CallReturned (Panic p))
                 (put_writer (the (encTarget S)) (w\<lparr>buf := b\<rparr>) S)))"

text \<open>The header fields, and \<^verbatim>\<open>writer.newChunk = true\<close> of \<^verbatim>\<open>ChunkStreamer.Sched\<close>.\<close>

definition fill_writer :: "uint32 \<Rightarrow> byte \<Rightarrow> uint32 \<Rightarrow> chunkStreamWriter \<Rightarrow> chunkStreamWriter" where
  "fill_writer ts ty sid w = w\<lparr>timestamp := ts, messageLength := of_nat (length (buf w)),
     messageTypeID := ty, messageStreamID := sid, newChunk := True\<rparr>"

definition call_fill :: "nat \<Rightarrow> writeCall \<Rightarrow> streamerSystem \<Rightarrow> streamerSystem" where
  "call_fill i c S =
     (case fmlookup (writers (tx S)) (wc_csid c) of
        None \<Rightarrow> set_call i c (CallReturned (Panic ''nil writer'')) S
      | Some w \<Rightarrow>
          (case message_TypeID (cm_Message (wc_cmsg c)) of
             Ok ty \<Rightarrow> set_call i c CallFilled (put_writer (wc_csid c)
                        (fill_writer (wc_timestamp c) ty (cm_StreamID (wc_cmsg c)) w) S)
           | Err e \<Rightarrow> set_call i c (CallReturned (Err e)) S
           | Panic p \<Rightarrow> set_call i c (CallReturned (Panic p)) S))"

text \<open>\<^verbatim>\<open>sched.writers <- writer\<close>: a send on a channel blocks while its buffer is full.\<close>

definition enqueue :: "int \<Rightarrow> streamerSystem \<Rightarrow> streamerSystem option" where
  "enqueue csid S = (if length (queue S) < maxWriterQueueSize then Some (S\<lparr>queue := queue S @ [csid]\<rparr>) else None)"

definition call_sched :: "nat \<Rightarrow> writeCall \<Rightarrow> streamerSystem \<Rightarrow> streamerSystem option" where
  "call_sched i c S = map_option (set_call i c (CallReturned (Ok ()))) (enqueue (wc_csid c) S)"

section \<open>\<^verbatim>\<open>Run\<close> and \<^verbatim>\<open>schedWriteLoop\<close>\<close>

text \<open>\<^verbatim>\<open>close(writer.doneCh)\<close> panics when the channel is closed already.\<close>

definition closeDone :: "int \<Rightarrow> (chunkWriteSide, unit) io" where
  "closeDone csid s =
     (case fmlookup (writers s) csid of
        None \<Rightarrow> (Panic ''nil writer'', s)
      | Some w \<Rightarrow> (if doneClosed w then (Panic ''close of closed channel'', s)
                   else (Ok (), s\<lparr>writers := fmupd csid (w\<lparr>doneClosed := True\<rparr>) (writers s)\<rparr>)))"

definition setLastErr :: "int \<Rightarrow> rtmp_error \<Rightarrow> chunkWriteSide \<Rightarrow> chunkWriteSide" where
  "setLastErr csid e s = s\<lparr>writers := (case fmlookup (writers s) csid of None \<Rightarrow> writers s
     | Some w \<Rightarrow> fmupd csid (w\<lparr>lastErr := Some e\<rparr>) (writers s))\<rparr>"

text \<open>\<^verbatim>\<open>forceCloseWriters\<close>: \<^verbatim>\<open>closeCh\<close> of every writer in the table; \<^verbatim>\<open>lastErr\<close> stays as it is.\<close>

definition forceCloseWriters :: "chunkWriteSide \<Rightarrow> chunkWriteSide" where
  "forceCloseWriters s = s\<lparr>writers := fmmap (\<lambda>w. w\<lparr>closeClosed := True\<rparr>) (writers s)\<rparr>"

text \<open>
  One turn of the loop: \<open>Ok\<close> whether the message is complete, \<open>Err\<close> the error that ends the
  loop. A panic is recovered and ends the loop with an error, too.
\<close>

definition runTurn :: "int \<Rightarrow> (chunkWriteSide, bool) io" where
  "runTurn csid s =
     (case writeChunk csid s of
        (Err e, s1) \<Rightarrow> bind_io (closeDone csid) (\<lambda>_. fail_io e) (setLastErr csid e s1)
      | (Ok isCompleted, s1) \<Rightarrow>
          (if isCompleted then bind_io (closeDone csid) (\<lambda>_. return_io True) s1 else (Ok False, s1))
      | (Panic p, s1) \<Rightarrow> (Panic p, s1))"

definition loop_take :: "streamerSystem \<Rightarrow> streamerSystem option" where
  "loop_take S =
     (case (loop S, queue S) of
        (LoopReceiving, csid # q) \<Rightarrow>
          (case recovered (runTurn csid (tx S)) of
             (Ok True, s) \<Rightarrow> Some (S\<lparr>tx := s, queue := q\<rparr>)
           | (Ok False, s) \<Rightarrow> Some (S\<lparr>tx := s, queue := q, loop := LoopRequeue csid\<rparr>)
           | (Err e, s) \<Rightarrow> Some (S\<lparr>tx := forceCloseWriters s, queue := q, loop := LoopEnded (Some e)\<rparr>)
           | (Panic p, s) \<Rightarrow> None)
      | _ \<Rightarrow> None)"

definition loop_requeue :: "streamerSystem \<Rightarrow> streamerSystem option" where
  "loop_requeue S =
     (case loop S of
        LoopRequeue csid \<Rightarrow> map_option (\<lambda>S. S\<lparr>loop := LoopReceiving\<rparr>) (enqueue csid S)
      | _ \<Rightarrow> None)"

definition loop_stop :: "streamerSystem \<Rightarrow> streamerSystem option" where
  "loop_stop S = (if loop S = LoopReceiving \<and> stopClosed S then Some (S\<lparr>loop := LoopEnded None\<rparr>) else None)"

text \<open>\<^verbatim>\<open>ChunkStreamer.Close\<close>; closing twice is a panic of the caller and no step.\<close>

definition streamer_Close :: "streamerSystem \<Rightarrow> streamerSystem option" where
  "streamer_Close S = (if stopClosed S then None else Some (S\<lparr>stopClosed := True\<rparr>))"

section \<open>The system\<close>

datatype event =
    EnterWrite nat int uint32 ChunkMessage
  | LockWait nat
  | WaitDone nat
  | WaitClosed nat
  | WaitExpired nat
  | ResetEncoder nat
  | EncodeMessage nat
  | FillHeader nat
  | SchedWriter nat
  | LoopTake
  | LoopRequeued
  | LoopStop
  | CloseStreamer

text \<open>A call of phase \<open>p\<close> by goroutine \<open>i\<close>.\<close>

definition call_at :: "streamerSystem \<Rightarrow> nat \<Rightarrow> callPhase \<Rightarrow> writeCall option" where
  "call_at S i p = (case calls S i of Some c \<Rightarrow> if wc_phase c = p then Some c else None | None \<Rightarrow> None)"

text \<open>What an event does; \<open>None\<close>: it cannot happen now. The lock \<^verbatim>\<open>aqM\<close> is in \<open>sys_step\<close>.\<close>

fun exec :: "amf0 \<Rightarrow> event \<Rightarrow> streamerSystem \<Rightarrow> streamerSystem option" where
  "exec amf (EnterWrite i csid ts cmsg) S =
     (if calls S i = None then Some (call_enter i csid ts cmsg S) else None)"
| "exec amf (LockWait i) S = map_option (\<lambda>c. set_call i c CallWaiting S) (call_at S i CallPrepared)"
| "exec amf (WaitDone i) S = Option.bind (call_at S i CallWaiting) (\<lambda>c. call_wait wait_done i c S)"
| "exec amf (WaitClosed i) S = Option.bind (call_at S i CallWaiting) (\<lambda>c. call_wait wait_closed i c S)"
| "exec amf (WaitExpired i) S = Option.bind (call_at S i CallWaiting) (\<lambda>c. call_wait wait_expired i c S)"
| "exec amf (ResetEncoder i) S = map_option (\<lambda>c. call_reset i c S) (call_at S i CallAcquired)"
| "exec amf (EncodeMessage i) S = map_option (\<lambda>c. call_encode amf i c S) (call_at S i CallEncoding)"
| "exec amf (FillHeader i) S = map_option (\<lambda>c. call_fill i c S) (call_at S i CallEncoded)"
| "exec amf (SchedWriter i) S = Option.bind (call_at S i CallFilled) (\<lambda>c. call_sched i c S)"
| "exec amf LoopTake S = loop_take S"
| "exec amf LoopRequeued S = loop_requeue S"
| "exec amf LoopStop S = loop_stop S"
| "exec amf CloseStreamer S = streamer_Close S"

text \<open>\<^verbatim>\<open>w.aqM.Lock()\<close>: at most one call waits in the \<^verbatim>\<open>select\<close> of a writer.\<close>

definition lock_free :: "int \<Rightarrow> streamerSystem \<Rightarrow> bool" where
  "lock_free csid S \<longleftrightarrow> (\<forall>j c. calls S j = Some c \<longrightarrow> wc_phase c = CallWaiting \<longrightarrow> wc_csid c \<noteq> csid)"

inductive sys_step :: "amf0 \<Rightarrow> event \<Rightarrow> streamerSystem \<Rightarrow> streamerSystem \<Rightarrow> bool" for amf where
  lock: "exec amf (LockWait i) S = Some S' \<Longrightarrow> calls S i = Some c \<Longrightarrow> lock_free (wc_csid c) S
     \<Longrightarrow> sys_step amf (LockWait i) S S'"
| other: "exec amf ev S = Some S' \<Longrightarrow> (\<And>i. ev \<noteq> LockWait i) \<Longrightarrow> sys_step amf ev S S'"

inductive reachable :: "amf0 \<Rightarrow> streamerSystem \<Rightarrow> streamerSystem \<Rightarrow> bool" for amf S0 where
  init: "reachable amf S0 S0"
| step: "reachable amf S0 S \<Longrightarrow> sys_step amf ev S S' \<Longrightarrow> reachable amf S0 S'"

inductive_cases sys_stepE: "sys_step amf ev S S'"

lemma sys_step_exec: "sys_step amf ev S S' \<Longrightarrow> exec amf ev S = Some S'"
  by (auto elim: sys_stepE)

section \<open>One owner\<close>

text \<open>
  Between \<^verbatim>\<open>Wait\<close> and the last chunk a writer belongs to one call, or to the queue, or to the
  loop. This holds until the loop ends with an error; then \<^verbatim>\<open>closeCh\<close> lets callers through.
\<close>

definition owning :: "callPhase \<Rightarrow> bool" where
  "owning p \<longleftrightarrow> p = CallAcquired \<or> p = CallEncoding \<or> p = CallEncoded \<or> p = CallFilled"

lemma owning_simps [simp]:
  "owning CallAcquired" "owning CallEncoding" "owning CallEncoded" "owning CallFilled"
  "\<not> owning CallPrepared" "\<not> owning CallWaiting" "\<not> owning (CallReturned r)"
  by (simp_all add: owning_def)

definition owns :: "streamerSystem \<Rightarrow> nat \<Rightarrow> int \<Rightarrow> bool" where
  "owns S i csid \<longleftrightarrow> (case calls S i of Some c \<Rightarrow> wc_csid c = csid \<and> owning (wc_phase c) | None \<Rightarrow> False)"

definition pipeline :: "streamerSystem \<Rightarrow> int list" where
  "pipeline S = (case loop S of LoopRequeue csid \<Rightarrow> [csid] | _ \<Rightarrow> []) @ queue S"

definition flags :: "chunkWriteSide \<Rightarrow> int \<Rightarrow> (bool \<times> bool) option" where
  "flags s csid = map_option (\<lambda>w. (doneClosed w, closeClosed w)) (fmlookup (writers s) csid)"

definition running :: "streamerSystem \<Rightarrow> bool" where
  "running S \<longleftrightarrow> (\<forall>e. loop S \<noteq> LoopEnded (Some e))"

definition exclusive :: "streamerSystem \<Rightarrow> bool" where
  "exclusive S \<longleftrightarrow>
     distinct (pipeline S)
     \<and> (\<forall>csid \<in> set (pipeline S). flags (tx S) csid = Some (False, False) \<and> (\<forall>i. \<not> owns S i csid))
     \<and> (\<forall>i csid. owns S i csid \<longrightarrow> flags (tx S) csid = Some (False, False))
     \<and> (\<forall>i j csid. owns S i csid \<longrightarrow> owns S j csid \<longrightarrow> i = j)
     \<and> (\<forall>csid d. flags (tx S) csid \<noteq> Some (d, True))"

text \<open>What the operations do to flags and owners.\<close>

lemma set_call_simps [simp]:
  "tx (set_call i c p S) = tx S" "queue (set_call i c p S) = queue S" "loop (set_call i c p S) = loop S"
  "pipeline (set_call i c p S) = pipeline S" "stopClosed (set_call i c p S) = stopClosed S"
  "encTarget (set_call i c p S) = encTarget S"
  "calls (set_call i c p S) = (calls S)(i \<mapsto> c\<lparr>wc_phase := p\<rparr>)"
  by (simp_all add: set_call_def pipeline_def)

lemma put_writer_simps [simp]:
  "queue (put_writer k w S) = queue S" "loop (put_writer k w S) = loop S"
  "calls (put_writer k w S) = calls S" "pipeline (put_writer k w S) = pipeline S"
  "stopClosed (put_writer k w S) = stopClosed S" "encTarget (put_writer k w S) = encTarget S"
  "writers (tx (put_writer k w S)) = fmupd k w (writers (tx S))"
  "tx_config (tx (put_writer k w S)) = tx_config (tx S)"
  "selfState (tx (put_writer k w S)) = selfState (tx S)" "tx_w (tx (put_writer k w S)) = tx_w (tx S)"
  by (simp_all add: put_writer_def pipeline_def)

lemma owns_set_call [simp]:
  "owns (set_call i c p S) j csid = (if j = i then wc_csid c = csid \<and> owning p else owns S j csid)"
  by (simp add: owns_def)

lemma owns_put_writer [simp]: "owns (put_writer k w S) = owns S"
  by (simp add: owns_def fun_eq_iff)

lemma owns_cong: "calls S = calls S' \<Longrightarrow> owns S = owns S'"
  by (simp add: owns_def fun_eq_iff)

lemma flags_put_writer [simp]:
  "flags (tx (put_writer k w S)) csid = (if csid = k then Some (doneClosed w, closeClosed w) else flags (tx S) csid)"
  by (simp add: flags_def)

lemma call_at_Some: "call_at S i p = Some c \<longleftrightarrow> calls S i = Some c \<and> wc_phase c = p"
  by (auto simp: call_at_def split: option.splits)

lemma call_at_owns: "call_at S i p = Some c \<Longrightarrow> owning p \<Longrightarrow> owns S i (wc_csid c)"
  by (simp add: call_at_Some owns_def)

lemma writeChunk_table:
  assumes "fmlookup (writers s) csid = Some w"
  shows "\<exists>b. writers (snd (writeChunk csid s)) = fmupd csid (updateWriterHeader w\<lparr>buf := b\<rparr>) (writers s)"
proof -
  have twice: "fmupd csid v (fmupd csid u m) = fmupd csid v m" for u v :: chunkStreamWriter and m
    by (rule fmap_ext) simp
  define u where "u = updateWriterHeader w"
  have id: "\<exists>b. fmupd csid u (writers s) = fmupd csid (u\<lparr>buf := b\<rparr>) (writers s)"
    by (rule exI [of _ "buf u"]) simp
  have "\<exists>b. writers (snd (writeChunkPayload csid u n s1)) = fmupd csid (u\<lparr>buf := b\<rparr>) (writers s)"
    if "writers s1 = fmupd csid u (writers s)" for n s1
    using that by (auto simp: writeChunkPayload_def Let_def bind_io_def twice split: result.splits)
  then show ?thesis
    using assms id
    by (auto simp: writeChunk_def Let_def bind_io_def simp flip: u_def split: result.splits)
qed

lemma writeChunk_flags [simp]: "flags (snd (writeChunk csid s)) = flags s"
proof (cases "fmlookup (writers s) csid")
  case None
  then show ?thesis by (simp add: writeChunk_def)
next
  case (Some w)
  then show ?thesis
    using writeChunk_table [OF Some] by (auto simp: flags_def fun_eq_iff)
qed

lemma closeDone_flags:
  assumes "flags s csid = Some (False, c)"
  shows "fst (closeDone csid s) = Ok ()"
    and "flags (snd (closeDone csid s)) = (flags s)(csid \<mapsto> (True, c))"
  using assms by (auto simp: closeDone_def flags_def fun_eq_iff split: option.splits)

lemma prepareChunkWriter_flags:
  "flags (snd (prepareChunkWriter csid s)) =
     (if flags s csid = None \<and> is_Ok (fst (prepareChunkWriter csid s)) then (flags s)(csid \<mapsto> (True, False)) else flags s)"
  by (auto simp: prepareChunkWriter_def flags_def fun_eq_iff new_writer_def chunkStreamReader.extend_def
      split: option.splits)

text \<open>A turn of the loop on a writer that is not done never panics in \<^verbatim>\<open>close\<close>.\<close>

lemma runTurn_flags:
  assumes "flags s csid = Some (False, c)"
  shows "fst (runTurn csid s) = Ok True \<Longrightarrow> flags (snd (runTurn csid s)) = (flags s)(csid \<mapsto> (True, c))"
    and "fst (runTurn csid s) = Ok False \<Longrightarrow> flags (snd (runTurn csid s)) = flags s"
proof -
  have f: "flags (snd (writeChunk csid s)) csid = Some (False, c)" using assms by simp
  note cd = closeDone_flags [OF f]
  show "fst (runTurn csid s) = Ok True \<Longrightarrow> flags (snd (runTurn csid s)) = (flags s)(csid \<mapsto> (True, c))"
    using cd writeChunk_flags [of csid s] by (cases "writeChunk csid s")
      (auto simp: runTurn_def bind_io_def split: result.splits if_splits)
  show "fst (runTurn csid s) = Ok False \<Longrightarrow> flags (snd (runTurn csid s)) = flags s"
    using writeChunk_flags [of csid s]
    by (cases "writeChunk csid s") (auto simp: runTurn_def bind_io_def split: result.splits if_splits)
qed

text \<open>Steps that only move a call on, without a new owner, and keep the flags.\<close>

lemma exclusive_keep:
  assumes "exclusive S" and "pipeline S' = pipeline S" and "flags (tx S') = flags (tx S)"
    and "\<And>i csid. owns S' i csid \<Longrightarrow> owns S i csid"
  shows "exclusive S'"
  using assms unfolding exclusive_def by (metis (no_types, lifting))

lemma flags_put_same:
  assumes "fmlookup (writers (tx S)) k = Some w" and "doneClosed w' = doneClosed w" "closeClosed w' = closeClosed w"
  shows "flags (tx (put_writer k w' S)) = flags (tx S)"
proof -
  have "flags (tx S) k = Some (doneClosed w, closeClosed w)" using assms by (simp add: flags_def)
  then show ?thesis using assms by (simp add: fun_eq_iff)
qed

lemma enter_exclusive:
  assumes "exclusive S" and "calls S i = None"
  shows "exclusive (call_enter i csid ts cmsg S)"
proof -
  define r where "r = prepareChunkWriter csid (tx S)"
  define S1 where "S1 = S\<lparr>tx := snd r\<rparr>"
  obtain c p where c: "call_enter i csid ts cmsg S = set_call i c p S1" "\<not> owning p"
    unfolding call_enter_def Let_def wrap_io_def r_def S1_def
    by (cases "prepareChunkWriter csid (tx S)"; cases "fst (prepareChunkWriter csid (tx S))") auto
  have "flags (snd r) k = flags (tx S) k \<or> flags (tx S) k = None \<and> flags (snd r) k = Some (True, False)" for k
    unfolding r_def prepareChunkWriter_flags by simp
  then have fl: "flags (tx S1) k = flags (tx S) k \<or> flags (tx S) k = None \<and> flags (tx S1) k = Some (True, False)" for k
    by (simp add: S1_def)
  have ow: "owns S1 = owns S" "pipeline S1 = pipeline S"
    by (auto simp: S1_def pipeline_def intro: owns_cong)
  show ?thesis
    unfolding c(1) exclusive_def
    using assms(1) fl c(2) unfolding exclusive_def
    by (auto simp: ow split: if_splits) (metis option.distinct(1) option.inject prod.inject)+
qed

lemma wait_exclusive:
  assumes ex: "exclusive S" and at: "call_at S i CallWaiting = Some c"
    and arm: "arm = wait_done \<or> arm = wait_closed \<or> arm = wait_expired"
    and st: "call_wait arm i c S = Some S'"
  shows "exclusive S'"
proof -
  obtain w r w' where w: "fmlookup (writers (tx S)) (wc_csid c) = Some w" and r: "arm w = Some (r, w')"
    using st by (auto simp: call_wait_def split: option.splits)
  have fl: "flags (tx S) (wc_csid c) = Some (doneClosed w, closeClosed w)" using w by (simp add: flags_def)
  have nc: "\<not> closeClosed w" using ex fl by (auto simp: exclusive_def)
  have no: "\<not> owns S i k" for k using at by (auto simp: call_at_Some owns_def)
  show ?thesis
  proof (cases r)
    case (Ok u)
    with arm r nc have d: "doneClosed w" "w' = w\<lparr>doneClosed := False\<rparr>"
      by (auto simp: wait_done_def wait_closed_def wait_expired_def split: if_splits option.splits)
    have S': "S' = set_call i c CallAcquired (put_writer (wc_csid c) w' S)"
      using st w r Ok by (simp add: call_wait_def)
    have free: "wc_csid c \<notin> set (pipeline S)" "\<not> owns S j (wc_csid c)" for j
      using ex fl d(1) by (auto simp: exclusive_def)
    show ?thesis
      unfolding S' exclusive_def
      using ex free no nc d unfolding exclusive_def by auto
  next
    case (Err e)
    with arm r have "w' = w"
      by (auto simp: wait_done_def wait_closed_def wait_expired_def split: if_splits option.splits)
    then show ?thesis
      using st w r Err flags_put_same [OF w]
      by (auto simp: call_wait_def intro!: exclusive_keep [OF ex] split: if_splits)
  next
    case (Panic p)
    with arm r show ?thesis
      by (auto simp: wait_done_def wait_closed_def wait_expired_def split: if_splits option.splits)
  qed
qed

lemma encode_exclusive:
  assumes ex: "exclusive S" and at: "call_at S i CallEncoding = Some c"
  shows "exclusive (call_encode amf i c S)"
proof -
  have own: "owns S i (wc_csid c)" using call_at_owns [OF at] by simp
  show ?thesis
    using own flags_put_same
    by (auto simp: call_encode_def Option.bind_eq_Some_conv intro!: exclusive_keep [OF ex]
        split: option.splits result.splits prod.splits if_splits)
qed

lemma fill_exclusive:
  assumes ex: "exclusive S" and at: "call_at S i CallEncoded = Some c"
  shows "exclusive (call_fill i c S)"
proof -
  have own: "owns S i (wc_csid c)" using call_at_owns [OF at] by simp
  show ?thesis
    using own flags_put_same
    by (auto simp: call_fill_def fill_writer_def intro!: exclusive_keep [OF ex]
        split: option.splits result.splits if_splits)
qed

lemma sched_exclusive:
  assumes ex: "exclusive S" and at: "call_at S i CallFilled = Some c" and st: "call_sched i c S = Some S'"
  shows "exclusive S'"
proof -
  have own: "owns S i (wc_csid c)" using call_at_owns [OF at] by simp
  have S': "S' = set_call i c (CallReturned (Ok ())) (S\<lparr>queue := queue S @ [wc_csid c]\<rparr>)"
    using st by (auto simp: call_sched_def enqueue_def split: if_splits)
  have pl: "pipeline S' = pipeline S @ [wc_csid c]" by (simp add: S' pipeline_def)
  have ow: "owns S' j k \<longleftrightarrow> j \<noteq> i \<and> owns S j k" for j k by (simp add: S' owns_def)
  have fl: "tx S' = tx S" by (simp add: S')
  show ?thesis
    unfolding exclusive_def pl fl ow using ex own unfolding exclusive_def by auto
qed

lemma loop_take_exclusive:
  assumes ex: "exclusive S" and st: "loop_take S = Some S'" and run: "running S'"
  shows "exclusive S'"
proof -
  obtain csid q where l: "loop S = LoopReceiving" and q: "queue S = csid # q"
    using st by (auto simp: loop_take_def split: loopPhase.splits list.splits)
  have pl: "pipeline S = csid # q" using l q by (simp add: pipeline_def)
  then have fl: "flags (tx S) csid = Some (False, False)" using ex by (auto simp: exclusive_def)
  note rt = runTurn_flags [OF fl]
  show ?thesis
  proof (cases "fst (runTurn csid (tx S))")
    case (Ok b)
    show ?thesis
    proof (cases b)
      case True
      have S': "S' = S\<lparr>tx := snd (runTurn csid (tx S)), queue := q\<rparr>"
        using st l q Ok True by (simp add: loop_take_def recovered_def)
      have "pipeline S' = q" "owns S' = owns S" using l by (auto simp: S' pipeline_def intro: owns_cong)
      then show ?thesis
        using ex rt(1) Ok True pl unfolding exclusive_def by (auto simp: S')
    next
      case False
      have S': "S' = S\<lparr>tx := snd (runTurn csid (tx S)), queue := q, loop := LoopRequeue csid\<rparr>"
        using st l q Ok False by (simp add: loop_take_def recovered_def)
      have "pipeline S' = pipeline S" "owns S' = owns S"
        using pl by (auto simp: S' pipeline_def intro: owns_cong)
      then show ?thesis
        using ex rt(2) Ok False by (intro exclusive_keep [OF ex]) (auto simp: S')
    qed
  next
    case (Err e)
    then show ?thesis using st l q run by (auto simp: loop_take_def recovered_def running_def)
  next
    case (Panic p)
    then show ?thesis using st l q run by (auto simp: loop_take_def recovered_def running_def)
  qed
qed

lemma exec_exclusive:
  assumes "exclusive S" and "exec amf ev S = Some S'" and "running S'"
  shows "exclusive S'"
proof (cases ev)
  case (LoopRequeued)
  then obtain csid where l: "loop S = LoopRequeue csid"
    and S': "S' = S\<lparr>queue := queue S @ [csid], loop := LoopReceiving\<rparr>"
    using assms by (auto simp: loop_requeue_def enqueue_def split: loopPhase.splits if_splits)
  have "distinct (pipeline S')" "set (pipeline S') = set (pipeline S)" "owns S' = owns S" "tx S' = tx S"
    using assms(1) l by (auto simp: S' pipeline_def exclusive_def intro: owns_cong)
  then show ?thesis using assms(1) unfolding exclusive_def by auto
next
  case (ResetEncoder i)
  then show ?thesis
    using assms call_at_owns [of S i CallAcquired]
    by (auto simp: call_reset_def pipeline_def owns_def intro!: exclusive_keep [OF assms(1)] split: if_splits)
next
  case (LoopStop)
  then show ?thesis
    using assms by (auto simp: loop_stop_def pipeline_def owns_def intro!: exclusive_keep [OF assms(1)] split: if_splits)
next
  case (CloseStreamer)
  then show ?thesis
    using assms by (auto simp: streamer_Close_def pipeline_def owns_def intro!: exclusive_keep [OF assms(1)] split: if_splits)
next
  case (LockWait i)
  then show ?thesis
    using assms by (auto intro!: exclusive_keep [OF assms(1)] split: if_splits)
qed (use assms in \<open>auto simp: Option.bind_eq_Some_conv split: if_splits
       intro: enter_exclusive wait_exclusive encode_exclusive fill_exclusive sched_exclusive loop_take_exclusive\<close>)

section \<open>The queue\<close>

text \<open>
  The queue never holds more than its capacity, and every writer in it is in the table. As the
  writers of the pipeline are distinct, the loop can always put a writer back when the table
  cannot hold more writers than the queue.
\<close>

definition queue_ok :: "streamerSystem \<Rightarrow> bool" where
  "queue_ok S \<longleftrightarrow> length (queue S) \<le> maxWriterQueueSize
     \<and> int (fcard (fmdom (writers (tx S)))) \<le> max 0 (cfg_MaxChunkStreams (tx_config (tx S)))"

definition sized :: "chunkWriteSide \<Rightarrow> chunkWriteSide \<Rightarrow> bool" where
  "sized s s' \<longleftrightarrow> fmdom (writers s') = fmdom (writers s) \<and> tx_config s' = tx_config s"

lemma sized_put: "fmlookup (writers (tx S)) k = Some w \<Longrightarrow> sized (tx S) (tx (put_writer k w' S))"
  by (auto simp: sized_def fmlookup_dom_iff)

lemma sized_refl [simp]: "sized s s"
  by (simp add: sized_def)

lemma sized_trans: "sized s s' \<Longrightarrow> sized s' s'' \<Longrightarrow> sized s s''"
  by (simp add: sized_def)

lemma writeChunk_sized: "sized s (snd (writeChunk csid s))"
proof (cases "fmlookup (writers s) csid")
  case None
  then show ?thesis by (simp add: writeChunk_def)
next
  case (Some w)
  have "tx_config (snd (writeChunk csid s)) = tx_config s"
    using Some by (auto simp: writeChunk_def Let_def bind_io_def writeChunkPayload_def split: result.splits)
  then show ?thesis
    using writeChunk_table [OF Some] Some by (auto simp: sized_def fmlookup_dom_iff)
qed

lemma closeDone_sized: "sized s (snd (closeDone csid s))"
  by (auto simp: closeDone_def sized_def fmlookup_dom_iff split: option.splits)

lemma setLastErr_sized: "sized s (setLastErr csid e s)"
  by (auto simp: setLastErr_def sized_def fmlookup_dom_iff split: option.splits)

lemma runTurn_sized: "sized s (snd (runTurn csid s))"
  using writeChunk_sized [of s csid] closeDone_sized [of _ csid] setLastErr_sized [of _ csid]
  by (cases "writeChunk csid s")
    (auto simp: runTurn_def bind_io_def split: result.splits intro: sized_trans [OF sized_trans] sized_trans)

lemma prepareChunkWriter_size:
  assumes "int (fcard (fmdom (writers s))) \<le> max 0 (cfg_MaxChunkStreams (tx_config s))"
  shows "int (fcard (fmdom (writers (snd (prepareChunkWriter csid s))))) \<le> max 0 (cfg_MaxChunkStreams (tx_config s))"
    and "tx_config (snd (prepareChunkWriter csid s)) = tx_config s"
  using assms
  by (auto simp: prepareChunkWriter_def fcard_finsert_if split: option.splits)

lemma queue_ok_keep:
  assumes "queue_ok S" and "sized (tx S) (tx S')" and "length (queue S') \<le> maxWriterQueueSize"
  shows "queue_ok S'"
  using assms by (simp add: queue_ok_def sized_def)

text \<open>Only entering makes new writers; only \<^verbatim>\<open>Sched\<close> and the loop touch the queue.\<close>

definition framed :: "streamerSystem \<Rightarrow> streamerSystem \<Rightarrow> bool" where
  "framed S S' \<longleftrightarrow> sized (tx S) (tx S') \<and> tx_w (tx S') = tx_w (tx S) \<and> queue S' = queue S \<and> loop S' = loop S"

lemma framed_put: "fmlookup (writers (tx S)) k = Some w \<Longrightarrow> framed S (set_call i c p (put_writer k w' S))"
  by (simp add: framed_def sized_put)

lemma framed_set_call: "framed S (set_call i c p S)"
  by (simp add: framed_def)

lemma call_wait_framed: "call_wait arm i c S = Some S' \<Longrightarrow> framed S S'"
  using framed_put by (auto simp: call_wait_def split: option.splits result.splits)

lemma call_encode_framed: "framed S (call_encode amf i c S)"
  using framed_put framed_set_call
  by (auto simp: call_encode_def Option.bind_eq_Some_conv split: option.splits prod.splits)

lemma call_fill_framed: "framed S (call_fill i c S)"
  using framed_put framed_set_call by (auto simp: call_fill_def split: option.splits result.splits)

lemma call_reset_framed: "framed S (call_reset i c S)"
  by (simp add: call_reset_def framed_def)

lemma exec_frame_cases:
  assumes "exec amf ev S = Some S'"
  obtains (enter) i csid ts cmsg where "S' = call_enter i csid ts cmsg S"
    | (framed) "framed S S'"
    | (sched) i c where "call_sched i c S = Some S'"
    | (take) "ev = LoopTake" "loop_take S = Some S'"
    | (requeue) "loop_requeue S = Some S'"
    | (stop) "loop_stop S = Some S'"
    | (close) "streamer_Close S = Some S'"
  using assms
  by (cases ev)
    (auto simp: Option.bind_eq_Some_conv split: if_splits
      dest: call_wait_framed intro: call_encode_framed call_fill_framed call_reset_framed framed_set_call)

lemma call_enter_frame: "queue (call_enter i csid ts cmsg S) = queue S" "loop (call_enter i csid ts cmsg S) = loop S"
  "tx (call_enter i csid ts cmsg S) = snd (prepareChunkWriter csid (tx S))"
  by (cases "prepareChunkWriter csid (tx S)";
      auto simp: call_enter_def wrap_io_def Let_def split: result.splits)+

lemma loop_take_sized:
  assumes "loop_take S = Some S'"
  shows "sized (tx S) (tx S') \<and> queue S' = tl (queue S) \<and> loop S = LoopReceiving"
proof -
  obtain csid q where l: "loop S = LoopReceiving" and q: "queue S = csid # q"
    using assms by (auto simp: loop_take_def split: loopPhase.splits list.splits)
  define r s where "r = fst (recovered (runTurn csid (tx S)))" and "s = snd (runTurn csid (tx S))"
  have "recovered (runTurn csid (tx S)) = (r, s)" by (simp add: r_def s_def recovered_def)
  then have "(tx S' = s \<or> tx S' = forceCloseWriters s) \<and> queue S' = q"
    using assms l q by (cases r) (auto simp: loop_take_def split: bool.splits)
  moreover have "sized (tx S) s" unfolding s_def by (rule runTurn_sized)
  moreover have "sized s (forceCloseWriters s)" by (simp add: forceCloseWriters_def sized_def)
  ultimately show ?thesis using l q by (auto intro: sized_trans)
qed

lemma exec_queue_ok:
  assumes ok: "queue_ok S" and ex: "exec amf ev S = Some S'"
  shows "queue_ok S' \<and> tx_config (tx S') = tx_config (tx S)"
  using ex
proof (cases rule: exec_frame_cases)
  case (enter i csid ts cmsg)
  then show ?thesis
    using ok prepareChunkWriter_size [of "tx S" csid] by (simp add: call_enter_frame queue_ok_def)
next
  case take
  then show ?thesis
    using loop_take_sized [OF take(2)] ok by (auto simp: queue_ok_def sized_def)
qed (use ok in \<open>auto simp: framed_def queue_ok_def sized_def call_sched_def enqueue_def loop_requeue_def
      loop_stop_def streamer_Close_def split: if_splits loopPhase.splits\<close>)

lemma exec_running:
  assumes ex: "exec amf ev S = Some S'" and run: "running S'"
  shows "running S"
  using ex
proof (cases rule: exec_frame_cases)
  case take
  then show ?thesis using loop_take_sized [OF take(2)] by (simp add: running_def)
qed (use run in \<open>auto simp: call_enter_frame framed_def running_def call_sched_def enqueue_def loop_requeue_def
      loop_stop_def streamer_Close_def split: if_splits loopPhase.splits\<close>)

section \<open>Reachable states\<close>

lemma exclusive_init: "exclusive (NewChunkStreamer_system w config)" "running (NewChunkStreamer_system w config)"
  by (simp_all add: NewChunkStreamer_system_def exclusive_def pipeline_def flags_def owns_def running_def Let_def)

lemma reachable_exclusive:
  "reachable amf S0 S \<Longrightarrow> running S \<Longrightarrow> exclusive S0 \<Longrightarrow> exclusive S"
  by (induction rule: reachable.induct) (auto dest: sys_step_exec exec_running exec_exclusive)

lemma queue_ok_init: "queue_ok (NewChunkStreamer_system w config)"
  by (simp add: NewChunkStreamer_system_def queue_ok_def Let_def fcard.rep_eq)

lemma reachable_queue_ok:
  "reachable amf S0 S \<Longrightarrow> queue_ok S0 \<Longrightarrow> queue_ok S \<and> tx_config (tx S) = tx_config (tx S0)"
  by (induction rule: reachable.induct) (auto dest: sys_step_exec exec_queue_ok)

text \<open>The loop can put a writer back when the table is limited to the size of the queue.\<close>

lemma requeue_enabled:
  assumes ex: "exclusive S" and ok: "queue_ok S" and l: "loop S = LoopRequeue csid"
    and small: "cfg_MaxChunkStreams (tx_config (tx S)) \<le> int maxWriterQueueSize"
  shows "\<exists>S'. loop_requeue S = Some S'"
proof -
  have "set (csid # queue S) \<subseteq> fset (fmdom (writers (tx S)))"
    using ex l by (auto simp: exclusive_def pipeline_def flags_def fmlookup_dom_iff)
  moreover have "distinct (csid # queue S)" using ex l by (simp add: exclusive_def pipeline_def)
  ultimately have "length (csid # queue S) \<le> fcard (fmdom (writers (tx S)))"
    by (metis card_mono distinct_card fcard.rep_eq finite_fset)
  then have "length (queue S) < maxWriterQueueSize"
    using ok small unfolding queue_ok_def by (simp add: max_def split: if_splits)
  then show ?thesis by (simp add: loop_requeue_def enqueue_def l)
qed

text \<open>When the queue is full and the loop holds a writer, neither can ever move again.\<close>

definition write_deadlock :: "streamerSystem \<Rightarrow> bool" where
  "write_deadlock S \<longleftrightarrow> length (queue S) = maxWriterQueueSize \<and> (\<exists>csid. loop S = LoopRequeue csid)"

lemma deadlock_step:
  assumes dl: "write_deadlock S" and ex: "exec amf ev S = Some S'"
  shows "write_deadlock S' \<and> queue S' = queue S \<and> loop S' = loop S \<and> tx_w (tx S') = tx_w (tx S)"
  using ex
proof (cases rule: exec_frame_cases)
  case (enter i csid ts cmsg)
  have "tx_w (snd (prepareChunkWriter csid s)) = tx_w s" for s
    by (auto simp: prepareChunkWriter_def split: option.splits)
  then show ?thesis using dl enter by (simp add: call_enter_frame write_deadlock_def)
next
  case take
  then show ?thesis using loop_take_sized [OF take(2)] dl by (auto simp: write_deadlock_def)
qed (use dl in \<open>auto simp: call_enter_frame framed_def write_deadlock_def call_sched_def enqueue_def
      loop_requeue_def loop_stop_def streamer_Close_def split: if_splits loopPhase.splits\<close>)

section \<open>Orphaned writers\<close>

text \<open>
  A writer that is not done, that no call has and that is neither queued nor with the loop, stays
  so as long as the loop runs: only its owner or the loop could change that.
\<close>

definition orphaned :: "streamerSystem \<Rightarrow> int \<Rightarrow> bool" where
  "orphaned S csid \<longleftrightarrow> flags (tx S) csid = Some (False, False) \<and> (\<forall>i. \<not> owns S i csid) \<and> csid \<notin> set (pipeline S)"

lemma orphaned_keep:
  assumes "orphaned S csid" and "flags (tx S') csid = flags (tx S) csid"
    and "\<And>i. owns S' i csid \<Longrightarrow> owns S i csid" and "set (pipeline S') \<subseteq> set (pipeline S)"
  shows "orphaned S' csid"
  using assms by (auto simp: orphaned_def)

lemma orphaned_enter:
  assumes "orphaned S k" and "calls S i = None"
  shows "orphaned (call_enter i csid ts cmsg S) k"
proof -
  let ?S1 = "S\<lparr>tx := snd (prepareChunkWriter csid (tx S))\<rparr>"
  obtain c p where c: "call_enter i csid ts cmsg S = set_call i c p ?S1" "\<not> owning p"
    unfolding call_enter_def Let_def wrap_io_def
    by (cases "prepareChunkWriter csid (tx S)"; cases "fst (prepareChunkWriter csid (tx S))") auto
  have "owns ?S1 = owns S" "pipeline ?S1 = pipeline S" by (auto simp: pipeline_def intro: owns_cong)
  then show ?thesis
    using assms(1) c(2) unfolding c(1)
    by (intro orphaned_keep [OF assms(1)]) (auto simp: prepareChunkWriter_flags orphaned_def split: if_splits)
qed

lemma orphaned_wait:
  assumes orph: "orphaned S k" and at: "call_at S i CallWaiting = Some c" and st: "call_wait arm i c S = Some S'"
    and arm: "arm = wait_done \<or> arm = wait_closed \<or> arm = wait_expired"
  shows "orphaned S' k"
proof -
  obtain w where w: "fmlookup (writers (tx S)) (wc_csid c) = Some w" using st by (auto simp: call_wait_def split: option.splits)
  show ?thesis
  proof (cases "wc_csid c = k")
    case True
    then have "\<not> doneClosed w" "\<not> closeClosed w" using orph w by (auto simp: orphaned_def flags_def)
    then have "arm = wait_expired" using st arm w by (auto simp: call_wait_def wait_done_def wait_closed_def)
    then show ?thesis
      using st w True by (intro orphaned_keep [OF orph]) (auto simp: call_wait_def wait_expired_def flags_def split: if_splits)
  next
    case False
    then show ?thesis
      using st w by (intro orphaned_keep [OF orph]) (auto simp: call_wait_def split: option.splits result.splits if_splits)
  qed
qed

lemma orphaned_take:
  assumes ex: "exclusive S" and orph: "orphaned S k" and st: "loop_take S = Some S'" and run: "running S'"
  shows "orphaned S' k"
proof -
  obtain csid q where l: "loop S = LoopReceiving" and q: "queue S = csid # q"
    using st by (auto simp: loop_take_def split: loopPhase.splits list.splits)
  have pl: "pipeline S = csid # q" using l q by (simp add: pipeline_def)
  then have fl: "flags (tx S) csid = Some (False, False)" and k: "k \<noteq> csid" using ex orph by (auto simp: exclusive_def orphaned_def)
  have "\<exists>b. fst (runTurn csid (tx S)) = Ok b \<and> tx S' = snd (runTurn csid (tx S)) \<and> calls S' = calls S
      \<and> set (pipeline S') \<subseteq> set (pipeline S)"
    using st l q run by (cases "fst (runTurn csid (tx S))")
      (auto simp: loop_take_def recovered_def running_def pipeline_def split: bool.splits)
  then obtain b where b: "fst (runTurn csid (tx S)) = Ok b" "tx S' = snd (runTurn csid (tx S))" "calls S' = calls S"
      "set (pipeline S') \<subseteq> set (pipeline S)" by blast
  have "flags (tx S') k = flags (tx S) k" using runTurn_flags [OF fl] b(1,2) k by (cases b) simp_all
  then show ?thesis using b(4) owns_cong [OF b(3)] by (intro orphaned_keep [OF orph]) simp_all
qed

lemma exec_orphaned:
  assumes ex: "exclusive S" and orph: "orphaned S k" and st: "exec amf ev S = Some S'" and run: "running S'"
  shows "orphaned S' k"
proof (cases ev)
  case (EncodeMessage i)
  then obtain c where c: "call_at S i CallEncoding = Some c" "S' = call_encode amf i c S" using st by auto
  then show ?thesis
    using call_at_owns [OF c(1)]
    by (intro orphaned_keep [OF orph]) (auto simp: call_encode_def flags_def Option.bind_eq_Some_conv
        split: option.splits result.splits prod.splits if_splits)
next
  case (FillHeader i)
  then obtain c where c: "call_at S i CallEncoded = Some c" "S' = call_fill i c S" using st by auto
  then show ?thesis
    using call_at_owns [OF c(1)]
    by (intro orphaned_keep [OF orph]) (auto simp: call_fill_def fill_writer_def flags_def split: option.splits result.splits if_splits)
next
  case (SchedWriter i)
  then obtain c where c: "call_at S i CallFilled = Some c" "call_sched i c S = Some S'"
    using st by (auto simp: Option.bind_eq_Some_conv)
  moreover have "wc_csid c \<noteq> k" using call_at_owns [OF c(1)] orph by (auto simp: orphaned_def)
  ultimately show ?thesis
    using orph by (auto simp: orphaned_def call_sched_def enqueue_def pipeline_def owns_def split: if_splits)
next
  case LoopRequeued
  then show ?thesis
    using st by (intro orphaned_keep [OF orph])
      (auto simp: loop_requeue_def enqueue_def pipeline_def owns_def split: loopPhase.splits if_splits)
next
  case LoopTake
  then show ?thesis using st orphaned_take [OF ex orph _ run] by simp
next
  case (ResetEncoder i)
  then show ?thesis
    using st call_at_owns [of S i CallAcquired]
    by (intro orphaned_keep [OF orph]) (auto simp: call_reset_def owns_def pipeline_def split: if_splits)
next
  case (LockWait i)
  then show ?thesis using st by (intro orphaned_keep [OF orph]) (auto split: if_splits)
next
  case LoopStop
  then show ?thesis
    using st by (intro orphaned_keep [OF orph]) (auto simp: loop_stop_def owns_def pipeline_def split: if_splits)
next
  case CloseStreamer
  then show ?thesis
    using st by (intro orphaned_keep [OF orph]) (auto simp: streamer_Close_def owns_def pipeline_def split: if_splits)
qed (use st orphaned_enter [OF orph] orphaned_wait [OF orph] in \<open>auto simp: Option.bind_eq_Some_conv split: if_splits\<close>)

lemma reachable_running: "reachable amf S S' \<Longrightarrow> running S' \<Longrightarrow> running S"
  by (induction rule: reachable.induct) (auto dest: sys_step_exec exec_running)

lemma reachable_orphaned:
  assumes "reachable amf S S'" and "running S'" and "exclusive S" and "orphaned S k"
  shows "orphaned S' k"
  using assms(1,2)
proof (induction rule: reachable.induct)
  case (step S1 ev S2)
  have e: "exec amf ev S1 = Some S2" using step(2) by (rule sys_step_exec)
  have "running S1" by (rule exec_running [OF e step(4)])
  then show ?case using exec_orphaned [OF reachable_exclusive [OF step(1) _ assms(3)] step(3) e step(4)] by blast
qed (use assms(4) in simp)

section \<open>Running on concrete states\<close>

lemma runTurn_healthy:
  assumes "fmlookup (writers s) csid = Some w0" and "valid_csid (bh_chunkStreamID (basicHeader w0))"
    and "faults (tx_w s) = []" and "\<not> doneClosed w0"
  shows "runTurn csid s =
    (let w = updateWriterHeader w0; n = chunkSendLen (selfState s) w0; fin = (length (buf w0) \<le> n) in
     (Ok fin, s\<lparr>tx_w := \<lparr>out = out (tx_w s) @ chunk_bytes (selfState s) w, faults = []\<rparr>,
        writers := fmupd csid (if fin then w\<lparr>buf := drop n (buf w0), doneClosed := True\<rparr>
                               else w\<lparr>buf := drop n (buf w0)\<rparr>) (writers s)\<rparr>))"
  using assms writeChunk_writes [of s csid w0]
  by (simp add: runTurn_def Let_def closeDone_def bind_io_def)

lemma loop_take_healthy:
  assumes "loop S = LoopReceiving" and "queue S = csid # q"
    and "fmlookup (writers (tx S)) csid = Some w0" and "valid_csid (bh_chunkStreamID (basicHeader w0))"
    and "faults (tx_w (tx S)) = []" and "\<not> doneClosed w0"
  shows "loop_take S =
    (let s = tx S; w = updateWriterHeader w0; n = chunkSendLen (selfState s) w0;
         fin = (length (buf w0) \<le> n) in
     Some (S\<lparr>tx := s\<lparr>tx_w := \<lparr>out = out (tx_w s) @ chunk_bytes (selfState s) w, faults = []\<rparr>,
        writers := fmupd csid (if fin then w\<lparr>buf := drop n (buf w0), doneClosed := True\<rparr>
                               else w\<lparr>buf := drop n (buf w0)\<rparr>) (writers s)\<rparr>,
        queue := q, loop := (if fin then LoopReceiving else LoopRequeue csid)\<rparr>))"
  using assms by (simp add: loop_take_def recovered_def runTurn_healthy Let_def)

lemma default_limits [simp]: "cfg_MaxChunkStreams defaultStreamControlStateConfig = 4294967295"
  by (simp add: defaultStreamControlStateConfig_def config_normalize_def zero_config_def)

lemma fcard_concrete [simp]: "fcard {||} = 0"
  "fcard (finsert x A) = (if x |\<in>| A then fcard A else Suc (fcard A))"
proof -
  show "fcard {||} = 0" by (simp add: fcard.rep_eq)
  show "fcard (finsert x A) = (if x |\<in>| A then fcard A else Suc (fcard A))" by (rule fcard_finsert_if)
qed

lemmas system_defs = NewChunkStreamer_system_def NewStreamControlState_def call_enter_def wrap_io_def
  prepareChunkWriter_def new_writer_def zero_reader_def zero_basicHeader_def zero_messageHeader_def
  chunkStreamReader.extend_def call_at_def call_wait_def wait_done_def call_reset_def call_encode_def
  call_fill_def fill_writer_def call_sched_def enqueue_def set_call_def put_writer_def Let_def
  loop_take_healthy runTurn_healthy updateWriterHeader_def chunkSendLen_def loop_requeue_def
  valid_csid_def encode_message_defs buf_Write_def

end
