(* ===== verification/Chunk_Transfer.thy ===== *)
theory Chunk_Transfer
  imports Chunk_Read Chunk_Write
begin

text \<open>
  The two halves against each other: a writer and a reader of the same chunk stream at the two
  ends of a connection stay in step, so that messages cut into chunks, interleaved with those
  of other chunk streams, arrive as they were sent. The writer compresses headers against what
  it remembers of the last one; the relation below says that the reader remembers the same.
\<close>

section \<open>Writer and reader in step\<close>

definition agree :: "chunkStreamWriter \<Rightarrow> chunkStreamReader \<Rightarrow> bool" where
  "agree w r \<longleftrightarrow> mh_messageLength (messageHeader w) = messageLength r
     \<and> mh_messageTypeID (messageHeader w) = messageTypeID r
     \<and> mh_messageStreamID (messageHeader w) = messageStreamID r
     \<and> mh_timestampDelta (messageHeader w) = timestampDelta r
     \<and> extendedTimestampMode r = ExtendedTimestampUnused"

text \<open>Between messages; \<open>0xffffffff\<close> is the timestamp of a writer that sent nothing yet.\<close>

definition idle_sync :: "chunkStreamWriter \<Rightarrow> chunkStreamReader \<Rightarrow> bool" where
  "idle_sync w r \<longleftrightarrow> agree w r \<and> (completed r \<or> buf r = [])
     \<and> (mh_timestamp (messageHeader w) = timestamp r \<or> mh_timestamp (messageHeader w) = 0xffffffff)"

text \<open>Inside a message: what arrived and what is left make up the payload.\<close>

definition mid_sync :: "chunkStreamWriter \<Rightarrow> chunkStreamReader \<Rightarrow> byte list \<Rightarrow> bool" where
  "mid_sync w r payload \<longleftrightarrow> agree w r \<and> \<not> completed r \<and> buf w \<noteq> [] \<and> buf r @ buf w = payload
     \<and> length payload < 2 ^ 24 \<and> unat (messageLength w) = length payload \<and> \<not> newChunk w
     \<and> timestamp w = mh_timestamp (messageHeader w)
     \<and> timestampDelta w = mh_timestampDelta (messageHeader w)
     \<and> messageLength w = mh_messageLength (messageHeader w)
     \<and> messageTypeID w = mh_messageTypeID (messageHeader w)
     \<and> messageStreamID w = mh_messageStreamID (messageHeader w)
     \<and> timestamp r + timestampDelta r = timestamp w"

text \<open>\<^verbatim>\<open>ChunkStreamer.Write\<close> puts a message into an idle writer.\<close>

definition load_writer :: "uint32 \<Rightarrow> byte \<Rightarrow> uint32 \<Rightarrow> byte list \<Rightarrow> chunkStreamWriter \<Rightarrow> chunkStreamWriter" where
  "load_writer ts ty sid payload w = w\<lparr>buf := payload, timestamp := ts,
     messageLength := of_nat (length payload), messageTypeID := ty, messageStreamID := sid,
     newChunk := True\<rparr>"

text \<open>The header the reader decodes from the writer's, and what it makes of its state.\<close>

definition sent_header :: "chunkStreamWriter \<Rightarrow> chunkMessageHeader" where
  "sent_header w = decoded_messageHeader (bh_fmt (basicHeader w)) zero_messageHeader (messageHeader w)"

definition headed :: "chunkStreamWriter \<Rightarrow> chunkStreamReader \<Rightarrow> chunkStreamReader" where
  "headed w r = applyChunkHeader (basicHeader w) (sent_header w) (restartReader r)"

text \<open>
  What has to hold when a chunk of \<open>w\<close> is about to be sent, first or later: once the header is
  applied, the reader expects exactly the bytes the writer has left.
\<close>

definition ready :: "chunkStreamWriter \<Rightarrow> chunkStreamReader \<Rightarrow> byte list \<Rightarrow> bool" where
  "ready w r payload \<longleftrightarrow>
     (let w1 = updateWriterHeader w; r1 = headed w1 r in
      agree w1 r1 \<and> \<not> completed r1 \<and> buf w \<noteq> [] \<and> buf r1 @ buf w = payload
      \<and> length payload < 2 ^ 24 \<and> unat (messageLength w) = length payload
      \<and> timestamp r1 + timestampDelta r1 = timestamp w
      \<and> (bh_fmt (basicHeader w1) = 3 \<longrightarrow> extendedTimestampMode r = ExtendedTimestampUnused))"

lemma unat_of_nat_24: "n < 2 ^ 24 \<Longrightarrow> unat (of_nat n :: uint32) = n"
  by (simp add: unat_of_nat take_bit_nat_eq_self)

text \<open>What \<^term>\<open>headed\<close> does, format by format.\<close>

lemma headed_other:
  "buf (headed w r) = (if completed r then [] else buf r)" "\<not> completed (headed w r)"
  by (auto simp: headed_def applyChunkHeader_def restartReader_def Let_def
      split: ExtendedTimestampMode.splits)

lemma headed_full:
  assumes "bh_fmt (basicHeader w) = 0"
  shows "timestamp (headed w r) = mh_timestamp (messageHeader w)" "timestampDelta (headed w r) = 0"
    "messageLength (headed w r) = mh_messageLength (messageHeader w)"
    "messageTypeID (headed w r) = mh_messageTypeID (messageHeader w)"
    "messageStreamID (headed w r) = mh_messageStreamID (messageHeader w)"
    "extendedTimestampMode (headed w r) = (if mh_timestamp (messageHeader w) \<ge> 0xffffff
       then ExtendedTimestampUsed else ExtendedTimestampUnused)"
  using assms
  by (simp_all add: headed_def applyChunkHeader_def sent_header_def decoded_messageHeader_def Let_def)

lemma headed_delta:
  assumes "bh_fmt (basicHeader w) = 1 \<or> bh_fmt (basicHeader w) = 2"
  shows "timestamp (headed w r) = timestamp r"
    "timestampDelta (headed w r) = mh_timestampDelta (messageHeader w)"
    "messageLength (headed w r) = (if bh_fmt (basicHeader w) = 1
       then mh_messageLength (messageHeader w) else messageLength r)"
    "messageTypeID (headed w r) = (if bh_fmt (basicHeader w) = 1
       then mh_messageTypeID (messageHeader w) else messageTypeID r)"
    "messageStreamID (headed w r) = messageStreamID r"
    "extendedTimestampMode (headed w r) = (if mh_timestampDelta (messageHeader w) \<ge> 0xffffff
       then ExtendedTimestampDeltaUsed else ExtendedTimestampUnused)"
  using assms
  by (auto simp: headed_def applyChunkHeader_def sent_header_def decoded_messageHeader_def Let_def
      restartReader_def)

lemma headed_same:
  assumes "bh_fmt (basicHeader w) = 3" and "extendedTimestampMode r = ExtendedTimestampUnused"
  shows "timestamp (headed w r) = timestamp r" "timestampDelta (headed w r) = timestampDelta r"
    "messageLength (headed w r) = messageLength r" "messageTypeID (headed w r) = messageTypeID r"
    "messageStreamID (headed w r) = messageStreamID r"
    "extendedTimestampMode (headed w r) = ExtendedTimestampUnused"
  using assms
  by (simp_all add: headed_def applyChunkHeader_def Let_def restartReader_def)

text \<open>The format and the delta that \<^verbatim>\<open>updateWriterHeader\<close> chooses for a new message.\<close>

lemma load_update:
  fixes w :: chunkStreamWriter
  defines "m \<equiv> messageHeader w"
  shows "timestampDelta (updateWriterHeader (load_writer ts ty sid payload w))
      = (if mh_timestamp m \<le> ts then ts - mh_timestamp m else 0)"
    and "bh_fmt (basicHeader (updateWriterHeader (load_writer ts ty sid payload w)))
      = (if sid \<noteq> mh_messageStreamID m \<or> ts < mh_timestamp m then 0
         else if mh_messageLength m \<noteq> of_nat (length payload) \<or> ty \<noteq> mh_messageTypeID m then 1
         else if ts - mh_timestamp m = mh_timestampDelta m then 3 else 2)"
    and "messageTypeID (load_writer ts ty sid payload w) = ty"
    and "messageStreamID (load_writer ts ty sid payload w) = sid"
    and "messageLength (load_writer ts ty sid payload w) = of_nat (length payload)"
    and "timestamp (load_writer ts ty sid payload w) = ts"
    and "buf (load_writer ts ty sid payload w) = payload"
  by (auto simp: load_writer_def updateWriterHeader_def Let_def m_def)

lemma diff_back: "x - y = d \<Longrightarrow> y + d = (x :: uint32)"
  by auto

lemma idle_new: "idle_sync (new_writer csid) zero_reader"
  by (simp add: idle_sync_def agree_def new_writer_def zero_reader_def zero_messageHeader_def
      chunkStreamReader.extend_def)

text \<open>
  The first chunk of a message. The time stays below the extended range; a message for another
  message stream than the last one may not come with a later time, because the full header it
  gets resets the reader's delta but not the writer's.
\<close>

lemma idle_ready:
  assumes idle: "idle_sync w r" and len: "payload \<noteq> []" "length payload < 2 ^ 24"
    and ts: "ts < 0xffffff"
    and sid: "sid = mh_messageStreamID (messageHeader w) \<or> ts \<le> mh_timestamp (messageHeader w)"
  shows "ready (load_writer ts ty sid payload w) r payload"
proof -
  let ?m = "messageHeader w"
  have a: "mh_messageLength ?m = messageLength r" "mh_messageTypeID ?m = messageTypeID r"
    "mh_messageStreamID ?m = messageStreamID r" "mh_timestampDelta ?m = timestampDelta r"
    "extendedTimestampMode r = ExtendedTimestampUnused" "completed r \<or> buf r = []"
    and t: "mh_timestamp ?m = timestamp r \<or> mh_timestamp ?m = 0xffffffff"
    using idle by (auto simp: idle_sync_def agree_def)
  have fresh: "ts < 0xffffffff"
    using ts by (rule less_trans) simp
  have n: "unat (of_nat (length payload) :: uint32) = length payload"
    by (rule unat_of_nat_24) (rule len)
  have delta: "ts - mh_timestamp ?m < 0xffffff" if "mh_timestamp ?m \<le> ts"
    using word_sub_le [OF that] ts by (rule le_less_trans)
  let ?l = "load_writer ts ty sid payload w"
  define u where "u = updateWriterHeader ?l"
  have u: "mh_timestamp (messageHeader u) = ts" "mh_messageLength (messageHeader u) = of_nat (length payload)"
    "mh_messageTypeID (messageHeader u) = ty" "mh_messageStreamID (messageHeader u) = sid"
    "mh_timestampDelta (messageHeader u) = (if mh_timestamp ?m \<le> ts then ts - mh_timestamp ?m else 0)"
    by (simp_all add: u_def load_update)
  have f: "bh_fmt (basicHeader u) = (if sid \<noteq> mh_messageStreamID ?m \<or> ts < mh_timestamp ?m then 0
      else if mh_messageLength ?m \<noteq> of_nat (length payload) \<or> ty \<noteq> mh_messageTypeID ?m then 1
      else if ts - mh_timestamp ?m = mh_timestampDelta ?m then 3 else 2)"
    by (simp add: u_def load_update)
  have buf: "buf (headed u r) = []" "\<not> completed (headed u r)"
    using a(6) by (auto simp: headed_other)
  consider (full) "bh_fmt (basicHeader u) = 0" "mh_timestampDelta (messageHeader u) = 0"
    | (delta) "bh_fmt (basicHeader u) \<in> {1, 2, 3}" "sid = mh_messageStreamID ?m" "mh_timestamp ?m \<le> ts"
  proof (cases "sid \<noteq> mh_messageStreamID ?m \<or> ts < mh_timestamp ?m")
    case True
    with sid have "\<not> mh_timestamp ?m \<le> ts \<or> ts = mh_timestamp ?m" by auto
    with True show thesis by (intro full) (auto simp: f u)
  next
    case False
    then show thesis by (intro delta) (auto simp: f)
  qed
  then have "agree u (headed u r) \<and> timestamp (headed u r) + timestampDelta (headed u r) = ts"
  proof cases
    case full
    then show ?thesis using u ts by (simp add: agree_def headed_full not_le)
  next
    case delta
    then have m: "mh_timestamp ?m = timestamp r" using t fresh by auto
    have "\<not> 0xffffff \<le> ts - timestamp r" using delta(3) \<open>mh_timestamp ?m \<le> ts \<Longrightarrow> ts - mh_timestamp ?m < 0xffffff\<close> m by simp
    then show ?thesis
      using delta u a m f
      by (auto simp: agree_def headed_delta headed_same split: if_splits dest: diff_back)
  qed
  then show ?thesis
    using buf len n a(5) by (simp add: ready_def Let_def load_update flip: u_def)
qed

text \<open>A later chunk: nothing changed, so the header is the empty one of format 3.\<close>

lemma mid_ready:
  assumes "mid_sync w r payload"
  shows "ready w r payload" and "bh_fmt (basicHeader (updateWriterHeader w)) = 3"
  using assms
  by (auto simp: mid_sync_def ready_def headed_def sent_header_def Let_def updateWriterHeader_def
      applyChunkHeader_def restartReader_def decoded_messageHeader_def agree_def)

section \<open>One chunk\<close>

text \<open>What a chunk with payload \<open>bs\<close> makes of a reader that has taken its header.\<close>

definition deliver :: "byte list \<Rightarrow> chunkStreamReader \<Rightarrow> chunkStreamReader" where
  "deliver bs r = (let r1 = r\<lparr>buf := buf r @ bs\<rparr> in if missing r1 = 0 then completeReader r1 else r1)"

text \<open>The reader \<^verbatim>\<open>prepareChunkReader\<close> finds or makes, when the table has room.\<close>

definition reader_of :: "chunkReadSide \<Rightarrow> int \<Rightarrow> chunkStreamReader" where
  "reader_of s csid = (case fmlookup (readers s) csid of Some r \<Rightarrow> r | None \<Rightarrow> zero_reader)"

definition has_room :: "chunkReadSide \<Rightarrow> int \<Rightarrow> bool" where
  "has_room s csid \<longleftrightarrow> csid |\<in>| fmdom (readers s)
     \<or> int (fcard (fmdom (readers s))) < cfg_MaxChunkStreams (rx_config s)"

lemma fmupd_twice [simp]: "fmupd k v (fmupd k u m) = fmupd k v m"
  by (rule fmap_ext) simp

lemma prepareChunkReader_room:
  assumes "has_room s csid"
  obtains s' where "prepareChunkReader csid s = (Ok (reader_of s csid), s')"
    and "rx_r s' = rx_r s" and "peerState s' = peerState s" and "rx_config s' = rx_config s"
    and "\<And>rr v. s'\<lparr>rx_r := rr, readers := fmupd csid v (readers s')\<rparr>
               = s\<lparr>rx_r := rr, readers := fmupd csid v (readers s)\<rparr>"
proof (cases "fmlookup (readers s) csid")
  case None
  show thesis
    using None assms
    by (intro that [of "s\<lparr>readers := fmupd csid zero_reader (readers s)\<rparr>"])
      (auto simp: prepareChunkReader_def reader_of_def has_room_def fmlookup_dom_iff)
next
  case (Some r)
  then show thesis
    by (intro that [of s]) (auto simp: prepareChunkReader_def reader_of_def)
qed

text \<open>\<^verbatim>\<open>readChunk\<close> on a chunk as the encoders write it.\<close>

lemma readChunk_receives:
  fixes bh :: chunkBasicHeader and mh :: chunkMessageHeader
  assumes csid: "2 \<le> csid" "csid \<le> 319" "bh_chunkStreamID bh = csid" and fm: "valid_fmt (bh_fmt bh)"
    and pend: "rx_pending s = basicHeader_bytes bh @ messageHeader_bytes (bh_fmt bh) mh @ bs @ rest"
    and len: "unat (mh_messageLength mh) < 2 ^ 24" and room: "has_room s csid"
    and mode: "bh_fmt bh = 3 \<Longrightarrow> extendedTimestampMode (reader_of s csid) = ExtendedTimestampUnused"
  defines "r1 \<equiv> applyChunkHeader bh (decoded_messageHeader (bh_fmt bh) zero_messageHeader mh)
                   (restartReader (reader_of s csid))"
  assumes miss: "0 < missing r1" and bs: "length bs = chunkAmount (peerState s) r1"
  obtains rr where "readChunk s = (Ok csid, s\<lparr>rx_r := rr, readers := fmupd csid (deliver bs r1) (readers s)\<rparr>)"
    and "csr_pending rr = rest" and "csr_end rr = csr_end (rx_r s)"
proof -
  let ?d1 = "decodeChunkBasicHeader csr_Read cacheBufferLen (rx_r s)"
  define s1 where "s1 = s\<lparr>rx_r := snd ?d1\<rparr>"
  have d1: "fst ?d1 = Ok bh" "rx_pending s1 = messageHeader_bytes (bh_fmt bh) mh @ bs @ rest"
    "csr_end (rx_r s1) = csr_end (rx_r s)"
    using csr.decodeChunkBasicHeader_encoded [of bh cacheBufferLen "rx_r s", OF _ fm _ pend] csid
    by (simp_all add: s1_def valid_csid_def)
  have room1: "has_room s1 csid" using room by (simp add: has_room_def s1_def)
  have ro: "reader_of s1 csid = reader_of s csid" "peerState s1 = peerState s"
    by (simp_all add: s1_def reader_of_def)
  obtain s2 where
    prep: "prepareChunkReader csid s1 = (Ok (reader_of s csid), s2)" "rx_r s2 = rx_r s1"
      "peerState s2 = peerState s"
    and upd1: "\<And>rr v. s2\<lparr>rx_r := rr, readers := fmupd csid v (readers s2)\<rparr>
               = s1\<lparr>rx_r := rr, readers := fmupd csid v (readers s1)\<rparr>"
    by (rule prepareChunkReader_room [OF room1]) (simp only: ro)
  have upd: "s2\<lparr>rx_r := rr, readers := fmupd csid v (readers s2)\<rparr>
               = s\<lparr>rx_r := rr, readers := fmupd csid v (readers s)\<rparr>" for rr v
    using upd1 by (simp add: s1_def)
  let ?d2 = "decodeChunkMessageHeader csr_Read (bh_fmt bh) cacheBufferLen zero_messageHeader
    (extendedTimestampMode (reader_of s csid)) (rx_r s2)"
  define s3 where "s3 = s2\<lparr>rx_r := snd ?d2\<rparr>"
  have d2: "fst ?d2 = Ok (decoded_messageHeader (bh_fmt bh) zero_messageHeader mh)"
    "rx_pending s3 = bs @ rest" "csr_end (rx_r s3) = csr_end (rx_r s)"
    using csr.decodeChunkMessageHeader_encoded [OF fm len, of "rx_r s2" "bs @ rest"] mode d1 prep(2)
    by (simp_all add: s3_def)
  let ?c = "copy_limited csr_Read (chunkAmount (peerState s) r1) (rx_r s3)"
  have c: "fst ?c = (bs, None)" "csr_pending (snd ?c) = rest" "csr_end (snd ?c) = csr_end (rx_r s)"
    using csr.copy_limited_copies [of "chunkAmount (peerState s) r1" "rx_r s3"] d2 bs by simp_all
  have ne: "\<not> bh_fmt bh > 3" using fm by (auto simp: valid_fmt_def)
  have "readChunk s = readChunkPayload csid r1 s3"
    using d1 prep d2 ne csid(3)
    by (simp add: readChunk_def bind_io_def wrap_io_def r1_def s1_def s3_def)
  also have "\<dots> = (Ok csid, s3\<lparr>rx_r := snd ?c, readers := fmupd csid (deliver bs r1) (readers s3)\<rparr>)"
    using miss c prep(3) by (simp add: readChunkPayload_def deliver_def s3_def Let_def)
  also have "\<dots> = (Ok csid, s\<lparr>rx_r := snd ?c, readers := fmupd csid (deliver bs r1) (readers s)\<rparr>)"
    using upd by (simp add: s3_def)
  finally show thesis using c by (intro that)
qed

text \<open>A chunk keeps the two ends in step, and the last one completes the message.\<close>

lemma ready_chunk:
  assumes ready: "ready w r payload"
    and size: "chunkSize self = chunkSize peer" "0 < chunkSize self"
  defines "n \<equiv> chunkSendLen self w" and "u \<equiv> updateWriterHeader w"
  defines "w' \<equiv> u\<lparr>buf := drop n (buf w)\<rparr>" and "r' \<equiv> deliver (take n (buf w)) (headed u r)"
  shows "0 < missing (headed u r)" and "n = chunkAmount peer (headed u r)"
    and "0 < n"
    and "n < length (buf w) \<Longrightarrow> mid_sync w' r' payload"
    and "n \<ge> length (buf w) \<Longrightarrow> idle_sync w' r' \<and> completed r' \<and> buf r' = payload
          \<and> timestamp r' = timestamp w \<and> messageTypeID r' = messageTypeID w
          \<and> messageStreamID r' = messageStreamID w"
proof -
  have a: "agree u (headed u r)" "\<not> completed (headed u r)" "buf w \<noteq> []"
    "buf (headed u r) @ buf w = payload" "length payload < 2 ^ 24"
    "unat (messageLength w) = length payload"
    "timestamp (headed u r) + timestampDelta (headed u r) = timestamp w"
    using ready by (simp_all add: ready_def Let_def u_def)
  have ml: "messageLength (headed u r) = messageLength w"
    "messageTypeID (headed u r) = messageTypeID w" "messageStreamID (headed u r) = messageStreamID w"
    using a(1) by (simp_all add: agree_def u_def)
  have "length payload = length (buf (headed u r)) + length (buf w)"
    unfolding a(4) [symmetric] by simp
  then have miss: "missing (headed u r) = int (length (buf w))"
    using a(6) by (simp add: missing_def ml)
  show m0: "0 < missing (headed u r)" using a(3) by (simp add: miss)
  show n: "n = chunkAmount peer (headed u r)"
    by (simp add: n_def chunkSendLen_def chunkAmount_def miss size(1))
  have lt: "length (buf w) < 2 ^ 24" using a(4,5) by auto
  have small: "unat (of_nat (length (buf w)) :: uint32) = length (buf w)"
    by (rule unat_of_nat_24) (rule lt)
  have nle: "n \<le> length (buf w)" unfolding n_def by (rule chunkSendLen_le)
  show "0 < n"
    using size(2) a(3) by (simp add: n_def chunkSendLen_def word_less_nat_alt unat_gt_0)
  let ?r = "headed u r\<lparr>buf := buf (headed u r) @ take n (buf w)\<rparr>"
  have mr: "missing ?r = int (length (buf w)) - int n"
    using miss nle by (simp add: missing_def)
  show "mid_sync w' r' payload" if "n < length (buf w)"
  proof -
    have "r' = ?r" using that mr by (simp add: r'_def deliver_def Let_def)
    then show ?thesis
      using a that by (simp add: mid_sync_def w'_def agree_def u_def)
  qed
  show "idle_sync w' r' \<and> completed r' \<and> buf r' = payload \<and> timestamp r' = timestamp w
      \<and> messageTypeID r' = messageTypeID w \<and> messageStreamID r' = messageStreamID w"
    if "n \<ge> length (buf w)"
  proof -
    have "r' = completeReader ?r" using that nle mr by (simp add: r'_def deliver_def Let_def)
    then show ?thesis
      using a ml that by (simp add: idle_sync_def w'_def agree_def u_def completeReader_def)
  qed
qed

section \<open>Any interleaving\<close>

text \<open>A message as the chunk layer sees it.\<close>

record flight =
  fl_timestamp :: uint32
  fl_typeID :: byte
  fl_streamID :: uint32
  fl_payload :: "byte list"

text \<open>
  What happens at the sending end: a message is put into the writer of a chunk stream, or the
  write loop sends the next chunk of one.
\<close>

datatype action = Load int flight | SendChunk int

definition writer_of :: "chunkWriteSide \<Rightarrow> int \<Rightarrow> chunkStreamWriter" where
  "writer_of s csid = (case fmlookup (writers s) csid of Some w \<Rightarrow> w | None \<Rightarrow> new_writer csid)"

definition load_flight :: "int \<Rightarrow> flight \<Rightarrow> chunkWriteSide \<Rightarrow> chunkWriteSide" where
  "load_flight csid f s = s\<lparr>writers := fmupd csid
     (load_writer (fl_timestamp f) (fl_typeID f) (fl_streamID f) (fl_payload f) (writer_of s csid)) (writers s)\<rparr>"

definition has_writer_room :: "chunkWriteSide \<Rightarrow> int \<Rightarrow> bool" where
  "has_writer_room s csid \<longleftrightarrow> csid |\<in>| fmdom (writers s)
     \<or> int (fcard (fmdom (writers s))) < cfg_MaxChunkStreams (tx_config s)"

text \<open>
  When an action makes sense: a message goes into an idle writer, is not empty and fits the
  24-bit length; its time is below the extended range, and is not later than the last one when
  it is for another message stream. A chunk is sent of a writer that has something left.
\<close>

definition loadable :: "int \<Rightarrow> flight \<Rightarrow> chunkWriteSide \<Rightarrow> bool" where
  "loadable csid f s \<longleftrightarrow>
     2 \<le> csid \<and> csid \<le> 319 \<and> has_writer_room s csid
     \<and> fl_payload f \<noteq> [] \<and> length (fl_payload f) < 2 ^ 24 \<and> fl_timestamp f < 0xffffff
     \<and> (fl_streamID f = mh_messageStreamID (messageHeader (writer_of s csid))
        \<or> fl_timestamp f \<le> mh_timestamp (messageHeader (writer_of s csid)))"

fun admissible :: "action \<Rightarrow> chunkWriteSide \<Rightarrow> bool" where
  "admissible (Load csid f) s \<longleftrightarrow> buf (writer_of s csid) = [] \<and> loadable csid f s"
| "admissible (SendChunk csid) s \<longleftrightarrow> buf (writer_of s csid) \<noteq> []"

text \<open>
  A run of the sending end. \<open>P\<close> remembers the last message put into each writer; the first
  result lists the messages in the order in which their last chunk went out.
\<close>

fun act :: "action \<Rightarrow> (int \<Rightarrow> flight option) \<times> chunkWriteSide
    \<Rightarrow> (int \<times> flight) list \<times> (int \<Rightarrow> flight option) \<times> chunkWriteSide" where
  "act (Load csid f) (P, s) = ([], P(csid \<mapsto> f), load_flight csid f s)"
| "act (SendChunk csid) (P, s) =
     (case writeChunk csid s of
        (Ok True, s') \<Rightarrow> ([(csid, the (P csid))], P, s')
      | (_, s') \<Rightarrow> ([], P, s'))"

fun transmit :: "action list \<Rightarrow> (int \<Rightarrow> flight option) \<times> chunkWriteSide
    \<Rightarrow> (int \<times> flight) list \<times> (int \<Rightarrow> flight option) \<times> chunkWriteSide" where
  "transmit [] st = ([], st)"
| "transmit (a # as) st =
     (let r = act a st; q = transmit as (snd r) in (fst r @ fst q, snd q))"

fun admissible_run :: "action list \<Rightarrow> (int \<Rightarrow> flight option) \<times> chunkWriteSide \<Rightarrow> bool" where
  "admissible_run [] st \<longleftrightarrow> True"
| "admissible_run (a # as) st \<longleftrightarrow> admissible a (snd st) \<and> admissible_run as (snd (act a st))"

text \<open>The receiving end: chunks are read, and what they complete is listed.\<close>

definition received :: "int \<Rightarrow> chunkReadSide \<Rightarrow> flight" where
  "received csid s = \<lparr>fl_timestamp = timestamp (reader_of s csid), fl_typeID = messageTypeID (reader_of s csid),
     fl_streamID = messageStreamID (reader_of s csid), fl_payload = buf (reader_of s csid)\<rparr>"

fun receive :: "nat \<Rightarrow> (chunkReadSide, (int \<times> flight) list) io" where
  "receive 0 s = (Ok [], s)"
| "receive (Suc n) s =
     bind_io readChunk (\<lambda>csid s1.
       bind_io (receive n) (\<lambda>ms. return_io
         ((if chunkCompleted csid s1 then [(csid, received csid s1)] else []) @ ms)) s1) s"

section \<open>The two ends of a connection\<close>

text \<open>\<open>F\<close>: the chunk streams with a message on its way; \<open>P\<close>: that message.\<close>

definition synced :: "bool \<Rightarrow> chunkStreamWriter \<Rightarrow> chunkStreamReader \<Rightarrow> flight option \<Rightarrow> bool" where
  "synced inFlight w r fo \<longleftrightarrow>
     (if inFlight then \<exists>f. fo = Some f \<and> ready w r (fl_payload f) \<and> timestamp w = fl_timestamp f
             \<and> messageTypeID w = fl_typeID f \<and> messageStreamID w = fl_streamID f
      else idle_sync w r)"

definition link :: "int set \<Rightarrow> (int \<Rightarrow> flight option) \<Rightarrow> chunkWriteSide \<Rightarrow> chunkReadSide \<Rightarrow> bool" where
  "link F P tx rx \<longleftrightarrow>
     faults (tx_w tx) = [] \<and> chunkSize (selfState tx) = chunkSize (peerState rx)
     \<and> 0 < chunkSize (selfState tx)
     \<and> fmdom (readers rx) |\<subseteq>| fmdom (writers tx)
     \<and> int (fcard (fmdom (writers tx))) \<le> cfg_MaxChunkStreams (rx_config rx)
     \<and> cfg_MaxChunkStreams (tx_config tx) \<le> cfg_MaxChunkStreams (rx_config rx)
     \<and> (\<forall>csid w. fmlookup (writers tx) csid = Some w \<longrightarrow>
          2 \<le> csid \<and> csid \<le> 319 \<and> bh_chunkStreamID (basicHeader w) = csid
          \<and> synced (csid \<in> F) w (reader_of rx csid) (P csid))"

lemma link_room:
  assumes "link F P tx rx" and "csid |\<in>| fmdom (writers tx)"
  shows "has_room rx csid"
proof (cases "csid |\<in>| fmdom (readers rx)")
  case False
  with assms have "fmdom (readers rx) |\<subset>| fmdom (writers tx)"
    by (auto simp: link_def)
  then have "fcard (fmdom (readers rx)) < fcard (fmdom (writers tx))"
    by (rule pfsubset_fcard_mono)
  with assms(1) show ?thesis by (auto simp: link_def has_room_def)
qed (simp add: has_room_def)

lemma link_writer:
  assumes "link F P tx rx" and "fmlookup (writers tx) csid = Some w"
  shows "2 \<le> csid" "csid \<le> 319" "bh_chunkStreamID (basicHeader w) = csid"
    "synced (csid \<in> F) w (reader_of rx csid) (P csid)"
  using assms by (auto simp: link_def)

lemma reader_of_update [simp]:
  "reader_of (s\<lparr>rx_r := rr, readers := fmupd k v m\<rparr>) csid
     = (if csid = k then v else case fmlookup m csid of Some r \<Rightarrow> r | None \<Rightarrow> zero_reader)"
  by (simp add: reader_of_def)

lemma link_load:
  assumes link: "link F P tx rx" and adm: "loadable csid f tx" and F: "csid \<notin> F"
  shows "link (insert csid F) (P(csid \<mapsto> f)) (load_flight csid f tx) rx"
proof -
  let ?w = "writer_of tx csid"
  let ?l = "load_writer (fl_timestamp f) (fl_typeID f) (fl_streamID f) (fl_payload f) ?w"
  have idle: "idle_sync ?w (reader_of rx csid)" and bh: "bh_chunkStreamID (basicHeader ?w) = csid"
  proof (atomize (full), cases "fmlookup (writers tx) csid")
    case None
    then have "csid |\<notin>| fmdom (readers rx)"
      using link by (auto simp: link_def fmlookup_dom_iff)
    then have "reader_of rx csid = zero_reader"
      by (simp add: reader_of_def fmdom_notD)
    then show "idle_sync ?w (reader_of rx csid) \<and> bh_chunkStreamID (basicHeader ?w) = csid"
      using None by (simp add: writer_of_def idle_new) (simp add: new_writer_def chunkStreamReader.extend_def)
  next
    case (Some w)
    then show "idle_sync ?w (reader_of rx csid) \<and> bh_chunkStreamID (basicHeader ?w) = csid"
      using link_writer [OF link Some] F by (simp add: writer_of_def synced_def)
  qed
  have "ready ?l (reader_of rx csid) (fl_payload f)"
    using adm by (intro idle_ready [OF idle]) (simp_all add: loadable_def)
  then have "synced True ?l (reader_of rx csid) (Some f)"
    by (simp add: synced_def load_update)
  moreover have "bh_chunkStreamID (basicHeader ?l) = csid" using bh by (simp add: load_writer_def)
  moreover have "int (fcard (fmdom (fmupd csid ?l (writers tx)))) \<le> cfg_MaxChunkStreams (rx_config rx)"
    using link adm by (auto simp: link_def loadable_def has_writer_room_def fcard_finsert_if)
  ultimately show ?thesis
    using link adm by (auto simp: link_def loadable_def load_flight_def)
qed

text \<open>
  One chunk goes over: what it does at the sending end, at the receiving end, and when it was
  the last one of its message.
\<close>

lemma link_chunk:
  assumes link: "link F P tx rx" and w: "fmlookup (writers tx) csid = Some w" and F: "csid \<in> F"
    and pend: "rx_pending rx = chunk_bytes (selfState tx) (updateWriterHeader w) @ rest"
  defines "n \<equiv> chunkSendLen (selfState tx) w"
  defines "fin \<equiv> length (buf w) \<le> n"
  obtains tx' rx' where "writeChunk csid tx = (Ok fin, tx')"
    and "out (tx_w tx') = out (tx_w tx) @ chunk_bytes (selfState tx) (updateWriterHeader w)"
    and "writers tx' = fmupd csid (updateWriterHeader w\<lparr>buf := drop n (buf w)\<rparr>) (writers tx)"
    and "readChunk rx = (Ok csid, rx')" and "rx_pending rx' = rest"
    and "link (if fin then F - {csid} else F) P tx' rx'"
    and "chunkCompleted csid rx' = fin"
    and "fin \<Longrightarrow> P csid = Some (received csid rx')"
    and "buf w \<noteq> []"
proof -
  let ?u = "updateWriterHeader w" and ?r = "reader_of rx csid"
  note lw = link_writer [OF link w]
  from lw(4) F obtain f where f: "P csid = Some f" "ready w ?r (fl_payload f)"
    "timestamp w = fl_timestamp f" "messageTypeID w = fl_typeID f" "messageStreamID w = fl_streamID f"
    by (auto simp: synced_def)
  have size: "chunkSize (selfState tx) = chunkSize (peerState rx)" "0 < chunkSize (selfState tx)"
    and ok: "faults (tx_w tx) = []" using link by (auto simp: link_def)
  note rc = ready_chunk [OF f(2) size]
  define w' where "w' = ?u\<lparr>buf := drop n (buf w)\<rparr>"
  define r' where "r' = deliver (take n (buf w)) (headed ?u ?r)"
  define tx' where "tx' = tx\<lparr>tx_w := \<lparr>out = out (tx_w tx) @ chunk_bytes (selfState tx) ?u, faults = []\<rparr>,
      writers := fmupd csid w' (writers tx)\<rparr>"
  have wr: "writeChunk csid tx = (Ok fin, tx')"
    using writeChunk_writes [OF w _ ok] lw by (simp add: fin_def n_def tx'_def w'_def valid_csid_def)
  have hd: "bh_chunkStreamID (basicHeader ?u) = csid" using lw by simp
  have len: "unat (mh_messageLength (messageHeader ?u)) < 2 ^ 24" and ne: "buf w \<noteq> []"
    using f(2) by (simp_all add: ready_def Let_def)
  have mode: "bh_fmt (basicHeader ?u) = 3 \<Longrightarrow> extendedTimestampMode ?r = ExtendedTimestampUnused"
    using f(2) by (simp add: ready_def Let_def)
  have room: "has_room rx csid" using link_room [OF link] w by (simp add: fmlookup_dom_iff)
  have pend': "rx_pending rx = basicHeader_bytes (basicHeader ?u)
      @ messageHeader_bytes (bh_fmt (basicHeader ?u)) (messageHeader ?u) @ take n (buf w) @ rest"
    using pend by (simp add: chunk_bytes_def n_def)
  have amount: "length (take n (buf w)) = chunkAmount (peerState rx) (headed ?u ?r)"
    using rc(2) chunkSendLen_le [of "selfState tx" w] by (simp add: n_def)
  obtain rr where rd: "readChunk rx = (Ok csid, rx\<lparr>rx_r := rr, readers := fmupd csid r' (readers rx)\<rparr>)"
    and rr: "csr_pending rr = rest"
    using readChunk_receives [OF lw(1,2) hd updateWriterHeader_fmt pend' len room mode, folded sent_header_def, folded headed_def]
      rc(1) amount unfolding r'_def by metis
  define rx' where "rx' = rx\<lparr>rx_r := rr, readers := fmupd csid r' (readers rx)\<rparr>"
  have s1: "\<not> fin \<Longrightarrow> mid_sync w' r' (fl_payload f)"
    and s2: "fin \<Longrightarrow> idle_sync w' r' \<and> completed r' \<and> buf r' = fl_payload f
          \<and> timestamp r' = timestamp w \<and> messageTypeID r' = messageTypeID w
          \<and> messageStreamID r' = messageStreamID w"
    using rc(4,5) by (auto simp: fin_def w'_def r'_def n_def)
  have sync: "synced (\<not> fin) w' r' (P csid)"
    using s2 mid_ready(1) [OF s1] f by (cases fin) (auto simp: synced_def w'_def)
  have link': "link (if fin then F - {csid} else F) P tx' rx'"
  proof -
    have "csid |\<in>| fmdom (writers tx)" using w by (simp add: fmlookup_dom_iff)
    then have "finsert csid (fmdom (writers tx)) = fmdom (writers tx)" by auto
    moreover have "bh_chunkStreamID (basicHeader w') = csid" using hd by (simp add: w'_def)
    ultimately show ?thesis
      using link lw sync F by (auto simp: link_def tx'_def rx'_def reader_of_def)
  qed
  have comp: "chunkCompleted csid rx' = fin"
    using s1 s2 by (auto simp: chunkCompleted_def rx'_def mid_sync_def)
  have got: "fin \<Longrightarrow> P csid = Some (received csid rx')"
    using s2 f by (simp add: received_def rx'_def)
  show thesis
    by (rule that [OF wr _ _ rd [folded rx'_def] _ link' comp got ne])
      (simp_all add: tx'_def rx'_def rr w'_def)
qed

section \<open>Transfer\<close>

text \<open>
  Whatever the order in which messages are put into the writers and chunks are sent, the peer
  reads the same chunks back and completes the same messages in the same order.
\<close>

definition sends :: "action list \<Rightarrow> nat" where
  "sends as = length (filter (\<lambda>a. case a of SendChunk _ \<Rightarrow> True | Load _ _ \<Rightarrow> False) as)"

lemma writer_of_Some: "buf (writer_of s csid) \<noteq> [] \<Longrightarrow> fmlookup (writers s) csid = Some (writer_of s csid)"
  by (auto simp: writer_of_def new_writer_def zero_reader_def chunkStreamReader.extend_def split: option.splits)

text \<open>The bytes a run puts on the wire.\<close>

fun wire :: "action list \<Rightarrow> (int \<Rightarrow> flight option) \<times> chunkWriteSide \<Rightarrow> byte list" where
  "wire [] st = []"
| "wire (Load csid f # as) st = wire as (snd (act (Load csid f) st))"
| "wire (SendChunk csid # as) st =
     chunk_bytes (selfState (snd st)) (updateWriterHeader (writer_of (snd st) csid))
       @ wire as (snd (act (SendChunk csid) st))"

text \<open>The chunk streams with a message on its way, when writers are loaded in one step.\<close>

definition loaded :: "chunkWriteSide \<Rightarrow> int set" where
  "loaded s = {csid. buf (writer_of s csid) \<noteq> []}"

lemma loaded_load: "fl_payload f \<noteq> [] \<Longrightarrow> loaded (load_flight csid f s) = insert csid (loaded s)"
  by (auto simp: loaded_def load_flight_def writer_of_def load_writer_def)

lemma loaded_chunk:
  assumes "writers s' = fmupd csid w (writers s)" and "buf (writer_of s csid) \<noteq> []"
  shows "loaded s' = (if buf w = [] then loaded s - {csid} else loaded s)"
  using assms by (auto simp: loaded_def writer_of_def split: if_splits)

lemma transmit_receive:
  assumes "link (loaded tx) P tx rx" and "admissible_run as (P, tx)"
    and "rx_pending rx = wire as (P, tx) @ rest"
  shows "out (tx_w (snd (snd (transmit as (P, tx))))) = out (tx_w tx) @ wire as (P, tx)
    \<and> (\<exists>rx'. receive (sends as) rx = (Ok (fst (transmit as (P, tx))), rx') \<and> rx_pending rx' = rest
        \<and> link (loaded (snd (snd (transmit as (P, tx))))) (fst (snd (transmit as (P, tx))))
            (snd (snd (transmit as (P, tx)))) rx')"
  using assms
proof (induction as arbitrary: P tx rx)
  case Nil
  then show ?case by (simp add: sends_def)
next
  case (Cons a as)
  show ?case
  proof (cases a)
    case (Load csid f)
    define P1 tx1 where "P1 = P(csid \<mapsto> f)" and "tx1 = load_flight csid f tx"
    have a: "act a (P, tx) = ([], P1, tx1)" by (simp add: Load P1_def tx1_def)
    have adm: "admissible (Load csid f) tx" using Cons.prems(2) Load by simp
    then have "link (loaded tx1) P1 tx1 rx"
      unfolding P1_def tx1_def using link_load [OF Cons.prems(1), of csid f] adm by (simp add: loaded_load loadable_def) (simp add: loaded_def)
    moreover have "admissible_run as (P1, tx1)" "wire (a # as) (P, tx) = wire as (P1, tx1)"
      using Cons.prems(2) a by (simp_all add: Load)
    moreover have "transmit (a # as) (P, tx) = transmit as (P1, tx1)" "sends (a # as) = sends as"
      "tx_w tx1 = tx_w tx"
      using a by (simp_all add: Load sends_def Let_def tx1_def load_flight_def)
    ultimately show ?thesis
      using Cons.IH [of tx1 P1 rx] Cons.prems(3) by simp
  next
    case (SendChunk csid)
    let ?w = "writer_of tx csid"
    have ne: "buf ?w \<noteq> []" using Cons.prems(2) SendChunk by simp
    then have F: "csid \<in> loaded tx" by (simp add: loaded_def)
    have pend: "rx_pending rx = chunk_bytes (selfState tx) (updateWriterHeader ?w)
        @ wire as (snd (act (SendChunk csid) (P, tx))) @ rest"
      using Cons.prems(3) SendChunk by simp
    define n where "n = chunkSendLen (selfState tx) ?w"
    define fin where "fin \<longleftrightarrow> length (buf ?w) \<le> n"
    obtain tx1 rx1 where c: "writeChunk csid tx = (Ok fin, tx1)"
      "out (tx_w tx1) = out (tx_w tx) @ chunk_bytes (selfState tx) (updateWriterHeader ?w)"
      "writers tx1 = fmupd csid (updateWriterHeader ?w\<lparr>buf := drop n (buf ?w)\<rparr>) (writers tx)"
      "readChunk rx = (Ok csid, rx1)"
      "rx_pending rx1 = wire as (snd (act (SendChunk csid) (P, tx))) @ rest"
      "link (if fin then loaded tx - {csid} else loaded tx) P tx1 rx1"
      "chunkCompleted csid rx1 = fin" "fin \<Longrightarrow> P csid = Some (received csid rx1)"
      unfolding fin_def n_def by (rule link_chunk [OF Cons.prems(1) writer_of_Some [OF ne] F pend]) blast
    have "loaded tx1 = (if fin then loaded tx - {csid} else loaded tx)"
      using loaded_chunk [OF c(3) ne] by (simp add: fin_def)
    with c(6) have ln: "link (loaded tx1) P tx1 rx1" by simp
    have a: "act (SendChunk csid) (P, tx)
        = (if fin then [(csid, received csid rx1)] else [], P, tx1)"
      using c(1,8) by (cases fin) simp_all
    have "admissible_run as (P, tx1)" using Cons.prems(2) SendChunk a by simp
    from Cons.IH [OF ln this] c(5) a obtain rx' where ih:
      "out (tx_w (snd (snd (transmit as (P, tx1))))) = out (tx_w tx1) @ wire as (P, tx1)"
      "receive (sends as) rx1 = (Ok (fst (transmit as (P, tx1))), rx')" "rx_pending rx' = rest"
      "link (loaded (snd (snd (transmit as (P, tx1))))) (fst (snd (transmit as (P, tx1))))
         (snd (snd (transmit as (P, tx1)))) rx'"
      by auto
    have tr: "transmit (a # as) (P, tx) = (fst (act a (P, tx)) @ fst (transmit as (P, tx1)), snd (transmit as (P, tx1)))"
      using a SendChunk by (simp add: Let_def)
    have s: "sends (a # as) = Suc (sends as)" using SendChunk by (simp add: sends_def)
    have "receive (Suc (sends as)) rx
        = (Ok (fst (act a (P, tx)) @ fst (transmit as (P, tx1))), rx')"
      using c(4,7) ih(2) a SendChunk by (simp add: bind_io_def)
    then show ?thesis
      using c(2) ih a SendChunk unfolding tr s by simp
  qed
qed

end
