(* ===== verification/Write_Transfer.thy ===== *)
theory Write_Transfer
  imports Write_Sched Chunk_Transfer
begin

text \<open>
  The concurrent writers of \<open>Write_Sched\<close> and a reader at the other end: as long as no two calls
  of \<^verbatim>\<open>Write\<close> use the shared encoder at the same time, every interleaving of callers and write
  loop delivers the messages whole, in the order in which their last chunks went out.
\<close>

section \<open>Runs\<close>

text \<open>The message of a call as the chunk layer sees it.\<close>

definition flight_of :: "amf0 \<Rightarrow> writeCall \<Rightarrow> flight option" where
  "flight_of amf c =
     (case (message_Encode amf (cm_Message (wc_cmsg c)) [], message_TypeID (cm_Message (wc_cmsg c))) of
        ((Ok _, bs), Ok ty) \<Rightarrow> Some \<lparr>fl_timestamp = wc_timestamp c, fl_typeID = ty,
          fl_streamID = cm_StreamID (wc_cmsg c), fl_payload = bs\<rparr>
      | _ \<Rightarrow> None)"

text \<open>
  What an observer notes of an event: the message that is queued on a chunk stream, and the
  message whose last chunk is written.
\<close>

definition noted :: "amf0 \<Rightarrow> event \<Rightarrow> streamerSystem \<Rightarrow> (int \<Rightarrow> flight option) \<Rightarrow> int \<Rightarrow> flight option" where
  "noted amf ev S P =
     (case ev of
        SchedWriter i \<Rightarrow> (case calls S i of Some c \<Rightarrow> P(wc_csid c := flight_of amf c) | None \<Rightarrow> P)
      | _ \<Rightarrow> P)"

definition shipped :: "event \<Rightarrow> streamerSystem \<Rightarrow> (int \<Rightarrow> flight option) \<Rightarrow> (int \<times> flight) list" where
  "shipped ev S P =
     (case (ev, queue S) of
        (LoopTake, csid # _) \<Rightarrow> if fst (runTurn csid (tx S)) = Ok True then [(csid, the (P csid))] else []
      | _ \<Rightarrow> [])"

fun run_events :: "amf0 \<Rightarrow> event list \<Rightarrow> (int \<Rightarrow> flight option) \<times> streamerSystem
    \<Rightarrow> ((int \<times> flight) list \<times> (int \<Rightarrow> flight option) \<times> streamerSystem) option" where
  "run_events amf [] st = Some ([], st)"
| "run_events amf (ev # evs) (P, S) =
     (case exec amf ev S of
        None \<Rightarrow> None
      | Some S' \<Rightarrow>
          (case run_events amf evs (noted amf ev S P, S') of
             None \<Rightarrow> None
           | Some (ms, st) \<Rightarrow> Some (shipped ev S P @ ms, st)))"

text \<open>
  The discipline under which writing is right: one call at a time uses the encoder, chunk
  stream IDs are ones whose basic header has at most two bytes, and what is queued is
  \<^const>\<open>loadable\<close>.
\<close>

definition proper :: "amf0 \<Rightarrow> event \<Rightarrow> streamerSystem \<Rightarrow> bool" where
  "proper amf ev S \<longleftrightarrow>
     (case ev of
        EnterWrite i csid ts cmsg \<Rightarrow> 2 \<le> csid \<and> csid \<le> 319
      | ResetEncoder i \<Rightarrow> (\<forall>j c. calls S j = Some c \<longrightarrow> wc_phase c \<noteq> CallEncoding)
      | SchedWriter i \<Rightarrow> (\<forall>c. calls S i = Some c \<longrightarrow>
          (\<exists>f. flight_of amf c = Some f \<and> loadable (wc_csid c) f (tx S)))
      | _ \<Rightarrow> True)"

fun proper_run :: "amf0 \<Rightarrow> event list \<Rightarrow> streamerSystem \<Rightarrow> bool" where
  "proper_run amf [] S \<longleftrightarrow> True"
| "proper_run amf (ev # evs) S \<longleftrightarrow> proper amf ev S
     \<and> (case exec amf ev S of None \<Rightarrow> True | Some S' \<Rightarrow> proper_run amf evs S')"

section \<open>What holds between the events\<close>

definition call_ok :: "amf0 \<Rightarrow> streamerSystem \<Rightarrow> writeCall \<Rightarrow> chunkStreamWriter \<Rightarrow> bool" where
  "call_ok amf S c w \<longleftrightarrow>
     (wc_phase c = CallAcquired \<longrightarrow> buf w = [])
     \<and> (wc_phase c = CallEncoding \<longrightarrow> buf w = [] \<and> encTarget S = Some (wc_csid c))
     \<and> (wc_phase c = CallEncoded \<longrightarrow> message_Encode amf (cm_Message (wc_cmsg c)) [] = (Ok (), buf w))
     \<and> (wc_phase c = CallFilled \<longrightarrow> message_Encode amf (cm_Message (wc_cmsg c)) [] = (Ok (), buf w)
         \<and> (\<exists>ty. message_TypeID (cm_Message (wc_cmsg c)) = Ok ty
              \<and> w = load_writer (wc_timestamp c) ty (cm_StreamID (wc_cmsg c)) (buf w) w))"

definition calls_ok :: "amf0 \<Rightarrow> streamerSystem \<Rightarrow> bool" where
  "calls_ok amf S \<longleftrightarrow>
     (\<forall>i c w. calls S i = Some c \<longrightarrow> fmlookup (writers (tx S)) (wc_csid c) = Some w \<longrightarrow> call_ok amf S c w)
     \<and> (\<forall>csid w. fmlookup (writers (tx S)) csid = Some w \<longrightarrow> doneClosed w \<longrightarrow> buf w = [])
     \<and> (\<forall>i j c d. calls S i = Some c \<longrightarrow> calls S j = Some d \<longrightarrow> wc_phase c = CallEncoding
          \<longrightarrow> wc_phase d = CallEncoding \<longrightarrow> i = j)"

definition sys_link :: "amf0 \<Rightarrow> (int \<Rightarrow> flight option) \<Rightarrow> streamerSystem \<Rightarrow> chunkReadSide \<Rightarrow> bool" where
  "sys_link amf P S rx \<longleftrightarrow> running S \<and> exclusive S \<and> calls_ok amf S
     \<and> link (set (pipeline S)) P (tx S) rx"

text \<open>Changes of a writer that is not on its way do not matter to the link, if the headers stay.\<close>

lemma link_put:
  assumes "link F P s rx" and "fmlookup (writers s) k = Some w" and "k \<notin> F"
    and "messageHeader w' = messageHeader w" and "basicHeader w' = basicHeader w"
  shows "link F P (s\<lparr>writers := fmupd k w' (writers s)\<rparr>) rx"
proof -
  have "k |\<in>| fmdom (writers s)" using assms(2) by (simp add: fmlookup_dom_iff)
  then have "finsert k (fmdom (writers s)) = fmdom (writers s)" by auto
  moreover have "idle_sync w' r = idle_sync w r" for r
    by (simp add: idle_sync_def agree_def assms)
  then have "synced (k \<in> F) w' (reader_of rx k) (P k)"
    using link_writer(4) [OF assms(1,2)] assms(3) by (simp add: synced_def)
  moreover have "bh_chunkStreamID (basicHeader w') = k"
    using link_writer(3) [OF assms(1,2)] assms(5) by simp
  ultimately show ?thesis
    using assms(1) link_writer(1,2) [OF assms(1,2)] by (clarsimp simp: link_def)
qed

lemma link_put_writer:
  assumes "link F P (tx S) rx" and "fmlookup (writers (tx S)) k = Some w" and "k \<notin> F"
    and "messageHeader w' = messageHeader w" and "basicHeader w' = basicHeader w"
  shows "link F P (tx (put_writer k w' S)) rx"
  using link_put [OF assms] by (simp add: put_writer_def)

lemma link_prepare:
  assumes link: "link F P s rx" and csid: "2 \<le> csid" "csid \<le> 319"
    and F: "\<forall>k \<in> F. k |\<in>| fmdom (writers s)"
  shows "link F P (snd (prepareChunkWriter csid s)) rx"
proof (cases "fmlookup (writers s) csid = None \<and> int (fcard (fmdom (writers s))) < cfg_MaxChunkStreams (tx_config s)")
  case True
  then have "csid |\<notin>| fmdom (writers s)" by (simp add: fmlookup_dom_iff)
  moreover from this have "csid |\<notin>| fmdom (readers rx)" using link by (auto simp: link_def)
  then have "reader_of rx csid = zero_reader" by (simp add: reader_of_def fmdom_notD)
  moreover have "bh_chunkStreamID (basicHeader (new_writer csid)) = csid"
    by (simp add: new_writer_def chunkStreamReader.extend_def)
  ultimately show ?thesis
    using True link csid F
    by (auto simp: prepareChunkWriter_def link_def synced_def idle_new fcard_finsert_if)
next
  case False
  then have "snd (prepareChunkWriter csid s) = s" by (auto simp: prepareChunkWriter_def split: option.splits)
  with link show ?thesis by simp
qed

lemma call_ok_not_owning: "\<not> owning (wc_phase c) \<Longrightarrow> call_ok amf S c w"
  by (auto simp: call_ok_def)

lemma calls_ok_update:
  assumes ok: "calls_ok amf S"
    and others: "\<And>j d. j \<noteq> i \<Longrightarrow> calls S j = Some d \<Longrightarrow> wc_csid d = wc_csid c \<Longrightarrow> \<not> owning (wc_phase d)"
    and calls: "calls T = calls S" and table: "writers (tx T) = fmupd (wc_csid c) w' (writers (tx S))"
    and new: "call_ok amf T (c\<lparr>wc_phase := p\<rparr>) w'" and fin: "doneClosed w' \<Longrightarrow> buf w' = []"
    and enc: "p = CallEncoding \<Longrightarrow> (\<And>j d. calls S j = Some d \<Longrightarrow> wc_phase d \<noteq> CallEncoding)"
    and target: "encTarget T = encTarget S \<or> p = CallEncoding"
  shows "calls_ok amf (set_call i c p T)"
proof -
  have same: "call_ok amf (set_call i c p T) d w \<longleftrightarrow> call_ok amf T d w" for d w
    by (simp add: call_ok_def)
  have keep: "call_ok amf T d w" if "calls S j = Some d" "j \<noteq> i" "call_ok amf S d w" for j d w
    using that target enc by (auto simp: call_ok_def)
  have "call_ok amf T d w" if "j \<noteq> i" "calls S j = Some d"
    "fmlookup (fmupd (wc_csid c) w' (writers (tx S))) (wc_csid d) = Some w" for j d w
  proof (cases "wc_csid d = wc_csid c")
    case True
    then show ?thesis using others that by (intro call_ok_not_owning) simp
  next
    case False
    then show ?thesis using that ok keep by (auto simp: calls_ok_def)
  qed
  then show ?thesis
    using ok new fin enc unfolding calls_ok_def
    by (auto simp: calls table same split: if_splits)
qed

lemma calls_ok_same:
  assumes "calls_ok amf S" and "calls S' = calls S" and "writers (tx S') = writers (tx S)" and "encTarget S' = encTarget S"
  shows "calls_ok amf S'"
  using assms by (simp add: calls_ok_def call_ok_def)

text \<open>A call that moves on to a phase without duties.\<close>

lemma calls_ok_move:
  assumes ok: "calls_ok amf S" and "\<not> owning p"
  shows "calls_ok amf (set_call i c p S)"
  using assms by (auto simp: calls_ok_def call_ok_def owning_def)

text \<open>The owner is alone on its writer.\<close>

lemma owner_alone:
  assumes "exclusive S" and "owns S i k" and "j \<noteq> i" and "calls S j = Some d" and "wc_csid d = k"
  shows "\<not> owning (wc_phase d)"
  using assms by (auto simp: exclusive_def owns_def split: option.splits)

lemma owner_facts:
  assumes "exclusive S" and "owns S i k"
  shows "k \<notin> set (pipeline S)" and "\<exists>w. fmlookup (writers (tx S)) k = Some w \<and> \<not> doneClosed w"
proof -
  show "k \<notin> set (pipeline S)" using assms by (auto simp: exclusive_def)
  have "flags (tx S) k = Some (False, False)" using assms by (auto simp: exclusive_def)
  then show "\<exists>w. fmlookup (writers (tx S)) k = Some w \<and> \<not> doneClosed w" by (auto simp: flags_def)
qed

lemma fmupd_id: "fmlookup m k = Some v \<Longrightarrow> fmupd k v m = m"
  by (rule fmap_ext) auto

section \<open>Events other than a turn of the loop\<close>

lemma enter_link:
  assumes sl: "sys_link amf P S rx" and new: "calls S i = None" and csid: "2 \<le> csid" "csid \<le> 319"
  shows "calls_ok amf (call_enter i csid ts cmsg S)"
    and "link (set (pipeline (call_enter i csid ts cmsg S))) P (tx (call_enter i csid ts cmsg S)) rx"
proof -
  have ok: "calls_ok amf S" and ex: "exclusive S" and ln: "link (set (pipeline S)) P (tx S) rx"
    using sl by (simp_all add: sys_link_def)
  have dom: "\<forall>k \<in> set (pipeline S). k |\<in>| fmdom (writers (tx S))"
    using ex by (auto simp: exclusive_def flags_def fmlookup_dom_iff)
  have pl: "pipeline (call_enter i csid ts cmsg S) = pipeline S"
    by (simp add: pipeline_def call_enter_frame)
  show "link (set (pipeline (call_enter i csid ts cmsg S))) P (tx (call_enter i csid ts cmsg S)) rx"
    unfolding pl call_enter_frame by (rule link_prepare [OF ln csid dom])
  define T where "T = S\<lparr>tx := snd (prepareChunkWriter csid (tx S))\<rparr>"
  obtain c p where e: "call_enter i csid ts cmsg S = set_call i c p T" "\<not> owning p"
    unfolding call_enter_def Let_def wrap_io_def T_def
    by (cases "prepareChunkWriter csid (tx S)"; cases "fst (prepareChunkWriter csid (tx S))") auto
  have nw: "doneClosed (new_writer csid)" "buf (new_writer csid) = []"
    by (simp_all add: new_writer_def chunkStreamReader.extend_def zero_reader_def)
  have "calls_ok amf T"
  proof (cases "writers (tx T) = writers (tx S)")
    case True
    then show ?thesis by (intro calls_ok_same [OF ok]) (simp_all add: T_def)
  next
    case False
    then have tb: "writers (tx T) = fmupd csid (new_writer csid) (writers (tx S))" "fmlookup (writers (tx S)) csid = None"
      by (auto simp: T_def prepareChunkWriter_def split: option.splits if_splits)
    have "\<not> owning (wc_phase d)" if "calls S j = Some d" "wc_csid d = csid" for j d
    proof
      assume "owning (wc_phase d)"
      with that have "owns S j csid" by (simp add: owns_def)
      from owner_facts(2) [OF ex this] tb(2) show False by simp
    qed
    then have nd: "call_ok amf S d w" if "calls S j = Some d" "wc_csid d = csid" for j d w
      using that by (intro call_ok_not_owning) simp
    have cT: "calls T = calls S" "call_ok amf T d w = call_ok amf S d w" for d w
      by (simp_all add: T_def call_ok_def)
    show ?thesis
      using ok nw nd unfolding calls_ok_def cT tb(1) by auto
  qed
  then show "calls_ok amf (call_enter i csid ts cmsg S)"
    unfolding e(1) by (rule calls_ok_move) (rule e(2))
qed

lemma wait_link:
  assumes sl: "sys_link amf P S rx" and at: "call_at S i CallWaiting = Some c"
    and arm: "arm = wait_done \<or> arm = wait_closed \<or> arm = wait_expired"
    and st: "call_wait arm i c S = Some S'"
  shows "calls_ok amf S' \<and> link (set (pipeline S')) P (tx S') rx"
proof -
  have ok: "calls_ok amf S" and ex: "exclusive S" and ln: "link (set (pipeline S)) P (tx S) rx"
    using sl by (simp_all add: sys_link_def)
  obtain w r w' where w: "fmlookup (writers (tx S)) (wc_csid c) = Some w" and r: "arm w = Some (r, w')"
    using st by (auto simp: call_wait_def split: option.splits)
  have fl: "flags (tx S) (wc_csid c) = Some (doneClosed w, closeClosed w)" using w by (simp add: flags_def)
  have nc: "\<not> closeClosed w" using ex fl by (auto simp: exclusive_def)
  show ?thesis
  proof (cases "r = Ok ()")
    case True
    with arm r nc have d: "doneClosed w" "w' = w\<lparr>doneClosed := False\<rparr>"
      by (auto simp: wait_done_def wait_closed_def wait_expired_def split: if_splits option.splits)
    have S': "S' = set_call i c CallAcquired (put_writer (wc_csid c) w' S)"
      using st w r True by (simp add: call_wait_def)
    have free: "wc_csid c \<notin> set (pipeline S)" "\<not> owns S j (wc_csid c)" for j
      using ex fl d(1) by (auto simp: exclusive_def)
    have "buf w = []" using ok w d(1) by (auto simp: calls_ok_def)
    moreover have "\<not> owning (wc_phase e)" if "calls S j = Some e" "wc_csid e = wc_csid c" for j e
      using free(2) [of j] that by (simp add: owns_def)
    ultimately have "calls_ok amf S'"
      unfolding S' using d
      by (intro calls_ok_update [OF ok, where w' = w']) (auto simp: call_ok_def)
    moreover have "link (set (pipeline S')) P (tx S') rx"
      unfolding S' using link_put_writer [OF ln w free(1), of w'] d by simp
    ultimately show ?thesis by simp
  next
    case False
    with arm r have "w' = w"
      by (auto simp: wait_done_def wait_closed_def wait_expired_def split: if_splits option.splits)
    moreover have "put_writer (wc_csid c) w S = S"
    proof -
      have "fmupd (wc_csid c) w (writers (tx S)) = writers (tx S)" using w by (simp add: fmupd_id)
      then show ?thesis by (simp add: put_writer_def)
    qed
    ultimately obtain q where "S' = set_call i c (CallReturned q) S"
      using st w r False by (auto simp: call_wait_def split: result.splits)
    then show ?thesis using calls_ok_move [OF ok] ln by simp
  qed
qed

lemma reset_link:
  assumes sl: "sys_link amf P S rx" and at: "call_at S i CallAcquired = Some c"
    and free: "\<forall>j d. calls S j = Some d \<longrightarrow> wc_phase d \<noteq> CallEncoding"
  shows "calls_ok amf (call_reset i c S)" and "link (set (pipeline (call_reset i c S))) P (tx (call_reset i c S)) rx"
proof -
  have ok: "calls_ok amf S" and ex: "exclusive S" and ln: "link (set (pipeline S)) P (tx S) rx"
    using sl by (simp_all add: sys_link_def)
  have own: "owns S i (wc_csid c)" using call_at_owns [OF at] by simp
  obtain w where w: "fmlookup (writers (tx S)) (wc_csid c) = Some w" "\<not> doneClosed w"
    using owner_facts(2) [OF ex own] by auto
  have "fmupd (wc_csid c) w (writers (tx S)) = writers (tx S)" using w by (simp add: fmupd_id)
  moreover have "buf w = []" using ok w at by (auto simp: calls_ok_def call_ok_def call_at_Some)
  ultimately show "calls_ok amf (call_reset i c S)"
    unfolding call_reset_def using w free owner_alone [OF ex own]
    by (intro calls_ok_update [OF ok, where w' = w]) (auto simp: call_ok_def)
  have "pipeline (S\<lparr>encTarget := e\<rparr>) = pipeline S" for e by (simp add: pipeline_def)
  then show "link (set (pipeline (call_reset i c S))) P (tx (call_reset i c S)) rx"
    using ln by (simp add: call_reset_def)
qed

lemma encode_link:
  assumes sl: "sys_link amf P S rx" and at: "call_at S i CallEncoding = Some c"
  shows "calls_ok amf (call_encode amf i c S)"
    and "link (set (pipeline (call_encode amf i c S))) P (tx (call_encode amf i c S)) rx"
proof -
  have ok: "calls_ok amf S" and ex: "exclusive S" and ln: "link (set (pipeline S)) P (tx S) rx"
    using sl by (simp_all add: sys_link_def)
  have own: "owns S i (wc_csid c)" using call_at_owns [OF at] by simp
  obtain w where w: "fmlookup (writers (tx S)) (wc_csid c) = Some w" "\<not> doneClosed w"
    and np: "wc_csid c \<notin> set (pipeline S)"
    using owner_facts [OF ex own] by auto
  have b: "buf w = []" "encTarget S = Some (wc_csid c)"
    using ok w at by (auto simp: calls_ok_def call_ok_def call_at_Some)
  obtain r b' where m: "message_Encode amf (cm_Message (wc_cmsg c)) [] = (r, b')"
    by (cases "message_Encode amf (cm_Message (wc_cmsg c)) []")
  define p where "p = (case r of Ok _ \<Rightarrow> CallEncoded | Err e \<Rightarrow> CallReturned (Err e) | Panic p \<Rightarrow> CallReturned (Panic p))"
  have e: "call_encode amf i c S = set_call i c p (put_writer (wc_csid c) (w\<lparr>buf := b'\<rparr>) S)"
    by (simp add: call_encode_def b w m p_def)
  show "calls_ok amf (call_encode amf i c S)"
    unfolding e using w owner_alone [OF ex own] m
    by (intro calls_ok_update [OF ok, where w' = "w\<lparr>buf := b'\<rparr>"])
      (auto simp: call_ok_def p_def split: result.splits)
  show "link (set (pipeline (call_encode amf i c S))) P (tx (call_encode amf i c S)) rx"
    unfolding e using link_put_writer [OF ln w(1) np] by simp
qed

lemma fill_link:
  assumes sl: "sys_link amf P S rx" and at: "call_at S i CallEncoded = Some c"
  shows "calls_ok amf (call_fill i c S)"
    and "link (set (pipeline (call_fill i c S))) P (tx (call_fill i c S)) rx"
proof -
  have ok: "calls_ok amf S" and ex: "exclusive S" and ln: "link (set (pipeline S)) P (tx S) rx"
    using sl by (simp_all add: sys_link_def)
  have own: "owns S i (wc_csid c)" using call_at_owns [OF at] by simp
  obtain w where w: "fmlookup (writers (tx S)) (wc_csid c) = Some w" "\<not> doneClosed w"
    and np: "wc_csid c \<notin> set (pipeline S)"
    using owner_facts [OF ex own] by auto
  have m: "message_Encode amf (cm_Message (wc_cmsg c)) [] = (Ok (), buf w)"
    using ok w at by (auto simp: calls_ok_def call_ok_def call_at_Some)
  show "calls_ok amf (call_fill i c S)"
  proof (cases "message_TypeID (cm_Message (wc_cmsg c))")
    case (Ok ty)
    let ?w = "fill_writer (wc_timestamp c) ty (cm_StreamID (wc_cmsg c)) w"
    have "call_fill i c S = set_call i c CallFilled (put_writer (wc_csid c) ?w S)"
      using w Ok by (simp add: call_fill_def)
    then show ?thesis
      using w owner_alone [OF ex own] m Ok
      by (auto simp: call_ok_def fill_writer_def load_writer_def intro!: calls_ok_update [OF ok, where w' = ?w])
  qed (use w calls_ok_move [OF ok] in \<open>simp_all add: call_fill_def\<close>)
  show "link (set (pipeline (call_fill i c S))) P (tx (call_fill i c S)) rx"
    using link_put_writer [OF ln w(1) np] ln w
    by (auto simp: call_fill_def fill_writer_def split: result.splits)
qed

lemma sched_link:
  assumes sl: "sys_link amf P S rx" and at: "call_at S i CallFilled = Some c"
    and st: "call_sched i c S = Some S'"
    and f: "flight_of amf c = Some f" "loadable (wc_csid c) f (tx S)"
  shows "calls_ok amf S' \<and> link (set (pipeline S')) (P(wc_csid c \<mapsto> f)) (tx S') rx"
proof -
  have ok: "calls_ok amf S" and ex: "exclusive S" and ln: "link (set (pipeline S)) P (tx S) rx"
    using sl by (simp_all add: sys_link_def)
  have own: "owns S i (wc_csid c)" using call_at_owns [OF at] by simp
  obtain w where w: "fmlookup (writers (tx S)) (wc_csid c) = Some w" "\<not> doneClosed w"
    and np: "wc_csid c \<notin> set (pipeline S)"
    using owner_facts [OF ex own] by auto
  obtain ty where m: "message_Encode amf (cm_Message (wc_cmsg c)) [] = (Ok (), buf w)"
    and ty: "message_TypeID (cm_Message (wc_cmsg c)) = Ok ty"
    and lw: "w = load_writer (wc_timestamp c) ty (cm_StreamID (wc_cmsg c)) (buf w) w"
    using ok w at unfolding calls_ok_def call_ok_def call_at_Some by blast
  have fe: "f = \<lparr>fl_timestamp = wc_timestamp c, fl_typeID = ty, fl_streamID = cm_StreamID (wc_cmsg c), fl_payload = buf w\<rparr>"
    using f(1) by (simp add: flight_of_def m ty)
  have "fmupd (wc_csid c) w (writers (tx S)) = writers (tx S)" using w by (simp add: fmupd_id)
  moreover have "writer_of (tx S) (wc_csid c) = w" using w by (simp add: writer_of_def)
  ultimately have "load_flight (wc_csid c) f (tx S) = tx S"
    using lw by (simp add: load_flight_def fe)
  with link_load [OF ln f(2) np] have ln': "link (insert (wc_csid c) (set (pipeline S))) (P(wc_csid c \<mapsto> f)) (tx S) rx"
    by simp
  have S': "S' = set_call i c (CallReturned (Ok ())) (S\<lparr>queue := queue S @ [wc_csid c]\<rparr>)"
    using st by (auto simp: call_sched_def enqueue_def split: if_splits)
  have "set (pipeline S') = insert (wc_csid c) (set (pipeline S))" "tx S' = tx S"
    by (auto simp: S' pipeline_def)
  moreover have "calls_ok amf S'"
    unfolding S' by (intro calls_ok_move calls_ok_same [OF ok]) simp_all
  ultimately show ?thesis using ln' by simp
qed

section \<open>A turn of the loop\<close>

text \<open>\<open>updateWriterHeader\<close> and the sending of bytes leave what the calls rely on.\<close>

lemma take_link:
  assumes sl: "sys_link amf P S rx" and l: "loop S = LoopReceiving" and q: "queue S = csid # q"
    and pend: "rx_pending rx = chunk_bytes (selfState (tx S)) (updateWriterHeader (writer_of (tx S) csid)) @ rest"
  obtains S' rx' where "loop_take S = Some S'"
    and "out (tx_w (tx S')) = out (tx_w (tx S))
           @ chunk_bytes (selfState (tx S)) (updateWriterHeader (writer_of (tx S) csid))"
    and "readChunk rx = (Ok csid, rx')" and "rx_pending rx' = rest" and "sys_link amf P S' rx'"
    and "shipped LoopTake S P = (if chunkCompleted csid rx' then [(csid, received csid rx')] else [])"
proof -
  have ok: "calls_ok amf S" and ex: "exclusive S" and ln: "link (set (pipeline S)) P (tx S) rx"
    using sl by (simp_all add: sys_link_def)
  have pl: "pipeline S = csid # q" and F: "csid \<in> set (pipeline S)" using l q by (simp_all add: pipeline_def)
  have fl: "flags (tx S) csid = Some (False, False)" and dq: "csid \<notin> set q"
    and no: "\<not> owns S i csid" for i
    using ex pl by (auto simp: exclusive_def)
  obtain w where w: "fmlookup (writers (tx S)) csid = Some w" "\<not> doneClosed w" "writer_of (tx S) csid = w"
    using fl by (auto simp: flags_def writer_of_def)
  define n where "n = chunkSendLen (selfState (tx S)) w"
  define fin where "fin \<longleftrightarrow> length (buf w) \<le> n"
  define w1 where "w1 = updateWriterHeader w\<lparr>buf := drop n (buf w)\<rparr>"
  obtain s1 rx' where c: "writeChunk csid (tx S) = (Ok fin, s1)"
    "out (tx_w s1) = out (tx_w (tx S)) @ chunk_bytes (selfState (tx S)) (updateWriterHeader w)"
    "writers s1 = fmupd csid w1 (writers (tx S))"
    "readChunk rx = (Ok csid, rx')" "rx_pending rx' = rest"
    "link (if fin then set (pipeline S) - {csid} else set (pipeline S)) P s1 rx'"
    "chunkCompleted csid rx' = fin" "fin \<Longrightarrow> P csid = Some (received csid rx')"
    unfolding fin_def n_def w1_def
    by (rule link_chunk [OF ln w(1) F pend [unfolded w(3)]]) blast
  have w1: "\<not> doneClosed w1" using w(2) by (simp add: w1_def)
  have calls: "calls_ok amf S'" if "calls S' = calls S" "encTarget S' = encTarget S"
    "writers (tx S') = fmupd csid w2 (writers (tx S))" "doneClosed w2 \<Longrightarrow> buf w2 = []" for S' w2
  proof -
    have nd: "call_ok amf S d v" if "calls S j = Some d" "wc_csid d = csid" for j d v
      using no [of j] that by (intro call_ok_not_owning) (simp add: owns_def)
    have cT: "call_ok amf S' d v = call_ok amf S d v" for d v using that(2) by (simp add: call_ok_def)
    show ?thesis
      using ok nd that(4) unfolding calls_ok_def that(1,3) cT by auto
  qed
  show thesis
  proof (cases fin)
    case True
    define s2 where "s2 = s1\<lparr>writers := fmupd csid (w1\<lparr>doneClosed := True\<rparr>) (writers s1)\<rparr>"
    have rt: "runTurn csid (tx S) = (Ok True, s2)"
      using c(1,3) True w1 by (simp add: runTurn_def closeDone_def bind_io_def s2_def)
    define S' where "S' = S\<lparr>tx := s2, queue := q\<rparr>"
    have st: "loop_take S = Some S'" using l q rt by (simp add: loop_take_def recovered_def S'_def)
    have run: "running S'" using l by (simp add: S'_def running_def)
    have ex': "exclusive S'" by (rule loop_take_exclusive [OF ex st run])
    have p': "set (pipeline S') = set (pipeline S) - {csid}" using l dq pl by (simp add: S'_def pipeline_def)
    have "link (set (pipeline S')) P s2 rx'"
      unfolding s2_def p' using c(3,6) True by (intro link_put) simp_all
    moreover have "calls_ok amf S'"
      using True by (intro calls [of _ "w1\<lparr>doneClosed := True\<rparr>"])
        (simp_all add: S'_def s2_def c(3) w1_def fin_def)
    ultimately have "sys_link amf P S' rx'" using run ex' by (simp add: sys_link_def S'_def)
    then show thesis
      using c True q rt by (intro that [OF st]) (auto simp: S'_def s2_def w(3) shipped_def)
  next
    case False
    have rt: "runTurn csid (tx S) = (Ok False, s1)" using c(1) False by (simp add: runTurn_def)
    define S' where "S' = S\<lparr>tx := s1, queue := q, loop := LoopRequeue csid\<rparr>"
    have st: "loop_take S = Some S'" using l q rt by (simp add: loop_take_def recovered_def S'_def)
    have run: "running S'" by (simp add: S'_def running_def)
    have ex': "exclusive S'" by (rule loop_take_exclusive [OF ex st run])
    have "set (pipeline S') = set (pipeline S)" using pl by (simp add: S'_def pipeline_def)
    moreover have "calls_ok amf S'" using w1 by (intro calls [of _ w1]) (simp_all add: S'_def c(3))
    ultimately have "sys_link amf P S' rx'" using run ex' c(6) False by (simp add: sys_link_def S'_def)
    then show thesis
      using c False q rt by (intro that [OF st]) (auto simp: S'_def w(3) shipped_def)
  qed
qed

section \<open>Whole runs\<close>

lemma event_link:
  assumes sl: "sys_link amf P S rx" and pr: "proper amf ev S" and ex: "exec amf ev S = Some S'"
    and nt: "ev \<noteq> LoopTake"
  shows "sys_link amf (noted amf ev S P) S' rx" and "tx_w (tx S') = tx_w (tx S)"
proof -
  have run: "running S" and exc: "exclusive S" and ok: "calls_ok amf S"
    and ln: "link (set (pipeline S)) P (tx S) rx"
    using sl by (simp_all add: sys_link_def)
  have rw: "running S' \<and> tx_w (tx S') = tx_w (tx S)"
    using ex
  proof (cases rule: exec_frame_cases)
    case (enter i csid ts cmsg)
    have "tx_w (snd (prepareChunkWriter csid s)) = tx_w s" for s
      by (auto simp: prepareChunkWriter_def split: option.splits)
    then show ?thesis using run enter by (simp add: call_enter_frame running_def)
  next
    case take
    with nt show ?thesis by simp
  qed (use run in \<open>auto simp: framed_def running_def call_sched_def enqueue_def loop_requeue_def
      loop_stop_def streamer_Close_def split: if_splits loopPhase.splits\<close>)
  have "calls_ok amf S' \<and> link (set (pipeline S')) (noted amf ev S P) (tx S') rx"
  proof (cases ev)
    case (EnterWrite i csid ts cmsg)
    with ex pr enter_link [OF sl] show ?thesis by (auto simp: proper_def noted_def split: if_splits)
  next
    case (LockWait i)
    with ex calls_ok_move [OF ok] ln show ?thesis by (auto simp: noted_def)
  next
    case (WaitDone i)
    with ex wait_link [OF sl] show ?thesis by (auto simp: noted_def Option.bind_eq_Some_conv)
  next
    case (WaitClosed i)
    with ex wait_link [OF sl] show ?thesis by (auto simp: noted_def Option.bind_eq_Some_conv)
  next
    case (WaitExpired i)
    with ex wait_link [OF sl] show ?thesis by (auto simp: noted_def Option.bind_eq_Some_conv)
  next
    case (ResetEncoder i)
    with ex pr reset_link [OF sl] show ?thesis by (auto simp: noted_def proper_def)
  next
    case (EncodeMessage i)
    with ex encode_link [OF sl] show ?thesis by (auto simp: noted_def)
  next
    case (FillHeader i)
    with ex fill_link [OF sl] show ?thesis by (auto simp: noted_def)
  next
    case (SchedWriter i)
    then obtain c where c: "call_at S i CallFilled = Some c" "call_sched i c S = Some S'"
      using ex by (auto simp: Option.bind_eq_Some_conv)
    then obtain f where "flight_of amf c = Some f" "loadable (wc_csid c) f (tx S)"
      using pr SchedWriter by (auto simp: proper_def call_at_Some)
    then show ?thesis
      using sched_link [OF sl c] SchedWriter c(1) by (simp add: noted_def call_at_Some)
  next
    case LoopRequeued
    with ex have "set (pipeline S') = set (pipeline S)" "tx S' = tx S" "calls S' = calls S" "encTarget S' = encTarget S"
      by (auto simp: loop_requeue_def enqueue_def pipeline_def split: loopPhase.splits if_splits)
    then show ?thesis using LoopRequeued ln calls_ok_same [OF ok] by (simp add: noted_def)
  next
    case LoopStop
    with ex have "set (pipeline S') = set (pipeline S)" "tx S' = tx S" "calls S' = calls S" "encTarget S' = encTarget S"
      by (auto simp: loop_stop_def pipeline_def split: if_splits)
    then show ?thesis using LoopStop ln calls_ok_same [OF ok] by (simp add: noted_def)
  next
    case CloseStreamer
    with ex have "set (pipeline S') = set (pipeline S)" "tx S' = tx S" "calls S' = calls S" "encTarget S' = encTarget S"
      by (auto simp: streamer_Close_def pipeline_def split: if_splits)
    then show ?thesis using CloseStreamer ln calls_ok_same [OF ok] by (simp add: noted_def)
  qed (use nt in simp)
  then show "sys_link amf (noted amf ev S P) S' rx" "tx_w (tx S') = tx_w (tx S)"
    using rw exec_exclusive [OF exc ex] by (simp_all add: sys_link_def)
qed

text \<open>The bytes a run of the system puts on the wire, and how many chunks these are.\<close>

definition event_wire :: "event \<Rightarrow> streamerSystem \<Rightarrow> byte list" where
  "event_wire ev S =
     (case (ev, queue S) of
        (LoopTake, csid # _) \<Rightarrow> chunk_bytes (selfState (tx S)) (updateWriterHeader (writer_of (tx S) csid))
      | _ \<Rightarrow> [])"

fun sys_wire :: "amf0 \<Rightarrow> event list \<Rightarrow> streamerSystem \<Rightarrow> byte list" where
  "sys_wire amf [] S = []"
| "sys_wire amf (ev # evs) S =
     event_wire ev S @ (case exec amf ev S of None \<Rightarrow> [] | Some S' \<Rightarrow> sys_wire amf evs S')"

definition turns :: "event list \<Rightarrow> nat" where
  "turns evs = length (filter (\<lambda>ev. ev = LoopTake) evs)"

lemma run_receive:
  assumes "sys_link amf P S rx" and "proper_run amf evs S"
    and "run_events amf evs (P, S) = Some (ms, P', S')" and "rx_pending rx = sys_wire amf evs S @ rest"
  shows "out (tx_w (tx S')) = out (tx_w (tx S)) @ sys_wire amf evs S
    \<and> (\<exists>rx'. receive (turns evs) rx = (Ok ms, rx') \<and> rx_pending rx' = rest \<and> sys_link amf P' S' rx')"
  using assms
proof (induction evs arbitrary: P S rx ms)
  case Nil
  then show ?case by (simp add: turns_def)
next
  case (Cons ev evs)
  obtain S1 where e: "exec amf ev S = Some S1" using Cons.prems(3) by (auto split: option.splits)
  obtain ms1 where r1: "run_events amf evs (noted amf ev S P, S1) = Some (ms1, P', S')"
    and ms: "ms = shipped ev S P @ ms1"
    using Cons.prems(3) e by (auto split: option.splits)
  have pr: "proper amf ev S" "proper_run amf evs S1" using Cons.prems(2) e by simp_all
  show ?case
  proof (cases "ev = LoopTake")
    case False
    have no: "event_wire ev S = []" "shipped ev S P = []" "turns (ev # evs) = turns evs"
      using False by (auto simp: event_wire_def shipped_def turns_def split: event.splits)
    have sl: "sys_link amf (noted amf ev S P) S1 rx" and w: "tx_w (tx S1) = tx_w (tx S)"
      using event_link [OF Cons.prems(1) pr(1) e False] by simp_all
    show ?thesis
      using Cons.IH [OF sl pr(2) r1] Cons.prems(4) e no ms w by simp
  next
    case True
    then obtain csid q where l: "loop S = LoopReceiving" and q: "queue S = csid # q"
      using e by (auto simp: loop_take_def split: loopPhase.splits list.splits)
    have n: "noted amf ev S P = P" and t: "turns (ev # evs) = Suc (turns evs)"
      using True by (simp_all add: noted_def turns_def)
    define cb where "cb = chunk_bytes (selfState (tx S)) (updateWriterHeader (writer_of (tx S) csid))"
    have ew: "event_wire ev S = cb" using True q by (simp add: event_wire_def cb_def)
    have pend: "rx_pending rx = cb @ sys_wire amf evs S1 @ rest"
      using Cons.prems(4) e ew by simp
    obtain S2 rx1 where c: "loop_take S = Some S2" "out (tx_w (tx S2)) = out (tx_w (tx S)) @ cb"
      "readChunk rx = (Ok csid, rx1)" "rx_pending rx1 = sys_wire amf evs S1 @ rest"
      "sys_link amf P S2 rx1"
      "shipped LoopTake S P = (if chunkCompleted csid rx1 then [(csid, received csid rx1)] else [])"
      unfolding cb_def by (rule take_link [OF Cons.prems(1) l q pend [unfolded cb_def]]) blast
    have S2: "S2 = S1" using c(1) e True by simp
    from Cons.IH [of P S1 rx1 ms1] c(4,5) pr(2) r1 n S2 obtain rx' where ih:
      "out (tx_w (tx S')) = out (tx_w (tx S1)) @ sys_wire amf evs S1"
      "receive (turns evs) rx1 = (Ok ms1, rx')" "rx_pending rx' = rest" "sys_link amf P' S' rx'"
      by auto
    have "receive (turns (ev # evs)) rx = (Ok ms, rx')"
      using c(3,6) ih(2) ms True unfolding t by (simp add: bind_io_def)
    then show ?thesis using c(2) ih S2 ew e by simp
  qed
qed

section \<open>From the start\<close>

lemma sys_link_init:
  assumes "faults k = []" and "readers rx = fmempty"
    and "chunkSize (peerState rx) = cfg_DefaultChunkSize c" and "0 < cfg_DefaultChunkSize c"
    and "0 \<le> cfg_MaxChunkStreams c" and "cfg_MaxChunkStreams c \<le> cfg_MaxChunkStreams (rx_config rx)"
  shows "sys_link amf P (NewChunkStreamer_system k (Some c)) rx"
  using assms exclusive_init [of k "Some c"]
  by (simp add: sys_link_def calls_ok_def link_def NewChunkStreamer_system_def Let_def
      NewStreamControlState_def)

lemma sys_link_rx:
  assumes "sys_link amf P S rx" and "readers rx' = readers rx" "peerState rx' = peerState rx" "rx_config rx' = rx_config rx"
  shows "sys_link amf P S rx'"
proof -
  have "reader_of rx' = reader_of rx" using assms by (simp add: reader_of_def fun_eq_iff)
  then show ?thesis using assms by (clarsimp simp: sys_link_def link_def)
qed

text \<open>What goes out is what \<^const>\<open>sys_wire\<close> says, whoever reads it.\<close>

lemma run_out:
  assumes "sys_link amf P S rx" and "proper_run amf evs S"
    and "run_events amf evs (P, S) = Some (ms, P', S')"
  shows "out (tx_w (tx S')) = out (tx_w (tx S)) @ sys_wire amf evs S"
proof -
  define rr where "rr = (rx_r rx)\<lparr>csr_reader := \<lparr>segs = [sys_wire amf evs S], net_end = EOF\<rparr>\<rparr>"
  have "rx_pending (rx\<lparr>rx_r := rr\<rparr>) = sys_wire amf evs S @ []"
    by (simp add: rr_def csr_pending_def net_pending_def)
  then show ?thesis
    using run_receive [OF sys_link_rx [OF assms(1), of "rx\<lparr>rx_r := rr\<rparr>"] assms(2,3)] by simp
qed

lemma run_delivers:
  assumes "sys_link amf P S rx" and "proper_run amf evs S"
    and "run_events amf evs (P, S) = Some (ms, P', S')"
    and "out (tx_w (tx S')) = out (tx_w (tx S)) @ rx_pending rx"
  shows "\<exists>rx'. receive (turns evs) rx = (Ok ms, rx') \<and> rx_pending rx' = [] \<and> sys_link amf P' S' rx'"
  using run_receive [OF assms(1-3), of "[]"] run_out [OF assms(1-3)] assms(4) by simp

end
