(* ===== verification/Write_Drain.thy ===== *)
theory Write_Drain
  imports Write_Transfer
begin

text \<open>
  What becomes of a message once \<^verbatim>\<open>Write\<close> has returned nil: it is on its way until its last chunk
  is out, never dropped, and the write loop, which nothing but a full queue can hold up, works
  the queue off. The last part puts this together with the reader at the other end.
\<close>

section \<open>Nothing is lost\<close>

text \<open>
  The messages of a list that belong to one chunk stream, and the messages a run takes on: those
  of the calls of \<^verbatim>\<open>Write\<close> that put their writer into the queue and return nil.
\<close>

definition flights_on :: "int \<Rightarrow> (int \<times> flight) list \<Rightarrow> flight list" where
  "flights_on csid ms = map snd (filter (\<lambda>m. fst m = csid) ms)"

lemma flights_on_simps [simp]:
  "flights_on csid [] = []" "flights_on csid (ms @ ms') = flights_on csid ms @ flights_on csid ms'"
  "flights_on csid ((k, f) # ms) = (if k = csid then [f] else []) @ flights_on csid ms"
  by (simp_all add: flights_on_def)

definition taken_on :: "amf0 \<Rightarrow> event \<Rightarrow> streamerSystem \<Rightarrow> (int \<times> flight) list" where
  "taken_on amf ev S =
     (case ev of
        SchedWriter i \<Rightarrow> (case calls S i of Some c \<Rightarrow> [(wc_csid c, the (flight_of amf c))] | None \<Rightarrow> [])
      | _ \<Rightarrow> [])"

fun accepted :: "amf0 \<Rightarrow> event list \<Rightarrow> streamerSystem \<Rightarrow> (int \<times> flight) list" where
  "accepted amf [] S = []"
| "accepted amf (ev # evs) S =
     taken_on amf ev S @ (case exec amf ev S of None \<Rightarrow> [] | Some S' \<Rightarrow> accepted amf evs S')"

text \<open>The message of a chunk stream that is on its way.\<close>

definition in_transit :: "(int \<Rightarrow> flight option) \<Rightarrow> streamerSystem \<Rightarrow> int \<Rightarrow> flight list" where
  "in_transit P S csid = (if csid \<in> set (pipeline S) then [the (P csid)] else [])"

lemma take_conserves:
  assumes ex: "exclusive S" and st: "loop_take S = Some S'" and run: "running S'"
  shows "in_transit P S k = flights_on k (shipped LoopTake S P) @ in_transit P S' k"
proof -
  obtain csid q where l: "loop S = LoopReceiving" and q: "queue S = csid # q"
    using st by (auto simp: loop_take_def split: loopPhase.splits list.splits)
  have pl: "pipeline S = csid # q" "csid \<notin> set q" using ex l q by (auto simp: pipeline_def exclusive_def)
  show ?thesis
  proof (cases "fst (runTurn csid (tx S))")
    case (Ok b)
    then have "pipeline S' = (if b then q else csid # q)"
      using st l q by (cases b) (auto simp: loop_take_def recovered_def pipeline_def)
    then show ?thesis using pl Ok q by (auto simp: in_transit_def shipped_def)
  qed (use st l q run in \<open>auto simp: loop_take_def recovered_def running_def\<close>)
qed

lemma framed_pipeline: "framed S S' \<Longrightarrow> set (pipeline S') = set (pipeline S)"
  by (simp add: framed_def pipeline_def)

lemma exec_pipeline:
  assumes "exec amf ev S = Some S'" and "ev \<noteq> LoopTake" and "\<And>i. ev \<noteq> SchedWriter i"
  shows "set (pipeline S') = set (pipeline S)"
proof (cases ev)
  case (EnterWrite i csid ts cmsg)
  then show ?thesis using assms(1) by (auto simp: pipeline_def call_enter_frame split: if_splits)
next
  case LoopRequeued
  then show ?thesis
    using assms(1) by (auto simp: loop_requeue_def enqueue_def pipeline_def split: loopPhase.splits if_splits)
next
  case LoopStop
  then show ?thesis using assms(1) by (auto simp: loop_stop_def pipeline_def split: if_splits)
next
  case CloseStreamer
  then show ?thesis using assms(1) by (auto simp: streamer_Close_def pipeline_def split: if_splits)
qed (use assms in \<open>auto simp: Option.bind_eq_Some_conv simp del: set_call_simps
      dest: framed_pipeline [OF call_wait_framed]
      simp: framed_pipeline [OF framed_set_call] framed_pipeline [OF call_encode_framed]
        framed_pipeline [OF call_fill_framed] framed_pipeline [OF call_reset_framed]\<close>)

lemma event_conserves:
  assumes ex: "exclusive S" and pr: "proper amf ev S" and st: "exec amf ev S = Some S'" and run: "running S'"
  shows "in_transit P S k @ flights_on k (taken_on amf ev S)
    = flights_on k (shipped ev S P) @ in_transit (noted amf ev S P) S' k"
proof (cases "ev = LoopTake \<or> (\<exists>i. ev = SchedWriter i)")
  case False
  then have "set (pipeline S') = set (pipeline S)" using exec_pipeline [OF st] by blast
  moreover have "taken_on amf ev S = []" "shipped ev S P = []" "noted amf ev S P = P"
    using False by (auto simp: taken_on_def shipped_def noted_def split: event.splits)
  ultimately show ?thesis by (simp add: in_transit_def)
next
  case True
  then show ?thesis
  proof (elim disjE exE)
    assume "ev = LoopTake"
    then show ?thesis using take_conserves [OF ex _ run] st by (simp add: taken_on_def noted_def)
  next
    fix i assume ev: "ev = SchedWriter i"
    then obtain c where c: "call_at S i CallFilled = Some c" "call_sched i c S = Some S'"
      using st by (auto simp: Option.bind_eq_Some_conv)
    obtain f where f: "flight_of amf c = Some f" using pr ev c(1) by (auto simp: proper_def call_at_Some)
    have "wc_csid c \<notin> set (pipeline S)" using owner_facts(1) [OF ex call_at_owns [OF c(1)]] by simp
    moreover have "set (pipeline S') = insert (wc_csid c) (set (pipeline S))"
      using c(2) by (auto simp: call_sched_def enqueue_def pipeline_def split: if_splits)
    ultimately show ?thesis
      using ev c(1) f by (auto simp: in_transit_def taken_on_def shipped_def noted_def call_at_Some)
  qed
qed

text \<open>A turn of the loop, without an account of what the reader at the other end makes of it.\<close>

lemma turn_link:
  assumes sl: "sys_link amf P S rx" and l: "loop S = LoopReceiving" and q: "queue S = csid # q"
  obtains S' rx' where "exec amf LoopTake S = Some S'" and "sys_link amf P S' rx'"
proof -
  let ?cb = "chunk_bytes (selfState (tx S)) (updateWriterHeader (writer_of (tx S) csid))"
  define rx1 where "rx1 = rx\<lparr>rx_r := (rx_r rx)\<lparr>csr_reader := \<lparr>segs = [?cb], net_end = EOF\<rparr>\<rparr>\<rparr>"
  have "sys_link amf P S rx1" by (rule sys_link_rx [OF sl]) (simp_all add: rx1_def)
  moreover have "rx_pending rx1 = ?cb @ []" by (simp add: rx1_def csr_pending_def net_pending_def)
  ultimately obtain S' rx' where "loop_take S = Some S'" "sys_link amf P S' rx'"
    using take_link [OF _ l q] by blast
  then show thesis by (intro that) simp_all
qed

lemma event_linked:
  assumes sl: "sys_link amf P S rx" and pr: "proper amf ev S" and st: "exec amf ev S = Some S'"
  shows "\<exists>rx'. sys_link amf (noted amf ev S P) S' rx'"
proof (cases "ev = LoopTake")
  case True
  then obtain csid q where "loop S = LoopReceiving" "queue S = csid # q"
    using st by (auto simp: loop_take_def split: loopPhase.splits list.splits)
  then obtain S2 rx' where "exec amf LoopTake S = Some S2" "sys_link amf P S2 rx'" by (rule turn_link [OF sl])
  then show ?thesis using True st by (auto simp: noted_def)
next
  case False
  then show ?thesis using event_link [OF sl pr st] by blast
qed

lemma run_linked:
  assumes "sys_link amf P S rx" and "proper_run amf evs S" and "run_events amf evs (P, S) = Some (ms, P', S')"
  shows "(\<exists>rx'. sys_link amf P' S' rx')
    \<and> (\<forall>k. in_transit P S k @ flights_on k (accepted amf evs S) = flights_on k ms @ in_transit P' S' k)"
  using assms
proof (induction evs arbitrary: P S rx ms)
  case (Cons ev evs)
  obtain S1 where e: "exec amf ev S = Some S1" using Cons.prems(3) by (auto split: option.splits)
  obtain ms1 where r1: "run_events amf evs (noted amf ev S P, S1) = Some (ms1, P', S')"
    and ms: "ms = shipped ev S P @ ms1"
    using Cons.prems(3) e by (auto split: option.splits)
  have pr: "proper amf ev S" "proper_run amf evs S1" using Cons.prems(2) e by simp_all
  obtain rx1 where sl: "sys_link amf (noted amf ev S P) S1 rx1"
    using event_linked [OF Cons.prems(1) pr(1) e] by blast
  have "exclusive S" "running S1" using Cons.prems(1) sl by (simp_all add: sys_link_def)
  then have "in_transit P S k @ flights_on k (taken_on amf ev S)
      = flights_on k (shipped ev S P) @ in_transit (noted amf ev S P) S1 k" for k
    using event_conserves [OF _ pr(1) e] by blast
  then show ?case
    using Cons.IH [OF sl pr(2) r1] e ms by (simp flip: append_assoc) simp
qed auto

section \<open>The loop drains the queue\<close>

text \<open>What the loop still has to do: it decreases with each of its steps.\<close>

definition work :: "streamerSystem \<Rightarrow> nat" where
  "work S = 2 * sum_list (map (\<lambda>k. Suc (length (buf (writer_of (tx S) k)))) (pipeline S))
     + (if loop S = LoopReceiving then 0 else 1)"

lemma take_works:
  assumes sl: "sys_link amf P S rx" and st: "loop_take S = Some S'"
  shows "work S' < work S"
proof -
  have ex: "exclusive S" and ln: "link (set (pipeline S)) P (tx S) rx" using sl by (simp_all add: sys_link_def)
  obtain csid q where l: "loop S = LoopReceiving" and q: "queue S = csid # q"
    using st by (auto simp: loop_take_def split: loopPhase.splits list.splits)
  have pl: "pipeline S = csid # q" using l q by (simp add: pipeline_def)
  then have dq: "csid \<notin> set q" and fl: "flags (tx S) csid = Some (False, False)"
    using ex by (auto simp: exclusive_def)
  obtain w where w: "fmlookup (writers (tx S)) csid = Some w" "\<not> doneClosed w"
    using fl by (auto simp: flags_def)
  have v: "valid_csid (bh_chunkStreamID (basicHeader w))"
    using link_writer [OF ln w(1)] by (simp add: valid_csid_def)
  have f: "faults (tx_w (tx S)) = []" and cs: "0 < chunkSize (selfState (tx S))" using ln unfolding link_def by blast+
  define n where "n = chunkSendLen (selfState (tx S)) w"
  define rest where "rest = sum_list (map (\<lambda>k. Suc (length (buf (writer_of (tx S) k)))) q)"
  have workS: "work S = 2 * (Suc (length (buf w)) + rest)"
    using pl l w by (simp add: work_def rest_def writer_of_def)
  have others: "sum_list (map (\<lambda>k. Suc (length (buf (writer_of s k)))) q) = rest"
    if "\<And>k. k \<noteq> csid \<Longrightarrow> fmlookup (writers s) k = fmlookup (writers (tx S)) k" for s
    unfolding rest_def using dq that
    by (intro arg_cong [where f = sum_list] map_cong refl) (metis writer_of_def)
  note tk = loop_take_healthy [OF l q w(1) v f w(2)]
  show ?thesis
  proof (cases "length (buf w) \<le> n")
    case True
    then have "pipeline S' = q" "loop S' = LoopReceiving"
      "\<And>k. k \<noteq> csid \<Longrightarrow> fmlookup (writers (tx S')) k = fmlookup (writers (tx S)) k"
      using st tk by (auto simp: n_def Let_def pipeline_def l)
    then have "work S' = 2 * rest" using others [of "tx S'"] by (simp add: work_def)
    then show ?thesis using workS by simp
  next
    case False
    then have n: "0 < n" using cs by (auto simp: n_def chunkSendLen_def word_less_nat_alt split: if_splits)
    have "pipeline S' = csid # q" "loop S' = LoopRequeue csid" "buf (writer_of (tx S') csid) = drop n (buf w)"
      "\<And>k. k \<noteq> csid \<Longrightarrow> fmlookup (writers (tx S')) k = fmlookup (writers (tx S)) k"
      using False st tk by (auto simp: n_def Let_def pipeline_def writer_of_def)
    then have "work S' = 2 * (Suc (length (buf w) - n) + rest) + 1" using others [of "tx S'"] by (simp add: work_def)
    then show ?thesis using workS n False by simp
  qed
qed

lemma requeue_works:
  assumes "loop_requeue S = Some S'"
  shows "work S' < work S"
proof -
  obtain csid where l: "loop S = LoopRequeue csid" and S': "S' = S\<lparr>queue := queue S @ [csid], loop := LoopReceiving\<rparr>"
    using assms by (auto simp: loop_requeue_def enqueue_def split: loopPhase.splits if_splits)
  have "pipeline S = csid # queue S" "pipeline S' = queue S @ [csid]" "tx S' = tx S" "loop S' = LoopReceiving"
    by (simp_all add: S' pipeline_def l)
  then show ?thesis by (simp add: work_def l)
qed

lemma run_events_queue_ok:
  "run_events amf evs (P, S) = Some (ms, P', S') \<Longrightarrow> queue_ok S
    \<Longrightarrow> queue_ok S' \<and> tx_config (tx S') = tx_config (tx S)"
proof (induction evs arbitrary: P S ms)
  case (Cons ev evs)
  obtain S1 where e: "exec amf ev S = Some S1" using Cons.prems(1) by (auto split: option.splits)
  obtain ms1 where "run_events amf evs (noted amf ev S P, S1) = Some (ms1, P', S')"
    using Cons.prems(1) e by (auto split: option.splits)
  then show ?case using Cons.IH exec_queue_ok [OF Cons.prems(2) e] by auto
qed simp

lemma drains:
  assumes "sys_link amf P S rx" and "queue_ok S" and "cfg_MaxChunkStreams (tx_config (tx S)) \<le> int maxWriterQueueSize"
    and "loop S \<noteq> LoopEnded None"
  shows "\<exists>evs ms S'. set evs \<subseteq> {LoopTake, LoopRequeued} \<and> run_events amf evs (P, S) = Some (ms, P, S')
    \<and> proper_run amf evs S \<and> accepted amf evs S = [] \<and> pipeline S' = [] \<and> loop S' = LoopReceiving"
  using assms
proof (induction "work S" arbitrary: S rx rule: less_induct)
  case less
  have run: "running S" and ex: "exclusive S" using less.prems(1) by (simp_all add: sys_link_def)
  have one: ?case if ev: "ev = LoopTake \<or> ev = LoopRequeued" and st: "exec amf ev S = Some S1" and wk: "work S1 < work S"
    and l1: "loop S1 \<noteq> LoopEnded None" for ev S1
  proof -
    have n: "noted amf ev S P = P" "proper amf ev S" "taken_on amf ev S = []"
      using ev by (auto simp: noted_def proper_def taken_on_def)
    obtain rx1 where sl: "sys_link amf P S1 rx1" using event_linked [OF less.prems(1) n(2) st] n(1) by auto
    have q: "queue_ok S1 \<and> tx_config (tx S1) = tx_config (tx S)" by (rule exec_queue_ok [OF less.prems(2) st])
    obtain evs ms S' where ih: "set evs \<subseteq> {LoopTake, LoopRequeued}" "run_events amf evs (P, S1) = Some (ms, P, S')"
      "proper_run amf evs S1" "accepted amf evs S1 = []" "pipeline S' = []" "loop S' = LoopReceiving"
      using less.hyps [OF wk sl] q less.prems(3) l1 by auto
    show ?thesis
      using ih ev st n by (intro exI [of _ "ev # evs"] exI [of _ "shipped ev S P @ ms"] exI [of _ S']) auto
  qed
  show ?case
  proof (cases "loop S")
    case LoopReceiving
    show ?thesis
    proof (cases "queue S")
      case Nil
      then show ?thesis
        using LoopReceiving by (intro exI [of _ "[]"] exI [of _ "[]"] exI [of _ S]) (simp add: pipeline_def)
    next
      case (Cons csid q)
      obtain S1 rx1 where st: "exec amf LoopTake S = Some S1" "sys_link amf P S1 rx1"
        by (rule turn_link [OF less.prems(1) LoopReceiving Cons])
      have "loop S1 \<noteq> LoopEnded None"
        using st(1) LoopReceiving by (auto simp: loop_take_def split: list.splits result.splits prod.splits bool.splits)
      then show ?thesis using one [OF _ st(1)] take_works [OF less.prems(1)] st(1) by simp
    qed
  next
    case (LoopRequeue csid)
    obtain S1 where S1: "loop_requeue S = Some S1"
      using requeue_enabled [OF ex less.prems(2) LoopRequeue less.prems(3)] by blast
    then have "loop S1 = LoopReceiving" using LoopRequeue by (auto simp: loop_requeue_def)
    then show ?thesis using one [of LoopRequeued S1] S1 requeue_works [OF S1] by simp
  next
    case (LoopEnded e)
    then show ?thesis using run less.prems(4) by (cases e) (auto simp: running_def)
  qed
qed

lemma run_events_append:
  "run_events amf evs st = Some (ms, st1) \<Longrightarrow> run_events amf evs' st1 = Some (ms', st2)
    \<Longrightarrow> run_events amf (evs @ evs') st = Some (ms @ ms', st2)"
  by (induction amf evs st arbitrary: ms rule: run_events.induct) (auto split: option.splits)

lemma proper_run_append:
  "proper_run amf evs S \<Longrightarrow> run_events amf evs (P, S) = Some (ms, P1, S1) \<Longrightarrow> proper_run amf evs' S1
    \<Longrightarrow> proper_run amf (evs @ evs') S"
proof (induction evs arbitrary: P S ms)
  case (Cons ev evs)
  then show ?case by (auto split: option.splits)
qed simp


section \<open>From the first event to the last chunk\<close>

text \<open>
  Whoever reads what was written since \<open>k\<close> from the start, with the same chunk size and room for
  as many chunk streams, reads \<open>n\<close> chunks, completes the messages \<open>ms\<close>, and has no byte left.
\<close>

definition arrives :: "StreamControlStateConfig \<Rightarrow> netSink \<Rightarrow> nat \<Rightarrow> (int \<times> flight) list \<Rightarrow> streamerSystem \<Rightarrow> bool" where
  "arrives c k n ms S \<longleftrightarrow>
     (\<forall>rx. readers rx = fmempty \<longrightarrow> chunkSize (peerState rx) = cfg_DefaultChunkSize c
       \<longrightarrow> cfg_MaxChunkStreams c \<le> cfg_MaxChunkStreams (rx_config rx)
       \<longrightarrow> out (tx_w (tx S)) = out k @ rx_pending rx
       \<longrightarrow> (\<exists>rx'. receive n rx = (Ok ms, rx') \<and> rx_pending rx' = []))"

lemma proper_run_arrives:
  assumes "S = NewChunkStreamer_system k (Some c)" and "faults k = []"
    and "0 < cfg_DefaultChunkSize c" and "0 \<le> cfg_MaxChunkStreams c"
    and "proper_run amf evs S" and "run_events amf evs (P, S) = Some (ms, P', S')"
  shows "arrives c k (turns evs) ms S'"
  unfolding arrives_def
proof (intro allI impI)
  fix rx assume rx: "readers rx = fmempty" "chunkSize (peerState rx) = cfg_DefaultChunkSize c"
    "cfg_MaxChunkStreams c \<le> cfg_MaxChunkStreams (rx_config rx)" "out (tx_w (tx S')) = out k @ rx_pending rx"
  have "sys_link amf P S rx"
    unfolding assms(1) by (rule sys_link_init) (use assms rx in simp_all)
  moreover have "out (tx_w (tx S)) = out k" by (simp add: assms(1) NewChunkStreamer_system_def Let_def)
  ultimately show "\<exists>rx'. receive (turns evs) rx = (Ok ms, rx') \<and> rx_pending rx' = []"
    using run_delivers [OF _ assms(5,6)] rx(4) by auto
qed

definition start_receiver :: "StreamControlStateConfig \<Rightarrow> chunkReadSide" where
  "start_receiver c = \<lparr>rx_r = \<lparr>csr_reader = \<lparr>segs = [], net_end = EOF\<rparr>, totalReadBytes = 0, fragmentReadBytes = 0\<rparr>,
     readers = fmempty, peerState = NewStreamControlState (Some c), rx_config = c\<rparr>"

lemma proper_run_drains:
  assumes "S = NewChunkStreamer_system k (Some c)" and "faults k = []"
    and "0 < cfg_DefaultChunkSize c" and "0 \<le> cfg_MaxChunkStreams c"
    and "proper_run amf evs S" and "run_events amf evs (P, S) = Some (ms, P', S')"
    and "cfg_MaxChunkStreams c \<le> int maxWriterQueueSize" and "loop S' \<noteq> LoopEnded None"
  shows "\<exists>evs' ms' S''. set evs' \<subseteq> {LoopTake, LoopRequeued}
    \<and> run_events amf evs' (P', S') = Some (ms', P', S'') \<and> pipeline S'' = []
    \<and> proper_run amf (evs @ evs') S \<and> run_events amf (evs @ evs') (P, S) = Some (ms @ ms', P', S'')
    \<and> (\<forall>csid. flights_on csid (ms @ ms') = flights_on csid (accepted amf evs S))"
proof -
  have "sys_link amf P S (start_receiver c)"
    unfolding assms(1)
    by (rule sys_link_init) (use assms in \<open>simp_all add: start_receiver_def NewStreamControlState_def Let_def\<close>)
  from run_linked [OF this assms(5,6)] obtain rx' where sl: "sys_link amf P' S' rx'"
    and cons: "\<And>k. in_transit P S k @ flights_on k (accepted amf evs S) = flights_on k ms @ in_transit P' S' k"
    by blast
  have "queue_ok S' \<and> tx_config (tx S') = tx_config (tx S)"
    using run_events_queue_ok [OF assms(6)] queue_ok_init by (simp add: assms(1))
  moreover have "tx_config (tx S) = c" "pipeline S = []"
    by (simp_all add: assms(1) NewChunkStreamer_system_def pipeline_def Let_def)
  ultimately obtain evs' ms' S'' where d: "set evs' \<subseteq> {LoopTake, LoopRequeued}"
    "run_events amf evs' (P', S') = Some (ms', P', S'')" "proper_run amf evs' S'" "accepted amf evs' S' = []"
    "pipeline S'' = []"
    using drains [OF sl] assms(7,8) by auto
  have "in_transit P S k = []" "in_transit P' S'' k = []" for k
    using d(5) \<open>pipeline S = []\<close> by (simp_all add: in_transit_def)
  then have "flights_on k (ms @ ms') = flights_on k (accepted amf evs S)" for k
    using cons [of k] run_linked [OF sl d(3,2)] d(4) by simp
  then show ?thesis
    using d(1,2,5) proper_run_append [OF assms(5,6) d(3)] run_events_append [OF assms(6) d(2)] by blast
qed

end
