(* ===== verification/Write_Failure.thy ===== *)
theory Write_Failure
  imports Write_Sched
begin

text \<open>
  What is true until the write loop fails, what its failure does to the writers, and that nothing
  is written afterwards.
\<close>

section \<open>Errors and tables\<close>

text \<open>
  While the loop runs no writer has an error, and a call that has not returned finds its writer
  in the table.
\<close>

definition healthy :: "streamerSystem \<Rightarrow> bool" where
  "healthy S \<longleftrightarrow>
     (\<forall>csid w. fmlookup (writers (tx S)) csid = Some w \<longrightarrow> lastErr w = None)
     \<and> (\<forall>i c. calls S i = Some c \<longrightarrow> (\<forall>r. wc_phase c \<noteq> CallReturned r) \<longrightarrow> wc_csid c |\<in>| fmdom (writers (tx S)))"

lemma healthy_put:
  assumes "healthy S" and "fmlookup (writers (tx S)) k = Some w" and "lastErr w' = lastErr w"
  shows "healthy (put_writer k w' S)"
  using assms by (auto simp: healthy_def fmlookup_dom_iff)

lemma healthy_set_call:
  assumes "healthy S" and "wc_csid c |\<in>| fmdom (writers (tx S))"
  shows "healthy (set_call i c p S)"
  using assms by (auto simp: healthy_def)

lemma call_at_dom:
  assumes "healthy S" and "call_at S i p = Some c" and "\<And>r. p \<noteq> CallReturned r"
  shows "wc_csid c |\<in>| fmdom (writers (tx S))"
  using assms by (auto simp: healthy_def call_at_Some)

lemma healthy_returned: "healthy S \<Longrightarrow> healthy (set_call i c (CallReturned r) S)"
  by (auto simp: healthy_def)

lemma healthy_enter:
  assumes "healthy S"
  shows "healthy (call_enter i csid ts cmsg S)"
proof -
  define T where "T = S\<lparr>tx := snd (prepareChunkWriter csid (tx S))\<rparr>"
  have "healthy T"
    using assms by (auto simp: healthy_def T_def prepareChunkWriter_def new_writer_def chunkStreamReader.extend_def split: option.splits)
  moreover have "is_Ok (fst (prepareChunkWriter csid (tx S))) \<Longrightarrow> csid |\<in>| fmdom (writers (tx T))"
    by (auto simp: T_def prepareChunkWriter_def fmlookup_dom_iff split: option.splits if_splits)
  ultimately show ?thesis
    by (cases "prepareChunkWriter csid (tx S)"; cases "fst (prepareChunkWriter csid (tx S))")
      (auto simp: call_enter_def Let_def wrap_io_def T_def intro: healthy_set_call healthy_returned)
qed

lemma healthy_wait:
  assumes "healthy S" and "call_wait arm i c S = Some S'"
    and "arm = wait_done \<or> arm = wait_closed \<or> arm = wait_expired"
  shows "healthy S'"
proof -
  obtain w r w' where w: "fmlookup (writers (tx S)) (wc_csid c) = Some w" "arm w = Some (r, w')"
    using assms(2) by (auto simp: call_wait_def split: option.splits)
  have "lastErr w' = lastErr w"
    using w(2) assms(3) by (auto simp: wait_done_def wait_closed_def wait_expired_def split: if_splits option.splits)
  then have h: "healthy (put_writer (wc_csid c) w' S)" by (rule healthy_put [OF assms(1) w(1)])
  have "\<exists>p. S' = set_call i c p (put_writer (wc_csid c) w' S)"
    using assms(2) w by (auto simp: call_wait_def split: result.splits)
  then show ?thesis using healthy_set_call [OF h] by auto
qed

lemma healthy_encode:
  assumes "healthy S" and "call_at S i CallEncoding = Some c"
  shows "healthy (call_encode amf i c S)"
proof (cases "Option.bind (encTarget S) (fmlookup (writers (tx S)))")
  case None
  then show ?thesis using assms(1) by (simp add: call_encode_def healthy_returned)
next
  case (Some w)
  then obtain k where k: "encTarget S = Some k" "fmlookup (writers (tx S)) k = Some w"
    by (auto simp: Option.bind_eq_Some_conv)
  have "healthy (put_writer k (w\<lparr>buf := b\<rparr>) S)" for b by (rule healthy_put [OF assms(1) k(2)]) simp
  then show ?thesis
    using call_at_dom [OF assms] k by (auto simp: call_encode_def intro!: healthy_set_call split: prod.split)
qed

lemma healthy_fill:
  assumes "healthy S" and "call_at S i CallEncoded = Some c"
  shows "healthy (call_fill i c S)"
proof (cases "fmlookup (writers (tx S)) (wc_csid c)")
  case None
  then show ?thesis using assms(1) by (simp add: call_fill_def healthy_returned)
next
  case (Some w)
  have "healthy (put_writer (wc_csid c) (fill_writer ts ty sid w) S)" for ts ty sid
    by (rule healthy_put [OF assms(1) Some]) (simp add: fill_writer_def)
  then show ?thesis
    using Some assms(1) call_at_dom [OF assms]
    by (auto simp: call_fill_def intro!: healthy_set_call healthy_returned split: result.split)
qed

lemma runTurn_table:
  assumes w: "fmlookup (writers s) csid = Some w"
  obtains w' where "writers (snd (runTurn csid s)) = fmupd csid w' (writers s)"
    and "is_Ok (fst (runTurn csid s)) \<Longrightarrow> lastErr w' = lastErr w"
proof -
  obtain b where b: "writers (snd (writeChunk csid s)) = fmupd csid (updateWriterHeader w\<lparr>buf := b\<rparr>) (writers s)"
    using writeChunk_table [OF w] by blast
  have twice: "fmupd csid v (fmupd csid u m) = fmupd csid v m" for u v :: chunkStreamWriter and m
    by (rule fmap_ext) simp
  obtain r s1 where rs: "writeChunk csid s = (r, s1)" by (cases "writeChunk csid s")
  show thesis
  proof (rule that)
    show "writers (snd (runTurn csid s)) = fmupd csid (the (fmlookup (writers (snd (runTurn csid s))) csid)) (writers s)"
      using b by (auto simp: runTurn_def rs closeDone_def setLastErr_def bind_io_def twice split: result.split)
    show "lastErr (the (fmlookup (writers (snd (runTurn csid s))) csid)) = lastErr w" if "is_Ok (fst (runTurn csid s))"
      using b that by (auto simp: runTurn_def rs closeDone_def setLastErr_def bind_io_def split: result.splits if_splits)
  qed
qed

lemma take_cases:
  assumes "exclusive S" and "loop_take S = Some S'"
  obtains csid q w w' where "loop S = LoopReceiving" and "queue S = csid # q" and "fmlookup (writers (tx S)) csid = Some w"
    and "writers (snd (runTurn csid (tx S))) = fmupd csid w' (writers (tx S))"
    and "running S' \<Longrightarrow> lastErr w' = lastErr w"
    and "writers (tx S') = (if running S' then fmupd csid w' (writers (tx S))
           else fmmap (\<lambda>w. w\<lparr>closeClosed := True\<rparr>) (fmupd csid w' (writers (tx S))))"
    and "calls S' = calls S"
proof -
  obtain csid q where l: "loop S = LoopReceiving" and q: "queue S = csid # q"
    using assms(2) by (auto simp: loop_take_def split: loopPhase.splits list.splits)
  have "csid \<in> set (pipeline S)" using l q by (simp add: pipeline_def)
  then obtain w where w: "fmlookup (writers (tx S)) csid = Some w" using assms(1) by (auto simp: exclusive_def flags_def)
  obtain w' where w': "writers (snd (runTurn csid (tx S))) = fmupd csid w' (writers (tx S))"
    "is_Ok (fst (runTurn csid (tx S))) \<Longrightarrow> lastErr w' = lastErr w"
    using runTurn_table [OF w] by metis
  show thesis
    by (rule that [OF l q w w'(1)])
      (use assms(2) l q w' in \<open>cases "fst (runTurn csid (tx S))";
        auto simp: loop_take_def recovered_def running_def forceCloseWriters_def split: bool.splits\<close>)+
qed

lemma exec_healthy:
  assumes ex: "exclusive S" and h: "healthy S" and st: "exec amf ev S = Some S'" and run: "running S'"
  shows "healthy S'"
proof (cases ev)
  case LoopTake
  then have "loop_take S = Some S'" using st by simp
  from take_cases [OF ex this] obtain csid w w' where "fmlookup (writers (tx S)) csid = Some w" "lastErr w' = lastErr w"
    "writers (tx S') = fmupd csid w' (writers (tx S))" "calls S' = calls S"
    using run by metis
  then show ?thesis using h by (auto simp: healthy_def)
next
  case (SchedWriter i)
  then show ?thesis
    using st h by (auto simp: Option.bind_eq_Some_conv call_sched_def enqueue_def healthy_def split: if_splits)
next
  case LoopRequeued
  then show ?thesis
    using st h by (auto simp: loop_requeue_def enqueue_def healthy_def split: loopPhase.splits if_splits)
next
  case (ResetEncoder i)
  then obtain c where c: "call_at S i CallAcquired = Some c" "S' = call_reset i c S" using st by auto
  have "healthy (S\<lparr>encTarget := t\<rparr>)" for t using h by (simp add: healthy_def)
  then show ?thesis
    using call_at_dom [OF h c(1)] by (simp add: c(2) call_reset_def healthy_set_call)
next
  case LoopStop
  then show ?thesis using st h by (auto simp: loop_stop_def healthy_def split: if_splits)
next
  case CloseStreamer
  then show ?thesis using st h by (auto simp: streamer_Close_def healthy_def split: if_splits)
qed (use st h in \<open>auto simp: Option.bind_eq_Some_conv split: if_splits
    intro: healthy_enter healthy_wait healthy_encode healthy_fill healthy_set_call call_at_dom\<close>)

lemma reachable_healthy:
  "reachable amf S0 S \<Longrightarrow> running S \<Longrightarrow> exclusive S0 \<Longrightarrow> healthy S0 \<Longrightarrow> healthy S"
proof (induction rule: reachable.induct)
  case (step S ev S')
  have e: "exec amf ev S = Some S'" using step(2) by (rule sys_step_exec)
  have r: "running S" by (rule exec_running [OF e step.prems(1)])
  show ?case
    using exec_healthy [OF reachable_exclusive [OF step(1) r step.prems(2)] step.IH [OF r step.prems(2,3)] e step.prems(1)] .
qed

lemma healthy_init: "healthy (NewChunkStreamer_system w config)"
  by (simp add: NewChunkStreamer_system_def healthy_def Let_def)

text \<open>Once the loop has ended, nothing is written any more.\<close>

lemma ended_step:
  assumes "loop S = LoopEnded e" and "exec amf ev S = Some S'"
  shows "loop S' = LoopEnded e \<and> tx_w (tx S') = tx_w (tx S)"
  using assms(2)
proof (cases rule: exec_frame_cases)
  case (enter i csid ts cmsg)
  have "tx_w (snd (prepareChunkWriter csid s)) = tx_w s" for s
    by (auto simp: prepareChunkWriter_def split: option.splits)
  then show ?thesis using assms(1) enter by (simp add: call_enter_frame)
qed (use assms(1) in \<open>auto simp: framed_def call_sched_def enqueue_def loop_take_def loop_requeue_def
      loop_stop_def streamer_Close_def split: if_splits\<close>)

lemma reachable_ended:
  "reachable amf S S' \<Longrightarrow> loop S = LoopEnded e \<Longrightarrow> loop S' = LoopEnded e \<and> tx_w (tx S') = tx_w (tx S)"
  by (induction rule: reachable.induct) (auto dest: sys_step_exec ended_step)

end
