(* ===== verification/Sha256.thy ===== *)
theory Sha256
  imports Prelude
begin

text \<open>
  What the handshake uses of Go's \<^verbatim>\<open>crypto/sha256\<close> and \<^verbatim>\<open>crypto/hmac\<close>: the hash of FIPS 180-4 and
  the keyed hash of FIPS 198-1, on byte lists. The rest of the development uses only that a
  MAC has 32 bytes and is a function of data and key.
\<close>

section \<open>SHA-256\<close>

text \<open>
  The constants are the leading 32 bits of the fractional parts of roots of the first primes:
  cube roots of 64 of them for the rounds, square roots of eight for the initial state. The
  root of an integer is found bit by bit.
\<close>

definition int_root :: "nat \<Rightarrow> int \<Rightarrow> int" where
  "int_root k n = foldl (\<lambda>r b. if (r + 2 ^ b) ^ k \<le> n then r + 2 ^ b else r) 0 (rev [0..<40])"

definition primes_below :: "int \<Rightarrow> int list" where
  "primes_below n = filter (\<lambda>p. \<forall>d \<in> set [2..p - 1]. p mod d \<noteq> 0) [2..n - 1]"

definition root_word :: "nat \<Rightarrow> int \<Rightarrow> uint32" where
  "root_word k p = word_of_int (int_root k (p * 2 ^ (32 * k)))"

definition sha_K :: "uint32 list" where
  "sha_K = map (root_word 3) (primes_below 312)"

definition rotr :: "nat \<Rightarrow> uint32 \<Rightarrow> uint32" where
  "rotr n w = drop_bit n w OR push_bit (32 - n) w"

record sha_state =
  ha :: uint32
  hb :: uint32
  hc :: uint32
  hd' :: uint32
  he :: uint32
  hf :: uint32
  hg :: uint32
  hh :: uint32

definition sha_init :: sha_state where
  "sha_init = \<lparr>ha = root_word 2 2, hb = root_word 2 3, hc = root_word 2 5, hd' = root_word 2 7,
     he = root_word 2 11, hf = root_word 2 13, hg = root_word 2 17, hh = root_word 2 19\<rparr>"

definition sha_round :: "uint32 \<Rightarrow> uint32 \<Rightarrow> sha_state \<Rightarrow> sha_state" where
  "sha_round k w s =
     (let s1 = rotr 6 (he s) XOR rotr 11 (he s) XOR rotr 25 (he s);
          ch = (he s AND hf s) XOR (NOT (he s) AND hg s);
          t1 = hh s + s1 + ch + k + w;
          s0 = rotr 2 (ha s) XOR rotr 13 (ha s) XOR rotr 22 (ha s);
          maj = (ha s AND hb s) XOR (ha s AND hc s) XOR (hb s AND hc s);
          t2 = s0 + maj in
      \<lparr>ha = t1 + t2, hb = ha s, hc = hb s, hd' = hc s, he = hd' s + t1, hf = he s, hg = hf s, hh = hg s\<rparr>)"

text \<open>The message schedule: sixteen words of the block, then forty-eight more.\<close>

definition sha_next :: "uint32 list \<Rightarrow> uint32" where
  "sha_next ws =
     (let n = length ws; w15 = ws ! (n - 15); w2 = ws ! (n - 2);
          s0 = rotr 7 w15 XOR rotr 18 w15 XOR drop_bit 3 w15;
          s1 = rotr 17 w2 XOR rotr 19 w2 XOR drop_bit 10 w2 in
      ws ! (n - 16) + s0 + ws ! (n - 7) + s1)"

definition sha_schedule :: "uint32 list \<Rightarrow> uint32 list" where
  "sha_schedule block = ((\<lambda>ws. ws @ [sha_next ws]) ^^ 48) block"

definition sha_compress :: "sha_state \<Rightarrow> uint32 list \<Rightarrow> sha_state" where
  "sha_compress s block =
     (let t = fold (\<lambda>(k, w). sha_round k w) (zip sha_K (sha_schedule block)) s in
      \<lparr>ha = ha s + ha t, hb = hb s + hb t, hc = hc s + hc t, hd' = hd' s + hd' t,
       he = he s + he t, hf = hf s + hf t, hg = hg s + hg t, hh = hh s + hh t\<rparr>)"

fun words_be :: "byte list \<Rightarrow> uint32 list" where
  "words_be (a # b # c # d # bs) = uint32_be [a, b, c, d] # words_be bs"
| "words_be _ = []"

function sha_blocks :: "sha_state \<Rightarrow> byte list \<Rightarrow> sha_state" where
  "sha_blocks s bs =
     (if length bs < 64 then s else sha_blocks (sha_compress s (words_be (take 64 bs))) (drop 64 bs))"
  by pat_completeness auto
termination
  by (relation "measure (\<lambda>(s, bs). length bs)") auto

declare sha_blocks.simps [simp del]

definition sha_pad :: "byte list \<Rightarrow> byte list" where
  "sha_pad m =
     m @ [0x80] @ replicate ((119 - length m mod 64) mod 64) 0
       @ put_uint32_be (of_nat (8 * length m div 2 ^ 32)) @ put_uint32_be (of_nat (8 * length m))"

definition sha256 :: "byte list \<Rightarrow> byte list" where
  "sha256 m =
     (let s = sha_blocks sha_init (sha_pad m) in
      concat (map put_uint32_be [ha s, hb s, hc s, hd' s, he s, hf s, hg s, hh s]))"

lemma length_sha256 [simp]: "length (sha256 m) = 32"
  by (simp add: sha256_def Let_def)

text \<open>The padded message is a whole number of blocks.\<close>

lemma sha_pad_blocks: "length (sha_pad m) mod 64 = 0"
proof -
  have "length (sha_pad m) = length m + 9 + (119 - length m mod 64) mod 64"
    by (simp add: sha_pad_def)
  moreover have "(r + 9 + (119 - r) mod 64) mod 64 = 0" if "r < 64" for r :: nat
  proof (cases "r \<le> 55")
    case True
    then have "(119 - r) mod 64 = 55 - r" by (simp add: mod_if)
    then show ?thesis using True by simp
  next
    case False
    then have "(119 - r) mod 64 = 119 - r" by simp
    then show ?thesis using False that by simp
  qed
  then have "(length m mod 64 + 9 + (119 - length m mod 64) mod 64) mod 64 = 0" by simp
  then have "(length m + 9 + (119 - length m mod 64) mod 64) mod 64 = 0"
    by (metis (no_types, lifting) add.assoc mod_add_left_eq)
  ultimately show ?thesis by simp
qed

section \<open>HMAC\<close>

definition hmac_key :: "byte list \<Rightarrow> byte list" where
  "hmac_key key = (let k = (if length key > 64 then sha256 key else key) in k @ replicate (64 - length k) 0)"

definition hmac_sha256 :: "byte list \<Rightarrow> byte list \<Rightarrow> byte list" where
  "hmac_sha256 key data =
     sha256 (map (\<lambda>b. b XOR 0x5c) (hmac_key key) @ sha256 (map (\<lambda>b. b XOR 0x36) (hmac_key key) @ data))"

lemma length_hmac_sha256 [simp]: "length (hmac_sha256 key data) = 32"
  by (simp add: hmac_sha256_def)

end
