(* ===== verification/Handshake.thy ===== *)
theory Handshake
  imports Go_IO Sha256 "HOL-Library.Signed_Division"
begin

text \<open>
  Package \<^verbatim>\<open>handshake\<close>: the packets and their codecs, the digest of the complex handshake
  (\<^verbatim>\<open>complex.go\<close>) and the two sides of the exchange (\<^verbatim>\<open>handshake.go\<close>).
\<close>

declare upt_rec_numeral [simp del]

section \<open>Packets\<close>

text \<open>Go's fixed-size arrays are lists here; \<open>wf\<close> says they have their size.\<close>

record S1C1 =
  s1_Time :: uint32
  s1_Version :: "byte list"
  s1_Random :: "byte list"

record S2C2 =
  s2_Time :: uint32
  s2_Time2 :: uint32
  s2_Random :: "byte list"

definition wf_S1C1 :: "S1C1 \<Rightarrow> bool" where
  "wf_S1C1 h \<longleftrightarrow> length (s1_Version h) = 4 \<and> length (s1_Random h) = 1528"

definition wf_S2C2 :: "S2C2 \<Rightarrow> bool" where
  "wf_S2C2 h \<longleftrightarrow> length (s2_Random h) = 1528"

abbreviation RTMPVersion :: byte where "RTMPVersion \<equiv> 3"

definition hs_Version :: "byte list" where
  "hs_Version = [0, 0, 0, 0]"

text \<open>\<^verbatim>\<open>Decoder\<close>, on any reader.\<close>

definition DecodeS0C0 :: "'s reader \<Rightarrow> ('s, byte) io" where
  "DecodeS0C0 rd = bind_io (ReadAtLeast rd 1 1) (\<lambda>b. return_io (b ! 0))"

definition DecodeS1C1 :: "'s reader \<Rightarrow> ('s, S1C1) io" where
  "DecodeS1C1 rd =
     bind_io (ReadAtLeast rd 4 4) (\<lambda>t.
     bind_io (ReadAtLeast rd 4 4) (\<lambda>v.
     bind_io (ReadAtLeast rd 1528 1528) (\<lambda>r.
       return_io \<lparr>s1_Time = uint32_be t, s1_Version = v, s1_Random = r\<rparr>)))"

definition DecodeS2C2 :: "'s reader \<Rightarrow> ('s, S2C2) io" where
  "DecodeS2C2 rd =
     bind_io (ReadAtLeast rd 4 4) (\<lambda>t.
     bind_io (ReadAtLeast rd 4 4) (\<lambda>t2.
     bind_io (ReadAtLeast rd 1528 1528) (\<lambda>r.
       return_io \<lparr>s2_Time = uint32_be t, s2_Time2 = uint32_be t2, s2_Random = r\<rparr>)))"

text \<open>\<^verbatim>\<open>Encoder\<close>, on any writer.\<close>

definition EncodeS0C0 :: "'w writer \<Rightarrow> byte \<Rightarrow> ('w, unit) io" where
  "EncodeS0C0 wr h = wr [h]"

definition EncodeS1C1 :: "'w writer \<Rightarrow> S1C1 \<Rightarrow> ('w, unit) io" where
  "EncodeS1C1 wr h =
     bind_io (wr (put_uint32_be (s1_Time h))) (\<lambda>_.
     bind_io (wr (s1_Version h)) (\<lambda>_. wr (s1_Random h)))"

definition EncodeS2C2 :: "'w writer \<Rightarrow> S2C2 \<Rightarrow> ('w, unit) io" where
  "EncodeS2C2 wr h =
     bind_io (wr (put_uint32_be (s2_Time h))) (\<lambda>_.
     bind_io (wr (put_uint32_be (s2_Time2 h))) (\<lambda>_. wr (s2_Random h)))"

definition S1C1_bytes :: "S1C1 \<Rightarrow> byte list" where
  "S1C1_bytes h = put_uint32_be (s1_Time h) @ s1_Version h @ s1_Random h"

definition S2C2_bytes :: "S2C2 \<Rightarrow> byte list" where
  "S2C2_bytes h = put_uint32_be (s2_Time h) @ put_uint32_be (s2_Time2 h) @ s2_Random h"

context io_reader
begin

lemma DecodeS0C0_bytes:
  assumes "pending s = h # rest"
  shows "fst (DecodeS0C0 rd s) = Ok h" and "pending (snd (DecodeS0C0 rd s)) = rest"
  using ReadFull_reads [of 1 s] assms by (simp_all add: DecodeS0C0_def bind_io_def)

lemma DecodeS1C1_bytes:
  assumes "pending s = S1C1_bytes h @ rest" and "wf_S1C1 h"
  shows "fst (DecodeS1C1 rd s) = Ok h" and "pending (snd (DecodeS1C1 rd s)) = rest"
proof -
  define s1 where "s1 = snd (ReadAtLeast rd 4 4 s)"
  define s2 where "s2 = snd (ReadAtLeast rd 4 4 s1)"
  have 1: "fst (ReadAtLeast rd 4 4 s) = Ok (put_uint32_be (s1_Time h))"
    "pending s1 = s1_Version h @ s1_Random h @ rest"
    using ReadFull_reads [of 4 s] assms by (simp_all add: s1_def S1C1_bytes_def)
  have 2: "fst (ReadAtLeast rd 4 4 s1) = Ok (s1_Version h)" "pending s2 = s1_Random h @ rest"
    using ReadFull_reads [of 4 s1] 1 assms(2) by (simp_all add: s2_def wf_S1C1_def)
  have 3: "fst (ReadAtLeast rd 1528 1528 s2) = Ok (s1_Random h)"
    "pending (snd (ReadAtLeast rd 1528 1528 s2)) = rest"
    using ReadFull_reads [of 1528 s2] 2 assms(2) by (simp_all add: wf_S1C1_def)
  show "fst (DecodeS1C1 rd s) = Ok h" "pending (snd (DecodeS1C1 rd s)) = rest"
    using 1 2 3 by (simp_all add: DecodeS1C1_def bind_io_def flip: s1_def s2_def)
qed

lemma DecodeS2C2_bytes:
  assumes "pending s = S2C2_bytes h @ rest" and "wf_S2C2 h"
  shows "fst (DecodeS2C2 rd s) = Ok h" and "pending (snd (DecodeS2C2 rd s)) = rest"
proof -
  define s1 where "s1 = snd (ReadAtLeast rd 4 4 s)"
  define s2 where "s2 = snd (ReadAtLeast rd 4 4 s1)"
  have 1: "fst (ReadAtLeast rd 4 4 s) = Ok (put_uint32_be (s2_Time h))"
    "pending s1 = put_uint32_be (s2_Time2 h) @ s2_Random h @ rest"
    using ReadFull_reads [of 4 s] assms by (simp_all add: s1_def S2C2_bytes_def)
  have 2: "fst (ReadAtLeast rd 4 4 s1) = Ok (put_uint32_be (s2_Time2 h))" "pending s2 = s2_Random h @ rest"
    using ReadFull_reads [of 4 s1] 1 by (simp_all add: s2_def)
  have 3: "fst (ReadAtLeast rd 1528 1528 s2) = Ok (s2_Random h)"
    "pending (snd (ReadAtLeast rd 1528 1528 s2)) = rest"
    using ReadFull_reads [of 1528 s2] 2 assms(2) by (simp_all add: wf_S2C2_def)
  show "fst (DecodeS2C2 rd s) = Ok h" "pending (snd (DecodeS2C2 rd s)) = rest"
    using 1 2 3 by (simp_all add: DecodeS2C2_def bind_io_def flip: s1_def s2_def)
qed

end

context io_writer
begin

lemma EncodeS1C1_writes:
  assumes "healthy w"
  shows "fst (EncodeS1C1 wr h w) = Ok ()" and "healthy (snd (EncodeS1C1 wr h w))"
    and "written (snd (EncodeS1C1 wr h w)) = written w @ S1C1_bytes h"
  using assms by (simp_all add: EncodeS1C1_def S1C1_bytes_def bind_io_def healthy_write)

lemma EncodeS2C2_writes:
  assumes "healthy w"
  shows "fst (EncodeS2C2 wr h w) = Ok ()" and "healthy (snd (EncodeS2C2 wr h w))"
    and "written (snd (EncodeS2C2 wr h w)) = written w @ S2C2_bytes h"
  using assms by (simp_all add: EncodeS2C2_def S2C2_bytes_def bind_io_def healthy_write)

end

section \<open>The digest of the complex handshake\<close>

definition ascii :: "string \<Rightarrow> byte list" where
  "ascii s = map (\<lambda>c. of_nat (of_char c)) s"

definition key_suffix :: "byte list" where
  "key_suffix =
   [0xF0, 0xEE, 0xC2, 0x4A, 0x80, 0x68, 0xBE, 0xE8, 0x2E, 0x00, 0xD0, 0xD1, 0x02, 0x9E, 0x7E, 0x57,
    0x6E, 0xEC, 0x5D, 0x2D, 0x29, 0x80, 0x6F, 0xAB, 0x93, 0xB8, 0xE6, 0x36, 0xCF, 0xEB, 0x31, 0xAE]"

definition fpKey :: "byte list" where
  "fpKey = ascii ''Genuine Adobe Flash Player 001'' @ key_suffix"

definition fmsKey :: "byte list" where
  "fmsKey = ascii ''Genuine Adobe Flash Media Server 001'' @ key_suffix"

definition fmsVersion :: "byte list" where
  "fmsVersion = [0x04, 0x05, 0x00, 0x01]"

definition hmacSHA256 :: "byte list \<Rightarrow> byte list \<Rightarrow> byte list" where
  "hmacSHA256 data key = hmac_sha256 key data"

definition digestBlockStart :: "nat \<Rightarrow> nat" where
  "digestBlockStart scheme = (if scheme = 0 then 8 else 772)"

definition digestPos :: "byte list \<Rightarrow> nat \<Rightarrow> nat" where
  "digestPos data scheme =
     (let start = digestBlockStart scheme;
          offset = ucast (data ! start) + ucast (data ! (start + 1)) + ucast (data ! (start + 2))
            + ucast (data ! (start + 3)) :: uint32 in
      start + 4 + unat (offset mod (760 - 32)))"

text \<open>A packet without the 32 bytes at \<open>pos\<close>, the message that is signed.\<close>

definition without_digest :: "byte list \<Rightarrow> nat \<Rightarrow> byte list" where
  "without_digest data pos = take pos data @ drop (pos + 32) data"

definition validateC1FP9 :: "byte list \<Rightarrow> nat \<Rightarrow> nat \<times> bool" where
  "validateC1FP9 c1 scheme =
     (let pos = digestPos c1 scheme;
          expected = hmacSHA256 (without_digest c1 pos) (take 30 fpKey) in
      (pos, expected = take 32 (drop pos c1)))"

text \<open>\<^verbatim>\<open>copy(dst[pos:], src)\<close>\<close>

definition copy_at :: "nat \<Rightarrow> 'a list \<Rightarrow> 'a list \<Rightarrow> 'a list" where
  "copy_at pos src dst = take pos dst @ src @ drop (pos + length src) dst"

lemma length_copy_at [simp]: "pos + length src \<le> length dst \<Longrightarrow> length (copy_at pos src dst) = length dst"
  by (simp add: copy_at_def)

lemma take_drop_copy_at: "pos + length src \<le> length dst \<Longrightarrow> take (length src) (drop pos (copy_at pos src dst)) = src"
  by (simp add: copy_at_def)

lemma copy_at_outside:
  "pos + length src \<le> length dst \<Longrightarrow> take pos (copy_at pos src dst) = take pos dst"
  "pos + length src \<le> length dst \<Longrightarrow> drop (pos + length src) (copy_at pos src dst) = drop (pos + length src) dst"
  by (simp_all add: copy_at_def)

lemma nth_copy_at_before: "i < pos \<Longrightarrow> pos + length src \<le> length dst \<Longrightarrow> copy_at pos src dst ! i = dst ! i"
  by (simp add: copy_at_def nth_append)

lemma digestBlockStart_bounds: "digestBlockStart scheme + 764 \<le> 1536"
  by (simp add: digestBlockStart_def)

lemma digestPos_bounds:
  "digestBlockStart scheme + 4 \<le> digestPos data scheme"
  "digestPos data scheme + 32 \<le> digestBlockStart scheme + 763"
proof -
  obtain x :: uint32 where x: "digestPos data scheme = digestBlockStart scheme + 4 + unat (x mod 728)"
    by (simp add: digestPos_def Let_def)
  have "unat (x mod 728) < 728" by (simp add: unat_mod)
  then show "digestBlockStart scheme + 4 \<le> digestPos data scheme"
    "digestPos data scheme + 32 \<le> digestBlockStart scheme + 763"
    unfolding x by arith+
qed

section \<open>The environment\<close>

text \<open>
  The two directions of the connection, the operating system's random bytes (an endless
  supply, with the calls of \<^verbatim>\<open>rand.Read\<close> that fail) and clock (what the coming calls of
  \<^verbatim>\<open>UnixNano\<close> return).
\<close>

record hsWorld =
  hs_r :: netConn
  hs_w :: netSink
  entropy :: "nat \<Rightarrow> byte"
  rand_faults :: "rtmp_error option list"
  clock :: "nat \<Rightarrow> int64"

definition with_hs_r :: "(netConn, 'a) io \<Rightarrow> (hsWorld, 'a) io" where
  "with_hs_r m s = (fst (m (hs_r s)), s\<lparr>hs_r := snd (m (hs_r s))\<rparr>)"

definition with_hs_w :: "(netSink, 'a) io \<Rightarrow> (hsWorld, 'a) io" where
  "with_hs_w m s = (fst (m (hs_w s)), s\<lparr>hs_w := snd (m (hs_w s))\<rparr>)"

definition rand_Read :: "nat \<Rightarrow> (hsWorld, byte list) io" where
  "rand_Read n s =
     (case rand_faults s of
        Some e # fs \<Rightarrow> (Err e, s\<lparr>rand_faults := fs\<rparr>)
      | fs \<Rightarrow> (Ok (map (entropy s) [0..<n]), s\<lparr>entropy := (\<lambda>i. entropy s (i + n)), rand_faults := tl fs\<rparr>))"

text \<open>\<^verbatim>\<open>uint32(timeNow().UnixNano()/int64(time.Millisecond))\<close>\<close>

definition now_millis :: "(hsWorld, uint32) io" where
  "now_millis s = (Ok (word_of_int (sint (clock s 0) sdiv 1000000)), s\<lparr>clock := (\<lambda>i. clock s (i + 1))\<rparr>)"

section \<open>The packets of the complex handshake\<close>

definition complexS1 :: "nat \<Rightarrow> uint32 \<Rightarrow> byte list \<Rightarrow> byte list \<times> byte list \<times> nat" where
  "complexS1 scheme t rnd =
     (let s1 = put_uint32_be t @ fmsVersion @ rnd;
          start = digestBlockStart scheme;
          s1' = copy_at start (put_uint32_be 0) s1;
          pos = start + 4;
          digest = hmacSHA256 (without_digest s1' pos) (take 36 fmsKey) in
      (copy_at pos digest s1', digest, pos))"

definition buildComplexS1 :: "nat \<Rightarrow> (hsWorld, byte list \<times> byte list \<times> nat) io" where
  "buildComplexS1 scheme =
     bind_io now_millis (\<lambda>t. bind_io (rand_Read 1528) (\<lambda>rnd. return_io (complexS1 scheme t rnd)))"

definition buildComplexS2 :: "byte list \<Rightarrow> (hsWorld, byte list) io" where
  "buildComplexS2 c1Digest =
     bind_io (rand_Read 1504) (\<lambda>rnd.
       return_io (rnd @ hmacSHA256 rnd (hmacSHA256 c1Digest fmsKey)))"

section \<open>The server's side\<close>

record hsConfig =
  SkipHandshakeVerification :: bool

text \<open>The loop over the schemes 0 and 1; a peer version of zero asks for the simple handshake.\<close>

definition selectScheme :: "byte list \<Rightarrow> (nat \<times> nat) option" where
  "selectScheme c1 =
     (if c1 ! 4 OR c1 ! 5 OR c1 ! 6 OR c1 ! 7 \<noteq> 0 then
        (if snd (validateC1FP9 c1 0) then Some (0, fst (validateC1FP9 c1 0))
         else if snd (validateC1FP9 c1 1) then Some (1, fst (validateC1FP9 c1 1))
         else None)
      else None)"

text \<open>S1 and S2; the result also has the digest of S1 when the handshake is complex.\<close>

definition buildReply :: "byte list \<Rightarrow> (hsWorld, byte list \<times> byte list \<times> (nat \<times> byte list) option) io" where
  "buildReply c1 =
     (case selectScheme c1 of
        Some (scheme, pos) \<Rightarrow>
          bind_io (buildComplexS1 scheme) (\<lambda>(s1, s1Digest, _).
          bind_io (buildComplexS2 (take 32 (drop pos c1))) (\<lambda>s2.
            return_io (s1, s2, Some (scheme, s1Digest))))
      | None \<Rightarrow>
          bind_io now_millis (\<lambda>t1.
          bind_io (rand_Read 1528) (\<lambda>rnd.
          bind_io now_millis (\<lambda>t2.
            return_io (put_uint32_be t1 @ [0, 0, 0, 0] @ rnd, take 4 c1 @ put_uint32_be t2 @ drop 8 c1, None)))))"

text \<open>What the client's C2 must be.\<close>

definition checkC2 :: "byte list \<Rightarrow> (nat \<times> byte list) option \<Rightarrow> byte list \<Rightarrow> (hsWorld, unit) io" where
  "checkC2 s1 cplx c2 =
     (case cplx of
        Some (scheme, s1Digest) \<Rightarrow>
          (if hmacSHA256 (take 1504 c2) (hmacSHA256 s1Digest fpKey) = drop 1504 c2 then return_io ()
           else if drop 8 c2 = drop 8 s1 then return_io ()
           else fail_io (Errorf ''handshake failed: complex C2 digest mismatch (scheme=%d) and simple random echo also failed'' [int scheme]))
      | None \<Rightarrow>
          (if drop 8 c2 \<noteq> drop 8 s1 then fail_io (Errorf ''handshake failed: simple random echo mismatch'' [])
           else return_io ()))"

definition HandshakeWithClient :: "hsConfig \<Rightarrow> (hsWorld, unit) io" where
  "HandshakeWithClient config =
     bind_io (with_hs_r (ReadAtLeast net_Read 1 1)) (\<lambda>c0.
     bind_io (with_hs_r (ReadAtLeast net_Read 1536 1536)) (\<lambda>c1.
     bind_io (buildReply c1) (\<lambda>(s1, s2, cplx).
     bind_io (with_hs_w (sink_Write (RTMPVersion # s1 @ s2))) (\<lambda>_.
     bind_io (with_hs_r (ReadAtLeast net_Read 1536 1536)) (\<lambda>c2.
       if SkipHandshakeVerification config then return_io () else checkC2 s1 cplx c2)))))"

section \<open>The client's side\<close>

text \<open>The second half, once C0 and C1 are sent: S0, S1 and S2 in, C2 out, and the check.\<close>

definition finishWithServer :: "hsConfig \<Rightarrow> S1C1 \<Rightarrow> (hsWorld, unit) io" where
  "finishWithServer config c1 =
     bind_io (wrap_io ''Failed to decode s0'' (with_hs_r (DecodeS0C0 net_Read))) (\<lambda>_.
     bind_io (wrap_io ''Failed to decode s1'' (with_hs_r (DecodeS1C1 net_Read))) (\<lambda>s1.
     bind_io (wrap_io ''Failed to decode s2'' (with_hs_r (DecodeS2C2 net_Read))) (\<lambda>s2.
     bind_io now_millis (\<lambda>t2.
     let c2 = \<lparr>s2_Time = s1_Time c1, s2_Time2 = t2, s2_Random = s1_Random s1\<rparr> in
     bind_io (wrap_io ''Failed to encode c2'' (with_hs_w (EncodeS2C2 sink_Write c2))) (\<lambda>_.
       if SkipHandshakeVerification config then return_io ()
       else if s2_Random s2 \<noteq> s1_Random c1 then fail_io (Errorf ''Random echo is not matched'' [])
       else return_io ())))))"

definition HandshakeWithServer :: "hsConfig \<Rightarrow> (hsWorld, unit) io" where
  "HandshakeWithServer config =
     bind_io (wrap_io ''Failed to encode c0'' (with_hs_w (EncodeS0C0 sink_Write RTMPVersion))) (\<lambda>_.
     bind_io now_millis (\<lambda>t1.
     bind_io (rand_Read 1528) (\<lambda>rnd.
     let c1 = \<lparr>s1_Time = t1, s1_Version = hs_Version, s1_Random = rnd\<rparr> in
     bind_io (wrap_io ''Failed to encode c1'' (with_hs_w (EncodeS1C1 sink_Write c1))) (\<lambda>_.
       finishWithServer config c1))))"

section \<open>What the two sides do\<close>

abbreviation hs_pending :: "hsWorld \<Rightarrow> byte list" where
  "hs_pending s \<equiv> net_pending (hs_r s)"

abbreviation hs_out :: "hsWorld \<Rightarrow> byte list" where
  "hs_out s \<equiv> out (hs_w s)"

text \<open>A world in which nothing fails but the peer.\<close>

definition sound :: "hsWorld \<Rightarrow> bool" where
  "sound s \<longleftrightarrow> faults (hs_w s) = [] \<and> rand_faults s = []"

definition millis_of :: "int64 \<Rightarrow> uint32" where
  "millis_of t = word_of_int (sint t sdiv 1000000)"

text \<open>One step of each kind, as an equation.\<close>

lemma now_millis_eq: "now_millis s = (Ok (millis_of (clock s 0)), s\<lparr>clock := (\<lambda>i. clock s (i + 1))\<rparr>)"
  by (simp add: now_millis_def millis_of_def)

lemma rand_Read_eq: "rand_faults s = [] \<Longrightarrow>
    rand_Read n s = (Ok (map (entropy s) [0..<n]), s\<lparr>entropy := (\<lambda>i. entropy s (i + n))\<rparr>)"
  by (simp add: rand_Read_def)

lemma with_hs_r_simps [simp]:
  "fst (with_hs_r m s) = fst (m (hs_r s))" "snd (with_hs_r m s) = s\<lparr>hs_r := snd (m (hs_r s))\<rparr>"
  by (simp_all add: with_hs_r_def)

lemma with_hs_w_simps [simp]:
  "fst (with_hs_w m s) = fst (m (hs_w s))" "snd (with_hs_w m s) = s\<lparr>hs_w := snd (m (hs_w s))\<rparr>"
  by (simp_all add: with_hs_w_def)

lemma sound_keeps [simp]:
  "sound (s\<lparr>clock := c\<rparr>) = sound s" "sound (s\<lparr>entropy := e\<rparr>) = sound s" "sound (s\<lparr>hs_r := r\<rparr>) = sound s"
  by (simp_all add: sound_def)

lemma sound_faults: "sound s \<Longrightarrow> faults (hs_w s) = []" "sound s \<Longrightarrow> rand_faults s = []"
  by (simp_all add: sound_def)

text \<open>Whatever happens, what was sent stays sent.\<close>

definition grows :: "(hsWorld, 'a) io \<Rightarrow> bool" where
  "grows m \<longleftrightarrow> (\<forall>s. \<exists>bs. hs_out (snd (m s)) = hs_out s @ bs)"

lemma grows_bind: "grows m \<Longrightarrow> (\<And>a. grows (f a)) \<Longrightarrow> grows (bind_io m f)"
  unfolding grows_def bind_io_def by (auto split: result.splits) (metis append.assoc)

lemma grows_wrap: "grows m \<Longrightarrow> grows (wrap_io msg m)"
  by (simp add: grows_def)

lemma sink_Write_grows: "\<exists>bs. out (snd (sink_Write xs k)) = out k @ bs"
  by (auto simp: sink_Write_def sink_call_def split: list.splits option.splits)

lemma EncodeS2C2_grows: "\<exists>bs. out (snd (EncodeS2C2 sink_Write h k)) = out k @ bs"
  unfolding EncodeS2C2_def bind_io_def
  using sink_Write_grows by (auto split: result.splits) (metis append.assoc)+

lemma grows_basics:
  "grows (with_hs_r m)" "grows now_millis" "grows (rand_Read n)" "grows (return_io a)" "grows (fail_io e)"
  "grows (with_hs_w (EncodeS2C2 sink_Write h))" "grows (with_hs_w (sink_Write bs))"
  using EncodeS2C2_grows sink_Write_grows
  by (auto simp: grows_def now_millis_def rand_Read_def split: list.splits option.splits)

section \<open>The client\<close>

definition client_C1 :: "hsWorld \<Rightarrow> S1C1" where
  "client_C1 s = \<lparr>s1_Time = millis_of (clock s 0), s1_Version = hs_Version, s1_Random = map (entropy s) [0..<1528]\<rparr>"

definition client_C2 :: "hsWorld \<Rightarrow> S1C1 \<Rightarrow> S2C2" where
  "client_C2 s s1 = \<lparr>s2_Time = s1_Time (client_C1 s), s2_Time2 = millis_of (clock s 1), s2_Random = s1_Random s1\<rparr>"

lemma wf_client_C1: "wf_S1C1 (client_C1 s)"
  by (simp add: wf_S1C1_def client_C1_def hs_Version_def)

text \<open>The client sends C0 and C1, whatever it gets back.\<close>

lemma client_starts:
  assumes "sound s"
  obtains s' where "HandshakeWithServer config s = finishWithServer config (client_C1 s) s'"
    and "hs_out s' = hs_out s @ RTMPVersion # S1C1_bytes (client_C1 s)"
    and "hs_r s' = hs_r s" and "sound s'" and "clock s' 0 = clock s 1"
proof -
  have c1: "\<lparr>s1_Time = millis_of (clock s 0), s1_Version = hs_Version, s1_Random = map (entropy s) [0..<1528]\<rparr>
      = client_C1 s"
    by (simp add: client_C1_def)
  define k1 where "k1 = snd (sink_Write [RTMPVersion] (hs_w s))"
  have k1: "fst (sink_Write [RTMPVersion] (hs_w s)) = Ok ()" "faults k1 = []" "out k1 = hs_out s @ [RTMPVersion]"
    using sink.healthy_write [of "hs_w s" "[RTMPVersion]"] assms by (simp_all add: k1_def sound_faults)
  define k2 where "k2 = snd (EncodeS1C1 sink_Write (client_C1 s) k1)"
  have k2: "fst (EncodeS1C1 sink_Write (client_C1 s) k1) = Ok ()" "faults k2 = []"
    "out k2 = out k1 @ S1C1_bytes (client_C1 s)"
    using sink.EncodeS1C1_writes [of k1 "client_C1 s"] k1 by (simp_all add: k2_def)
  define s' where "s' = s\<lparr>clock := (\<lambda>i. clock s (i + 1)), entropy := (\<lambda>i. entropy s (i + 1528)), hs_w := k2\<rparr>"
  have "HandshakeWithServer config s = finishWithServer config (client_C1 s) s'"
    unfolding HandshakeWithServer_def
    using k1(1) k2(1) assms
    by (simp add: io_simps EncodeS0C0_def now_millis_eq rand_Read_eq sound_faults Let_def c1 s'_def flip: k1_def k2_def)
  moreover have "hs_out s' = hs_out s @ RTMPVersion # S1C1_bytes (client_C1 s)"
    using k1(3) k2(3) by (simp add: s'_def)
  moreover have "sound s'" using k2(2) assms by (simp add: s'_def sound_def)
  moreover have "hs_r s' = hs_r s" "clock s' 0 = clock s 1" by (simp_all add: s'_def)
  ultimately show thesis by (intro that)
qed

lemma client_continues:
  fixes c1 :: S1C1
  assumes "sound s" and "hs_pending s = h0 # S1C1_bytes s1 @ S2C2_bytes s2 @ rest"
    and "wf_S1C1 s1" and "wf_S2C2 s2"
  defines "c2 \<equiv> \<lparr>s2_Time = s1_Time c1, s2_Time2 = millis_of (clock s 0), s2_Random = s1_Random s1\<rparr>"
  shows "fst (finishWithServer config c1 s) =
      (if SkipHandshakeVerification config \<or> s2_Random s2 = s1_Random c1 then Ok ()
       else Err (Errorf ''Random echo is not matched'' []))"
    and "hs_out (snd (finishWithServer config c1 s)) = hs_out s @ S2C2_bytes c2"
    and "hs_pending (snd (finishWithServer config c1 s)) = rest"
proof -
  define r1 where "r1 = snd (DecodeS0C0 net_Read (hs_r s))"
  define r2 where "r2 = snd (DecodeS1C1 net_Read r1)"
  define r3 where "r3 = snd (DecodeS2C2 net_Read r2)"
  have 1: "fst (DecodeS0C0 net_Read (hs_r s)) = Ok h0" "net_pending r1 = S1C1_bytes s1 @ S2C2_bytes s2 @ rest"
    using net.DecodeS0C0_bytes [of "hs_r s"] assms(2) by (simp_all add: r1_def)
  have 2: "fst (DecodeS1C1 net_Read r1) = Ok s1" "net_pending r2 = S2C2_bytes s2 @ rest"
    using net.DecodeS1C1_bytes [of r1] 1 assms(3) by (simp_all add: r2_def)
  have 3: "fst (DecodeS2C2 net_Read r2) = Ok s2" "net_pending r3 = rest"
    using net.DecodeS2C2_bytes [of r2] 2 assms(4) by (simp_all add: r3_def)
  define k where "k = snd (EncodeS2C2 sink_Write c2 (hs_w s))"
  have 4: "fst (EncodeS2C2 sink_Write c2 (hs_w s)) = Ok ()" "out k = hs_out s @ S2C2_bytes c2"
    using sink.EncodeS2C2_writes [of "hs_w s" c2] assms(1) by (simp_all add: k_def sound_faults)
  have eq: "finishWithServer config c1 s =
      (if SkipHandshakeVerification config \<or> s2_Random s2 = s1_Random c1 then Ok ()
       else Err (Errorf ''Random echo is not matched'' []),
       s\<lparr>hs_r := r3, clock := (\<lambda>i. clock s (i + 1)), hs_w := k\<rparr>)"
    using 1(1) 2(1) 3(1) 4(1)
    by (simp add: finishWithServer_def io_simps now_millis_eq Let_def r1_def r2_def r3_def k_def c2_def)
  show "fst (finishWithServer config c1 s) =
      (if SkipHandshakeVerification config \<or> s2_Random s2 = s1_Random c1 then Ok ()
       else Err (Errorf ''Random echo is not matched'' []))"
    and "hs_out (snd (finishWithServer config c1 s)) = hs_out s @ S2C2_bytes c2"
    and "hs_pending (snd (finishWithServer config c1 s)) = rest"
    using 3 4 by (simp_all add: eq)
qed

lemma finishWithServer_grows: "grows (finishWithServer config c1)"
  unfolding finishWithServer_def Let_def
  by (intro grows_bind grows_wrap grows_basics) (simp add: grows_basics)

section \<open>The server\<close>

definition server_S1 :: "hsWorld \<Rightarrow> S1C1" where
  "server_S1 s = \<lparr>s1_Time = millis_of (clock s 0), s1_Version = [0, 0, 0, 0], s1_Random = map (entropy s) [0..<1528]\<rparr>"

definition server_S2 :: "hsWorld \<Rightarrow> byte list \<Rightarrow> S2C2" where
  "server_S2 s c1 = \<lparr>s2_Time = uint32_be (take 4 c1), s2_Time2 = millis_of (clock s 1), s2_Random = drop 8 c1\<rparr>"

lemma selectScheme_simple: "s1_Version h = [0, 0, 0, 0] \<Longrightarrow> selectScheme (S1C1_bytes h) = None"
  by (simp add: selectScheme_def S1C1_bytes_def put_uint32_be_def)

text \<open>
  The server after C0 and C1 arrived: it sends S0, S1 and S2 in one piece, before it looks at
  anything else of the client.
\<close>

definition finishWithClient :: "hsConfig \<Rightarrow> byte list \<Rightarrow> (nat \<times> byte list) option \<Rightarrow> (hsWorld, unit) io" where
  "finishWithClient config s1 cplx =
     bind_io (with_hs_r (ReadAtLeast net_Read 1536 1536)) (\<lambda>c2.
       if SkipHandshakeVerification config then return_io () else checkC2 s1 cplx c2)"

lemma finishWithClient_eq:
  assumes "hs_pending s = c2 @ rest" and "length c2 = 1536"
  shows "fst (finishWithClient config s1 cplx s) =
      (if SkipHandshakeVerification config then Ok () else fst (checkC2 s1 cplx c2 s))"
    and "hs_out (snd (finishWithClient config s1 cplx s)) = hs_out s"
    and "hs_pending (snd (finishWithClient config s1 cplx s)) = rest"
  using net.ReadFull_reads [of 1536 "hs_r s"] assms
  by (auto simp: finishWithClient_def io_simps checkC2_def split: option.splits)

lemma finishWithClient_out: "hs_out (snd (finishWithClient config s1 cplx s)) = hs_out s"
  by (auto simp: finishWithClient_def bind_io_def checkC2_def split: result.splits option.splits)

lemma server_replies:
  assumes "sound s" and "hs_pending s = h0 # c1 @ rest" and "length c1 = 1536"
    and reply: "\<And>s0. hs_w s0 = hs_w s \<Longrightarrow> entropy s0 = entropy s \<Longrightarrow> clock s0 = clock s \<Longrightarrow> sound s0 \<Longrightarrow>
        \<exists>e c. buildReply c1 s0 = (Ok (s1, s2, cplx), s0\<lparr>entropy := e, clock := c\<rparr>)"
  obtains s' where "HandshakeWithClient config s = finishWithClient config s1 cplx s'"
    and "hs_out s' = hs_out s @ RTMPVersion # s1 @ s2" and "hs_pending s' = rest" and "sound s'"
proof -
  define r1 where "r1 = snd (ReadAtLeast net_Read 1 1 (hs_r s))"
  define r2 where "r2 = snd (ReadAtLeast net_Read 1536 1536 r1)"
  have 1: "fst (ReadAtLeast net_Read 1 1 (hs_r s)) = Ok [h0]" "net_pending r1 = c1 @ rest"
    using net.ReadFull_reads [of 1 "hs_r s"] assms(2) by (simp_all add: r1_def)
  have 2: "fst (ReadAtLeast net_Read 1536 1536 r1) = Ok c1" "net_pending r2 = rest"
    using net.ReadFull_reads [of 1536 r1] 1 assms(3) by (simp_all add: r2_def)
  obtain e c where b: "buildReply c1 (s\<lparr>hs_r := r2\<rparr>) = (Ok (s1, s2, cplx), s\<lparr>hs_r := r2, entropy := e, clock := c\<rparr>)"
    using reply [of "s\<lparr>hs_r := r2\<rparr>"] assms(1) by auto
  define k where "k = snd (sink_Write (RTMPVersion # s1 @ s2) (hs_w s))"
  have k: "fst (sink_Write (RTMPVersion # s1 @ s2) (hs_w s)) = Ok ()" "faults k = []"
    "out k = hs_out s @ RTMPVersion # s1 @ s2"
    using sink.healthy_write [of "hs_w s" "RTMPVersion # s1 @ s2"] assms(1) by (simp_all add: k_def sound_faults)
  have "HandshakeWithClient config s
      = finishWithClient config s1 cplx (s\<lparr>hs_r := r2, entropy := e, clock := c, hs_w := k\<rparr>)"
    unfolding HandshakeWithClient_def finishWithClient_def
    using 1(1) 2(1) b k(1) by (simp add: io_simps del: One_nat_def flip: k_def r1_def r2_def)
  then show thesis
    by (rule that) (use k(2,3) 2(2) assms(1) in \<open>simp_all add: sound_def\<close>)
qed

text \<open>The simple handshake.\<close>

lemma buildReply_simple:
  assumes "selectScheme c1 = None" and "sound s0" and "length c1 = 1536"
  shows "\<exists>e c. buildReply c1 s0 = (Ok (S1C1_bytes (server_S1 s0), S2C2_bytes (server_S2 s0 c1), None),
      s0\<lparr>entropy := e, clock := c\<rparr>)"
proof -
  have four: "put_uint32_be (uint32_be (take 4 c1)) = take 4 c1"
  proof -
    have "4 \<le> length c1" using assms(3) by simp
    then show ?thesis by (rule four_bytes) simp
  qed
  show ?thesis
    using assms four
    by (auto simp: buildReply_def bind_io_def now_millis_eq rand_Read_eq sound_faults server_S1_def server_S2_def
        S1C1_bytes_def S2C2_bytes_def)
qed

section \<open>The two sides together\<close>

text \<open>What the client puts on the wire starts with C0 and C1, before it has read anything.\<close>

lemma client_out:
  assumes "sound s"
  shows "\<exists>bs. hs_out (snd (HandshakeWithServer config s)) = hs_out s @ RTMPVersion # S1C1_bytes (client_C1 s) @ bs"
proof -
  obtain s' where "HandshakeWithServer config s = finishWithServer config (client_C1 s) s'"
    "hs_out s' = hs_out s @ RTMPVersion # S1C1_bytes (client_C1 s)"
    using client_starts [OF assms] by metis
  then show ?thesis
    using finishWithServer_grows by (simp add: grows_def) (metis append.assoc append_Cons)
qed

lemma length_S1C1_bytes: "wf_S1C1 h \<Longrightarrow> length (S1C1_bytes h) = 1536"
  by (simp add: S1C1_bytes_def wf_S1C1_def)

lemma length_S2C2_bytes: "wf_S2C2 h \<Longrightarrow> length (S2C2_bytes h) = 1536"
  by (simp add: S2C2_bytes_def wf_S2C2_def)

lemma server_simple:
  assumes "sound s" and "hs_pending s = h0 # S1C1_bytes c1 @ rest" and "wf_S1C1 c1"
    and "s1_Version c1 = [0, 0, 0, 0]"
  obtains s' where "HandshakeWithClient config s = finishWithClient config (S1C1_bytes (server_S1 s)) None s'"
    and "hs_out s' = hs_out s @ RTMPVersion # S1C1_bytes (server_S1 s) @ S2C2_bytes (server_S2 s (S1C1_bytes c1))"
    and "hs_pending s' = rest" and "sound s'"
proof -
  have len: "length (S1C1_bytes c1) = 1536" by (rule length_S1C1_bytes [OF assms(3)])
  have "\<exists>e c. buildReply (S1C1_bytes c1) s0 = (Ok (S1C1_bytes (server_S1 s), S2C2_bytes (server_S2 s (S1C1_bytes c1)), None),
      s0\<lparr>entropy := e, clock := c\<rparr>)"
    if "entropy s0 = entropy s" "clock s0 = clock s" "sound s0" for s0
    using buildReply_simple [OF selectScheme_simple [OF assms(4)] that(3) len] that
    by (simp add: server_S1_def server_S2_def)
  then show thesis
    using server_replies [OF assms(1,2) len] that by blast
qed

text \<open>
  When each side reads what the other one writes, followed by anything, both return without an
  error, and what follows the handshake is still to be read.
\<close>

lemma both_sides_complete:
  assumes wc: "sound wc" and ws: "sound ws"
    and to_server: "hs_out (snd (HandshakeWithServer cc wc)) @ rs = hs_out wc @ hs_pending ws"
    and to_client: "hs_out (snd (HandshakeWithClient cs ws)) @ rc = hs_out ws @ hs_pending wc"
  shows "fst (HandshakeWithServer cc wc) = Ok ()" and "fst (HandshakeWithClient cs ws) = Ok ()"
    and "hs_pending (snd (HandshakeWithServer cc wc)) = rc"
    and "hs_pending (snd (HandshakeWithClient cs ws)) = rs"
proof -
  let ?c1 = "client_C1 wc"
  define s1 where "s1 = server_S1 ws"
  define s2 where "s2 = server_S2 ws (S1C1_bytes ?c1)"
  have v: "s1_Version ?c1 = [0, 0, 0, 0]" by (simp add: client_C1_def hs_Version_def)
  have wf: "wf_S1C1 s1" "wf_S2C2 s2" "wf_S1C1 ?c1"
    using length_S1C1_bytes [OF wf_client_C1 [of wc]]
    by (simp_all add: s1_def s2_def wf_S1C1_def wf_S2C2_def server_S1_def server_S2_def wf_client_C1 [unfolded wf_S1C1_def])
  obtain rest where pend: "hs_pending ws = RTMPVersion # S1C1_bytes ?c1 @ rest"
  proof -
    obtain bs where "hs_out (snd (HandshakeWithServer cc wc)) = hs_out wc @ RTMPVersion # S1C1_bytes ?c1 @ bs"
      using client_out [OF wc, of cc] by blast
    then show thesis using to_server by (intro that [of "bs @ rs"]) simp
  qed
  obtain s' where server: "HandshakeWithClient cs ws = finishWithClient cs (S1C1_bytes s1) None s'"
    and sout: "hs_out s' = hs_out ws @ RTMPVersion # S1C1_bytes s1 @ S2C2_bytes s2"
    and spend: "hs_pending s' = rest"
    using server_simple [OF ws pend wf(3) v] unfolding s1_def s2_def by metis
  have wpend: "hs_pending wc = RTMPVersion # S1C1_bytes s1 @ S2C2_bytes s2 @ rc"
    using to_client sout by (simp add: server finishWithClient_out)
  obtain c' where client: "HandshakeWithServer cc wc = finishWithServer cc ?c1 c'"
    and cout: "hs_out c' = hs_out wc @ RTMPVersion # S1C1_bytes ?c1" and cr: "hs_r c' = hs_r wc" "sound c'"
    using client_starts [OF wc] by metis
  define c2 where "c2 = \<lparr>s2_Time = s1_Time ?c1, s2_Time2 = millis_of (clock c' 0), s2_Random = s1_Random s1\<rparr>"
  have echo: "s2_Random s2 = s1_Random ?c1"
    using wf(3) by (simp add: s2_def server_S2_def S1C1_bytes_def wf_S1C1_def)
  have cp: "hs_pending c' = RTMPVersion # S1C1_bytes s1 @ S2C2_bytes s2 @ rc"
    using wpend cr by simp
  note cont = client_continues [OF cr(2) cp wf(1,2), of cc ?c1, folded c2_def]
  show "fst (HandshakeWithServer cc wc) = Ok ()" using cont(1) echo by (simp add: client)
  show "hs_pending (snd (HandshakeWithServer cc wc)) = rc" using cont(3) by (simp add: client)
  have rest: "rest = S2C2_bytes c2 @ rs"
    using to_server cont(2) cout pend by (simp add: client)
  have wf2: "wf_S2C2 c2" using wf(1) by (simp add: c2_def wf_S2C2_def wf_S1C1_def)
  have s'p: "hs_pending s' = S2C2_bytes c2 @ rs" using spend rest by simp
  have same: "drop 8 (S2C2_bytes c2) = drop 8 (S1C1_bytes s1)"
    using wf(1) by (simp add: S2C2_bytes_def S1C1_bytes_def c2_def wf_S1C1_def)
  note fin = finishWithClient_eq [OF s'p length_S2C2_bytes [OF wf2], of cs "S1C1_bytes s1" None]
  show "fst (HandshakeWithClient cs ws) = Ok ()" using fin(1) same by (simp add: server checkC2_def)
  show "hs_pending (snd (HandshakeWithClient cs ws)) = rs" using fin(3) by (simp add: server)
qed

section \<open>The complex handshake\<close>

text \<open>
  The digest is inside its block for every packet, and S1 carries a digest that a peer finds
  and verifies the way the server verifies C1, with the server's key.
\<close>

lemma rand_Read_length: "fst (rand_Read n s) = Ok bs \<Longrightarrow> length bs = n"
  by (auto simp: rand_Read_def split: list.splits option.splits)

lemma complexS1_signed:
  assumes rnd: "length rnd = 1528" and eq: "complexS1 scheme t rnd = (s1, digest, pos)"
  shows "length s1 = 1536" and "digestPos s1 scheme = pos" and "take 32 (drop pos s1) = digest"
    and "digest = hmacSHA256 (without_digest s1 pos) (take 36 fmsKey)" and "take 4 (drop 4 s1) = fmsVersion"
proof -
  define p where "p = put_uint32_be t @ fmsVersion @ rnd"
  define q where "q = copy_at (digestBlockStart scheme) (put_uint32_be 0) p"
  have len: "length p = 1536" using rnd by (simp add: p_def fmsVersion_def)
  have st: "digestBlockStart scheme = 8 \<or> digestBlockStart scheme = 772" by (simp add: digestBlockStart_def)
  have lq: "length q = 1536" using st len by (auto simp: q_def)
  have ld: "length digest = 32" and pos: "pos = digestBlockStart scheme + 4"
    and s1: "s1 = copy_at pos digest q" and dg: "digest = hmacSHA256 (without_digest q pos) (take 36 fmsKey)"
    using eq by (auto simp: complexS1_def Let_def p_def q_def hmacSHA256_def)
  have fits: "pos + length digest \<le> length q" using st lq ld pos by auto
  show "length s1 = 1536" using fits lq by (simp add: s1)
  show "take 32 (drop pos s1) = digest" using take_drop_copy_at [OF fits] by (simp add: s1 ld)
  have "without_digest s1 pos = without_digest q pos"
    using copy_at_outside [OF fits] by (simp add: without_digest_def s1 ld)
  then show "digest = hmacSHA256 (without_digest s1 pos) (take 36 fmsKey)" using dg by simp
  have zero: "s1 ! (digestBlockStart scheme + i) = 0" if "i < 4" for i
  proof -
    have "s1 ! (digestBlockStart scheme + i) = q ! (digestBlockStart scheme + i)"
      unfolding s1 using that fits pos by (intro nth_copy_at_before) auto
    also have "\<dots> = put_uint32_be 0 ! i"
      using that st len by (auto simp: q_def copy_at_def nth_append)
    also have "\<dots> = 0"
      using that by (simp add: put_uint32_be_def nth_Cons' split: if_splits)
    finally show ?thesis .
  qed
  show "digestPos s1 scheme = pos"
    using zero [of 0] zero [of 1] zero [of 2] zero [of 3] by (simp add: digestPos_def Let_def pos)
  show "take 4 (drop 4 s1) = fmsVersion"
  proof -
    have a: "take 8 q = take 8 p" using st len by (auto simp: q_def copy_at_def)
    have b: "take 8 s1 = take 8 q" using st lq pos ld by (auto simp: s1 copy_at_def)
    have "take 4 (drop 4 s1) = drop 4 (take 8 s1)" by (simp add: drop_take)
    also have "\<dots> = fmsVersion" by (simp add: a b p_def fmsVersion_def)
    finally show ?thesis .
  qed
qed

lemma buildComplexS1_signed:
  assumes "fst (buildComplexS1 scheme s) = Ok (s1, digest, pos)"
  obtains t rnd where "length rnd = 1528" and "complexS1 scheme t rnd = (s1, digest, pos)"
proof -
  define s' where "s' = snd (now_millis s)"
  obtain rnd where "fst (rand_Read 1528 s') = Ok rnd"
    and "complexS1 scheme (millis_of (clock s 0)) rnd = (s1, digest, pos)"
    using assms unfolding buildComplexS1_def s'_def
    by (auto simp: bind_io_def now_millis_eq split: result.splits)
  then show thesis using rand_Read_length that by blast
qed

definition complexS2 :: "byte list \<Rightarrow> byte list \<Rightarrow> byte list" where
  "complexS2 c1Digest rnd = rnd @ hmacSHA256 rnd (hmacSHA256 c1Digest fmsKey)"

lemma buildReply_complex:
  assumes "selectScheme c1 = Some (scheme, pos)" and "sound s0"
    and "complexS1 scheme (millis_of (clock s0 0)) (map (entropy s0) [0..<1528]) = (s1, digest, p)"
  shows "\<exists>e c. buildReply c1 s0 = (Ok (s1,
      complexS2 (take 32 (drop pos c1)) (map (\<lambda>i. entropy s0 (i + 1528)) [0..<1504]), Some (scheme, digest)),
      s0\<lparr>entropy := e, clock := c\<rparr>)"
  using assms
  by (intro exI [of _ "\<lambda>i. entropy s0 (i + 3032)"] exI [of _ "\<lambda>i. clock s0 (i + 1)"])
    (auto simp: buildReply_def buildComplexS1_def buildComplexS2_def complexS2_def bind_io_def
      now_millis_eq rand_Read_eq sound_faults comp_def algebra_simps)

lemma server_complex:
  assumes "sound s" and "hs_pending s = h0 # c1 @ rest" and "length c1 = 1536"
    and "selectScheme c1 = Some (scheme, pos)"
    and "complexS1 scheme (millis_of (clock s 0)) (map (entropy s) [0..<1528]) = (s1, digest, p)"
  obtains s' where "HandshakeWithClient config s = finishWithClient config s1 (Some (scheme, digest)) s'"
    and "hs_out s' = hs_out s @ RTMPVersion # s1
           @ complexS2 (take 32 (drop pos c1)) (map (\<lambda>i. entropy s (i + 1528)) [0..<1504])"
    and "hs_pending s' = rest" and "sound s'"
proof -
  have "\<exists>e c. buildReply c1 s0 = (Ok (s1,
      complexS2 (take 32 (drop pos c1)) (map (\<lambda>i. entropy s (i + 1528)) [0..<1504]), Some (scheme, digest)),
      s0\<lparr>entropy := e, clock := c\<rparr>)"
    if "entropy s0 = entropy s" "clock s0 = clock s" "sound s0" for s0
    using buildReply_complex [OF assms(4) that(3)] assms(5) that by simp
  then show thesis
    using server_replies [OF assms(1-3)] that by blast
qed

text \<open>The server answers complex only to a C1 with a valid digest.\<close>

lemma selectScheme_Some:
  assumes "selectScheme c1 = Some (scheme, pos)"
  shows "validateC1FP9 c1 scheme = (pos, True)" and "scheme = 0 \<or> scheme = 1"
    and "digestBlockStart scheme + 4 \<le> pos" and "pos + 32 \<le> 1536"
proof -
  show v: "validateC1FP9 c1 scheme = (pos, True)" and "scheme = 0 \<or> scheme = 1"
    using assms by (auto simp: selectScheme_def prod_eq_iff split: if_splits)
  then have "pos = digestPos c1 scheme" by (simp add: validateC1FP9_def Let_def)
  then show "digestBlockStart scheme + 4 \<le> pos" "pos + 32 \<le> 1536"
    using digestPos_bounds(1) [of scheme c1] digestPos_bounds(2) [of c1 scheme] digestBlockStart_bounds [of scheme] by auto
qed

end
