(* ===== verification/Body.thy ===== *)
theory Body
  imports Message
begin

text \<open>
  The bodies of command and data messages (\<^verbatim>\<open>message/net_connection.go\<close>,
  \<^verbatim>\<open>message/net_stream.go\<close>): their types, the conversions to and from argument lists, and their
  encoder and decoders (\<^verbatim>\<open>message/body_encoder.go\<close>, \<^verbatim>\<open>message/body_decoder.go\<close>).
\<close>

section \<open>Types\<close>

abbreviation NetConnectionConnectCodeSuccess :: string where
  "NetConnectionConnectCodeSuccess \<equiv> ''NetConnection.Connect.Success''"
abbreviation NetConnectionConnectCodeFailed :: string where
  "NetConnectionConnectCodeFailed \<equiv> ''NetConnection.Connect.Failed''"
abbreviation NetConnectionConnectCodeClosed :: string where
  "NetConnectionConnectCodeClosed \<equiv> ''NetConnection.Connect.Closed''"

record NetConnectionConnectCommand =
  App :: string
  Type :: string
  FlashVer :: string
  TCURL :: string
  Fpad :: bool
  Capabilities :: int
  AudioCodecs :: int
  VideoCodecs :: int
  VideoFunction :: int
  ObjectEncoding :: EncodingType

definition zero_command :: NetConnectionConnectCommand where
  "zero_command = \<lparr>App = [], Type = [], FlashVer = [], TCURL = [], Fpad = False, Capabilities = 0,
     AudioCodecs = 0, VideoCodecs = 0, VideoFunction = 0, ObjectEncoding = 0\<rparr>"

record NetConnectionConnectResultProperties =
  p_FMSVer :: string
  p_Capabilities :: int
  p_Mode :: int

record NetConnectionConnectResultInformation =
  i_Level :: string
  i_Code :: string
  i_Description :: string
  i_Data :: "(string \<times> goValue) list"

record NetStreamOnStatusInfoObject =
  st_Level :: string
  st_Code :: string
  st_Description :: string

abbreviation NetStreamOnStatusLevelStatus :: string where "NetStreamOnStatusLevelStatus \<equiv> ''status''"
abbreviation NetStreamOnStatusLevelError :: string where "NetStreamOnStatusLevelError \<equiv> ''error''"

abbreviation NetStreamOnStatusCodeConnectFailed :: string where
  "NetStreamOnStatusCodeConnectFailed \<equiv> ''NetStream.Connect.Failed''"
abbreviation NetStreamOnStatusCodePlayStart :: string where
  "NetStreamOnStatusCodePlayStart \<equiv> ''NetStream.Play.Start''"
abbreviation NetStreamOnStatusCodePlayFailed :: string where
  "NetStreamOnStatusCodePlayFailed \<equiv> ''NetStream.Play.Failed''"
abbreviation NetStreamOnStatusCodePublishBadName :: string where
  "NetStreamOnStatusCodePublishBadName \<equiv> ''NetStream.Publish.BadName''"
abbreviation NetStreamOnStatusCodePublishFailed :: string where
  "NetStreamOnStatusCodePublishFailed \<equiv> ''NetStream.Publish.Failed''"
abbreviation NetStreamOnStatusCodePublishStart :: string where
  "NetStreamOnStatusCodePublishStart \<equiv> ''NetStream.Publish.Start''"

text \<open>
  The types that implement \<^verbatim>\<open>AMFConvertible\<close>. Of \<^verbatim>\<open>NetStreamPublish\<close> and \<^verbatim>\<open>NetStreamPlay\<close> the field
  \<^verbatim>\<open>CommandObject\<close> is left out: nothing sets it or reads it.
\<close>

datatype AMFConvertible =
    NetConnectionConnect NetConnectionConnectCommand
  | NetConnectionConnectResult NetConnectionConnectResultProperties NetConnectionConnectResultInformation
  | NetConnectionCreateStream
  | NetConnectionCreateStreamResult uint32
  | NetConnectionReleaseStream string
  | NetStreamPublish string string
  | NetStreamPlay string int64
  | NetStreamOnStatus NetStreamOnStatusInfoObject
  | NetStreamDeleteStream uint32
  | NetStreamFCPublish string
  | NetStreamFCUnpublish string
  | NetStreamReleaseStream string
  | NetStreamSetDataFrame "byte list" goValue
  | NetStreamGetStreamLength string
  | NetStreamPing
  | NetStreamCloseStream

section \<open>Arguments\<close>

text \<open>
  \<^verbatim>\<open>mapstructure.Decode\<close>, of a package outside the repository, fills a struct from a map: a
  parameter, one function for each struct it is used with.
\<close>

record mapstructure =
  ms_command :: "(string \<times> goValue) list \<Rightarrow> NetConnectionConnectCommand result"
  ms_properties :: "(string \<times> goValue) list \<Rightarrow> NetConnectionConnectResultProperties result"
  ms_information :: "(string \<times> goValue) list \<Rightarrow> NetConnectionConnectResultInformation result"

definition wrap_result :: "string \<Rightarrow> 'a result \<Rightarrow> 'a result" where
  "wrap_result msg r = (case r of Err e \<Rightarrow> Err (Wrapf e msg) | _ \<Rightarrow> r)"

definition bind_result :: "'a result \<Rightarrow> ('a \<Rightarrow> 'b result) \<Rightarrow> 'b result" where
  "bind_result r f = (case r of Ok a \<Rightarrow> f a | Err e \<Rightarrow> Err e | Panic p \<Rightarrow> Panic p)"

text \<open>
  \<^verbatim>\<open>FromArgs\<close> of each type. A type assertion on a value of another type panics, and so does an
  index beyond the arguments.
\<close>

fun FromArgs_Connect :: "mapstructure \<Rightarrow> goValue list \<Rightarrow> AMFConvertible result" where
  "FromArgs_Connect ms (GoMap m # _) =
     bind_result (wrap_result ''Failed to mapping NetConnectionConnect'' (ms_command ms m)) (\<lambda>c.
       Ok (NetConnectionConnect c))"
| "FromArgs_Connect ms _ = Panic ''interface conversion''"

fun FromArgs_ConnectResult :: "mapstructure \<Rightarrow> goValue list \<Rightarrow> AMFConvertible result" where
  "FromArgs_ConnectResult ms (GoMap p # args) =
     bind_result (wrap_result ''Failed to mapping NetConnectionConnectResultProperties'' (ms_properties ms p)) (\<lambda>ps.
       case args of
         GoMap i # _ \<Rightarrow>
           bind_result (wrap_result ''Failed to mapping NetConnectionConnectResultInformation'' (ms_information ms i)) (\<lambda>is.
             Ok (NetConnectionConnectResult ps is))
       | _ \<Rightarrow> Panic ''interface conversion'')"
| "FromArgs_ConnectResult ms _ = Panic ''interface conversion''"

definition FromArgs_CreateStream :: "goValue list \<Rightarrow> AMFConvertible result" where
  "FromArgs_CreateStream args = Ok NetConnectionCreateStream"

fun FromArgs_CreateStreamResult :: "goValue list \<Rightarrow> AMFConvertible result" where
  "FromArgs_CreateStreamResult (_ # GoUint32 i # _) = Ok (NetConnectionCreateStreamResult i)"
| "FromArgs_CreateStreamResult _ = Panic ''interface conversion''"

fun FromArgs_ReleaseStream :: "goValue list \<Rightarrow> AMFConvertible result" where
  "FromArgs_ReleaseStream (_ # GoString s # _) = Ok (NetConnectionReleaseStream s)"
| "FromArgs_ReleaseStream _ = Panic ''interface conversion''"

fun FromArgs_Publish :: "goValue list \<Rightarrow> AMFConvertible result" where
  "FromArgs_Publish (_ # GoString n # GoString t # _) = Ok (NetStreamPublish n t)"
| "FromArgs_Publish _ = Panic ''interface conversion''"

fun FromArgs_Play :: "goValue list \<Rightarrow> AMFConvertible result" where
  "FromArgs_Play (_ # GoString n # GoInt64 s # _) = Ok (NetStreamPlay n s)"
| "FromArgs_Play _ = Panic ''interface conversion''"

fun FromArgs_DeleteStream :: "goValue list \<Rightarrow> AMFConvertible result" where
  "FromArgs_DeleteStream (_ # GoUint32 i # _) = Ok (NetStreamDeleteStream i)"
| "FromArgs_DeleteStream _ = Panic ''interface conversion''"

fun FromArgs_FCPublish :: "goValue list \<Rightarrow> AMFConvertible result" where
  "FromArgs_FCPublish (_ # GoString s # _) = Ok (NetStreamFCPublish s)"
| "FromArgs_FCPublish _ = Panic ''interface conversion''"

fun FromArgs_FCUnpublish :: "goValue list \<Rightarrow> AMFConvertible result" where
  "FromArgs_FCUnpublish (_ # GoString s # _) = Ok (NetStreamFCUnpublish s)"
| "FromArgs_FCUnpublish _ = Panic ''interface conversion''"

fun FromArgs_NetStreamReleaseStream :: "goValue list \<Rightarrow> AMFConvertible result" where
  "FromArgs_NetStreamReleaseStream (_ # GoString s # _) = Ok (NetStreamReleaseStream s)"
| "FromArgs_NetStreamReleaseStream _ = Panic ''interface conversion''"

definition FromArgs_OnStatus :: "goValue list \<Rightarrow> AMFConvertible result" where
  "FromArgs_OnStatus args = Panic ''Not implemented''"

fun FromArgs_SetDataFrame :: "goValue list \<Rightarrow> AMFConvertible result" where
  "FromArgs_SetDataFrame (GoBytes b # _) = Ok (NetStreamSetDataFrame b GoNil)"
| "FromArgs_SetDataFrame _ = Panic ''interface conversion''"

fun FromArgs_GetStreamLength :: "goValue list \<Rightarrow> AMFConvertible result" where
  "FromArgs_GetStreamLength (_ # GoString s # _) = Ok (NetStreamGetStreamLength s)"
| "FromArgs_GetStreamLength _ = Panic ''interface conversion''"

definition FromArgs_Ping :: "goValue list \<Rightarrow> AMFConvertible result" where
  "FromArgs_Ping args = Ok NetStreamPing"

definition FromArgs_CloseStream :: "goValue list \<Rightarrow> AMFConvertible result" where
  "FromArgs_CloseStream args = Ok NetStreamCloseStream"

text \<open>\<^verbatim>\<open>ToArgs\<close>; a struct argument carries the names of its \<^verbatim>\<open>amf0\<close> tags.\<close>

definition command_value :: "NetConnectionConnectCommand \<Rightarrow> goValue" where
  "command_value c = GoStruct
     [(''app'', GoString (App c)), (''type'', GoString (Type c)), (''flashVer'', GoString (FlashVer c)),
      (''tcUrl'', GoString (TCURL c)), (''fpad'', GoBool (Fpad c)), (''capabilities'', GoInt (Capabilities c)),
      (''audioCodecs'', GoInt (AudioCodecs c)), (''videoCodecs'', GoInt (VideoCodecs c)),
      (''videoFunction'', GoInt (VideoFunction c)), (''objectEncoding'', GoUint8 (ObjectEncoding c))]"

definition properties_value :: "NetConnectionConnectResultProperties \<Rightarrow> goValue" where
  "properties_value p = GoStruct
     [(''fmsVer'', GoString (p_FMSVer p)), (''capabilities'', GoInt (p_Capabilities p)), (''mode'', GoInt (p_Mode p))]"

definition information_value :: "NetConnectionConnectResultInformation \<Rightarrow> goValue" where
  "information_value i = GoStruct
     [(''level'', GoString (i_Level i)), (''code'', GoString (i_Code i)),
      (''description'', GoString (i_Description i)), (''data'', GoECMAArray (i_Data i))]"

definition status_value :: "NetStreamOnStatusInfoObject \<Rightarrow> goValue" where
  "status_value s = GoMap [(''level'', GoString (st_Level s)), (''code'', GoString (st_Code s)),
     (''description'', GoString (st_Description s))]"

definition ToArgs_Connect :: "NetConnectionConnectCommand \<Rightarrow> goValue list result" where
  [simp]: "ToArgs_Connect c = Ok [command_value c]"

definition ToArgs_ConnectResult :: "NetConnectionConnectResultProperties \<Rightarrow> NetConnectionConnectResultInformation \<Rightarrow> goValue list result" where
  [simp]: "ToArgs_ConnectResult p i = Ok [properties_value p, information_value i]"

definition ToArgs_CreateStream :: "goValue list result" where
  [simp]: "ToArgs_CreateStream = Ok [GoNil]"

definition ToArgs_CreateStreamResult :: "uint32 \<Rightarrow> goValue list result" where
  [simp]: "ToArgs_CreateStreamResult i = Ok [GoNil, GoUint32 i]"

definition ToArgs_ReleaseStream :: "string \<Rightarrow> goValue list result" where
  [simp]: "ToArgs_ReleaseStream s = Ok [GoNil, GoString s]"

definition ToArgs_Publish :: "string \<Rightarrow> string \<Rightarrow> goValue list result" where
  [simp]: "ToArgs_Publish n t = Ok [GoNil, GoString n, GoString t]"

definition ToArgs_Play :: "string \<Rightarrow> int64 \<Rightarrow> goValue list result" where
  [simp]: "ToArgs_Play n s = Panic ''Not implemented''"

definition ToArgs_OnStatus :: "NetStreamOnStatusInfoObject \<Rightarrow> goValue list result" where
  [simp]: "ToArgs_OnStatus st = Ok [GoNil, status_value st]"

definition ToArgs_DeleteStream :: "uint32 \<Rightarrow> goValue list result" where
  [simp]: "ToArgs_DeleteStream i = Ok [GoNil, GoUint32 i]"

definition ToArgs_FCPublish :: "string \<Rightarrow> goValue list result" where
  [simp]: "ToArgs_FCPublish s = Ok [GoNil, GoString s]"

definition ToArgs_FCUnpublish :: "string \<Rightarrow> goValue list result" where
  [simp]: "ToArgs_FCUnpublish s = Ok [GoNil, GoString s]"

definition ToArgs_NetStreamReleaseStream :: "string \<Rightarrow> goValue list result" where
  [simp]: "ToArgs_NetStreamReleaseStream s = Ok [GoNil, GoString s]"

definition ToArgs_SetDataFrame :: "byte list \<Rightarrow> goValue \<Rightarrow> goValue list result" where
  [simp]: "ToArgs_SetDataFrame b v = Ok [GoString ''onMetaData'', v]"

definition ToArgs_GetStreamLength :: "string \<Rightarrow> goValue list result" where
  [simp]: "ToArgs_GetStreamLength s = Ok [GoNil, GoString s]"

definition ToArgs_Ping :: "goValue list result" where
  [simp]: "ToArgs_Ping = Ok [GoNil]"

definition ToArgs_CloseStream :: "goValue list result" where
  [simp]: "ToArgs_CloseStream = Ok [GoNil]"

text \<open>The method of the interface.\<close>

fun ToArgs :: "AMFConvertible \<Rightarrow> goValue list result" where
  "ToArgs (NetConnectionConnect c) = ToArgs_Connect c"
| "ToArgs (NetConnectionConnectResult p i) = ToArgs_ConnectResult p i"
| "ToArgs NetConnectionCreateStream = ToArgs_CreateStream"
| "ToArgs (NetConnectionCreateStreamResult i) = ToArgs_CreateStreamResult i"
| "ToArgs (NetConnectionReleaseStream s) = ToArgs_ReleaseStream s"
| "ToArgs (NetStreamPublish n t) = ToArgs_Publish n t"
| "ToArgs (NetStreamPlay n s) = ToArgs_Play n s"
| "ToArgs (NetStreamOnStatus st) = ToArgs_OnStatus st"
| "ToArgs (NetStreamDeleteStream i) = ToArgs_DeleteStream i"
| "ToArgs (NetStreamFCPublish s) = ToArgs_FCPublish s"
| "ToArgs (NetStreamFCUnpublish s) = ToArgs_FCUnpublish s"
| "ToArgs (NetStreamReleaseStream s) = ToArgs_NetStreamReleaseStream s"
| "ToArgs (NetStreamSetDataFrame b v) = ToArgs_SetDataFrame b v"
| "ToArgs (NetStreamGetStreamLength s) = ToArgs_GetStreamLength s"
| "ToArgs NetStreamPing = ToArgs_Ping"
| "ToArgs NetStreamCloseStream = ToArgs_CloseStream"

text \<open>What \<^verbatim>\<open>ToArgs\<close> makes of a value, \<^verbatim>\<open>FromArgs\<close> makes the same value of.\<close>

lemma args_roundtrip:
  "ToArgs (NetConnectionCreateStreamResult i) = Ok args \<Longrightarrow> FromArgs_CreateStreamResult args = Ok (NetConnectionCreateStreamResult i)"
  "ToArgs (NetConnectionReleaseStream s) = Ok args \<Longrightarrow> FromArgs_ReleaseStream args = Ok (NetConnectionReleaseStream s)"
  "ToArgs (NetStreamPublish s t) = Ok args \<Longrightarrow> FromArgs_Publish args = Ok (NetStreamPublish s t)"
  "ToArgs (NetStreamDeleteStream i) = Ok args \<Longrightarrow> FromArgs_DeleteStream args = Ok (NetStreamDeleteStream i)"
  "ToArgs (NetStreamFCPublish s) = Ok args \<Longrightarrow> FromArgs_FCPublish args = Ok (NetStreamFCPublish s)"
  "ToArgs (NetStreamFCUnpublish s) = Ok args \<Longrightarrow> FromArgs_FCUnpublish args = Ok (NetStreamFCUnpublish s)"
  "ToArgs (NetStreamReleaseStream s) = Ok args \<Longrightarrow> FromArgs_NetStreamReleaseStream args = Ok (NetStreamReleaseStream s)"
  "ToArgs (NetStreamGetStreamLength s) = Ok args \<Longrightarrow> FromArgs_GetStreamLength args = Ok (NetStreamGetStreamLength s)"
  by auto

section \<open>\<^verbatim>\<open>EncodeBodyAnyValues\<close>\<close>

text \<open>The encoder is always one of AMF0. A nil body encodes to nothing.\<close>

fun encodeArgs :: "amf0 \<Rightarrow> goValue list \<Rightarrow> (byte list, unit) io" where
  "encodeArgs amf [] = return_io ()"
| "encodeArgs amf (v # vs) = bind_io (amf_Encode amf v) (\<lambda>_. encodeArgs amf vs)"

definition EncodeBodyAnyValues :: "amf0 \<Rightarrow> AMFConvertible option \<Rightarrow> (byte list, unit) io" where
  "EncodeBodyAnyValues amf v =
     (case v of
        None \<Rightarrow> return_io ()
      | Some body \<Rightarrow> bind_io (\<lambda>b. (ToArgs body, b)) (encodeArgs amf))"

section \<open>Decoders\<close>

type_synonym BodyDecoderFunc = "(byte list, AMFConvertible) io"

text \<open>The messages of wrapped errors quote the name of the command.\<close>

definition reconstruct_msg :: "string \<Rightarrow> string" where
  "reconstruct_msg name = ''Failed to reconstruct '' @ [CHR 0x27] @ name @ [CHR 0x27]"

definition decode_msg :: "string \<Rightarrow> string \<Rightarrow> string" where
  "decode_msg name i = ''Failed to decode '' @ [CHR 0x27] @ name @ [CHR 0x27] @ '' args['' @ i @ '']''"

definition pure_io :: "'a result \<Rightarrow> ('s, 'a) io" where
  "pure_io r s = (r, s)"

definition DecodeBodyAtSetDataFrame :: BodyDecoderFunc where
  "DecodeBodyAtSetDataFrame b =
     (wrap_result (reconstruct_msg ''@setDataFrame'') (FromArgs_SetDataFrame [GoBytes b]), [])"

text \<open>
  An unknown body is decoded value by value, until the decoder fails, and reported with all of
  them. The fuel is the length of the buffer: a decoder that consumes a byte for each value
  cannot succeed more often (\<open>decodeAll_fuel\<close>).
\<close>

fun decodeAll :: "amf0 \<Rightarrow> nat \<Rightarrow> byte list \<Rightarrow> goValue list result \<times> byte list" where
  "decodeAll amf n b =
     (case amf_decode_value amf b of
        (Ok v, b') \<Rightarrow>
          (case n of
             0 \<Rightarrow> (Panic ''out of fuel'', b')
           | Suc k \<Rightarrow> (case decodeAll amf k b' of (Ok vs, b'') \<Rightarrow> (Ok (v # vs), b'') | r \<Rightarrow> r))
      | (Err e, b') \<Rightarrow> (Ok [], b')
      | (Panic p, b') \<Rightarrow> (Panic p, b'))"

declare decodeAll.simps [simp del]

definition DataBodyDecoderFor :: "amf0 \<Rightarrow> string \<Rightarrow> BodyDecoderFunc" where
  "DataBodyDecoderFor amf name =
     (if name = ''@setDataFrame'' then DecodeBodyAtSetDataFrame
      else bind_io (\<lambda>b. decodeAll amf (length b) b) (\<lambda>objs. fail_io (UnknownDataBodyDecodeError name objs)))"

definition DecodeBodyConnect :: "amf0 \<Rightarrow> mapstructure \<Rightarrow> BodyDecoderFunc" where
  "DecodeBodyConnect amf ms =
     bind_io (wrap_io (decode_msg ''connect'' ''0'') (amf_decode_object amf)) (\<lambda>object.
       wrap_io (reconstruct_msg ''connect'') (pure_io (FromArgs_Connect ms [GoMap object])))"

definition DecodeBodyConnectResult :: "amf0 \<Rightarrow> mapstructure \<Rightarrow> BodyDecoderFunc" where
  "DecodeBodyConnectResult amf ms =
     bind_io (wrap_io (decode_msg ''connect.result'' ''0'') (amf_decode_value amf)) (\<lambda>properties.
     bind_io (wrap_io (decode_msg ''connect.result'' ''1'') (amf_decode_value amf)) (\<lambda>information.
       wrap_io (reconstruct_msg ''connect.result'') (pure_io (FromArgs_ConnectResult ms [properties, information]))))"

definition DecodeBodyCreateStream :: "amf0 \<Rightarrow> BodyDecoderFunc" where
  "DecodeBodyCreateStream amf =
     bind_io (wrap_io (decode_msg ''createStream'' ''0'') (amf_decode_value amf)) (\<lambda>object.
       wrap_io (reconstruct_msg ''createStream'') (pure_io (FromArgs_CreateStream [object])))"

definition DecodeBodyCreateStreamResult :: "amf0 \<Rightarrow> BodyDecoderFunc" where
  "DecodeBodyCreateStreamResult amf =
     bind_io (wrap_io (decode_msg ''createStream.result'' ''0'') (amf_decode_value amf)) (\<lambda>object.
     bind_io (wrap_io (decode_msg ''createStream.result'' ''1'') (amf_decode_uint32 amf)) (\<lambda>streamID.
       wrap_io (reconstruct_msg ''createStream.result'') (pure_io (FromArgs_CreateStreamResult [object, GoUint32 streamID]))))"

definition DecodeBodyDeleteStream :: "amf0 \<Rightarrow> BodyDecoderFunc" where
  "DecodeBodyDeleteStream amf =
     bind_io (wrap_io (decode_msg ''deleteStream'' ''0'') (amf_decode_value amf)) (\<lambda>object.
     bind_io (wrap_io (decode_msg ''deleteStream'' ''1'') (amf_decode_uint32 amf)) (\<lambda>streamID.
       wrap_io (reconstruct_msg ''deleteStream'') (pure_io (FromArgs_DeleteStream [object, GoUint32 streamID]))))"

text \<open>The publishing type is optional: at the end of the input, also when that is wrapped.\<close>

definition DecodeBodyPublish :: "amf0 \<Rightarrow> BodyDecoderFunc" where
  "DecodeBodyPublish amf =
     bind_io (wrap_io (decode_msg ''publish'' ''0'') (amf_decode_value amf)) (\<lambda>object.
     bind_io (wrap_io (decode_msg ''publish'' ''1'') (amf_decode_string amf)) (\<lambda>name.
     bind_io (\<lambda>b. case amf_decode_string amf b of
                (Err e, b') \<Rightarrow> (if errors_Is e EOF then Ok ''live'' else Err (Wrapf e (decode_msg ''publish'' ''2'')), b')
              | r \<Rightarrow> r) (\<lambda>ty.
       wrap_io (reconstruct_msg ''publish'') (pure_io (FromArgs_Publish [object, GoString name, GoString ty])))))"

text \<open>The start position is optional: at the end of the input, but only unwrapped.\<close>

definition DecodeBodyPlay :: "amf0 \<Rightarrow> BodyDecoderFunc" where
  "DecodeBodyPlay amf =
     bind_io (wrap_io (decode_msg ''play'' ''0'') (amf_decode_value amf)) (\<lambda>object.
     bind_io (wrap_io (decode_msg ''play'' ''1'') (amf_decode_string amf)) (\<lambda>name.
     bind_io (\<lambda>b. case amf_decode_int64 amf b of
                (Err e, b') \<Rightarrow> (if e \<noteq> EOF then Err (Wrapf e (decode_msg ''play'' ''2'')) else Ok 0, b')
              | r \<Rightarrow> r) (\<lambda>start.
       wrap_io (reconstruct_msg ''play'') (pure_io (FromArgs_Play [object, GoString name, GoInt64 start])))))"

definition DecodeBodyReleaseStream :: "amf0 \<Rightarrow> BodyDecoderFunc" where
  "DecodeBodyReleaseStream amf =
     bind_io (wrap_io (decode_msg ''releaseStream'' ''0'') (amf_decode_value amf)) (\<lambda>object.
     bind_io (wrap_io (decode_msg ''releaseStream'' ''1'') (amf_decode_string amf)) (\<lambda>name.
       wrap_io (reconstruct_msg ''releaseStream'') (pure_io (FromArgs_ReleaseStream [object, GoString name]))))"

definition DecodeBodyFCPublish :: "amf0 \<Rightarrow> BodyDecoderFunc" where
  "DecodeBodyFCPublish amf =
     bind_io (wrap_io (decode_msg ''FCPublish'' ''0'') (amf_decode_value amf)) (\<lambda>object.
     bind_io (wrap_io (decode_msg ''FCPublish'' ''1'') (amf_decode_string amf)) (\<lambda>name.
       wrap_io (reconstruct_msg ''FCPublish'') (pure_io (FromArgs_FCPublish [object, GoString name]))))"

definition DecodeBodyFCUnpublish :: "amf0 \<Rightarrow> BodyDecoderFunc" where
  "DecodeBodyFCUnpublish amf =
     bind_io (wrap_io (decode_msg ''FCUnpublish'' ''0'') (amf_decode_value amf)) (\<lambda>object.
     bind_io (wrap_io (decode_msg ''FCUnpublish'' ''1'') (amf_decode_string amf)) (\<lambda>name.
       wrap_io (reconstruct_msg ''FCUnpublish'') (pure_io (FromArgs_FCUnpublish [object, GoString name]))))"

definition DecodeBodyGetStreamLength :: "amf0 \<Rightarrow> BodyDecoderFunc" where
  "DecodeBodyGetStreamLength amf =
     bind_io (wrap_io (decode_msg ''getStreamLength'' ''0'') (amf_decode_value amf)) (\<lambda>object.
     bind_io (wrap_io (decode_msg ''getStreamLength'' ''1'') (amf_decode_string amf)) (\<lambda>name.
       wrap_io (reconstruct_msg ''getStreamLength'') (pure_io (FromArgs_GetStreamLength [object, GoString name]))))"

definition DecodeBodyPing :: "amf0 \<Rightarrow> BodyDecoderFunc" where
  "DecodeBodyPing amf =
     bind_io (wrap_io (decode_msg ''ping'' ''0'') (amf_decode_value amf)) (\<lambda>object.
       wrap_io (reconstruct_msg ''ping'') (pure_io (FromArgs_Ping [object])))"

definition DecodeBodyCloseStream :: "amf0 \<Rightarrow> BodyDecoderFunc" where
  "DecodeBodyCloseStream amf =
     bind_io (wrap_io (decode_msg ''closeStream'' ''0'') (amf_decode_value amf)) (\<lambda>object.
       wrap_io (reconstruct_msg ''closeStream'') (pure_io (FromArgs_CloseStream [object])))"

text \<open>The table \<^verbatim>\<open>CmdBodyDecoders\<close> and its lookup.\<close>

definition CmdBodyDecoders :: "amf0 \<Rightarrow> mapstructure \<Rightarrow> string \<Rightarrow> BodyDecoderFunc option" where
  "CmdBodyDecoders amf ms = map_of
     [(''connect'', DecodeBodyConnect amf ms), (''createStream'', DecodeBodyCreateStream amf),
      (''deleteStream'', DecodeBodyDeleteStream amf), (''publish'', DecodeBodyPublish amf),
      (''play'', DecodeBodyPlay amf), (''releaseStream'', DecodeBodyReleaseStream amf),
      (''FCPublish'', DecodeBodyFCPublish amf), (''FCUnpublish'', DecodeBodyFCUnpublish amf),
      (''getStreamLength'', DecodeBodyGetStreamLength amf), (''ping'', DecodeBodyPing amf),
      (''closeStream'', DecodeBodyCloseStream amf)]"

definition CmdBodyDecoderFor :: "amf0 \<Rightarrow> mapstructure \<Rightarrow> string \<Rightarrow> int64 \<Rightarrow> BodyDecoderFunc" where
  "CmdBodyDecoderFor amf ms name transactionID =
     (case CmdBodyDecoders amf ms name of
        Some dec \<Rightarrow> dec
      | None \<Rightarrow> bind_io (\<lambda>b. decodeAll amf (length b) b) (\<lambda>objs.
                  fail_io (UnknownCommandBodyDecodeError name transactionID objs)))"

section \<open>Unknown bodies\<close>

text \<open>
  What reading an unknown body relies on: a value that is decoded had at least one byte. Then
  the fuel is never the reason to stop.
\<close>

definition amf_value_consumes :: "amf0 \<Rightarrow> bool" where
  "amf_value_consumes amf \<longleftrightarrow>
     (\<forall>b v b'. amf_decode_value amf b = (Ok v, b') \<longrightarrow> length b' < length b)"

lemma decodeAll_fuel:
  assumes "amf_value_consumes amf" and "length b \<le> n" and "n \<le> m"
  shows "decodeAll amf n b = decodeAll amf m b"
  using assms(2,3)
proof (induction n arbitrary: m b)
  case 0
  obtain r b' where d: "amf_decode_value amf b = (r, b')" by (cases "amf_decode_value amf b")
  have "\<not> is_Ok r"
  proof
    assume "is_Ok r"
    with d assms(1) have "length b' < length b" by (auto simp: amf_value_consumes_def)
    with 0 show False by simp
  qed
  then show ?case
    using d by (subst decodeAll.simps, subst decodeAll.simps) (auto split: result.splits)
next
  case (Suc n)
  obtain r b' where d: "amf_decode_value amf b = (r, b')" by (cases "amf_decode_value amf b")
  obtain k where m: "m = Suc k" using Suc.prems by (cases m) auto
  show ?case
  proof (cases r)
    case (Ok v)
    then have "length b' < length b" using d assms(1) by (auto simp: amf_value_consumes_def)
    then have "decodeAll amf n b' = decodeAll amf k b'" using Suc.prems m by (intro Suc.IH) auto
    then show ?thesis
      using d Ok m by (subst decodeAll.simps, subst (2) decodeAll.simps) simp
  qed (use d m in \<open>subst decodeAll.simps, subst (2) decodeAll.simps, simp\<close>)+
qed

lemma decodeAll_Ok:
  assumes "amf_value_consumes amf" and "\<And>c p. fst (amf_decode_value amf c) \<noteq> Panic p" and "length b \<le> n"
  shows "\<exists>vs b'. decodeAll amf n b = (Ok vs, b')"
  using assms(3)
proof (induction n arbitrary: b)
  case 0
  obtain r b' where d: "amf_decode_value amf b = (r, b')" by (cases "amf_decode_value amf b")
  have "\<not> is_Ok r"
  proof
    assume "is_Ok r"
    with d assms(1) have "length b' < length b" by (auto simp: amf_value_consumes_def)
    with 0 show False by simp
  qed
  then show ?case
    using d assms(2) [of b] by (subst decodeAll.simps) (auto split: result.splits)
next
  case (Suc n)
  obtain r b' where d: "amf_decode_value amf b = (r, b')" by (cases "amf_decode_value amf b")
  show ?case
  proof (cases r)
    case (Ok v)
    then have "length b' < length b" using d assms(1) by (auto simp: amf_value_consumes_def)
    then obtain vs b'' where "decodeAll amf n b' = (Ok vs, b'')" using Suc.IH [of b'] Suc.prems by auto
    then show ?thesis using d Ok by (subst decodeAll.simps) simp
  next
    case (Panic p)
    then show ?thesis using d assms(2) [of b p] by simp
  qed (use d in \<open>subst decodeAll.simps, simp\<close>)
qed

text \<open>
  A body under an unknown name is read to the end of what the codec can decode: as many rounds
  as it has bytes are enough, and the result is the error that names the command.
\<close>

lemma unknown_body_read_through:
  assumes "amf_value_consumes amf" and "\<And>c p. fst (amf_decode_value amf c) \<noteq> Panic p"
    and "CmdBodyDecoders amf ms name = None"
  shows "\<exists>vs. fst (CmdBodyDecoderFor amf ms name tid b) = Err (UnknownCommandBodyDecodeError name tid vs)"
    and "length b \<le> n \<Longrightarrow> decodeAll amf n b = decodeAll amf (length b) b"
proof -
  obtain vs b' where "decodeAll amf (length b) b = (Ok vs, b')"
    using decodeAll_Ok [OF assms(1,2) order_refl] by blast
  then show "\<exists>vs. fst (CmdBodyDecoderFor amf ms name tid b) = Err (UnknownCommandBodyDecodeError name tid vs)"
    using assms(3) by (auto simp: CmdBodyDecoderFor_def bind_io_def)
qed (use decodeAll_fuel [OF assms(1) order_refl] in simp)

section \<open>Commands survive the wire\<close>

text \<open>The name each body is sent under, as a command the other side understands.\<close>

fun body_command :: "AMFConvertible \<Rightarrow> string option" where
  "body_command (NetConnectionConnect _) = Some ''connect''"
| "body_command NetConnectionCreateStream = Some ''createStream''"
| "body_command (NetConnectionReleaseStream _) = Some ''releaseStream''"
| "body_command (NetStreamPublish _ _) = Some ''publish''"
| "body_command (NetStreamDeleteStream _) = Some ''deleteStream''"
| "body_command (NetStreamFCPublish _) = Some ''FCPublish''"
| "body_command (NetStreamFCUnpublish _) = Some ''FCUnpublish''"
| "body_command (NetStreamGetStreamLength _) = Some ''getStreamLength''"
| "body_command NetStreamPing = Some ''ping''"
| "body_command NetStreamCloseStream = Some ''closeStream''"
| "body_command _ = None"

text \<open>What is relied on of the codec, and of \<^verbatim>\<open>mapstructure\<close>, for the values of a body.\<close>

definition amf_nil_ok :: "amf0 \<Rightarrow> bool" where
  "amf_nil_ok amf \<longleftrightarrow> (\<forall>bs rest. amf_encode amf GoNil = Ok bs \<longrightarrow>
     (\<exists>v. amf_decode_value amf (bs @ rest) = (Ok v, rest)))"

definition amf_uint32_ok :: "amf0 \<Rightarrow> uint32 \<Rightarrow> bool" where
  "amf_uint32_ok amf i \<longleftrightarrow> (\<forall>bs rest. amf_encode amf (GoUint32 i) = Ok bs \<longrightarrow>
     amf_decode_uint32 amf (bs @ rest) = (Ok i, rest))"

definition amf_command_ok :: "amf0 \<Rightarrow> mapstructure \<Rightarrow> NetConnectionConnectCommand \<Rightarrow> bool" where
  "amf_command_ok amf ms c \<longleftrightarrow> (\<forall>bs rest. amf_encode amf (command_value c) = Ok bs \<longrightarrow>
     (\<exists>m. amf_decode_object amf (bs @ rest) = (Ok m, rest) \<and> ms_command ms m = Ok c))"

fun body_fits :: "amf0 \<Rightarrow> mapstructure \<Rightarrow> AMFConvertible \<Rightarrow> bool" where
  "body_fits amf ms (NetConnectionConnect c) = amf_command_ok amf ms c"
| "body_fits amf ms (NetConnectionReleaseStream s) = (amf_nil_ok amf \<and> amf_string_ok amf s)"
| "body_fits amf ms (NetStreamPublish n t) = (amf_nil_ok amf \<and> amf_string_ok amf n \<and> amf_string_ok amf t)"
| "body_fits amf ms (NetStreamDeleteStream i) = (amf_nil_ok amf \<and> amf_uint32_ok amf i)"
| "body_fits amf ms (NetStreamFCPublish s) = (amf_nil_ok amf \<and> amf_string_ok amf s)"
| "body_fits amf ms (NetStreamFCUnpublish s) = (amf_nil_ok amf \<and> amf_string_ok amf s)"
| "body_fits amf ms (NetStreamGetStreamLength s) = (amf_nil_ok amf \<and> amf_string_ok amf s)"
| "body_fits amf ms _ = amf_nil_ok amf"

lemma encodeArgs_Ok:
  "encodeArgs amf [] b = (Ok (), b') \<longleftrightarrow> b' = b"
  "encodeArgs amf (v # vs) b = (Ok (), b') \<longleftrightarrow>
     (\<exists>bs. amf_encode amf v = Ok bs \<and> encodeArgs amf vs (b @ bs) = (Ok (), b'))"
  by (auto simp: encodeArgs.simps bind_io_def amf_Encode_def split: result.splits)

declare encodeArgs.simps [simp del]

lemma pure_io_simps [simp]: "pure_io r s = (r, s)"
  by (simp add: pure_io_def)

lemmas body_decoder_defs = DecodeBodyConnect_def DecodeBodyCreateStream_def DecodeBodyDeleteStream_def
  DecodeBodyPublish_def DecodeBodyPlay_def DecodeBodyReleaseStream_def DecodeBodyFCPublish_def
  DecodeBodyFCUnpublish_def DecodeBodyGetStreamLength_def DecodeBodyPing_def DecodeBodyCloseStream_def
  FromArgs_CreateStream_def FromArgs_Ping_def FromArgs_CloseStream_def

text \<open>One argument decoded, whatever comes after it.\<close>

lemma nil_step:
  assumes "amf_nil_ok amf" and "amf_encode amf GoNil = Ok xs" and "\<And>v. f v r = R"
  shows "bind_io (wrap_io m (amf_decode_value amf)) f (xs @ r) = R"
proof -
  obtain v where "amf_decode_value amf (xs @ r) = (Ok v, r)" using assms(1,2) by (auto simp: amf_nil_ok_def)
  then show ?thesis using assms(3) by (simp add: io_simps)
qed

lemma string_step:
  assumes "amf_string_ok amf s" and "amf_encode amf (GoString s) = Ok xs"
  shows "amf_decode_string amf (xs @ r) = (Ok s, r)"
  using assms by (simp add: amf_string_ok_def)

lemma uint32_step:
  assumes "amf_uint32_ok amf i" and "amf_encode amf (GoUint32 i) = Ok xs"
  shows "amf_decode_uint32 amf (xs @ r) = (Ok i, r)"
  using assms by (simp add: amf_uint32_ok_def)

lemma encode_body_args:
  assumes "EncodeBodyAnyValues amf (Some v) [] = (Ok (), bs)"
  obtains args where "ToArgs v = Ok args" and "encodeArgs amf args [] = (Ok (), bs)"
  using assms by (auto simp: EncodeBodyAnyValues_def bind_io_def split: result.splits)

lemma CmdBodyDecoderFor_known:
  "CmdBodyDecoderFor amf ms ''connect'' tid = DecodeBodyConnect amf ms"
  "CmdBodyDecoderFor amf ms ''createStream'' tid = DecodeBodyCreateStream amf"
  "CmdBodyDecoderFor amf ms ''deleteStream'' tid = DecodeBodyDeleteStream amf"
  "CmdBodyDecoderFor amf ms ''publish'' tid = DecodeBodyPublish amf"
  "CmdBodyDecoderFor amf ms ''play'' tid = DecodeBodyPlay amf"
  "CmdBodyDecoderFor amf ms ''releaseStream'' tid = DecodeBodyReleaseStream amf"
  "CmdBodyDecoderFor amf ms ''FCPublish'' tid = DecodeBodyFCPublish amf"
  "CmdBodyDecoderFor amf ms ''FCUnpublish'' tid = DecodeBodyFCUnpublish amf"
  "CmdBodyDecoderFor amf ms ''getStreamLength'' tid = DecodeBodyGetStreamLength amf"
  "CmdBodyDecoderFor amf ms ''ping'' tid = DecodeBodyPing amf"
  "CmdBodyDecoderFor amf ms ''closeStream'' tid = DecodeBodyCloseStream amf"
  by (simp_all add: CmdBodyDecoderFor_def CmdBodyDecoders_def)

lemma body_roundtrip:
  assumes cmd: "body_command v = Some name" and enc: "EncodeBodyAnyValues amf (Some v) [] = (Ok (), bs)"
    and fits: "body_fits amf ms v"
  shows "CmdBodyDecoderFor amf ms name tid bs = (Ok v, [])"
proof -
  obtain args where args: "ToArgs v = Ok args" "encodeArgs amf args [] = (Ok (), bs)"
    using enc by (rule encode_body_args)
  note simps = CmdBodyDecoderFor_known body_decoder_defs encodeArgs_Ok io_simps
  show ?thesis
  proof (cases v)
    case (NetConnectionConnect c)
    with args obtain xs where xs: "amf_encode amf (command_value c) = Ok xs" "bs = xs"
      by (auto simp: encodeArgs_Ok)
    moreover obtain m where "amf_decode_object amf xs = (Ok m, [])" "ms_command ms m = Ok c"
      using fits NetConnectionConnect xs by (auto simp: amf_command_ok_def) (metis append.right_neutral)
    ultimately show ?thesis
      using cmd NetConnectionConnect by (auto simp: simps wrap_result_def bind_result_def)
  next
    case NetConnectionCreateStream
    with args obtain xs where "amf_encode amf GoNil = Ok xs" "bs = xs @ []" by (auto simp: encodeArgs_Ok)
    then show ?thesis
      using cmd fits NetConnectionCreateStream by (auto simp: simps simp del: append_Nil2 intro!: nil_step)
  next
    case NetStreamPing
    with args obtain xs where "amf_encode amf GoNil = Ok xs" "bs = xs @ []" by (auto simp: encodeArgs_Ok)
    then show ?thesis
      using cmd fits NetStreamPing by (auto simp: simps simp del: append_Nil2 intro!: nil_step)
  next
    case NetStreamCloseStream
    with args obtain xs where "amf_encode amf GoNil = Ok xs" "bs = xs @ []" by (auto simp: encodeArgs_Ok)
    then show ?thesis
      using cmd fits NetStreamCloseStream by (auto simp: simps simp del: append_Nil2 intro!: nil_step)
  next
    case (NetStreamDeleteStream i)
    with args obtain xs ys where a: "amf_encode amf GoNil = Ok xs" "amf_encode amf (GoUint32 i) = Ok ys" "bs = xs @ ys"
      by (auto simp: encodeArgs_Ok)
    then show ?thesis
      using cmd fits NetStreamDeleteStream uint32_step [OF _ a(2), of "[]"]
      by (auto simp: simps intro!: nil_step)
  next
    case (NetStreamPublish n t)
    with args obtain xs ys zs where a: "amf_encode amf GoNil = Ok xs" "amf_encode amf (GoString n) = Ok ys"
      "amf_encode amf (GoString t) = Ok zs" "bs = xs @ ys @ zs"
      by (auto simp: encodeArgs_Ok)
    then show ?thesis
      using cmd fits NetStreamPublish string_step [OF _ a(2), of zs] string_step [OF _ a(3), of "[]"]
      by (auto simp: simps intro!: nil_step)
  next
    case (NetConnectionReleaseStream n)
    with args obtain xs ys where a: "amf_encode amf GoNil = Ok xs" "amf_encode amf (GoString n) = Ok ys" "bs = xs @ ys"
      by (auto simp: encodeArgs_Ok)
    then show ?thesis
      using cmd fits NetConnectionReleaseStream string_step [OF _ a(2), of "[]"]
      by (auto simp: simps intro!: nil_step)
  next
    case (NetStreamFCPublish n)
    with args obtain xs ys where a: "amf_encode amf GoNil = Ok xs" "amf_encode amf (GoString n) = Ok ys" "bs = xs @ ys"
      by (auto simp: encodeArgs_Ok)
    then show ?thesis
      using cmd fits NetStreamFCPublish string_step [OF _ a(2), of "[]"]
      by (auto simp: simps intro!: nil_step)
  next
    case (NetStreamFCUnpublish n)
    with args obtain xs ys where a: "amf_encode amf GoNil = Ok xs" "amf_encode amf (GoString n) = Ok ys" "bs = xs @ ys"
      by (auto simp: encodeArgs_Ok)
    then show ?thesis
      using cmd fits NetStreamFCUnpublish string_step [OF _ a(2), of "[]"]
      by (auto simp: simps intro!: nil_step)
  next
    case (NetStreamGetStreamLength n)
    with args obtain xs ys where a: "amf_encode amf GoNil = Ok xs" "amf_encode amf (GoString n) = Ok ys" "bs = xs @ ys"
      by (auto simp: encodeArgs_Ok)
    then show ?thesis
      using cmd fits NetStreamGetStreamLength string_step [OF _ a(2), of "[]"]
      by (auto simp: simps intro!: nil_step)
  qed (use cmd in simp_all)
qed

end
