(* ===== verification/Registry.thy ===== *)
theory Registry
  imports Body Control_State "HOL-Library.Finite_Map"
begin

text \<open>
  The tables of a connection: message streams (\<^verbatim>\<open>streams.go\<close>) and, per stream, transactions
  (\<^verbatim>\<open>transactions.go\<close>); the state of a stream (\<^verbatim>\<open>stream.go\<close>, \<^verbatim>\<open>stream_handler.go\<close>) and of a
  connection (\<^verbatim>\<open>conn.go\<close>) that they live in.
\<close>

section \<open>The interface of a table\<close>

text \<open>
  What the rest of the library relies on of \<^verbatim>\<open>Create\<close>, \<^verbatim>\<open>Delete\<close> and \<^verbatim>\<open>At\<close>: a key is created once,
  a failed operation changes nothing, and nothing but the key changes.
\<close>

locale registry =
  fixes create :: "'k \<Rightarrow> ('s, 'v) io"
    and delete :: "'k \<Rightarrow> ('s, unit) io"
    and find :: "'s \<Rightarrow> 'k \<Rightarrow> 'v option"
    and inv :: "'s \<Rightarrow> bool"
  assumes create_Ok: "create k s = (Ok v, s') \<Longrightarrow> find s k = None \<and> find s' = (find s)(k \<mapsto> v)"
    and create_Err: "create k s = (Err e, s') \<Longrightarrow> s' = s"
    and create_no_panic: "create k s \<noteq> (Panic p, s')"
    and delete_found: "inv s \<Longrightarrow> find s k = Some v \<Longrightarrow>
          (\<exists>s'. delete k s = (Ok (), s') \<and> find s' = (find s)(k := None))"
    and delete_missing: "find s k = None \<Longrightarrow> (\<exists>e. delete k s = (Err e, s))"
    and create_inv: "inv s \<Longrightarrow> inv (snd (create k s))"
    and delete_inv: "inv s \<Longrightarrow> inv (snd (delete k s))"
begin

lemma create_then_find: "create k s = (Ok v, s') \<Longrightarrow> find s' k = Some v"
  using create_Ok [of k s v s'] by simp

lemma create_twice:
  assumes "create k s = (Ok v, s')"
  shows "\<exists>e. create k s' = (Err e, s')"
proof (cases "create k s'")
  case (Pair r s'')
  then show ?thesis
    using create_then_find [OF assms] create_Ok [of k s'] create_Err [of k s'] create_no_panic [of k s']
    by (cases r) auto
qed

lemma create_delete:
  assumes "create k s = (Ok v, s')" and "inv s"
  shows "\<exists>s''. delete k s' = (Ok (), s'') \<and> find s'' = find s"
proof -
  have "inv s'" using create_inv [OF assms(2), of k] assms(1) by simp
  then obtain s'' where "delete k s' = (Ok (), s'')" "find s'' = (find s')(k := None)"
    using delete_found create_then_find [OF assms(1)] by blast
  moreover have "(find s')(k := None) = find s" using create_Ok [OF assms(1)] by (auto simp: fun_eq_iff)
  ultimately show ?thesis by simp
qed

lemma delete_twice:
  assumes "delete k s = (Ok (), s')" and "inv s"
  shows "\<exists>e. delete k s' = (Err e, s')"
proof -
  obtain v where v: "find s k = Some v" using delete_missing [of s k] assms(1) by (cases "find s k") auto
  from delete_found [OF assms(2) v] assms(1) have "find s' k = None" by auto
  then show ?thesis by (rule delete_missing)
qed

lemma other_keys: "create k s = (Ok v, s') \<Longrightarrow> j \<noteq> k \<Longrightarrow> find s' j = find s j"
  using create_Ok [of k s v s'] by simp

end

section \<open>State\<close>

datatype streamState = streamStateUnknown | streamStateServerNotConnected | streamStateServerConnected
  | streamStateServerInactive | streamStateServerPublish | streamStateServerPlay
  | streamStateClientNotConnected | streamStateClientConnected

text \<open>The types that implement \<^verbatim>\<open>stateHandler\<close>.\<close>

datatype stateHandler = serverControlNotConnectedHandler | serverControlConnectedHandler
  | serverDataInactiveHandler | serverDataPublishHandler | serverDataPlayHandler
  | clientControlNotConnectedHandler

text \<open>
  A transaction is an object of its own: the goroutine that waits for it keeps a pointer when
  the table forgets it. The objects of a connection live in a heap; a pointer is its index.
\<close>

record transaction =
  t_commandName :: string
  t_encoding :: EncodingType
  t_body :: "byte list option"
  t_lastErr :: "rtmp_error option"
  t_done :: bool

definition new_transaction :: transaction where
  "new_transaction = \<lparr>t_commandName = [], t_encoding = 0, t_body = None, t_lastErr = None, t_done = False\<rparr>"

text \<open>\<^verbatim>\<open>Stream\<close>, with the fields of its \<^verbatim>\<open>streamHandler\<close>; a nil handler is \<open>None\<close>.\<close>

record Stream =
  str_streamID :: uint32
  str_encTy :: EncodingType
  str_transactions :: "(int64, nat) fmap"
  str_handler :: "stateHandler option"
  str_state :: streamState

definition newStream :: "uint32 \<Rightarrow> Stream" where
  "newStream streamID = \<lparr>str_streamID = streamID, str_encTy = EncodingTypeAMF0, str_transactions = fmempty,
     str_handler = None, str_state = streamStateUnknown\<rparr>"

record ConnConfig =
  IgnoreMessagesOnNotExistStream :: bool
  IgnoreMessagesOnNotExistStreamThreshold :: uint32
  ControlState :: StreamControlStateConfig
  RPresetProperties :: NetConnectionConnectResultProperties
  RPresetData :: "(string \<times> goValue) list"

text \<open>\<^verbatim>\<open>NewDefaultResponsePreset\<close>\<close>

definition defaultProperties :: NetConnectionConnectResultProperties where
  "defaultProperties = \<lparr>p_FMSVer = ''GO-RTMP/0,0,0,0'', p_Capabilities = 31, p_Mode = 1\<rparr>"

definition defaultData :: "(string \<times> goValue) list" where
  "defaultData = [(''type'', GoString ''go-rtmp''), (''version'', GoString ''master'')]"

text \<open>
  A connection above the chunk layer. \<open>c_sent\<close> lists what was handed to \<^verbatim>\<open>ChunkStreamer.Write\<close>
  and accepted by it: chunk stream, timestamp and message; \<open>c_faults\<close> says which of the coming
  writes fail (the empty list: none). The user's handler works on a state of its own.
\<close>

record 'u connState =
  c_streams :: "(uint32, Stream) fmap"
  c_heap :: "transaction list"
  c_self :: StreamControlState
  c_peer :: StreamControlState
  c_sent :: "(int \<times> uint32 \<times> uint32 \<times> message) list"
  c_faults :: "rtmp_error option list"
  c_ignored :: uint32
  c_config :: ConnConfig
  c_user :: 'u

section \<open>Message streams\<close>

abbreviation ControlStreamID :: uint32 where "ControlStreamID \<equiv> 0"

abbreviation MaxMessageStreams :: "'u connState \<Rightarrow> int" where
  "MaxMessageStreams c \<equiv> cfg_MaxMessageStreams (ControlState (c_config c))"

definition streams_Create :: "uint32 \<Rightarrow> ('u connState, Stream) io" where
  "streams_Create streamID c =
     (case fmlookup (c_streams c) streamID of
        Some _ \<Rightarrow> (Err (Errorf ''Stream already exists: StreamID = %d'' [uint streamID]), c)
      | None \<Rightarrow>
          (if int (fcard (fmdom (c_streams c))) \<ge> MaxMessageStreams c then
             (Err (Errorf ''Creating message streams limit exceeded: Limit = %d'' [MaxMessageStreams c]), c)
           else (Ok (newStream streamID), c\<lparr>c_streams := fmupd streamID (newStream streamID) (c_streams c)\<rparr>)))"

definition streams_Delete :: "uint32 \<Rightarrow> ('u connState, unit) io" where
  "streams_Delete streamID c =
     (case fmlookup (c_streams c) streamID of
        None \<Rightarrow> (Err (Errorf ''Stream not exists: StreamID = %d'' [uint streamID]), c)
      | Some s \<Rightarrow> (Ok (), c\<lparr>c_streams := fmdrop (str_streamID s) (c_streams c)\<rparr>))"

definition streams_At :: "uint32 \<Rightarrow> ('u connState, Stream) io" where
  "streams_At streamID c =
     (case fmlookup (c_streams c) streamID of
        None \<Rightarrow> (Err (Errorf ''Stream is not found: StreamID = %d'' [uint streamID]), c)
      | Some s \<Rightarrow> (Ok s, c))"

text \<open>\<^verbatim>\<open>for i := 0; i < MaxMessageStreams; i++\<close>, from \<open>i\<close> on.\<close>

function createFrom :: "int \<Rightarrow> ('u connState, Stream) io" where
  "createFrom i c =
     (if i < MaxMessageStreams c then
        (case fst (streams_Create (word_of_int i) c) of
           Ok s \<Rightarrow> streams_Create (word_of_int i) c
         | _ \<Rightarrow> createFrom (i + 1) c)
      else (Err (Errorf ''Creating streams limit exceeded: Limit = %d'' [MaxMessageStreams c]), c))"
  by pat_completeness auto
termination
  by (relation "measure (\<lambda>(i, c). nat (MaxMessageStreams c - i))") auto

declare createFrom.simps [simp del]

definition CreateIfAvailable :: "('u connState, Stream) io" where
  "CreateIfAvailable = createFrom 0"

text \<open>The streams of a connection are found under their own IDs.\<close>

definition wf_streams :: "'u connState \<Rightarrow> bool" where
  "wf_streams c \<longleftrightarrow> (\<forall>k s. fmlookup (c_streams c) k = Some s \<longrightarrow> str_streamID s = k)
     \<and> int (fcard (fmdom (c_streams c))) \<le> max 0 (MaxMessageStreams c)"

lemma fcard_fmdrop_le: "fcard (fmdom (fmdrop k m)) \<le> fcard (fmdom m)"
  by (simp add: fcard_mono fsubset_iff)

lemma streams_Create_wf:
  assumes "wf_streams c"
  shows "wf_streams (snd (streams_Create k c))"
  using assms
  by (auto simp: wf_streams_def streams_Create_def newStream_def fcard_finsert_if split: option.splits if_splits)

lemma streams_Delete_wf:
  assumes "wf_streams c"
  shows "wf_streams (snd (streams_Delete k c))"
  using assms fcard_fmdrop_le [of k "c_streams c"]
  by (auto simp: wf_streams_def streams_Delete_def split: option.splits if_splits)

definition stream_find :: "'u connState \<Rightarrow> uint32 \<Rightarrow> Stream option" where
  "stream_find c = fmlookup (c_streams c)"

interpretation str: registry streams_Create streams_Delete stream_find wf_streams
proof
  show "wf_streams s \<Longrightarrow> wf_streams (snd (streams_Create k s))" for s k by (rule streams_Create_wf)
  show "wf_streams s \<Longrightarrow> wf_streams (snd (streams_Delete k s))" for s k by (rule streams_Delete_wf)
  show "wf_streams s \<Longrightarrow> stream_find s k = Some v \<Longrightarrow>
      \<exists>s'. streams_Delete k s = (Ok (), s') \<and> stream_find s' = (stream_find s)(k := None)" for s k v
    by (auto simp: wf_streams_def stream_find_def streams_Delete_def fun_eq_iff)
qed (auto simp: streams_Create_def streams_Delete_def stream_find_def fun_eq_iff
      split: option.splits if_splits)

text \<open>\<open>CreateIfAvailable\<close>: the smallest free ID, if the table has room; otherwise nothing changes.\<close>

lemma streams_Create_cases:
  "fst (streams_Create k c) = Ok s \<longleftrightarrow>
     stream_find c k = None \<and> int (fcard (fmdom (c_streams c))) < MaxMessageStreams c \<and> s = newStream k"
  by (auto simp: streams_Create_def stream_find_def split: option.splits)

lemma createFrom_step:
  "createFrom i c = (if i < MaxMessageStreams c
     then if is_Ok (fst (streams_Create (word_of_int i) c)) then streams_Create (word_of_int i) c
          else createFrom (i + 1) c
     else (Err (Errorf ''Creating streams limit exceeded: Limit = %d'' [MaxMessageStreams c]), c))"
  by (subst createFrom.simps) (auto split: result.splits)

lemma createFrom_full:
  assumes "MaxMessageStreams c \<le> int (fcard (fmdom (c_streams c)))"
  shows "createFrom i c = (Err (Errorf ''Creating streams limit exceeded: Limit = %d'' [MaxMessageStreams c]), c)"
  using assms
proof (induction "nat (MaxMessageStreams c - i)" arbitrary: i)
  case 0
  then show ?case by (subst createFrom_step) simp
next
  case (Suc n)
  have "\<not> is_Ok (fst (streams_Create (word_of_int i) c))"
    using Suc.prems by (simp add: streams_Create_cases)
  moreover have "createFrom (i + 1) c = (Err (Errorf ''Creating streams limit exceeded: Limit = %d'' [MaxMessageStreams c]), c)"
    using Suc by (intro Suc.hyps(1)) auto
  ultimately show ?case by (subst createFrom_step) simp
qed

lemma createFrom_free:
  assumes room: "int (fcard (fmdom (c_streams c))) < MaxMessageStreams c"
    and "i \<le> j" and j: "j < MaxMessageStreams c" "stream_find c (word_of_int j) = None"
    and taken: "\<And>k. i \<le> k \<Longrightarrow> k < j \<Longrightarrow> stream_find c (word_of_int k) \<noteq> None"
  shows "createFrom i c = streams_Create (word_of_int j) c"
  using assms(2) taken
proof (induction "nat (j - i)" arbitrary: i)
  case 0
  then have "i = j" by simp
  moreover have "is_Ok (fst (streams_Create (word_of_int j) c))" using room j by (simp add: streams_Create_cases)
  ultimately show ?case using j by (subst createFrom_step) simp
next
  case (Suc n)
  have "\<not> is_Ok (fst (streams_Create (word_of_int i) c))"
    using Suc.prems(2) [of i] Suc.hyps(2) by (simp add: streams_Create_cases)
  moreover have "createFrom (i + 1) c = streams_Create (word_of_int j) c"
    using Suc by (intro Suc.hyps(1)) auto
  moreover have "i < MaxMessageStreams c" using j Suc.hyps(2) by auto
  ultimately show ?case by (subst createFrom_step) simp
qed

section \<open>Transactions\<close>

text \<open>The operations of the table of one stream, with the heap of transaction objects.\<close>

definition update_stream :: "uint32 \<Rightarrow> (Stream \<Rightarrow> Stream) \<Rightarrow> 'u connState \<Rightarrow> 'u connState" where
  "update_stream sid f c = (case fmlookup (c_streams c) sid of
     Some s \<Rightarrow> c\<lparr>c_streams := fmupd sid (f s) (c_streams c)\<rparr> | None \<Rightarrow> c)"

type_synonym transactionTable = "(int64, nat) fmap \<times> transaction list"

definition transactions_Create :: "int64 \<Rightarrow> (transactionTable, nat) io" where
  "transactions_Create tid ts =
     (case fmlookup (fst ts) tid of
        Some _ \<Rightarrow> (Err (Errorf ''Transaction already exists: TransactionID = %d'' [sint tid]), ts)
      | None \<Rightarrow> (Ok (length (snd ts)),
                 (fmupd tid (length (snd ts)) (fst ts), snd ts @ [new_transaction])))"

definition transactions_Delete :: "int64 \<Rightarrow> (transactionTable, unit) io" where
  "transactions_Delete tid ts =
     (case fmlookup (fst ts) tid of
        None \<Rightarrow> (Err (Errorf ''Transaction not exists: TransactionID = %d'' [sint tid]), ts)
      | Some _ \<Rightarrow> (Ok (), (fmdrop tid (fst ts), snd ts)))"

definition transactions_At :: "int64 \<Rightarrow> (transactionTable, nat) io" where
  "transactions_At tid ts =
     (case fmlookup (fst ts) tid of
        None \<Rightarrow> (Err (Errorf ''Transaction is not found: TransactionID = %d'' [sint tid]), ts)
      | Some t \<Rightarrow> (Ok t, ts))"

text \<open>\<^verbatim>\<open>Reply\<close>: the result is copied into the object and \<^verbatim>\<open>doneCh\<close> closed, which panics the second time.\<close>

definition transaction_Reply :: "string \<Rightarrow> EncodingType \<Rightarrow> byte list \<Rightarrow> nat \<Rightarrow> (transaction list, unit) io" where
  "transaction_Reply name enc body p heap =
     (let t = (heap ! p)\<lparr>t_commandName := name, t_encoding := enc, t_body := Some body, t_lastErr := None\<rparr> in
      if t_done (heap ! p) then (Panic ''close of closed channel'', heap[p := t])
      else (Ok (), heap[p := t\<lparr>t_done := True\<rparr>]))"

definition transaction_find :: "transactionTable \<Rightarrow> int64 \<Rightarrow> nat option" where
  "transaction_find ts = fmlookup (fst ts)"

text \<open>A table points into the heap, at objects that are not done, each once.\<close>

definition wf_transactions :: "transactionTable \<Rightarrow> bool" where
  "wf_transactions ts \<longleftrightarrow>
     (\<forall>tid p. fmlookup (fst ts) tid = Some p \<longrightarrow> p < length (snd ts) \<and> \<not> t_done (snd ts ! p))
     \<and> (\<forall>i j p. fmlookup (fst ts) i = Some p \<longrightarrow> fmlookup (fst ts) j = Some p \<longrightarrow> i = j)"

interpretation tra: registry transactions_Create transactions_Delete transaction_find wf_transactions
proof
  show "wf_transactions s \<Longrightarrow> wf_transactions (snd (transactions_Create k s))" for s k
    by (auto simp: wf_transactions_def transactions_Create_def nth_append new_transaction_def less_SucI
        split: option.splits if_splits)
  show "wf_transactions s \<Longrightarrow> wf_transactions (snd (transactions_Delete k s))" for s k
    by (auto simp: wf_transactions_def transactions_Delete_def split: option.splits if_splits)
qed (auto simp: transactions_Create_def transactions_Delete_def transaction_find_def fun_eq_iff
      split: option.splits)

text \<open>
  Answering a transaction: it is found, its object gets the answer, and the table forgets it,
  so that a second answer finds nothing.
\<close>

lemma reply_then_delete:
  assumes "wf_transactions (tb, heap)" and "fmlookup tb tid = Some p"
  shows "transaction_Reply name enc body p heap = (Ok (),
      heap[p := \<lparr>t_commandName = name, t_encoding = enc, t_body = Some body, t_lastErr = None, t_done = True\<rparr>])"
    and "wf_transactions (fmdrop tid tb,
      heap[p := \<lparr>t_commandName = name, t_encoding = enc, t_body = Some body, t_lastErr = None, t_done = True\<rparr>])"
proof -
  have p: "p < length heap" "\<not> t_done (heap ! p)" using assms by (auto simp: wf_transactions_def)
  then show "transaction_Reply name enc body p heap = (Ok (),
      heap[p := \<lparr>t_commandName = name, t_encoding = enc, t_body = Some body, t_lastErr = None, t_done = True\<rparr>])"
    by (simp add: transaction_Reply_def Let_def) (cases "heap ! p", simp)
  have "heap[p := t] ! q = heap ! q" if "fmlookup tb j = Some q" "j \<noteq> tid" for j q t
  proof -
    have "q \<noteq> p" using assms that by (auto simp: wf_transactions_def)
    then show ?thesis by simp
  qed
  then show "wf_transactions (fmdrop tid tb,
      heap[p := \<lparr>t_commandName = name, t_encoding = enc, t_body = Some body, t_lastErr = None, t_done = True\<rparr>])"
    using assms(1) by (auto simp: wf_transactions_def split: if_splits)
qed

end
