(* ===== verification/Codec_Properties.thy ===== *)
theory Codec_Properties
  imports Chunk_Read Chunk_Write Handshake Registry
begin

text \<open>
  The properties of the codecs: chunk headers, messages, user control events, command bodies and
  handshake packets. Encoders write to a connection, decoders read from one that may hand out
  its bytes in segments of any size.
\<close>

section \<open>Chunk headers\<close>

text \<open>
  C22 (roundtrip). A basic header with a one- or two-byte chunk stream ID is decoded from what
  the encoder wrote, however the bytes arrive, and nothing after it is consumed.
\<close>

theorem basic_header_roundtrip:
  assumes "valid_fmt (bh_fmt bh)" and "2 \<le> bh_chunkStreamID bh" and "bh_chunkStreamID bh \<le> 319"
    and "faults w = []" and "csr_pending r = drop (length (out w)) (out (snd (encodeChunkBasicHeader sink_Write bh w))) @ rest"
  shows "fst (encodeChunkBasicHeader sink_Write bh w) = Ok ()
    \<and> fst (decodeChunkBasicHeader csr_Read cacheBufferLen r) = Ok bh
    \<and> csr_pending (snd (decodeChunkBasicHeader csr_Read cacheBufferLen r)) = rest"
proof -
  have valid: "valid_csid (bh_chunkStreamID bh)" using assms by (simp add: valid_csid_def)
  note w = sink.healthy_write [OF assms(4), of "basicHeader_bytes bh"]
  then have "csr_pending r = basicHeader_bytes bh @ rest"
    using assms(5) by (simp add: encodeChunkBasicHeader_writes [OF valid])
  from csr.decodeChunkBasicHeader_encoded [OF valid assms(1) _ this] assms(3) w show ?thesis
    by (simp add: encodeChunkBasicHeader_writes [OF valid])
qed

theorem basic_header_roundtrip_witness:
  "fst (decodeChunkBasicHeader csr_Read cacheBufferLen \<lparr>csr_reader = \<lparr>segs = [[64], [236, 7]], net_end = EOF\<rparr>,
      totalReadBytes = 0, fragmentReadBytes = 0\<rparr>) = Ok \<lparr>bh_fmt = 1, bh_chunkStreamID = 300\<rparr>"
  using basic_header_roundtrip [of "\<lparr>bh_fmt = 1, bh_chunkStreamID = 300\<rparr>" "\<lparr>out = [], faults = []\<rparr>"
      "\<lparr>csr_reader = \<lparr>segs = [[64], [236, 7]], net_end = EOF\<rparr>, totalReadBytes = 0, fragmentReadBytes = 0\<rparr>" "[7]"]
  by (simp add: valid_fmt_def csr_pending_def net_pending_def encodeChunkBasicHeader_def sink_Write_def sink_call_def)

text \<open>
  C40 (error). A three-byte ID is decoded, too, but the decoder asks for at least two bytes into
  the whole scratch buffer: everything that arrived together with the header is swallowed.
\<close>

theorem three_byte_header_overreads:
  assumes "valid_fmt (bh_fmt bh)" and "320 \<le> bh_chunkStreamID bh" and "bh_chunkStreamID bh \<le> 65599"
    and "segs (csr_reader r) = [basicHeader_bytes bh @ rest]" and "length rest \<le> 65533"
  shows "fst (decodeChunkBasicHeader csr_Read cacheBufferLen r) = Ok bh
    \<and> csr_pending (snd (decodeChunkBasicHeader csr_Read cacheBufferLen r)) = []"
proof -
  obtain f c where bh: "bh = \<lparr>bh_fmt = f, bh_chunkStreamID = c\<rparr>" by (cases bh)
  define b0 where "b0 = push_bit 6 (f AND 3) OR (1 :: byte)"
  define x where "x = nat ((c - 64) mod 256)"
  define y where "y = nat ((c - 64) div 256)"
  have c: "320 \<le> c" "c \<le> 65599" using assms(2,3) bh by simp_all
  have lt: "x < 256" "y < 256" "int x = (c - 64) mod 256" "int y = (c - 64) div 256"
    using c by (auto simp: x_def y_def)
  have "word_of_int ((c - 64) mod 256) = (of_nat x :: byte)" "word_of_int ((c - 64) div 256) = (of_nat y :: byte)"
    by (simp_all flip: lt(3,4))
  then have bytes: "segs (csr_reader r) = [b0 # of_nat x # of_nat y # rest]"
    using assms(4) c by (simp add: bh basicHeader_bytes_def b0_def Let_def)
  have f: "f = 0 \<or> f = 1 \<or> f = 2 \<or> f = 3" using assms(1) bh by (simp add: valid_fmt_def)
  have head: "drop_bit 6 (b0 AND 0xc0) = f" "b0 AND 0x3f = 1" using f by (auto simp: b0_def)
  have xy: "uint (of_nat x :: byte) = int x" "uint (of_nat y :: byte) = int y"
    using lt(1,2) by (simp_all add: uint_nat unat_of_nat take_bit_nat_eq_self)
  have one: "ReadAtLeast csr_Read 1 1 r = (Ok [b0], snd (csr_Read 1 r))"
    "segs (csr_reader (snd (csr_Read 1 r))) = [of_nat x # of_nat y # rest]"
    using bytes by (simp_all add: ReadAtLeast_def csr_Read_def net_Read_def)
  let ?r = "snd (csr_Read 1 r)"
  have two: "fst (ReadAtLeast csr_Read 65535 2 ?r) = Ok (of_nat x # of_nat y # rest)"
    "csr_pending (snd (ReadAtLeast csr_Read 65535 2 ?r)) = []"
    using one(2) assms(5)
    by (simp_all add: ReadAtLeast_def csr_Read_def net_Read_def numeral_2_eq_2 csr_pending_def net_pending_def)
  have "decodeChunkBasicHeader csr_Read cacheBufferLen r =
      (Ok \<lparr>bh_fmt = f, bh_chunkStreamID = int y * 256 + int x + 64\<rparr>, snd (ReadAtLeast csr_Read 65535 2 ?r))"
    using head two(1) xy by (simp add: decodeChunkBasicHeader_def Let_def bind_io_def one(1) del: One_nat_def)
  moreover have "int y * 256 + int x + 64 = c" using lt(3,4) by (metis add.commute diff_add_cancel mod_div_mult_eq)
  ultimately show ?thesis using two(2) by (simp add: bh)
qed

theorem three_byte_header_overreads_witness:
  "csr_pending (snd (decodeChunkBasicHeader csr_Read cacheBufferLen \<lparr>csr_reader = \<lparr>segs = [[1, 0, 1, 42]], net_end = EOF\<rparr>,
      totalReadBytes = 0, fragmentReadBytes = 0\<rparr>)) = []"
  using three_byte_header_overreads [of "\<lparr>bh_fmt = 0, bh_chunkStreamID = 320\<rparr>"
      "\<lparr>csr_reader = \<lparr>segs = [[1, 0, 1, 42]], net_end = EOF\<rparr>, totalReadBytes = 0, fragmentReadBytes = 0\<rparr>" "[42]"]
  by (simp add: valid_fmt_def basicHeader_bytes_def)

text \<open>
  C21 (roundtrip). A message header of each of the four formats is decoded from what the encoder
  wrote, and nothing after it is consumed: exactly the fields of the format are set, in formats 0,
  1 and 2 with the extended timestamp from \<open>0xffffff\<close> on. Format 3 has no bytes and sets nothing,
  for a reader whose chunk stream does not use an extended timestamp.
\<close>

theorem message_header_roundtrip:
  assumes "valid_fmt fm" and "fm = 3 \<Longrightarrow> mode = ExtendedTimestampUnused"
    and "unat (mh_messageLength mh) < 2 ^ 24" and "faults w = []"
    and "csr_pending r = drop (length (out w)) (out (snd (encodeChunkMessageHeader sink_Write fm mh w))) @ rest"
  shows "fst (encodeChunkMessageHeader sink_Write fm mh w) = Ok ()
    \<and> fst (decodeChunkMessageHeader csr_Read fm cacheBufferLen mh0 mode r) = Ok (decoded_messageHeader fm mh0 mh)
    \<and> csr_pending (snd (decodeChunkMessageHeader csr_Read fm cacheBufferLen mh0 mode r)) = rest"
proof -
  have enc: "fst (encodeChunkMessageHeader sink_Write fm mh w) = Ok ()
      \<and> out (snd (encodeChunkMessageHeader sink_Write fm mh w)) = out w @ messageHeader_bytes fm mh"
  proof (cases "fm = 3")
    case True
    then show ?thesis by (simp add: encodeChunkMessageHeader_def messageHeader_bytes_def)
  next
    case False
    then show ?thesis
      using sink.healthy_write [OF assms(4), of "messageHeader_bytes fm mh"] assms(1)
      by (simp add: encodeChunkMessageHeader_writes)
  qed
  then have "csr_pending r = messageHeader_bytes fm mh @ rest" using assms(5) by simp
  from csr.decodeChunkMessageHeader_encoded [OF assms(1,3) this assms(2), of cacheBufferLen mh0] enc show ?thesis
    by simp
qed

theorem message_header_roundtrip_witness:
  "\<exists>mh. fst (decodeChunkMessageHeader csr_Read 2 cacheBufferLen zero_messageHeader ExtendedTimestampUnused
      \<lparr>csr_reader = \<lparr>segs = [[255, 255], [255, 1, 0, 0, 0, 9]], net_end = EOF\<rparr>, totalReadBytes = 0, fragmentReadBytes = 0\<rparr>)
    = Ok mh \<and> mh_timestampDelta mh = 0x01000000"
  using message_header_roundtrip [where fm = 2 and mh = "zero_messageHeader\<lparr>mh_timestampDelta := 0x01000000\<rparr>"
      and w = "\<lparr>out = [], faults = []\<rparr>" and rest = "[9]" and mh0 = zero_messageHeader and mode = ExtendedTimestampUnused
      and r = "\<lparr>csr_reader = \<lparr>segs = [[255, 255], [255, 1, 0, 0, 0, 9]], net_end = EOF\<rparr>, totalReadBytes = 0, fragmentReadBytes = 0\<rparr>"]
  by (simp add: zero_messageHeader_def csr_pending_def net_pending_def encodeChunkMessageHeader_def sink_Write_def
      sink_call_def put_uint24_be_def put_uint32_be_def decoded_messageHeader_def valid_fmt_def)

section \<open>Messages\<close>

text \<open>
  C19 (roundtrip). Every message that the encoder accepts is decoded, by the type it is sent
  under, to itself; what is left in the buffer is the payload that the message carries. Of the
  AMF codec only the values in the message are relied on.
\<close>

theorem message_roundtrip:
  assumes "message_Encode amf msg [] = (Ok (), bs)" and "message_TypeID msg = Ok ty" and "amf_fits amf msg"
  shows "message_Decode amf ty bs = (Ok msg, message_payload msg)"
  using assms by (rule decode_encoded)

theorem message_roundtrip_witness:
  "message_Decode sample_amf 20 ([2, 0, 4] @ map char_byte ''play'' @ [0, 0, 0, 0, 0, 0, 0, 0, 4] @ [5])
    = (Ok (MsgCommandMessage ''play'' 4 EncodingTypeAMF0 [5]), [5])"
proof -
  have "message_Encode sample_amf (MsgCommandMessage ''play'' 4 EncodingTypeAMF0 [5]) [] =
      (Ok (), [2, 0, 4] @ map char_byte ''play'' @ [0, 0, 0, 0, 0, 0, 0, 0, 4] @ [5])"
    by (simp add: encodeCommandMessage_Ok sample_amf_def sample_encode_def put_uint16_be_def put_uint32_be_def)
  from message_roundtrip [OF this, of 20] show ?thesis
    using sample_string_ok [of "''play''"] sample_int64_ok [of 4] by simp
qed

text \<open>
  C27 (type). A message that was decoded has the type it was decoded under and can be sent again:
  a chunk size is positive and has its highest bit clear, a user control event is one of the
  known ones, and commands and data are in AMF0.
\<close>

theorem decoded_messages_well_typed:
  assumes "fst (message_Decode amf ty b) = Ok msg"
  shows "message_TypeID msg = Ok ty \<and> msg \<noteq> MsgUserCtrl UserCtrlEventOther
    \<and> (\<forall>sz. msg = MsgSetChunkSize sz \<longrightarrow> 0 < sz \<and> sz \<le> 0x7fffffff)
    \<and> (\<forall>name enc p. msg = MsgDataMessage name enc p \<longrightarrow> enc = EncodingTypeAMF0)
    \<and> (\<forall>name tid enc p. msg = MsgCommandMessage name tid enc p \<longrightarrow> enc = EncodingTypeAMF0)"
proof -
  have le: "v AND 0x7fffffff \<le> 0x7fffffff" for v :: uint32 by (simp add: word_and_le1 word_and_le2)
  have other: "fst (userCtrl_Decode buf_Read b) \<noteq> Ok UserCtrlEventOther" for b
    by (auto simp: userCtrl_Decode_def decode_event_defs bind_io_def Let_def split: result.splits if_splits)
  show ?thesis
    using assms other
    by (auto simp: message_Decode_def decode_message_defs bind_io_def wrap_io_def Let_def word_gt_0 le
        split: result.splits if_splits prod.splits)
qed

theorem decoded_messages_well_typed_witness:
  "\<exists>msg. fst (message_Decode sample_amf 1 [127, 255, 255, 255]) = Ok msg \<and> message_TypeID msg = Ok 1"
  using decoded_messages_well_typed [of sample_amf 1 "[127, 255, 255, 255]" "MsgSetChunkSize 0x7fffffff"]
  by (simp add: message_Decode_def decodeSetChunkSize_def bind_io_def uint32_be_def Let_def)

section \<open>Bodies of commands\<close>

definition sample_ms :: mapstructure where
  "sample_ms = \<lparr>ms_command = (\<lambda>_. Ok zero_command), ms_properties = (\<lambda>_. Ok defaultProperties),
     ms_information = (\<lambda>_. Err (Errorf ''unsupported'' []))\<rparr>"

lemma sample_nil_ok: "amf_nil_ok sample_amf"
  by (auto simp: amf_nil_ok_def sample_amf_def sample_encode_def bind_io_def)

text \<open>
  C20 (roundtrip). The body of a command, encoded from its fields, is decoded under the name of
  the command to the same fields, and all of it is read.
\<close>

theorem command_body_roundtrip:
  assumes "body_command v = Some name" and "EncodeBodyAnyValues amf (Some v) [] = (Ok (), bs)"
    and "body_fits amf ms v"
  shows "CmdBodyDecoderFor amf ms name tid bs = (Ok v, [])"
  using assms by (rule body_roundtrip)

theorem command_body_roundtrip_witness:
  "CmdBodyDecoderFor sample_amf sample_ms ''publish'' 3
      ([5] @ [2, 0, 3] @ map char_byte ''abc'' @ [2, 0, 4] @ map char_byte ''live'')
    = (Ok (NetStreamPublish ''abc'' ''live''), [])"
proof -
  have "EncodeBodyAnyValues sample_amf (Some (NetStreamPublish ''abc'' ''live'')) [] =
      (Ok (), [5] @ [2, 0, 3] @ map char_byte ''abc'' @ [2, 0, 4] @ map char_byte ''live'')"
    by (simp add: EncodeBodyAnyValues_def encodeArgs_Ok bind_io_def sample_amf_def sample_encode_def put_uint16_be_def)
  from command_body_roundtrip [OF _ this, of "''publish''" sample_ms 3] show ?thesis
    using sample_string_ok [of "''abc''"] sample_string_ok [of "''live''"] sample_nil_ok by simp
qed

section \<open>Handshake\<close>

text \<open>
  C16 (functional). When each side of a handshake reads what the other side writes, in segments
  of any size and with any bytes \<open>rc\<close> and \<open>rs\<close> following, both return without an error, and each
  has read exactly the bytes that belong to the handshake: \<open>rc\<close> and \<open>rs\<close> are left to the chunk layer.
\<close>

theorem handshake_completes:
  assumes "sound wc" and "sound ws"
    and "hs_out (snd (HandshakeWithServer cc wc)) @ rs = hs_out wc @ hs_pending ws"
    and "hs_out (snd (HandshakeWithClient cs ws)) @ rc = hs_out ws @ hs_pending wc"
  shows "fst (HandshakeWithServer cc wc) = Ok () \<and> fst (HandshakeWithClient cs ws) = Ok ()
    \<and> hs_pending (snd (HandshakeWithServer cc wc)) = rc \<and> hs_pending (snd (HandshakeWithClient cs ws)) = rs"
  using both_sides_complete [OF assms] by blast

definition sample_world :: "byte list list \<Rightarrow> hsWorld" where
  "sample_world ss = \<lparr>hs_r = \<lparr>segs = ss, net_end = EOF\<rparr>, hs_w = \<lparr>out = [], faults = []\<rparr>,
     entropy = (\<lambda>i. of_nat i), rand_faults = [], clock = (\<lambda>i. of_nat i * 1000000)\<rparr>"

definition sample_reply :: "byte list list" where
  "sample_reply = [[3], S1C1_bytes (server_S1 (sample_world [])),
     S2C2_bytes (server_S2 (sample_world []) (S1C1_bytes (client_C1 (sample_world []))))]"

definition sample_request :: "byte list list" where
  "sample_request = [[3], S1C1_bytes (client_C1 (sample_world [])), S2C2_bytes (client_C2 (sample_world []) (server_S1 (sample_world [])))]"

lemma sample_world_simps [simp]:
  "hs_out (sample_world ss) = []" "sound (sample_world ss)" "clock (sample_world ss) i = of_nat i * 1000000"
  "ss \<noteq> [] \<Longrightarrow> client_C1 (sample_world ss) = client_C1 (sample_world [])"
  "ss \<noteq> [] \<Longrightarrow> server_S1 (sample_world ss) = server_S1 (sample_world [])"
  "ss \<noteq> [] \<Longrightarrow> server_S2 (sample_world ss) c = server_S2 (sample_world []) c"
  "ss \<noteq> [] \<Longrightarrow> client_C2 (sample_world ss) s1 = client_C2 (sample_world []) s1"
  "hs_pending (sample_world ss) = concat ss" "sample_reply \<noteq> []" "sample_request \<noteq> []"
  by (simp_all add: sample_world_def sound_def client_C1_def server_S1_def server_S2_def client_C2_def net_pending_def
      sample_reply_def sample_request_def)

text \<open>What the sample client writes is what the sample server reads, and the other way round.\<close>

lemma sample_handshake:
  "hs_out (snd (HandshakeWithServer \<lparr>SkipHandshakeVerification = False\<rparr> (sample_world (sample_reply @ xs)))) @ concat ys =
     hs_pending (sample_world (sample_request @ ys))"
  "hs_out (snd (HandshakeWithClient \<lparr>SkipHandshakeVerification = False\<rparr> (sample_world (sample_request @ ys)))) @ concat xs =
     hs_pending (sample_world (sample_reply @ xs))"
proof -
  let ?cfg = "\<lparr>SkipHandshakeVerification = False\<rparr>"
  let ?wc = "sample_world (sample_reply @ xs)" and ?ws = "sample_world (sample_request @ ys)"
  let ?c1 = "client_C1 (sample_world [])" and ?s1 = "server_S1 (sample_world [])"
  let ?s2 = "server_S2 (sample_world []) (S1C1_bytes ?c1)"
  have wf: "wf_S1C1 ?c1" "wf_S1C1 ?s1" "wf_S2C2 ?s2"
    using length_S1C1_bytes [OF wf_client_C1 [of "sample_world []"]] wf_client_C1
    by (simp_all add: wf_S1C1_def wf_S2C2_def server_S1_def server_S2_def)
  obtain c' where client: "HandshakeWithServer ?cfg ?wc = finishWithServer ?cfg ?c1 c'"
    and c': "hs_out c' = 3 # S1C1_bytes ?c1" "hs_r c' = hs_r ?wc" "sound c'" "clock c' 0 = clock ?wc 1"
    using client_starts [of ?wc ?cfg] by auto
  have pend: "hs_pending c' = 3 # S1C1_bytes ?s1 @ S2C2_bytes ?s2 @ concat xs"
    using c'(2) by (simp add: sample_reply_def)
  show "hs_out (snd (HandshakeWithServer ?cfg ?wc)) @ concat ys = hs_pending ?ws"
    using client_continues(2) [OF c'(3) pend wf(2,3), of ?cfg ?c1] c'(1,4)
    by (simp add: client sample_request_def client_C2_def)
  have "hs_pending ?ws = 3 # S1C1_bytes ?c1 @ S2C2_bytes (client_C2 (sample_world []) ?s1) @ concat ys"
    by (simp add: sample_request_def)
  then obtain s' where "HandshakeWithClient ?cfg ?ws = finishWithClient ?cfg (S1C1_bytes ?s1) None s'"
    and "hs_out s' = 3 # S1C1_bytes ?s1 @ S2C2_bytes ?s2"
    using server_simple [of ?ws 3 ?c1 _ ?cfg] wf(1) by (auto simp: client_C1_def hs_Version_def)
  then show "hs_out (snd (HandshakeWithClient ?cfg ?ws)) @ concat xs = hs_pending ?wc"
    by (simp add: finishWithClient_out sample_reply_def)
qed

theorem handshake_completes_witness:
  "fst (HandshakeWithClient \<lparr>SkipHandshakeVerification = False\<rparr> (sample_world (sample_request @ [[2, 0], [5]]))) = Ok ()
    \<and> hs_pending (snd (HandshakeWithClient \<lparr>SkipHandshakeVerification = False\<rparr> (sample_world (sample_request @ [[2, 0], [5]]))))
      = [2, 0, 5]
    \<and> hs_pending (snd (HandshakeWithServer \<lparr>SkipHandshakeVerification = False\<rparr> (sample_world (sample_reply @ [[7]])))) = [7]"
  using handshake_completes [of "sample_world (sample_reply @ [[7]])" "sample_world (sample_request @ [[2, 0], [5]])"
      "\<lparr>SkipHandshakeVerification = False\<rparr>" "[2, 0, 5]" "\<lparr>SkipHandshakeVerification = False\<rparr>" "[7]"]
    sample_handshake [where xs = "[[7]]" and ys = "[[2, 0], [5]]"] by simp

text \<open>
  The digest that a packet declares lies inside its block, and so inside the
  packet, whatever the packet holds: taking it apart is never out of range.
\<close>

lemma digest_in_block:
  "digestBlockStart scheme + 4 \<le> digestPos c1 scheme \<and> digestPos c1 scheme + 32 \<le> digestBlockStart scheme + 764
    \<and> digestPos c1 scheme + 32 \<le> 1536"
  using digestPos_bounds(1) [of scheme c1] digestPos_bounds(2) [of c1 scheme] digestBlockStart_bounds [of scheme] by auto

text \<open>
  C26 (functional). To a C1 with a valid digest the server sends S0, an S1 that verifies, and an
  S2 whose last 32 bytes sign the rest of it with a key made of the digest of C1; and it accepts
  a C2 that is signed with the digest of its S1, whatever else is in it.
\<close>

theorem complex_reply:
  assumes "sound s" and "hs_pending s = h0 # c1 @ c2" and "length c1 = 1536" and "length c2 = 1536"
    and "selectScheme c1 = Some (scheme, pos)"
  shows "\<exists>s1 digest rnd. hs_out (snd (HandshakeWithClient config s)) =
        hs_out s @ RTMPVersion # s1 @ rnd @ hmacSHA256 rnd (hmacSHA256 (take 32 (drop pos c1)) fmsKey)
      \<and> length s1 = 1536 \<and> digest = take 32 (drop (digestPos s1 scheme) s1)
      \<and> digest = hmacSHA256 (without_digest s1 (digestPos s1 scheme)) (take 36 fmsKey)
      \<and> (drop 1504 c2 = hmacSHA256 (take 1504 c2) (hmacSHA256 digest fpKey) \<longrightarrow>
           fst (HandshakeWithClient config s) = Ok ())"
proof -
  obtain s1 digest p where c: "complexS1 scheme (millis_of (clock s 0)) (map (entropy s) [0..<1528]) = (s1, digest, p)"
    by (cases "complexS1 scheme (millis_of (clock s 0)) (map (entropy s) [0..<1528])") auto
  obtain s' where s': "HandshakeWithClient config s = finishWithClient config s1 (Some (scheme, digest)) s'"
    "hs_out s' = hs_out s @ RTMPVersion # s1
           @ complexS2 (take 32 (drop pos c1)) (map (\<lambda>i. entropy s (i + 1528)) [0..<1504])"
    "hs_pending s' = c2"
    using server_complex [OF assms(1-3,5) c] by metis
  have "hs_pending s' = c2 @ []" using s'(3) by simp
  note fin = finishWithClient_eq [OF this assms(4), of config s1 "Some (scheme, digest)"]
  have signed: "length s1 = 1536" "digestPos s1 scheme = p" "take 32 (drop p s1) = digest"
    "digest = hmacSHA256 (without_digest s1 p) (take 36 fmsKey)"
    using complexS1_signed [OF _ c] by simp_all
  show ?thesis
    by (intro exI [of _ s1] exI [of _ digest] exI [of _ "map (\<lambda>i. entropy s (i + 1528)) [0..<1504]"])
      (use s' fin signed in \<open>auto simp: complexS2_def finishWithClient_out checkC2_def\<close>)
qed

text \<open>A C1 as a complex client would send it: a version, the digest at the first place of the first scheme.\<close>

definition sample_C1_digest :: "byte list" where
  "sample_C1_digest = hmacSHA256 ([0, 0, 0, 0, 128, 0, 7, 2, 0, 0, 0, 0] @ replicate 1492 0) (take 30 fpKey)"

definition sample_C1 :: "byte list" where
  "sample_C1 = [0, 0, 0, 0, 128, 0, 7, 2, 0, 0, 0, 0] @ sample_C1_digest @ replicate 1492 0"

lemma sample_C1_valid: "length sample_C1 = 1536" "selectScheme sample_C1 = Some (0, 12)"
proof -
  have d: "length sample_C1_digest = 32" by (simp add: sample_C1_digest_def hmacSHA256_def)
  show "length sample_C1 = 1536" by (simp add: sample_C1_def d)
  have p: "digestPos sample_C1 0 = 12" by (simp add: digestPos_def digestBlockStart_def sample_C1_def)
  have "without_digest sample_C1 12 = [0, 0, 0, 0, 128, 0, 7, 2, 0, 0, 0, 0] @ replicate 1492 0"
    by (simp add: without_digest_def sample_C1_def d)
  then have w: "hmacSHA256 (without_digest sample_C1 12) (take 30 fpKey) = sample_C1_digest"
    by (simp only: sample_C1_digest_def)
  have "take 32 (drop 12 sample_C1) = sample_C1_digest" by (simp add: sample_C1_def d)
  then have "validateC1FP9 sample_C1 0 = (12, True)" by (simp add: validateC1FP9_def p Let_def w)
  then show "selectScheme sample_C1 = Some (0, 12)" by (simp add: selectScheme_def sample_C1_def)
qed

theorem complex_reply_witness:
  "\<exists>s1 digest rnd. hs_out (snd (HandshakeWithClient \<lparr>SkipHandshakeVerification = True\<rparr>
      (sample_world [3 # sample_C1, replicate 1536 0]))) = 3 # s1 @ rnd @ hmacSHA256 rnd (hmacSHA256 sample_C1_digest fmsKey)
      \<and> digest = hmacSHA256 (without_digest s1 (digestPos s1 0)) (take 36 fmsKey)"
proof -
  have "length sample_C1_digest = 32" by (simp add: sample_C1_digest_def hmacSHA256_def)
  then have "take 32 (drop 12 sample_C1) = sample_C1_digest" by (simp add: sample_C1_def)
  then show ?thesis
    using complex_reply [of "sample_world [3 # sample_C1, replicate 1536 0]" 3 sample_C1 "replicate 1536 0" 0 12
        "\<lparr>SkipHandshakeVerification = True\<rparr>"] sample_C1_valid
    by auto
qed

end
