(* ===== verification/Chunk_Properties.thy ===== *)
theory Chunk_Properties
  imports Write_Transfer Write_Failure Codec_Properties
begin

text \<open>
  The properties of the chunk layer: what reading a chunk and a message does on any input, who
  owns a writer, when the write loop can and cannot go on, and where the two directions disagree.
\<close>

section \<open>Reading\<close>

lemma acknowledge_account [simp]: "rx_account (fst (snd (acknowledge ctl st))) = rx_account (fst st)"
  by (auto simp: acknowledge_def Let_def ResetFragmentReadBytes_def byte_account_def csr_pending_def
      split: prod.splits result.splits)

lemma chunkRound_account: "rx_account (fst (snd (chunkRound ctl st))) = rx_account (fst st)"
  using readChunk_account [of "fst st"]
  by (auto simp: chunkRound_def bind_io_def with_rx_def split: result.split)

lemma newChunkReader_account: "rx_account (fst (snd (newChunkReader ctl st))) = rx_account (fst st)"
proof (induction ctl st rule: newChunkReader.induct)
  case (1 ctl st)
  then show ?case
    using chunkRound_account [of ctl st]
    by (subst newChunkReader.simps) (auto simp: Let_def split: result.split)
qed

lemma decodeFrom_account [simp]: "rx_r (snd (decodeFrom amf csid s)) = rx_r s"
  by (auto simp: decodeFrom_def split: option.splits prod.splits)

text \<open>
  C23 (invariant). Whatever arrives, and however reading a message ends, the counter that is
  reported in acknowledgements has advanced by exactly the bytes that were taken from the
  connection, modulo \<open>2 ^ 32\<close>.
\<close>

theorem read_bytes_counted:
  "totalReadBytes (rx_r (fst (snd (streamer_Read amf ctl st))))
      + of_nat (length (rx_pending (fst (snd (streamer_Read amf ctl st)))))
    = totalReadBytes (rx_r (fst st)) + of_nat (length (rx_pending (fst st)))"
  using newChunkReader_account [of ctl st]
  by (auto simp: streamer_Read_def bind_io_def with_rx_def byte_account_def split: result.split)

text \<open>
  C18 (termination). Reading a message always returns, and a message that was read took at least
  one byte of what the connection still had: a finite input holds finitely many messages. The
  number of chunk streams the peer can open stays within the configured limit.
\<close>

theorem reading_consumes:
  assumes "fst (streamer_Read amf ctl st) = Ok r" and "readers_within (fst st)"
  shows "length (rx_pending (fst (snd (streamer_Read amf ctl st)))) < length (rx_pending (fst st))
    \<and> int (fcard (fmdom (readers (fst (snd (streamer_Read amf ctl st)))))) \<le> max 0 (cfg_MaxChunkStreams (rx_config (fst st)))"
proof -
  obtain csid where csid: "fst (newChunkReader ctl st) = Ok csid"
    using assms(1) by (auto simp: streamer_Read_def bind_io_def split: result.splits)
  have st': "fst (snd (streamer_Read amf ctl st)) = snd (decodeFrom amf csid (fst (snd (newChunkReader ctl st))))"
    using csid by (simp add: streamer_Read_def bind_io_def with_rx_def)
  have k: "rx_keeps s (snd (decodeFrom amf csid s))" for s
    by (auto simp: decodeFrom_def rx_keeps_def readers_within_def fcard_finsert_if fmdomI
        split: option.splits prod.splits)
  have "rx_keeps (fst st) (fst (snd (streamer_Read amf ctl st)))"
    unfolding st' by (rule rx_keeps_trans [OF newChunkReader_keeps k])
  then show ?thesis
    using newChunkReader_consumes [OF csid] assms(2) st' by (auto simp: rx_keeps_def readers_within_def)
qed

definition sample_config :: StreamControlStateConfig where
  "sample_config = defaultStreamControlStateConfig\<lparr>cfg_DefaultChunkSize := 2, cfg_MaxChunkStreams := 8\<rparr>"

definition sample_receiver :: "byte list \<Rightarrow> chunkReadSide" where
  "sample_receiver bs = \<lparr>rx_r = \<lparr>csr_reader = \<lparr>segs = [bs], net_end = EOF\<rparr>, totalReadBytes = 0, fragmentReadBytes = 0\<rparr>,
     readers = fmempty, peerState = NewStreamControlState (Some sample_config), rx_config = sample_config\<rparr>"

definition sample_audio :: chunkReadSide where
  "sample_audio = sample_receiver [4, 0, 0, 5, 0, 0, 1, 8, 0, 0, 0, 0, 7, 9]"

lemma sample_audio_read:
  "fst (streamer_Read sample_amf (\<lambda>_ _ _. return_io ()) (sample_audio, ()))
    = Ok (4, 5, \<lparr>cm_StreamID = 0, cm_Message = MsgAudioMessage [7]\<rparr>)"
proof -
  let ?ctl = "\<lambda>_ _ _. return_io () :: (unit, unit) io"
  let ?mh = "zero_messageHeader\<lparr>mh_timestamp := 5, mh_messageLength := 1, mh_messageTypeID := 8\<rparr>"
  note defs = sample_audio_def sample_receiver_def sample_config_def restartReader_def reader_of_def zero_reader_def
      csr_pending_def net_pending_def basicHeader_bytes_def messageHeader_bytes_def zero_messageHeader_def
      put_uint24_be_def put_uint32_be_def put_uint32_le_def ext_bytes_def fcard.rep_eq has_room_def
      applyChunkHeader_def decoded_messageHeader_def missing_def chunkAmount_def NewStreamControlState_def
      valid_fmt_def
  obtain r s' where rc: "readChunk sample_audio = (Ok 4, s')" and r: "fmlookup (readers s') 4 = Some r" "completed r"
    "buf r = [7]" "messageTypeID r = 8" "basicHeader r = \<lparr>bh_fmt = 0, bh_chunkStreamID = 4\<rparr>" "timestamp r = 5"
    "messageStreamID r = 0"
    by (rule readChunk_receives [of 4 "\<lparr>bh_fmt = 0, bh_chunkStreamID = 4\<rparr>" sample_audio ?mh "[7]" "[9]"])
      (simp_all add: defs deliver_def completeReader_def)
  have "\<exists>s2. acknowledge ?ctl (s', ()) = (Ok (), (s2, ())) \<and> readers s2 = readers s'"
    by (auto simp: acknowledge_def sendAck_def Let_def return_io_def)
  then obtain s2 where a: "acknowledge ?ctl (s', ()) = (Ok (), (s2, ()))" "readers s2 = readers s'" by blast
  then have "chunkRound ?ctl (sample_audio, ()) = (Ok 4, (s2, ()))"
    using rc by (simp add: chunkRound_def bind_io_def with_rx_def)
  then have "newChunkReader ?ctl (sample_audio, ()) = (Ok 4, (s2, ()))"
    using r a(2) by (subst newChunkReader.simps) (simp add: chunkCompleted_def)
  then show ?thesis
    using r a(2) by (simp add: streamer_Read_def bind_io_def with_rx_def decodeFrom_def message_Decode_def
      decode_message_defs)
qed

theorem reading_consumes_witness:
  "length (rx_pending (fst (snd (streamer_Read sample_amf (\<lambda>_ _ _. return_io ()) (sample_audio, ()))))) < 14"
  using reading_consumes [OF sample_audio_read]
  by (simp add: readers_within_def sample_audio_def sample_receiver_def csr_pending_def net_pending_def fcard.rep_eq)

text \<open>
  C35 (error). A peer that announces an empty message makes the reader panic at its first chunk,
  wherever it is sent.
\<close>

theorem empty_message_panics:
  assumes "2 \<le> csid" and "csid \<le> 319" and "has_room s csid"
    and "mh_messageLength mh = 0" and "buf (restartReader (reader_of s csid)) = []"
    and "rx_pending s = basicHeader_bytes \<lparr>bh_fmt = 0, bh_chunkStreamID = csid\<rparr> @ messageHeader_bytes 0 mh @ rest"
  shows "fst (readChunk s) = Panic ''invalid state''"
proof -
  let ?bh = "\<lparr>bh_fmt = 0, bh_chunkStreamID = csid\<rparr>"
  let ?d1 = "decodeChunkBasicHeader csr_Read cacheBufferLen (rx_r s)"
  define s1 where "s1 = s\<lparr>rx_r := snd ?d1\<rparr>"
  have d1: "fst ?d1 = Ok ?bh" "rx_pending s1 = messageHeader_bytes 0 mh @ rest"
    using csr.decodeChunkBasicHeader_encoded [of ?bh cacheBufferLen "rx_r s", OF _ _ _ assms(6)] assms(1,2)
    by (simp_all add: s1_def valid_csid_def valid_fmt_def)
  have room1: "has_room s1 csid" using assms(3) by (simp add: has_room_def s1_def)
  have ro: "reader_of s1 csid = reader_of s csid" by (simp add: s1_def reader_of_def)
  obtain s2 where prep: "prepareChunkReader csid s1 = (Ok (reader_of s csid), s2)" "rx_r s2 = rx_r s1"
    by (rule prepareChunkReader_room [OF room1]) (simp only: ro)
  let ?d2 = "decodeChunkMessageHeader csr_Read 0 cacheBufferLen zero_messageHeader
    (extendedTimestampMode (reader_of s csid)) (rx_r s2)"
  have d2: "fst ?d2 = Ok (decoded_messageHeader 0 zero_messageHeader mh)"
    using csr.decodeChunkMessageHeader_encoded [of 0 mh "rx_r s2" rest] assms(4) d1(2) prep(2)
    by (simp add: valid_fmt_def)
  have "missing (applyChunkHeader ?bh (decoded_messageHeader 0 zero_messageHeader mh) (restartReader (reader_of s csid))) = 0"
    using assms(4,5) by (simp add: missing_def applyChunkHeader_def decoded_messageHeader_def)
  then show ?thesis
    using d1(1) prep d2 by (simp add: readChunk_def bind_io_def wrap_io_def readChunkPayload_def flip: s1_def)
qed

theorem empty_message_panics_witness:
  "fst (readChunk (sample_receiver [4, 0, 0, 5, 0, 0, 0, 8, 0, 0, 0, 0])) = Panic ''invalid state''"
  using empty_message_panics [of 4 "sample_receiver [4, 0, 0, 5, 0, 0, 0, 8, 0, 0, 0, 0]"
      "zero_messageHeader\<lparr>mh_timestamp := 5, mh_messageTypeID := 8\<rparr>" "[]"]
  by (simp add: has_room_def sample_receiver_def sample_config_def restartReader_def reader_of_def zero_reader_def
      csr_pending_def net_pending_def basicHeader_bytes_def messageHeader_bytes_def zero_messageHeader_def
      put_uint24_be_def put_uint32_be_def put_uint32_le_def ext_bytes_def fcard.rep_eq)

text \<open>
  C36 (error). The two directions disagree about extended timestamps: on a continuation chunk the
  writer repeats no timestamp, but a reader whose stream uses an extended one takes the next
  four bytes for it, which are bytes of the payload.
\<close>

theorem continuation_loses_payload:
  assumes "csr_pending r = p @ rest" and "length p = 4"
  shows "encodeChunkMessageHeader sink_Write 3 mh w = (Ok (), w)
    \<and> fst (decodeChunkMessageHeader csr_Read 3 n mh0 ExtendedTimestampUsed r)
        = Ok (mh0\<lparr>mh_timestamp := uint32_be p, mh_extendedTimestampMode := ExtendedTimestampUsed\<rparr>)
    \<and> csr_pending (snd (decodeChunkMessageHeader csr_Read 3 n mh0 ExtendedTimestampUsed r)) = rest"
proof -
  note csr.ReadFull_append [of r p rest 4] assms
  then show ?thesis
    by (simp add: encodeChunkMessageHeader_def decodeChunkMessageHeader_def io_simps)
qed

theorem continuation_loses_payload_witness:
  "csr_pending (snd (decodeChunkMessageHeader csr_Read 3 cacheBufferLen zero_messageHeader ExtendedTimestampUsed
     \<lparr>csr_reader = \<lparr>segs = [[10, 11], [12, 13, 14]], net_end = EOF\<rparr>, totalReadBytes = 0, fragmentReadBytes = 0\<rparr>)) = [14]"
  using continuation_loses_payload
    [of "\<lparr>csr_reader = \<lparr>segs = [[10, 11], [12, 13, 14]], net_end = EOF\<rparr>, totalReadBytes = 0, fragmentReadBytes = 0\<rparr>"
      "[10, 11, 12, 13]" "[14]"]
  by (simp add: csr_pending_def net_pending_def)

section \<open>Writing\<close>

text \<open>
  C14 (safety). While the write loop runs, a writer belongs to one goroutine at a time: two calls
  of \<^verbatim>\<open>Write\<close> never have the same one, a call that has one does not share it with the loop, no
  writer is queued twice, and the loop never closes a channel that is closed already.
\<close>

theorem one_owner:
  assumes "reachable amf (NewChunkStreamer_system k c) S" and "running S"
  shows "distinct (pipeline S)
    \<and> (\<forall>i j csid. owns S i csid \<and> owns S j csid \<longrightarrow> i = j)
    \<and> (\<forall>i csid. owns S i csid \<longrightarrow> csid \<notin> set (pipeline S))
    \<and> (\<forall>csid \<in> set (pipeline S). fst (closeDone csid (tx S)) = Ok ())"
proof -
  have ex: "exclusive S" by (rule reachable_exclusive [OF assms exclusive_init(1)])
  have "fst (closeDone csid (tx S)) = Ok ()" if "csid \<in> set (pipeline S)" for csid
    using ex that by (auto simp: exclusive_def flags_def closeDone_def)
  then show ?thesis using ex unfolding exclusive_def by blast
qed

text \<open>A run of events in which at most one call waits.\<close>

lemma reachable_event:
  assumes "reachable amf S0 S" and "exec amf ev S = Some S'"
    and "\<And>i j c. ev = LockWait i \<Longrightarrow> calls S j = Some c \<Longrightarrow> wc_phase c \<noteq> CallWaiting"
  shows "reachable amf S0 S'"
proof (cases "\<exists>i. ev = LockWait i")
  case True
  then obtain i where i: "ev = LockWait i" by blast
  then obtain c where "calls S i = Some c" using assms(2) by (auto simp: call_at_Some)
  then have "sys_step amf ev S S'" using assms(2,3) i by (auto simp: lock_free_def intro: sys_step.lock)
  then show ?thesis using assms(1) by (blast intro: reachable.step)
next
  case False
  then have "sys_step amf ev S S'" using assms(2) by (blast intro: sys_step.other)
  then show ?thesis using assms(1) by (blast intro: reachable.step)
qed

definition sample_system :: streamerSystem where
  "sample_system = NewChunkStreamer_system \<lparr>out = [], faults = []\<rparr> (Some sample_config)"

definition sample_message :: ChunkMessage where
  "sample_message = \<lparr>cm_StreamID = 0, cm_Message = MsgAudioMessage [1, 2, 3]\<rparr>"

definition after :: "event list \<Rightarrow> streamerSystem \<Rightarrow> streamerSystem" where
  "after evs S = foldl (\<lambda>S ev. the (exec sample_amf ev S)) S evs"

fun runs :: "event list \<Rightarrow> streamerSystem \<Rightarrow> bool" where
  "runs [] S = True"
| "runs (ev # evs) S = (exec sample_amf ev S \<noteq> None \<and>
     (case ev of LockWait i \<Rightarrow> (\<forall>j c. calls S j = Some c \<longrightarrow> wc_phase c \<noteq> CallWaiting) | _ \<Rightarrow> True)
     \<and> runs evs (the (exec sample_amf ev S)))"

lemma reachable_after: "reachable sample_amf S0 S \<Longrightarrow> runs evs S \<Longrightarrow> reachable sample_amf S0 (after evs S)"
proof (induction evs arbitrary: S)
  case (Cons ev evs)
  then obtain S' where S': "exec sample_amf ev S = Some S'" by auto
  have "reachable sample_amf S0 S'"
    by (rule reachable_event [OF Cons.prems(1) S']) (use Cons.prems(2) in auto)
  then show ?case using Cons S' by (simp add: after_def)
qed (simp add: after_def)

definition one_write :: "event list" where
  "one_write = [EnterWrite 0 4 7 sample_message, LockWait 0, WaitDone 0, ResetEncoder 0, EncodeMessage 0, FillHeader 0]"

lemmas sample_defs = after_def sample_system_def sample_message_def system_defs sample_config_def one_write_def

lemma sample_reachable:
  "reachable sample_amf sample_system (after one_write sample_system)"
  "reachable sample_amf sample_system (after (one_write @ [SchedWriter 0, LoopTake]) sample_system)"
proof -
  show "reachable sample_amf sample_system (after one_write sample_system)"
    by (rule reachable_after [OF reachable.init]) (auto simp: sample_defs split: if_splits)
  show "reachable sample_amf sample_system (after (one_write @ [SchedWriter 0, LoopTake]) sample_system)"
    by (rule reachable_after [OF reachable.init]) (auto simp: sample_defs split: if_splits)
qed

theorem one_owner_witness: "4 \<notin> set (pipeline (after one_write sample_system))"
proof -
  let ?S = "after one_write sample_system"
  have "running ?S" "owns ?S 0 4"
    by (simp_all add: running_def owns_def sample_defs)
  moreover have "reachable sample_amf (NewChunkStreamer_system \<lparr>out = [], faults = []\<rparr> (Some sample_config)) ?S"
    using sample_reachable(1) by (simp add: sample_system_def)
  ultimately show ?thesis using one_owner [of sample_amf "\<lparr>out = [], faults = []\<rparr>" "Some sample_config" ?S] by blast
qed

text \<open>
  C24 (liveness). When at most as many chunk streams are configured as the queue holds, the loop
  can always put a message that is not finished back into the queue.
\<close>

theorem loop_can_requeue:
  assumes "reachable amf (NewChunkStreamer_system k (Some c)) S" and "running S"
    and "cfg_MaxChunkStreams c \<le> int maxWriterQueueSize" and "loop S = LoopRequeue csid"
  shows "\<exists>S'. exec amf LoopRequeued S = Some S' \<and> queue S' = queue S @ [csid] \<and> loop S' = LoopReceiving"
proof -
  have ok: "queue_ok S" "tx_config (tx S) = c"
    using reachable_queue_ok [OF assms(1) queue_ok_init] by (simp_all add: NewChunkStreamer_system_def Let_def)
  obtain S' where "loop_requeue S = Some S'"
    using requeue_enabled [OF reachable_exclusive [OF assms(1,2) exclusive_init(1)] ok(1) assms(4)] assms(3) ok(2) by auto
  then show ?thesis using assms(4) by (auto simp: loop_requeue_def enqueue_def split: if_splits)
qed

theorem loop_can_requeue_witness:
  "exec sample_amf LoopRequeued (after (one_write @ [SchedWriter 0, LoopTake]) sample_system) \<noteq> None"
proof -
  let ?S = "after (one_write @ [SchedWriter 0, LoopTake]) sample_system"
  have "running ?S" "loop ?S = LoopRequeue 4" "cfg_MaxChunkStreams sample_config \<le> 64"
    by (simp_all add: running_def sample_defs)
  moreover have "reachable sample_amf (NewChunkStreamer_system \<lparr>out = [], faults = []\<rparr> (Some sample_config)) ?S"
    using sample_reachable(2) by (simp add: sample_system_def)
  ultimately show ?thesis using loop_can_requeue [of sample_amf "\<lparr>out = [], faults = []\<rparr>" sample_config ?S 4] by force
qed

text \<open>
  With more chunk streams the loop can block for ever: once the queue is full while the loop
  holds the writer of \<open>csid\<close>, nothing moves again. Whatever else happens, even \<^verbatim>\<open>Close\<close>, the loop
  goes on holding that writer and neither puts it back nor takes another nor ends, no call of
  \<^verbatim>\<open>Write\<close> gets its writer into the queue, and no byte is written.
\<close>

definition blocked_for_ever :: "amf0 \<Rightarrow> streamerSystem \<Rightarrow> int \<Rightarrow> bool" where
  "blocked_for_ever amf S csid \<longleftrightarrow> (\<forall>S'. reachable amf S S' \<longrightarrow>
     loop S' = LoopRequeue csid \<and> queue S' = queue S \<and> tx_w (tx S') = tx_w (tx S)
     \<and> exec amf LoopTake S' = None \<and> exec amf LoopRequeued S' = None \<and> exec amf LoopStop S' = None
     \<and> (\<forall>i. exec amf (SchedWriter i) S' = None))"

lemma full_queue_blocks:
  assumes "length (queue S) = maxWriterQueueSize" and "loop S = LoopRequeue csid"
  shows "blocked_for_ever amf S csid"
  unfolding blocked_for_ever_def
proof (intro allI impI)
  fix S' assume "reachable amf S S'"
  then have "write_deadlock S' \<and> queue S' = queue S \<and> loop S' = loop S \<and> tx_w (tx S') = tx_w (tx S)"
  proof (induction rule: reachable.induct)
    case init
    then show ?case using assms by (simp add: write_deadlock_def)
  next
    case (step S1 ev S2)
    then show ?case using deadlock_step [OF _ sys_step_exec [OF step.hyps(2)]] by simp
  qed
  then show "loop S' = LoopRequeue csid \<and> queue S' = queue S \<and> tx_w (tx S') = tx_w (tx S)
     \<and> exec amf LoopTake S' = None \<and> exec amf LoopRequeued S' = None \<and> exec amf LoopStop S' = None
     \<and> (\<forall>i. exec amf (SchedWriter i) S' = None)"
    using assms(2)
    by (auto simp: write_deadlock_def loop_take_def loop_requeue_def loop_stop_def call_sched_def enqueue_def
        call_at_def split: option.split)
qed

text \<open>
  The default configuration allows this: 65 calls of \<^verbatim>\<open>Write\<close> on chunk streams of their own, with
  messages of two chunks each. First all calls fill their writers, then they hand them over.
\<close>

definition big :: ChunkMessage where
  "big = \<lparr>cm_StreamID = 1, cm_Message = MsgVideoMessage (replicate 200 0)\<rparr>"

definition write_events :: "nat \<Rightarrow> event list" where
  "write_events n = [EnterWrite n (int n + 4) 0 big, LockWait n, WaitDone n, ResetEncoder n, EncodeMessage n, FillHeader n]"

definition big_call :: "nat \<Rightarrow> callPhase \<Rightarrow> writeCall" where
  "big_call i p = \<lparr>wc_csid = int i + 4, wc_timestamp = 0, wc_cmsg = big, wc_phase = p\<rparr>"

definition big_writer :: "int \<Rightarrow> chunkStreamWriter" where
  "big_writer csid = fill_writer 0 9 1 (new_writer csid\<lparr>doneClosed := False, buf := replicate 200 0\<rparr>)"

definition big_start :: streamerSystem where
  "big_start = NewChunkStreamer_system \<lparr>out = [], faults = []\<rparr> None"

definition filled :: "nat \<Rightarrow> nat \<Rightarrow> streamerSystem \<Rightarrow> bool" where
  "filled n k S \<longleftrightarrow> reachable sample_amf big_start S \<and> loop S = LoopReceiving \<and> \<not> stopClosed S \<and> queue S = map (\<lambda>i. int i + 4) [0..<k]
     \<and> calls S = (\<lambda>i. if i < k then Some (big_call i (CallReturned (Ok ()))) else if i < n then Some (big_call i CallFilled) else None)
     \<and> fmlookup (writers (tx S)) = (\<lambda>j. if 4 \<le> j \<and> j < int n + 4 then Some (big_writer j) else None)
     \<and> fcard (fmdom (writers (tx S))) = n \<and> tx_w (tx S) = \<lparr>out = [], faults = []\<rparr>
     \<and> selfState (tx S) = NewStreamControlState None \<and> tx_config (tx S) = defaultStreamControlStateConfig"

lemma fill_one_more:
  assumes "filled n 0 S" and "n < 65"
  shows "filled (Suc n) 0 (after (write_events n) S)"
proof -
  note facts = assms(1) [unfolded filled_def]
  have new: "fmlookup (writers (tx S)) (int n + 4) = None" "calls S n = None" "int n + 4 |\<notin>| fmdom (writers (tx S))"
    using facts by (auto simp: fmlookup_dom_iff)
  note defs = after_def write_events_def system_defs big_def
  have runs: "runs (write_events n) S"
    using facts new assms(2) by (auto simp: defs big_call_def split: if_splits)
  have "reachable sample_amf big_start (after (write_events n) S)"
    using facts reachable_after [OF _ runs] by blast
  moreover have "after (write_events n) S = S\<lparr>tx := (tx S)\<lparr>writers := fmupd (int n + 4) (big_writer (int n + 4)) (writers (tx S))\<rparr>,
      encTarget := Some (int n + 4), calls := (calls S)(n \<mapsto> big_call n CallFilled)\<rparr>"
    using facts new assms(2) by (simp add: defs big_call_def big_writer_def)
  ultimately show ?thesis
    using facts new(3) by (auto simp: filled_def fun_eq_iff fcard_finsert_if)
qed

lemma all_filled: "n \<le> 65 \<Longrightarrow> \<exists>S. filled n 0 S"
proof (induction n)
  case 0
  have "filled 0 0 big_start"
    by (simp add: filled_def reachable.init big_start_def NewChunkStreamer_system_def NewStreamControlState_def Let_def fun_eq_iff)
  then show ?case by blast
next
  case (Suc n)
  then show ?case using fill_one_more [of n] by (metis Suc_le_lessD less_imp_le)
qed

lemma sched_one_more:
  assumes "filled n k S" and "k < n" and "k < 64"
  shows "filled n (Suc k) (after [SchedWriter k] S)"
proof -
  note facts = assms(1) [unfolded filled_def]
  have runs: "runs [SchedWriter k] S"
    using facts assms(2,3) by (simp add: call_at_def call_sched_def enqueue_def big_call_def)
  have "reachable sample_amf big_start (after [SchedWriter k] S)"
    using facts reachable_after [OF _ runs] by blast
  moreover have "after [SchedWriter k] S = S\<lparr>queue := queue S @ [int k + 4],
      calls := (calls S)(k \<mapsto> big_call k (CallReturned (Ok ())))\<rparr>"
    using facts assms(2,3) by (simp add: after_def call_at_def call_sched_def enqueue_def big_call_def set_call_def)
  ultimately show ?thesis using facts assms(2) by (auto simp: filled_def fun_eq_iff)
qed

lemma all_queued: "k \<le> 64 \<Longrightarrow> \<exists>S. filled 65 k S"
proof (induction k)
  case 0
  then show ?case using all_filled [of 65] by simp
next
  case (Suc k)
  then obtain S where "filled 65 k S" by auto
  then have "filled 65 (Suc k) (after [SchedWriter k] S)" using Suc.prems by (intro sched_one_more) auto
  then show ?case by blast
qed

lemma blocked_reachable:
  "\<exists>S. reachable sample_amf (NewChunkStreamer_system \<lparr>out = [], faults = []\<rparr> None) S
     \<and> calls S = (\<lambda>i. if i < 65 then Some (big_call i (CallReturned (Ok ()))) else None) \<and> \<not> stopClosed S
     \<and> length (queue S) = maxWriterQueueSize \<and> loop S = LoopRequeue 4 \<and> length (out (tx_w (tx S))) = 140"
proof -
  obtain S where S: "filled 65 64 S" using all_queued [of 64] by auto
  note facts = S [unfolded filled_def]
  define q where "q = map (\<lambda>i. int i + 4) [1..<64]"
  have q: "queue S = 4 # q" "length q = 63" using facts by (simp_all add: q_def upt_conv_Cons del: upt_Suc)
  have w: "fmlookup (writers (tx S)) 4 = Some (big_writer 4)" using facts by simp
  have take: "loop_take S = Some (S\<lparr>tx := (tx S)\<lparr>tx_w := \<lparr>out = out (tx_w (tx S)) @
        chunk_bytes (selfState (tx S)) (updateWriterHeader (big_writer 4)), faults = []\<rparr>,
        writers := fmupd 4 ((updateWriterHeader (big_writer 4))\<lparr>buf := drop 128 (buf (big_writer 4))\<rparr>) (writers (tx S))\<rparr>,
      queue := q, loop := LoopRequeue 4\<rparr>)" (is "_ = Some ?S1")
  proof -
    have "chunkSendLen (selfState (tx S)) (big_writer 4) = 128"
      using facts by (simp add: chunkSendLen_def big_writer_def fill_writer_def NewStreamControlState_def Let_def
          defaultStreamControlStateConfig_def config_normalize_def zero_config_def)
    moreover have "length (buf (big_writer 4)) = 200" by (simp add: big_writer_def fill_writer_def)
    moreover have "valid_csid (bh_chunkStreamID (basicHeader (big_writer 4)))" "\<not> doneClosed (big_writer 4)"
      by (simp_all add: big_writer_def fill_writer_def valid_csid_def new_writer_def zero_reader_def
          chunkStreamReader.extend_def zero_basicHeader_def)
    moreover have "loop S = LoopReceiving" "faults (tx_w (tx S)) = []" using facts by simp_all
    ultimately show ?thesis using loop_take_healthy [of S 4 q "big_writer 4"] w q(1) by (simp add: Let_def)
  qed
  have sched: "exec sample_amf (SchedWriter 64) ?S1 = Some (set_call 64 (big_call 64 CallFilled) (CallReturned (Ok ()))
      (?S1\<lparr>queue := q @ [68]\<rparr>))" (is "_ = Some ?S2")
    using facts q(2) by (simp add: call_at_def call_sched_def enqueue_def big_call_def)
  have "reachable sample_amf big_start ?S1"
    by (rule reachable_event [of _ _ S LoopTake]) (use facts take in auto)
  then have "reachable sample_amf big_start ?S2"
    by (rule reachable_event [OF _ sched]) simp
  moreover have "length (queue ?S2) = 64" "loop ?S2 = LoopRequeue 4" using q(2) by simp_all
  moreover have "calls ?S2 = (\<lambda>i. if i < 65 then Some (big_call i (CallReturned (Ok ()))) else None)" "\<not> stopClosed ?S2"
    using facts by (auto simp: big_call_def fun_eq_iff)
  moreover have "length (out (tx_w (tx ?S2))) = 140"
    using facts by (simp add: chunk_bytes_def basicHeader_bytes_def messageHeader_bytes_def updateWriterHeader_def Let_def
        chunkSendLen_def big_writer_def fill_writer_def new_writer_def zero_reader_def chunkStreamReader.extend_def
        zero_basicHeader_def zero_messageHeader_def put_uint24_be_def put_uint32_le_def ext_bytes_def put_uint32_be_def
        NewStreamControlState_def defaultStreamControlStateConfig_def config_normalize_def zero_config_def)
  ultimately show ?thesis unfolding big_start_def by blast
qed

text \<open>
  C25 (error). The default configuration can block for ever. After 65 concurrent calls with
  messages of two chunks, the call \<open>i\<close> on chunk stream \<open>i + 4\<close>, and without a failure or a \<^verbatim>\<open>Close\<close>,
  a state is reached in which every call has returned nil, but the loop has sent only one chunk
  of 140 bytes and holds the writer of chunk stream 4, for which its full queue has no room: this
  is for ever.
\<close>

theorem default_configuration_blocks:
  "\<exists>S. reachable sample_amf (NewChunkStreamer_system \<lparr>out = [], faults = []\<rparr> None) S
     \<and> calls S = (\<lambda>i. if i < 65 then Some (big_call i (CallReturned (Ok ()))) else None)
     \<and> \<not> stopClosed S \<and> length (queue S) = maxWriterQueueSize \<and> loop S = LoopRequeue 4
     \<and> length (out (tx_w (tx S))) = 140 \<and> blocked_for_ever sample_amf S 4"
  using blocked_reachable full_queue_blocks by blast

text \<open>
  C33 (error). When the write loop fails, it closes every writer but records the error only in the
  one it was writing. From any state the streamer can get to, a call that waits for another writer
  is then told that it has the writer, although nothing is ever written again.
\<close>

theorem failed_loop_admits_callers:
  assumes "reachable amf (NewChunkStreamer_system k cfg) S"
    and "exec amf LoopTake S = Some S'" and "loop S' = LoopEnded (Some e)"
    and "call_at S i CallWaiting = Some c" and "wc_csid c \<noteq> hd (queue S)"
  shows "\<exists>S''. exec amf (WaitClosed i) S' = Some S''
    \<and> call_at S'' i CallAcquired = Some (c\<lparr>wc_phase := CallAcquired\<rparr>)
    \<and> (\<forall>T. reachable amf S'' T \<longrightarrow> loop T = LoopEnded (Some e) \<and> tx_w (tx T) = tx_w (tx S'))"
proof -
  have "running S" using assms(2) by (auto simp: running_def loop_take_def split: loopPhase.splits)
  then have ex: "exclusive S" and h: "healthy S"
    using reachable_exclusive [OF assms(1) _ exclusive_init(1)] reachable_healthy [OF assms(1) _ exclusive_init(1) healthy_init]
    by blast+
  have "\<not> running S'" using assms(3) by (simp add: running_def)
  moreover have st: "loop_take S = Some S'" using assms(2) by simp
  ultimately obtain csid q w' where q: "queue S = csid # q" and calls: "calls S' = calls S"
    and table: "writers (tx S') = fmmap (\<lambda>w. w\<lparr>closeClosed := True\<rparr>) (fmupd csid w' (writers (tx S)))"
    using take_cases [OF ex st] by metis
  have at: "call_at S' i CallWaiting = Some c" using assms(4) calls by (simp add: call_at_def)
  obtain w where w: "fmlookup (writers (tx S)) (wc_csid c) = Some w" "lastErr w = None"
    using call_at_dom [OF h assms(4)] h by (auto simp: healthy_def fmlookup_dom_iff)
  let ?v = "w\<lparr>closeClosed := True\<rparr>"
  have "fmlookup (writers (tx S')) (wc_csid c) = Some ?v" using w(1) q assms(5) by (simp add: table)
  then have go: "exec amf (WaitClosed i) S' = Some (set_call i c CallAcquired (put_writer (wc_csid c) ?v S'))" (is "_ = Some ?S''")
    using at w(2) by (simp add: call_wait_def wait_closed_def)
  have "loop T = LoopEnded (Some e) \<and> tx_w (tx T) = tx_w (tx S')" if "reachable amf ?S'' T" for T
    using reachable_ended [OF that, of "Some e"] assms(3) by simp
  then show ?thesis using go by (intro exI [of _ ?S'']) (simp add: call_at_def)
qed

definition two_writes :: "event list" where
  "two_writes = one_write @ [SchedWriter 0, EnterWrite 1 6 8 sample_message, LockWait 1, WaitDone 1, ResetEncoder 1,
     EncodeMessage 1, FillHeader 1, EnterWrite 2 6 9 sample_message, LockWait 2]"

definition broken_system :: streamerSystem where
  "broken_system = NewChunkStreamer_system \<lparr>out = [], faults = [Some (Errorf ''broken pipe'' [])]\<rparr> (Some sample_config)"

theorem failed_loop_admits_callers_witness:
  "\<exists>S''. exec sample_amf (WaitClosed 2) (after (two_writes @ [LoopTake]) broken_system) = Some S'' \<and> owns S'' 2 6"
proof -
  let ?S = "after two_writes broken_system"
  have "reachable sample_amf broken_system ?S"
    by (rule reachable_after [OF reachable.init]) (auto simp: two_writes_def broken_system_def sample_defs split: if_splits)
  then have r: "reachable sample_amf (NewChunkStreamer_system \<lparr>out = [], faults = [Some (Errorf ''broken pipe'' [])]\<rparr> (Some sample_config)) ?S"
    by (simp add: broken_system_def)
  have "\<exists>c. call_at ?S 2 CallWaiting = Some c \<and> wc_csid c = 6 \<and> hd (queue ?S) = 4"
    by (simp add: two_writes_def broken_system_def sample_defs)
  then obtain c where c: "call_at ?S 2 CallWaiting = Some c" "wc_csid c = 6" "hd (queue ?S) = 4" by blast
  have "\<exists>S' e. exec sample_amf LoopTake ?S = Some S' \<and> loop S' = LoopEnded (Some e)"
    by (simp add: two_writes_def broken_system_def sample_defs loop_take_def recovered_def runTurn_def writeChunk_def bind_io_def
        encodeChunkBasicHeader_def sink_Write_def sink_call_def closeDone_def setLastErr_def forceCloseWriters_def)
  then obtain S' e where S': "exec sample_amf LoopTake ?S = Some S'" "loop S' = LoopEnded (Some e)" by blast
  have "after (two_writes @ [LoopTake]) broken_system = S'" using S'(1) by (simp add: after_def)
  then show ?thesis
    using failed_loop_admits_callers [OF r S' c(1)] c(2,3) by (auto simp: owns_def call_at_Some)
qed

text \<open>
  C34 (error). When the encoder refuses a message, \<^verbatim>\<open>Write\<close> returns its error and keeps the writer:
  as long as the loop runs, nobody has it, it is never queued, and a later \<^verbatim>\<open>Write\<close> on the chunk
  stream can only wait until its deadline.
\<close>

theorem failed_encoding_orphans_writer:
  assumes "reachable amf (NewChunkStreamer_system w cfg) S" and "exec amf (EncodeMessage i) S = Some S1"
    and "call_at S1 i (CallReturned (Err e)) = Some c"
    and "reachable amf S1 S2" and "running S2" and "call_at S2 j CallWaiting = Some d" and "wc_csid d = wc_csid c"
  shows "(\<forall>k. \<not> owns S2 k (wc_csid c)) \<and> wc_csid c \<notin> set (queue S2)
    \<and> exec amf (WaitDone j) S2 = None \<and> exec amf (WaitClosed j) S2 = None"
proof -
  have step: "sys_step amf (EncodeMessage i) S S1" using assms(2) by (rule sys_step.other) simp
  have run: "running S1" by (rule reachable_running [OF assms(4,5)])
  have ex: "exclusive S" "exclusive S1"
    using reachable_exclusive [OF assms(1) exec_running [OF assms(2) run] exclusive_init(1)]
      reachable_exclusive [OF reachable.step [OF assms(1) step] run exclusive_init(1)] by blast+
  obtain b where b: "call_at S i CallEncoding = Some b" "S1 = call_encode amf i b S" using assms(2) by auto
  have c: "c = b\<lparr>wc_phase := CallReturned (Err e)\<rparr>" "flags (tx S1) = flags (tx S)" "pipeline S1 = pipeline S"
    "\<And>k csid. owns S1 k csid \<longleftrightarrow> k \<noteq> i \<and> owns S k csid"
    using assms(3) b flags_put_same
    by (auto simp: call_encode_def call_at_Some Option.bind_eq_Some_conv split: option.splits result.splits prod.splits if_splits)
  have "owns S i (wc_csid c)" using call_at_owns [OF b(1)] c(1) by simp
  then have "orphaned S1 (wc_csid c)"
    using ex(1) c(2-4) unfolding orphaned_def exclusive_def by metis
  then have orph: "orphaned S2 (wc_csid c)" by (rule reachable_orphaned [OF assms(4,5) ex(2)])
  then obtain v where "fmlookup (writers (tx S2)) (wc_csid c) = Some v" "\<not> doneClosed v" "\<not> closeClosed v"
    by (auto simp: orphaned_def flags_def)
  then show ?thesis
    using orph assms(6,7) by (simp add: call_wait_def wait_done_def wait_closed_def orphaned_def pipeline_def)
qed

definition refused_message :: ChunkMessage where
  "refused_message = \<lparr>cm_StreamID = 0, cm_Message = MsgUserCtrl UserCtrlEventOther\<rparr>"

definition refused_write :: "event list" where
  "refused_write = [EnterWrite 0 4 7 refused_message, LockWait 0, WaitDone 0, ResetEncoder 0]"

theorem failed_encoding_orphans_writer_witness:
  "exec sample_amf (WaitDone 1) (after (refused_write @ [EncodeMessage 0, EnterWrite 1 4 8 sample_message, LockWait 1]) sample_system) = None"
proof -
  let ?S = "after refused_write sample_system" and ?S1 = "after (refused_write @ [EncodeMessage 0]) sample_system"
    and ?S2 = "after (refused_write @ [EncodeMessage 0, EnterWrite 1 4 8 sample_message, LockWait 1]) sample_system"
  have "reachable sample_amf sample_system ?S"
    by (rule reachable_after [OF reachable.init]) (auto simp: refused_write_def refused_message_def sample_defs split: if_splits)
  then have S: "reachable sample_amf (NewChunkStreamer_system \<lparr>out = [], faults = []\<rparr> (Some sample_config)) ?S"
    by (simp add: sample_system_def)
  have S1: "exec sample_amf (EncodeMessage 0) ?S = Some ?S1"
    by (simp add: refused_write_def refused_message_def sample_defs userCtrl_Encode_buf)
  have "\<exists>e c. call_at ?S1 0 (CallReturned (Err e)) = Some c \<and> wc_csid c = 4"
    by (simp add: refused_write_def refused_message_def sample_defs userCtrl_Encode_buf)
  then obtain e c where c: "call_at ?S1 0 (CallReturned (Err e)) = Some c" "wc_csid c = 4" by blast
  have S2: "?S2 = after [EnterWrite 1 4 8 sample_message, LockWait 1] ?S1" by (simp add: after_def)
  have "runs [EnterWrite 1 4 8 sample_message, LockWait 1] ?S1"
    by (auto simp: refused_write_def refused_message_def sample_defs userCtrl_Encode_buf split: if_splits)
  then have r: "reachable sample_amf ?S1 ?S2" unfolding S2 by (intro reachable_after [OF reachable.init])
  obtain d where d: "running ?S2" "call_at ?S2 1 CallWaiting = Some d" "wc_csid d = 4"
    by (simp add: running_def refused_write_def refused_message_def sample_defs userCtrl_Encode_buf)
  show ?thesis
    using failed_encoding_orphans_writer [OF S S1 c(1) r d(1,2)] c(2) d(3) by simp
qed

end
