(* ===== verification/Stream_Ops.thy ===== *)
theory Stream_Ops
  imports Registry
begin

text \<open>
  The operations of a message stream that send (\<^verbatim>\<open>stream.go\<close>): control messages, commands, the
  replies of a server, and the requests of a client, which wait for a transaction.
\<close>

section \<open>Sending\<close>

text \<open>
  \<^verbatim>\<open>Stream.Write\<close>: \<^verbatim>\<open>ChunkStreamer.Write\<close> of the message under the stream's ID. It fails when the
  writer cannot be had (\<open>c_faults\<close>), or when the message cannot be encoded; otherwise the
  message is queued. What happens to it then is the subject of \<open>Write_Sched\<close>.
\<close>

definition stream_Write :: "amf0 \<Rightarrow> Stream \<Rightarrow> int \<Rightarrow> uint32 \<Rightarrow> message \<Rightarrow> ('u connState, unit) io" where
  "stream_Write amf s chunkStreamID ts msg c =
     (case c_faults c of
        Some e # fs \<Rightarrow> (Err e, c\<lparr>c_faults := fs\<rparr>)
      | fs \<Rightarrow>
          (case fst (message_Encode amf msg []) of
             Ok _ \<Rightarrow> (Ok (), c\<lparr>c_faults := tl fs, c_sent := c_sent c @ [(chunkStreamID, ts, str_streamID s, msg)]\<rparr>)
           | Err e \<Rightarrow> (Err e, c\<lparr>c_faults := tl fs\<rparr>)
           | Panic p \<Rightarrow> (Panic p, c\<lparr>c_faults := tl fs\<rparr>)))"

definition WriteWinAckSize :: "amf0 \<Rightarrow> Stream \<Rightarrow> int \<Rightarrow> uint32 \<Rightarrow> int32 \<Rightarrow> ('u connState, unit) io" where
  "WriteWinAckSize amf s csid ts sz = stream_Write amf s csid ts (MsgWinAckSize sz)"

definition WriteSetPeerBandwidth :: "amf0 \<Rightarrow> Stream \<Rightarrow> int \<Rightarrow> uint32 \<Rightarrow> int32 \<Rightarrow> byte \<Rightarrow> ('u connState, unit) io" where
  "WriteSetPeerBandwidth amf s csid ts sz limit = stream_Write amf s csid ts (MsgSetPeerBandwidth sz limit)"

definition WriteUserCtrl :: "amf0 \<Rightarrow> Stream \<Rightarrow> int \<Rightarrow> uint32 \<Rightarrow> UserCtrlEvent \<Rightarrow> ('u connState, unit) io" where
  "WriteUserCtrl amf s csid ts event = stream_Write amf s csid ts (MsgUserCtrl event)"

definition writeCommandMessage :: "amf0 \<Rightarrow> Stream \<Rightarrow> int \<Rightarrow> uint32 \<Rightarrow> string \<Rightarrow> int64 \<Rightarrow> AMFConvertible option
    \<Rightarrow> ('u connState, unit) io" where
  "writeCommandMessage amf s csid ts commandName transactionID body =
     bind_io (NewAMFEncoder (str_encTy s)) (\<lambda>_.
     bind_io (pure_io (fst (EncodeBodyAnyValues amf body []))) (\<lambda>_.
       stream_Write amf s csid ts (MsgCommandMessage commandName transactionID (str_encTy s)
         (snd (EncodeBodyAnyValues amf body [])))))"

definition WriteDataMessage :: "amf0 \<Rightarrow> Stream \<Rightarrow> int \<Rightarrow> uint32 \<Rightarrow> string \<Rightarrow> AMFConvertible option
    \<Rightarrow> ('u connState, unit) io" where
  "WriteDataMessage amf s csid ts name body =
     bind_io (NewAMFEncoder EncodingTypeAMF0) (\<lambda>_.
     bind_io (pure_io (fst (EncodeBodyAnyValues amf body []))) (\<lambda>_.
       stream_Write amf s csid ts (MsgDataMessage name EncodingTypeAMF0 (snd (EncodeBodyAnyValues amf body [])))))"

definition WriteSetChunkSize :: "amf0 \<Rightarrow> Stream \<Rightarrow> uint32 \<Rightarrow> ('u connState, unit) io" where
  "WriteSetChunkSize amf s sz =
     (if sz < 1 then fail_io (Errorf ''chunksize < 1'' [])
      else if sz > 0x7fffffff then fail_io (Errorf ''chunksize > 0x7fffffff'' [])
      else stream_Write amf s 2 0 (MsgSetChunkSize sz))"

section \<open>Replies\<close>

text \<open>The name of the reply is the empty string for a code that is none of the three.\<close>

definition ReplyConnect :: "amf0 \<Rightarrow> Stream \<Rightarrow> int \<Rightarrow> uint32 \<Rightarrow> NetConnectionConnectResultProperties
    \<Rightarrow> NetConnectionConnectResultInformation \<Rightarrow> ('u connState, unit) io" where
  "ReplyConnect amf s csid ts props info =
     (let commandName =
        (if i_Code info = NetConnectionConnectCodeSuccess \<or> i_Code info = NetConnectionConnectCodeClosed then ''_result''
         else if i_Code info = NetConnectionConnectCodeFailed then ''_error'' else '''') in
      writeCommandMessage amf s csid ts commandName 1 (Some (NetConnectionConnectResult props info)))"

definition ReplyCreateStream :: "amf0 \<Rightarrow> Stream \<Rightarrow> int \<Rightarrow> uint32 \<Rightarrow> int64 \<Rightarrow> uint32 option \<Rightarrow> ('u connState, unit) io" where
  "ReplyCreateStream amf s csid ts transactionID body =
     (case body of
        None \<Rightarrow> writeCommandMessage amf s csid ts ''_error'' transactionID (Some (NetConnectionCreateStreamResult 0))
      | Some streamID \<Rightarrow>
          writeCommandMessage amf s csid ts ''_result'' transactionID (Some (NetConnectionCreateStreamResult streamID)))"

definition NotifyStatus :: "amf0 \<Rightarrow> Stream \<Rightarrow> int \<Rightarrow> uint32 \<Rightarrow> NetStreamOnStatusInfoObject \<Rightarrow> ('u connState, unit) io" where
  "NotifyStatus amf s csid ts info = writeCommandMessage amf s csid ts ''onStatus'' 0 (Some (NetStreamOnStatus info))"

section \<open>Requests\<close>

text \<open>Operations of a stream's transactions, on the connection.\<close>

definition with_transactions :: "uint32 \<Rightarrow> (transactionTable, 'a) io \<Rightarrow> ('u connState, 'a) io" where
  "with_transactions sid m c =
     (case fmlookup (c_streams c) sid of
        None \<Rightarrow> (Panic ''nil stream'', c)
      | Some s \<Rightarrow>
          (let r = m (str_transactions s, c_heap c) in
           (fst r, c\<lparr>c_streams := fmupd sid (s\<lparr>str_transactions := fst (snd r)\<rparr>) (c_streams c),
                     c_heap := snd (snd r)\<rparr>)))"

text \<open>
  \<^verbatim>\<open>Connect\<close> up to the \<^verbatim>\<open>select\<close>, with the transaction it then waits for; and what comes after
  \<^verbatim>\<open>doneCh\<close> is closed. In between there is no timeout: \<^verbatim>\<open>context.TODO()\<close> is never done.
\<close>

definition Connect_request :: "amf0 \<Rightarrow> Stream \<Rightarrow> NetConnectionConnectCommand option \<Rightarrow> ('u connState, nat) io" where
  "Connect_request amf s body =
     bind_io (with_transactions (str_streamID s) (transactions_Create 1)) (\<lambda>p.
     bind_io (writeCommandMessage amf s 3 0 ''connect'' 1
                (Some (NetConnectionConnect (case body of None \<Rightarrow> zero_command | Some c \<Rightarrow> c)))) (\<lambda>_.
       return_io p))"

definition Connect_answer :: "amf0 \<Rightarrow> mapstructure \<Rightarrow> transaction \<Rightarrow> AMFConvertible result" where
  "Connect_answer amf ms t =
     bind_result (fst (NewAMFDecoder (t_encoding t) ())) (\<lambda>_.
     bind_result (wrap_result ''Failed to decode result''
                    (fst (DecodeBodyConnectResult amf ms (case t_body t of Some b \<Rightarrow> b | None \<Rightarrow> [])))) (\<lambda>result.
       if t_commandName t = ''_error'' then
         Err (ConnectRejectedError 1 (case ToArgs result of Ok args \<Rightarrow> args | _ \<Rightarrow> []))
       else Ok result))"

text \<open>\<^verbatim>\<open>CreateStream\<close> changes the chunk size first, if it is asked to.\<close>

definition change_chunk_size :: "amf0 \<Rightarrow> Stream \<Rightarrow> uint32 \<Rightarrow> ('u connState, unit) io" where
  "change_chunk_size amf s sz c =
     (if sz > 0 \<and> sz \<noteq> chunkSize (c_self c) then
        WriteSetChunkSize amf s sz (c\<lparr>c_self := (c_self c)\<lparr>chunkSize := sz\<rparr>\<rparr>)
      else (Ok (), c))"

definition CreateStream_request :: "amf0 \<Rightarrow> Stream \<Rightarrow> uint32 \<Rightarrow> ('u connState, nat) io" where
  "CreateStream_request amf s sz =
     bind_io (change_chunk_size amf s sz) (\<lambda>_.
     bind_io (with_transactions (str_streamID s) (transactions_Create 2)) (\<lambda>p.
     bind_io (writeCommandMessage amf s 3 0 ''createStream'' 2 (Some NetConnectionCreateStream)) (\<lambda>_.
       return_io p)))"

definition CreateStream_answer :: "amf0 \<Rightarrow> transaction \<Rightarrow> uint32 result" where
  "CreateStream_answer amf t =
     bind_result (fst (NewAMFDecoder (t_encoding t) ())) (\<lambda>_.
     bind_result (wrap_result ''Failed to decode result''
                    (fst (DecodeBodyCreateStreamResult amf (case t_body t of Some b \<Rightarrow> b | None \<Rightarrow> [])))) (\<lambda>result.
       if t_commandName t = ''_error'' then
         Err (CreateStreamRejectedError 2 (case ToArgs result of Ok args \<Rightarrow> args | _ \<Rightarrow> []))
       else (case result of NetConnectionCreateStreamResult i \<Rightarrow> Ok i | _ \<Rightarrow> Panic ''interface conversion'')))"

definition DeleteStream_request :: "amf0 \<Rightarrow> Stream \<Rightarrow> uint32 \<Rightarrow> ('u connState, unit) io" where
  "DeleteStream_request amf s target =
     writeCommandMessage amf s 3 0 ''deleteStream'' 0 (Some (NetStreamDeleteStream target))"

definition Publish_request :: "amf0 \<Rightarrow> Stream \<Rightarrow> (string \<times> string) option \<Rightarrow> ('u connState, unit) io" where
  "Publish_request amf s body =
     writeCommandMessage amf s 3 0 ''publish'' 0
       (Some (case body of None \<Rightarrow> NetStreamPublish '''' '''' | Some (name, ty) \<Rightarrow> NetStreamPublish name ty))"

section \<open>What sending does\<close>

text \<open>A write keeps everything but the log of what was sent.\<close>

definition same_tables :: "'u connState \<Rightarrow> 'u connState \<Rightarrow> bool" where
  "same_tables c c' \<longleftrightarrow> c_streams c' = c_streams c \<and> c_heap c' = c_heap c \<and> c_self c' = c_self c
     \<and> c_peer c' = c_peer c \<and> c_ignored c' = c_ignored c \<and> c_config c' = c_config c \<and> c_user c' = c_user c"

lemma same_tables_refl [simp]: "same_tables c c"
  by (simp add: same_tables_def)

lemma same_tables_trans: "same_tables c c' \<Longrightarrow> same_tables c' c'' \<Longrightarrow> same_tables c c''"
  by (simp add: same_tables_def)

lemma stream_Write_same: "same_tables c (snd (stream_Write amf s csid ts msg c))"
  by (auto simp: stream_Write_def same_tables_def split: list.splits option.splits result.splits)

lemma writeCommandMessage_same: "same_tables c (snd (writeCommandMessage amf s csid ts name tid body c))"
  using stream_Write_same
  by (auto simp: writeCommandMessage_def bind_io_def NewAMFEncoder_def split: result.splits)

lemma replies_same:
  "same_tables c (snd (ReplyConnect amf s csid ts props info c))"
  "same_tables c (snd (ReplyCreateStream amf s csid ts tid r c))"
  "same_tables c (snd (NotifyStatus amf s csid ts st c))"
  "same_tables c (snd (WriteWinAckSize amf s csid ts sz c))"
  "same_tables c (snd (WriteSetPeerBandwidth amf s csid ts sz limit c))"
  "same_tables c (snd (WriteUserCtrl amf s csid ts ev c))"
  by (simp_all add: ReplyConnect_def ReplyCreateStream_def NotifyStatus_def WriteWinAckSize_def
      WriteSetPeerBandwidth_def WriteUserCtrl_def writeCommandMessage_same stream_Write_same Let_def
      split: option.split)

text \<open>A write without a fault appends exactly its message.\<close>

lemma stream_Write_Ok:
  assumes "c_faults c = []" and "message_Encode amf msg [] = (Ok (), bs)"
  shows "stream_Write amf s csid ts msg c = (Ok (), c\<lparr>c_sent := c_sent c @ [(csid, ts, str_streamID s, msg)]\<rparr>)"
  using assms by (cases c) (simp add: stream_Write_def)

lemma writeCommandMessage_Ok:
  assumes "c_faults c = []" and "str_encTy s = EncodingTypeAMF0"
    and "EncodeBodyAnyValues amf body [] = (Ok (), bs)"
    and "amf_encode amf (GoString name) = Ok nb" and "amf_encode amf (GoInt64 tid) = Ok tb"
  shows "writeCommandMessage amf s csid ts name tid body c = (Ok (), c\<lparr>c_sent := c_sent c
      @ [(csid, ts, str_streamID s, MsgCommandMessage name tid EncodingTypeAMF0 bs)]\<rparr>)"
proof -
  have "message_Encode amf (MsgCommandMessage name tid EncodingTypeAMF0 bs) [] = (Ok (), nb @ tb @ bs)"
    using assms(4,5) by (simp add: encodeCommandMessage_Ok)
  then show ?thesis
    using assms(2,3) stream_Write_Ok [OF assms(1)]
    by (simp add: writeCommandMessage_def NewAMFEncoder_def bind_io_def)
qed

end
