(* ===== verification/Stream_Handler.thy ===== *)
theory Stream_Handler
  imports Stream_Ops
begin

text \<open>
  What a stream does with a message it gets: the dispatch of \<^verbatim>\<open>stream_handler.go\<close> and the handler
  of each state (\<^verbatim>\<open>server_control_*_handler.go\<close>, \<^verbatim>\<open>server_data_*_handler.go\<close>,
  \<^verbatim>\<open>client_control_not_connected_handler.go\<close>), with the callbacks of \<^verbatim>\<open>handler.go\<close>.
\<close>

section \<open>The user's handler\<close>

text \<open>The callbacks of the interface \<^verbatim>\<open>Handler\<close>, operations on the user's own state.\<close>

record 'u Handler =
  OnServe :: "'u \<Rightarrow> 'u"
  OnConnect :: "uint32 \<Rightarrow> NetConnectionConnectCommand \<Rightarrow> ('u, unit) io"
  OnCreateStream :: "uint32 \<Rightarrow> ('u, unit) io"
  OnReleaseStream :: "uint32 \<Rightarrow> string \<Rightarrow> ('u, unit) io"
  OnDeleteStream :: "uint32 \<Rightarrow> uint32 \<Rightarrow> ('u, unit) io"
  OnPublish :: "uint32 \<Rightarrow> uint32 \<Rightarrow> string \<Rightarrow> string \<Rightarrow> ('u, unit) io"
  OnPlay :: "uint32 \<Rightarrow> uint32 \<Rightarrow> string \<Rightarrow> int64 \<Rightarrow> ('u, unit) io"
  OnFCPublish :: "uint32 \<Rightarrow> string \<Rightarrow> ('u, unit) io"
  OnFCUnpublish :: "uint32 \<Rightarrow> string \<Rightarrow> ('u, unit) io"
  OnSetDataFrame :: "uint32 \<Rightarrow> byte list \<Rightarrow> ('u, unit) io"
  OnAudio :: "uint32 \<Rightarrow> byte list \<Rightarrow> ('u, unit) io"
  OnVideo :: "uint32 \<Rightarrow> byte list \<Rightarrow> ('u, unit) io"
  OnUnknownMessage :: "uint32 \<Rightarrow> message \<Rightarrow> ('u, unit) io"
  OnUnknownCommandMessage :: "uint32 \<Rightarrow> message \<Rightarrow> ('u, unit) io"
  OnUnknownDataMessage :: "uint32 \<Rightarrow> message \<Rightarrow> ('u, unit) io"
  OnClose :: "'u \<Rightarrow> 'u"

text \<open>\<^verbatim>\<open>DefaultHandler\<close> does nothing.\<close>

definition DefaultHandler :: "'u Handler" where
  "DefaultHandler = \<lparr>OnServe = (\<lambda>u. u), OnConnect = (\<lambda>_ _. return_io ()), OnCreateStream = (\<lambda>_. return_io ()),
     OnReleaseStream = (\<lambda>_ _. return_io ()), OnDeleteStream = (\<lambda>_ _. return_io ()),
     OnPublish = (\<lambda>_ _ _ _. return_io ()), OnPlay = (\<lambda>_ _ _ _. return_io ()), OnFCPublish = (\<lambda>_ _. return_io ()),
     OnFCUnpublish = (\<lambda>_ _. return_io ()), OnSetDataFrame = (\<lambda>_ _. return_io ()),
     OnAudio = (\<lambda>_ _. return_io ()), OnVideo = (\<lambda>_ _. return_io ()), OnUnknownMessage = (\<lambda>_ _. return_io ()),
     OnUnknownCommandMessage = (\<lambda>_ _. return_io ()), OnUnknownDataMessage = (\<lambda>_ _. return_io ()),
     OnClose = (\<lambda>u. u)\<rparr>"

text \<open>What a connection's code is given from outside: the codecs and the user's handler.\<close>

record 'u env =
  e_amf :: amf0
  e_ms :: mapstructure
  e_handler :: "'u Handler"

definition with_user :: "('u, 'a) io \<Rightarrow> ('u connState, 'a) io" where
  "with_user m c = (fst (m (c_user c)), c\<lparr>c_user := snd (m (c_user c))\<rparr>)"

definition with_peer :: "(StreamControlState, 'a) io \<Rightarrow> ('u connState, 'a) io" where
  "with_peer m c = (fst (m (c_peer c)), c\<lparr>c_peer := snd (m (c_peer c))\<rparr>)"

section \<open>States\<close>

text \<open>\<^verbatim>\<open>ChangeState\<close>; there is no handler for a connected client.\<close>

definition handler_of :: "streamState \<Rightarrow> stateHandler option" where
  "handler_of st =
     (case st of
        streamStateServerNotConnected \<Rightarrow> Some serverControlNotConnectedHandler
      | streamStateServerConnected \<Rightarrow> Some serverControlConnectedHandler
      | streamStateServerInactive \<Rightarrow> Some serverDataInactiveHandler
      | streamStateServerPublish \<Rightarrow> Some serverDataPublishHandler
      | streamStateServerPlay \<Rightarrow> Some serverDataPlayHandler
      | streamStateClientNotConnected \<Rightarrow> Some clientControlNotConnectedHandler
      | _ \<Rightarrow> None)"

definition ChangeState :: "uint32 \<Rightarrow> streamState \<Rightarrow> ('u connState, unit) io" where
  "ChangeState sid st c =
     (if st = streamStateUnknown then (Ok (), c)
      else case handler_of st of
        None \<Rightarrow> (Panic ''Unexpected'', c)
      | Some h \<Rightarrow> (Ok (), update_stream sid (\<lambda>s. s\<lparr>str_handler := Some h, str_state := st\<rparr>) c))"

section \<open>The server's control stream\<close>

text \<open>
  A deferred function answers a request with an error when the handler is about to return one;
  if that fails, too, the error is wrapped.
\<close>

definition with_error_reply :: "('u connState, unit) io \<Rightarrow> ('u connState, unit) io \<Rightarrow> ('u connState, unit) io" where
  "with_error_reply reply m c =
     (case m c of
        (Err e, c1) \<Rightarrow>
          (case reply c1 of
             (Ok _, c2) \<Rightarrow> (Err e, c2)
           | (Err e1, c2) \<Rightarrow> (Err (Wrapf e ''Failed to reply response: Err = %+v''), c2)
           | (Panic p, c2) \<Rightarrow> (Panic p, c2))
      | r \<Rightarrow> r)"

definition newConnectSuccessResult :: "'u connState \<Rightarrow> NetConnectionConnectResultInformation" where
  "newConnectSuccessResult c = \<lparr>i_Level = ''status'', i_Code = NetConnectionConnectCodeSuccess,
     i_Description = ''Connection succeeded.'', i_Data = RPresetData (c_config c)\<rparr>"

definition newConnectErrorResult :: "'u connState \<Rightarrow> NetConnectionConnectResultInformation" where
  "newConnectErrorResult c = \<lparr>i_Level = ''error'', i_Code = NetConnectionConnectCodeFailed,
     i_Description = ''Connection failed.'', i_Data = RPresetData (c_config c)\<rparr>"

text \<open>
  A handler's result \<^const>\<open>ErrPassThroughMsg\<close> hands the message to the user's handler. The
  arguments are the stream, the chunk stream and the timestamp of the message and, for a
  command, its transaction.
\<close>

definition connect_onCommand :: "'u env \<Rightarrow> Stream \<Rightarrow> int \<Rightarrow> uint32 \<Rightarrow> AMFConvertible \<Rightarrow> ('u connState, unit) io" where
  "connect_onCommand env s csid ts body =
     (case body of
        NetConnectionConnect cmd \<Rightarrow>
          with_error_reply
            (\<lambda>c. ReplyConnect (e_amf env) s csid ts (RPresetProperties (c_config c)) (newConnectErrorResult c) c)
            (bind_io (with_user (OnConnect (e_handler env) ts cmd)) (\<lambda>_.
             bind_io (\<lambda>c. WriteWinAckSize (e_amf env) s 2 ts (ackWindowSize (c_self c)) c) (\<lambda>_.
             bind_io (\<lambda>c. WriteSetPeerBandwidth (e_amf env) s 2 ts (bandwidthWindowSize (c_self c))
                            (bandwidthLimitType (c_self c)) c) (\<lambda>_.
             bind_io (WriteUserCtrl (e_amf env) s 2 ts (UserCtrlEventStreamBegin (str_streamID s))) (\<lambda>_.
             bind_io (\<lambda>c. ReplyConnect (e_amf env) s csid ts (RPresetProperties (c_config c)) (newConnectSuccessResult c) c) (\<lambda>_.
               ChangeState (str_streamID s) streamStateServerConnected))))))
      | _ \<Rightarrow> fail_io ErrPassThroughMsg)"

text \<open>\<^verbatim>\<open>createStream\<close>: when no stream can be had the client is told and the connection kept.\<close>

definition createStream_reply :: "'u env \<Rightarrow> Stream \<Rightarrow> int \<Rightarrow> uint32 \<Rightarrow> int64 \<Rightarrow> ('u connState, unit) io" where
  "createStream_reply env s csid ts tid c =
     (case CreateIfAvailable c of
        (Ok ns, c1) \<Rightarrow>
          bind_io (ChangeState (str_streamID ns) streamStateServerInactive) (\<lambda>_ c2.
            (case ReplyCreateStream (e_amf env) s csid ts tid (Some (str_streamID ns)) c2 of
               (Err e, c3) \<Rightarrow> (Err e, snd (streams_Delete (str_streamID ns) c3))
             | r \<Rightarrow> r)) c1
      | (Err e, c1) \<Rightarrow>
          (case ReplyCreateStream (e_amf env) s csid ts tid None c1 of
             (Err e1, c2) \<Rightarrow> (Err (Wrapf e ''Failed to reply response: Err = %+v''), c2)
           | r \<Rightarrow> r)
      | (Panic p, c1) \<Rightarrow> (Panic p, c1))"

definition connected_onCommand :: "'u env \<Rightarrow> Stream \<Rightarrow> int \<Rightarrow> uint32 \<Rightarrow> int64 \<Rightarrow> AMFConvertible \<Rightarrow> ('u connState, unit) io" where
  "connected_onCommand env s csid ts tid body =
     (case body of
        NetConnectionCreateStream \<Rightarrow>
          with_error_reply (ReplyCreateStream (e_amf env) s csid ts tid None)
            (bind_io (with_user (OnCreateStream (e_handler env) ts)) (\<lambda>_. createStream_reply env s csid ts tid))
      | NetStreamDeleteStream target \<Rightarrow>
          bind_io (with_user (OnDeleteStream (e_handler env) ts target)) (\<lambda>_. streams_Delete target)
      | NetConnectionReleaseStream name \<Rightarrow> with_user (OnReleaseStream (e_handler env) ts name)
      | NetStreamFCPublish name \<Rightarrow> with_user (OnFCPublish (e_handler env) ts name)
      | NetStreamFCUnpublish name \<Rightarrow> with_user (OnFCUnpublish (e_handler env) ts name)
      | _ \<Rightarrow> fail_io ErrPassThroughMsg)"

section \<open>The server's data streams\<close>

definition newOnStatus :: "string \<Rightarrow> string \<Rightarrow> NetStreamOnStatusInfoObject" where
  "newOnStatus code description =
     \<lparr>st_Level = (if code = NetStreamOnStatusCodeConnectFailed \<or> code = NetStreamOnStatusCodePlayFailed
                     \<or> code = NetStreamOnStatusCodePublishBadName \<or> code = NetStreamOnStatusCodePublishFailed
                   then NetStreamOnStatusLevelError else NetStreamOnStatusLevelStatus),
      st_Code = code, st_Description = description\<rparr>"

text \<open>A request to publish or play: the user decides, the client is told, the state changes.\<close>

definition ask_user :: "'u env \<Rightarrow> Stream \<Rightarrow> int \<Rightarrow> uint32 \<Rightarrow> ('u, unit) io \<Rightarrow> NetStreamOnStatusInfoObject
    \<Rightarrow> NetStreamOnStatusInfoObject \<Rightarrow> streamState \<Rightarrow> ('u connState, unit) io" where
  "ask_user env s csid ts callback failed started st c =
     (case with_user callback c of
        (Err e, c1) \<Rightarrow>
          (case NotifyStatus (e_amf env) s csid ts failed c1 of
             (Err e1, c2) \<Rightarrow> (Err (Wrapf e ''Failed to reply response: Err = %+v''), c2)
           | (Panic p, c2) \<Rightarrow> (Panic p, c2)
           | (Ok _, c2) \<Rightarrow> (Err e, c2))
      | (Ok _, c1) \<Rightarrow>
          bind_io (NotifyStatus (e_amf env) s csid ts started) (\<lambda>_. ChangeState (str_streamID s) st) c1
      | (Panic p, c1) \<Rightarrow> (Panic p, c1))"

definition inactive_onCommand :: "'u env \<Rightarrow> Stream \<Rightarrow> int \<Rightarrow> uint32 \<Rightarrow> AMFConvertible \<Rightarrow> ('u connState, unit) io" where
  "inactive_onCommand env s csid ts body =
     (case body of
        NetStreamPublish name ty \<Rightarrow>
          ask_user env s csid ts (OnPublish (e_handler env) (str_streamID s) ts name ty)
            (newOnStatus NetStreamOnStatusCodePublishFailed ''Publish failed.'')
            (newOnStatus NetStreamOnStatusCodePublishStart ''Publish succeeded.'') streamStateServerPublish
      | NetStreamPlay name start \<Rightarrow>
          ask_user env s csid ts (OnPlay (e_handler env) (str_streamID s) ts name start)
            (newOnStatus NetStreamOnStatusCodePlayFailed ''Play failed.'')
            (newOnStatus NetStreamOnStatusCodePlayStart ''Play succeeded.'') streamStateServerPlay
      | _ \<Rightarrow> fail_io ErrPassThroughMsg)"

definition publish_onMessage :: "'u env \<Rightarrow> uint32 \<Rightarrow> message \<Rightarrow> ('u connState, unit) io" where
  "publish_onMessage env ts msg =
     (case msg of
        MsgAudioMessage payload \<Rightarrow> with_user (OnAudio (e_handler env) ts payload)
      | MsgVideoMessage payload \<Rightarrow> with_user (OnVideo (e_handler env) ts payload)
      | _ \<Rightarrow> fail_io ErrPassThroughMsg)"

definition publish_onData :: "'u env \<Rightarrow> uint32 \<Rightarrow> AMFConvertible \<Rightarrow> ('u connState, unit) io" where
  "publish_onData env ts body =
     (case body of
        NetStreamSetDataFrame payload _ \<Rightarrow> with_user (OnSetDataFrame (e_handler env) ts payload)
      | _ \<Rightarrow> fail_io ErrPassThroughMsg)"

section \<open>The client's control stream\<close>

definition client_onCommand :: "AMFConvertible \<Rightarrow> ('u connState, unit) io" where
  "client_onCommand body =
     (case body of
        NetConnectionConnectResult _ _ \<Rightarrow> return_io ()
      | _ \<Rightarrow> fail_io ErrPassThroughMsg)"

section \<open>Dispatch\<close>

text \<open>The three methods of a state's handler; a call on the nil handler panics.\<close>

definition onMessage :: "'u env \<Rightarrow> Stream \<Rightarrow> uint32 \<Rightarrow> message \<Rightarrow> ('u connState, unit) io" where
  "onMessage env s ts msg =
     (case str_handler s of
        None \<Rightarrow> panic_io ''nil pointer dereference''
      | Some h \<Rightarrow> (if h = serverDataPublishHandler then publish_onMessage env ts msg else fail_io ErrPassThroughMsg))"

definition onData :: "'u env \<Rightarrow> Stream \<Rightarrow> uint32 \<Rightarrow> AMFConvertible \<Rightarrow> ('u connState, unit) io" where
  "onData env s ts body =
     (case str_handler s of
        None \<Rightarrow> panic_io ''nil pointer dereference''
      | Some h \<Rightarrow> (if h = serverDataPublishHandler then publish_onData env ts body else fail_io ErrPassThroughMsg))"

definition onCommand :: "'u env \<Rightarrow> Stream \<Rightarrow> int \<Rightarrow> uint32 \<Rightarrow> int64 \<Rightarrow> AMFConvertible \<Rightarrow> ('u connState, unit) io" where
  "onCommand env s csid ts tid body =
     (case str_handler s of
        None \<Rightarrow> panic_io ''nil pointer dereference''
      | Some serverControlNotConnectedHandler \<Rightarrow> connect_onCommand env s csid ts body
      | Some serverControlConnectedHandler \<Rightarrow> connected_onCommand env s csid ts tid body
      | Some serverDataInactiveHandler \<Rightarrow> inactive_onCommand env s csid ts body
      | Some clientControlNotConnectedHandler \<Rightarrow> client_onCommand body
      | Some _ \<Rightarrow> fail_io ErrPassThroughMsg)"

text \<open>\<^verbatim>\<open>if err == internal.ErrPassThroughMsg\<close>: not for a wrapped one.\<close>

definition or_else :: "('u connState, unit) io \<Rightarrow> ('u connState, unit) io \<Rightarrow> ('u connState, unit) io" where
  "or_else m k c = (case m c of (Err e, c1) \<Rightarrow> if e = ErrPassThroughMsg then k c1 else (Err e, c1) | r \<Rightarrow> r)"

text \<open>
  The body is decoded from the message's own reader, so what the user's handler is given of an
  unknown message is the rest that was not decoded.
\<close>

definition handleData :: "'u env \<Rightarrow> Stream \<Rightarrow> uint32 \<Rightarrow> string \<Rightarrow> EncodingType \<Rightarrow> byte list \<Rightarrow> ('u connState, unit) io" where
  "handleData env s ts name enc body =
     bind_io (NewAMFDecoder enc) (\<lambda>_ c.
       (case DataBodyDecoderFor (e_amf env) name body of
          (Ok value, rest) \<Rightarrow>
            or_else (onData env s ts value)
              (with_user (OnUnknownDataMessage (e_handler env) ts (MsgDataMessage name enc rest))) c
        | (Err e, _) \<Rightarrow> (Err e, c)
        | (Panic p, _) \<Rightarrow> (Panic p, c)))"

text \<open>An answer to a request: into the transaction, which is then forgotten.\<close>

definition handleReply :: "string \<Rightarrow> int64 \<Rightarrow> EncodingType \<Rightarrow> byte list \<Rightarrow> (transactionTable, unit) io" where
  "handleReply name tid enc body =
     bind_io (wrap_io ''Got response to the unexpected transaction'' (transactions_At tid)) (\<lambda>p.
     bind_io (\<lambda>ts. let r = transaction_Reply name enc body p (snd ts) in (fst r, (fst ts, snd r))) (\<lambda>_.
       wrap_io ''Unexpected behavior: transaction is not found'' (transactions_Delete tid)))"

definition handleCommand :: "'u env \<Rightarrow> Stream \<Rightarrow> int \<Rightarrow> uint32 \<Rightarrow> string \<Rightarrow> int64 \<Rightarrow> EncodingType \<Rightarrow> byte list
    \<Rightarrow> ('u connState, unit) io" where
  "handleCommand env s csid ts name tid enc body =
     (if name = ''_result'' \<or> name = ''_error'' then
        with_transactions (str_streamID s) (handleReply name tid enc body)
      else
        bind_io (NewAMFDecoder enc) (\<lambda>_ c.
          (case CmdBodyDecoderFor (e_amf env) (e_ms env) name tid body of
             (Ok value, rest) \<Rightarrow>
               or_else (onCommand env s csid ts tid value)
                 (with_user (OnUnknownCommandMessage (e_handler env) ts (MsgCommandMessage name tid enc rest))) c
           | (Err e, _) \<Rightarrow> (Err e, c)
           | (Panic p, _) \<Rightarrow> (Panic p, c))))"

definition stream_handle :: "'u env \<Rightarrow> Stream \<Rightarrow> int \<Rightarrow> uint32 \<Rightarrow> message \<Rightarrow> ('u connState, unit) io" where
  "stream_handle env s csid ts msg =
     (case msg of
        MsgDataMessage name enc body \<Rightarrow> handleData env s ts name enc body
      | MsgCommandMessage name tid enc body \<Rightarrow> handleCommand env s csid ts name tid enc body
      | MsgSetChunkSize sz \<Rightarrow> with_peer (SetChunkSize sz)
      | MsgWinAckSize sz \<Rightarrow> with_peer (SetAckWindowSize sz)
      | _ \<Rightarrow> or_else (onMessage env s ts msg) (with_user (OnUnknownMessage (e_handler env) ts msg)))"

section \<open>What a message does to the tables\<close>

type_synonym tables = "(uint32, Stream) fmap \<times> transaction list \<times> ConnConfig"

definition tables :: "'u connState \<Rightarrow> tables" where
  "tables c = (c_streams c, c_heap c, c_config c)"

text \<open>The transitions the comments of the handlers announce, except the client's.\<close>

definition stream_step :: "streamState \<Rightarrow> streamState \<Rightarrow> bool" where
  "stream_step a b \<longleftrightarrow> a = streamStateServerNotConnected \<and> b = streamStateServerConnected
     \<or> a = streamStateServerInactive \<and> (b = streamStateServerPublish \<or> b = streamStateServerPlay)"

definition in_state :: "streamState \<Rightarrow> Stream \<Rightarrow> Stream" where
  "in_state st s = s\<lparr>str_handler := handler_of st, str_state := st\<rparr>"

text \<open>
  One message on the stream \<open>s\<close> leaves the tables alone, moves \<open>s\<close> itself to another state, adds
  one new stream, removes one stream, or resolves one transaction of \<open>s\<close>.
\<close>

inductive table_change :: "Stream \<Rightarrow> tables \<Rightarrow> tables \<Rightarrow> bool" for s :: Stream where
  unchanged: "table_change s t t"
| moved: "stream_step (str_state s) st \<Longrightarrow> fmlookup m (str_streamID s) = Some s \<Longrightarrow>
    table_change s (m, h, g) (fmupd (str_streamID s) (in_state st s) m, h, g)"
| created: "str_state s = streamStateServerConnected \<Longrightarrow> fmlookup m k = None \<Longrightarrow>
    int (fcard (fmdom m)) < cfg_MaxMessageStreams (ControlState g) \<Longrightarrow>
    table_change s (m, h, g) (fmupd k (in_state streamStateServerInactive (newStream k)) m, h, g)"
| deleted: "str_state s = streamStateServerConnected \<Longrightarrow> table_change s (m, h, g) (fmdrop k m, h, g)"
| answered: "fmlookup m (str_streamID s) = Some s \<Longrightarrow> fmlookup (str_transactions s) tid = Some p \<Longrightarrow>
    table_change s (m, h, g)
      (fmupd (str_streamID s) (s\<lparr>str_transactions := fmdrop tid (str_transactions s)\<rparr>) m, h[p := t], g)"

inductive_cases table_changeE: "table_change s t t'"

text \<open>
  The tables of a connection are in order: streams under their own IDs and within the limit,
  each with the handler of its state, and transactions that are waited for, no two the same.
\<close>

definition waits :: "(uint32, Stream) fmap \<Rightarrow> uint32 \<Rightarrow> int64 \<Rightarrow> nat \<Rightarrow> bool" where
  "waits m k tid p \<longleftrightarrow> (\<exists>s. fmlookup m k = Some s \<and> fmlookup (str_transactions s) tid = Some p)"

definition stream_ok :: "uint32 \<Rightarrow> Stream \<Rightarrow> bool" where
  "stream_ok k s \<longleftrightarrow> str_streamID s = k \<and> str_handler s = handler_of (str_state s)"

definition wf_waits :: "(uint32, Stream) fmap \<Rightarrow> transaction list \<Rightarrow> bool" where
  "wf_waits m h \<longleftrightarrow> (\<forall>k i p. waits m k i p \<longrightarrow> p < length h \<and> \<not> t_done (h ! p))
     \<and> (\<forall>j k i i' p. waits m j i p \<longrightarrow> waits m k i' p \<longrightarrow> j = k \<and> i = i')"

definition wf_tables :: "tables \<Rightarrow> bool" where
  "wf_tables t \<longleftrightarrow> (case t of (m, h, g) \<Rightarrow>
     int (fcard (fmdom m)) \<le> max 0 (cfg_MaxMessageStreams (ControlState g))
     \<and> fmpred stream_ok m \<and> wf_waits m h)"

lemma wf_tablesD:
  assumes "wf_tables (m, h, g)" and "fmlookup m k = Some s"
  shows "str_streamID s = k" and "str_handler s = handler_of (str_state s)"
    and "wf_transactions (str_transactions s, h)"
proof -
  have "waits m k i p" if "fmlookup (str_transactions s) i = Some p" for i p
    using assms(2) that by (auto simp: waits_def)
  then show "wf_transactions (str_transactions s, h)"
    using assms(1) unfolding wf_tables_def wf_waits_def wf_transactions_def prod.case fst_conv snd_conv by metis
qed (use assms in \<open>auto simp: wf_tables_def stream_ok_def dest: fmpredD\<close>)

lemma wf_tables_streams: "wf_tables (tables c) \<Longrightarrow> wf_streams c"
  by (auto simp: wf_tables_def wf_streams_def tables_def stream_ok_def dest: fmpredD)

lemma wf_waits_fewer:
  assumes "wf_waits m h" and "\<And>k i p. waits m' k i p \<Longrightarrow> waits m k i p"
  shows "wf_waits m' h"
  using assms unfolding wf_waits_def by metis

lemma wf_waits_answered:
  assumes "wf_waits m h" and "waits m k tid p" and "\<And>j i q. waits m' j i q \<Longrightarrow> waits m j i q \<and> (j, i) \<noteq> (k, tid)"
  shows "wf_waits m' (h[p := t])"
proof -
  have "q \<noteq> p" if "waits m' j i q" for j i q
    using assms(1,2) assms(3) [OF that] unfolding wf_waits_def by blast
  then have "q < length (h[p := t]) \<and> \<not> t_done (h[p := t] ! q)" if "waits m' j i q" for j i q
    using assms(1) assms(3) [OF that] that unfolding wf_waits_def by (metis length_list_update nth_list_update_neq)
  moreover have "j = j' \<and> i = i'" if "waits m' j i q" "waits m' j' i' q" for j i q j' i'
    using assms(1) assms(3) that unfolding wf_waits_def by metis
  ultimately show ?thesis unfolding wf_waits_def by metis
qed

lemma waits_fmupd: "waits (fmupd j s m) k i p \<longleftrightarrow>
    (if k = j then fmlookup (str_transactions s) i = Some p else waits m k i p)"
  by (simp add: waits_def)

lemma waits_fmdrop: "waits (fmdrop j m) k i p \<longleftrightarrow> k \<noteq> j \<and> waits m k i p"
  by (simp add: waits_def)

lemma waits_own: "fmlookup m k = Some s \<Longrightarrow> waits m k i p \<longleftrightarrow> fmlookup (str_transactions s) i = Some p"
  by (simp add: waits_def)

lemma fcard_known: "fmlookup m k = Some s \<Longrightarrow> fcard (fmdom (fmupd k s' m)) = fcard (fmdom m)"
  by (simp add: fcard_finsert_if fmdomI)

text \<open>Every such change keeps the tables in order.\<close>

lemma table_change_wf:
  assumes "table_change s t t'" and "wf_tables t"
  shows "wf_tables t'"
  using assms(1)
proof cases
  case unchanged
  then show ?thesis using assms(2) by simp
next
  case (moved st m h g)
  have w: "wf_waits m h" and "fmpred stream_ok m" using assms(2) moved by (auto simp: wf_tables_def)
  moreover have "wf_waits (fmupd (str_streamID s) (in_state st s) m) h"
    using moved by (intro wf_waits_fewer [OF w]) (auto simp: waits_fmupd waits_own in_state_def split: if_splits)
  ultimately show ?thesis
    using assms(2) moved fcard_known [OF moved(4)] by (auto simp: wf_tables_def stream_ok_def in_state_def)
next
  case (created m k g h)
  have w: "wf_waits m h" using assms(2) created by (auto simp: wf_tables_def)
  have "wf_waits (fmupd k (in_state streamStateServerInactive (newStream k)) m) h"
    by (intro wf_waits_fewer [OF w]) (auto simp: waits_fmupd in_state_def newStream_def split: if_splits)
  then show ?thesis
    using assms(2) created by (auto simp: wf_tables_def stream_ok_def in_state_def newStream_def fcard_finsert_if)
next
  case (deleted m h g k)
  have w: "wf_waits m h" using assms(2) deleted by (auto simp: wf_tables_def)
  have "wf_waits (fmdrop k m) h" by (intro wf_waits_fewer [OF w]) (simp add: waits_fmdrop)
  then show ?thesis
    using assms(2) deleted fcard_fmdrop_le [of k m] by (auto simp: wf_tables_def)
next
  case (answered m tid p h g t)
  have w: "wf_waits m h" using assms(2) answered by (auto simp: wf_tables_def)
  have "wf_waits (fmupd (str_streamID s) (s\<lparr>str_transactions := fmdrop tid (str_transactions s)\<rparr>) m) (h[p := t])"
    using answered by (intro wf_waits_answered [OF w, of "str_streamID s" tid])
      (auto simp: waits_fmupd waits_own split: if_splits)
  moreover have "stream_ok (str_streamID s) s" using assms(2) answered by (auto simp: wf_tables_def dest: fmpredD)
  ultimately show ?thesis
    using assms(2) answered fcard_known [OF answered(3)] by (auto simp: wf_tables_def stream_ok_def)
qed

section \<open>The effect of a message\<close>

lemma tables_same: "same_tables c c' \<Longrightarrow> tables c' = tables c"
  by (simp add: same_tables_def tables_def)

lemma tables_replies [simp]:
  "tables (snd (ReplyConnect amf s csid ts props info c)) = tables c"
  "tables (snd (ReplyCreateStream amf s csid ts tid r c)) = tables c"
  "tables (snd (NotifyStatus amf s csid ts st c)) = tables c"
  "tables (snd (WriteWinAckSize amf s csid ts sz c)) = tables c"
  "tables (snd (WriteSetPeerBandwidth amf s csid ts sz limit c)) = tables c"
  "tables (snd (WriteUserCtrl amf s csid ts ev c)) = tables c"
  by (rule tables_same, rule replies_same)+

lemma tables_user [simp]:
  "tables (snd (with_user m c)) = tables c" "tables (snd (with_peer op c)) = tables c"
  by (simp_all add: with_user_def with_peer_def tables_def)

text \<open>Operations that leave the tables alone, in front of one that does not.\<close>

abbreviation at :: "tables \<Rightarrow> 'u connState \<Rightarrow> bool" where
  "at t c \<equiv> tables c = t"

abbreviation changes :: "Stream \<Rightarrow> tables \<Rightarrow> ('u connState, 'a) io \<Rightarrow> bool" where
  "changes s t m \<equiv> triple (at t) m (\<lambda>_ c. table_change s t (tables c)) (\<lambda>c. table_change s t (tables c))"

lemma changes_none: "(\<And>c. tables (snd (m c)) = tables c) \<Longrightarrow> changes s t m"
  by (rule triple_any) (simp add: unchanged)

lemma changes_plain [triples]:
  "changes s t (fail_io e)" "changes s t (panic_io p)" "changes s t (return_io a)" "changes s t (with_user u)"
  "changes s t (with_peer op)"
  by (rule changes_none, simp)+

lemma changes_after:
  assumes "\<And>c. tables (snd (m c)) = tables c" and "\<And>a. changes s t (f a)"
  shows "changes s t (bind_io m f)"
proof (rule triple_bind)
  have "triple (at t) m (\<lambda>_. at t) (at t)" by (rule triple_any) (simp add: assms(1))
  then show "triple (at t) m (\<lambda>_. at t) (\<lambda>c. table_change s t (tables c))"
    by (rule triple_weaken) (auto simp: unchanged)
qed (rule assms(2))

lemma changes_error_reply:
  assumes "changes s t m" and "\<And>c. tables (snd (reply c)) = tables c"
  shows "changes s t (with_error_reply reply m)"
proof (rule triple_any)
  fix c :: "'a connState"
  assume "at t c"
  then have "table_change s t (tables (snd (m c)))" by (rule triple_state [OF assms(1)])
  then show "table_change s t (tables (snd (with_error_reply reply m c)))"
    using assms(2) [of "snd (m c)"] by (auto simp: with_error_reply_def split: prod.splits result.splits)
qed

lemma changes_or_else:
  assumes "changes s t m" and "\<And>c. tables (snd (k c)) = tables c"
  shows "changes s t (or_else m k)"
proof (rule triple_any)
  fix c :: "'a connState"
  assume "at t c"
  then have "table_change s t (tables (snd (m c)))" by (rule triple_state [OF assms(1)])
  then show "table_change s t (tables (snd (or_else m k c)))"
    using assms(2) [of "snd (m c)"] by (auto simp: or_else_def split: prod.splits result.splits)
qed

lemma changes_state:
  assumes "stream_step (str_state s) st" and "fmlookup (fst t) (str_streamID s) = Some s"
  shows "changes s t (ChangeState (str_streamID s) st)"
proof (rule triple_any)
  fix c :: "'a connState"
  assume t: "at t c"
  obtain h where h: "handler_of st = Some h" "st \<noteq> streamStateUnknown"
    using assms(1) by (auto simp: stream_step_def handler_of_def)
  have "tables (snd (ChangeState (str_streamID s) st c)) =
      (fmupd (str_streamID s) (in_state st s) (fst t), fst (snd t), snd (snd t))"
    using t assms(2) h by (auto simp: ChangeState_def update_stream_def in_state_def tables_def)
  moreover have "t = (fst t, fst (snd t), snd (snd t))" by simp
  ultimately show "table_change s t (tables (snd (ChangeState (str_streamID s) st c)))"
    using table_change.moved [OF assms(1), of "fst t"] assms(2) by metis
qed

lemma changes_delete:
  assumes "str_state s = streamStateServerConnected"
  shows "changes s t (streams_Delete k)"
proof (rule triple_any)
  fix c :: "'a connState"
  assume t: "at t c"
  then show "table_change s t (tables (snd (streams_Delete k c)))"
    using assms by (auto simp: streams_Delete_def tables_def split: option.splits intro: table_change.intros)
qed

text \<open>Creating a stream, and taking it back when the client cannot be told.\<close>

lemma createFrom_result:
  "(\<exists>k. createFrom i c = (Ok (newStream k), c\<lparr>c_streams := fmupd k (newStream k) (c_streams c)\<rparr>)
      \<and> fmlookup (c_streams c) k = None \<and> int (fcard (fmdom (c_streams c))) < MaxMessageStreams c)
   \<or> (\<exists>e. createFrom i c = (Err e, c))"
proof (induction "nat (MaxMessageStreams c - i)" arbitrary: i)
  case 0
  then show ?case by (subst (2) createFrom_step) simp
next
  case (Suc n)
  then have step: "i < MaxMessageStreams c" "n = nat (MaxMessageStreams c - (i + 1))" by auto
  show ?case
  proof (cases "is_Ok (fst (streams_Create (word_of_int i) c))")
    case True
    then have "createFrom i c = streams_Create (word_of_int i) c" using step by (subst createFrom_step) simp
    then show ?thesis using True
      by (intro disjI1 exI [of _ "word_of_int i"]) (auto simp: streams_Create_def split: option.splits if_splits)
  next
    case False
    then have "createFrom i c = createFrom (i + 1) c" using step by (subst createFrom_step) simp
    then show ?thesis using Suc.hyps(1) [OF step(2)] by simp
  qed
qed

lemma CreateIfAvailable_cases:
  obtains k where "CreateIfAvailable c = (Ok (newStream k), c\<lparr>c_streams := fmupd k (newStream k) (c_streams c)\<rparr>)"
      and "fmlookup (c_streams c) k = None" and "int (fcard (fmdom (c_streams c))) < MaxMessageStreams c"
  | e where "CreateIfAvailable c = (Err e, c)"
  using createFrom_result [of 0 c] unfolding CreateIfAvailable_def by blast

lemma changes_create:
  assumes "str_state s = streamStateServerConnected"
  shows "changes s t (createStream_reply env s csid ts tid)"
proof (rule triple_any)
  fix c :: "'a connState"
  assume t: "at t c"
  show "table_change s t (tables (snd (createStream_reply env s csid ts tid c)))"
  proof (cases rule: CreateIfAvailable_cases [of c])
    case (1 k)
    define c1 where "c1 = c\<lparr>c_streams := fmupd k (in_state streamStateServerInactive (newStream k)) (c_streams c)\<rparr>"
    define r where "r = ReplyCreateStream (e_amf env) s csid ts tid (Some k) c1"
    have *: "createStream_reply env s csid ts tid c =
        (case r of (Err e, c3) \<Rightarrow> (Err e, snd (streams_Delete k c3)) | r \<Rightarrow> r)"
      unfolding createStream_reply_def 1(1) r_def c1_def
      by (simp add: bind_io_def ChangeState_def handler_of_def update_stream_def in_state_def newStream_def
          split: prod.split result.split)
    have r: "tables (snd r) = tables c1" by (simp add: r_def)
    have made: "table_change s t (tables c1)"
      unfolding t [symmetric] tables_def c1_def using created [OF assms] 1(2,3) by simp
    have "fmdrop k (fmupd k x (c_streams c)) = c_streams c" for x
      using 1(2) by (intro fmap_ext) simp
    then have gone: "tables (snd (streams_Delete k c3)) = t" if "tables c3 = tables c1" for c3 :: "'a connState"
      using that t by (auto simp: streams_Delete_def tables_def c1_def in_state_def newStream_def)
    show ?thesis
      unfolding * using r made gone [of "snd r"] unchanged [of s t] by (auto split: prod.splits result.splits)
  next
    case (2 e)
    define r where "r = ReplyCreateStream (e_amf env) s csid ts tid None c"
    have "tables (snd r) = t" using t by (simp add: r_def)
    then show ?thesis
      using unchanged [of s t]
      by (auto simp: createStream_reply_def 2 r_def [symmetric] split: prod.splits result.splits)
  qed
qed

text \<open>The handlers of the states.\<close>

lemma changes_connect:
  assumes "str_state s = streamStateServerNotConnected" and "fmlookup (fst t) (str_streamID s) = Some s"
  shows "changes s t (connect_onCommand env s csid ts body)"
  using assms
  by (auto simp: connect_onCommand_def stream_step_def split: AMFConvertible.split
      intro!: triples changes_error_reply changes_after changes_state)

lemma changes_connected:
  assumes "str_state s = streamStateServerConnected"
  shows "changes s t (connected_onCommand env s csid ts tid body)"
  using assms
  by (auto simp: connected_onCommand_def split: AMFConvertible.split
      intro!: triples changes_error_reply changes_after changes_create changes_delete)

lemma changes_ask:
  assumes "stream_step (str_state s) st" and "fmlookup (fst t) (str_streamID s) = Some s"
  shows "changes s t (ask_user env s csid ts callback failed started st)"
proof (rule triple_any)
  fix c :: "'a connState"
  assume t: "at t c"
  define c1 where "c1 = snd (with_user callback c)"
  define r where "r = NotifyStatus (e_amf env) s csid ts failed c1"
  have 1: "tables c1 = t" "tables (snd r) = t" using t by (simp_all add: c1_def r_def)
  have "changes s t (bind_io (NotifyStatus (e_amf env) s csid ts started) (\<lambda>_. ChangeState (str_streamID s) st))"
    using assms by (intro changes_after changes_state) simp_all
  note go = triple_state [OF this 1(1)]
  have "with_user callback c = (fst (with_user callback c), c1)" by (simp add: c1_def)
  then show "table_change s t (tables (snd (ask_user env s csid ts callback failed started st c)))"
    using go 1 unchanged [of s t]
    by (cases "fst (with_user callback c)"; cases r; cases "fst r") (auto simp: ask_user_def r_def [symmetric])
qed

lemma changes_inactive:
  assumes "str_state s = streamStateServerInactive" and "fmlookup (fst t) (str_streamID s) = Some s"
  shows "changes s t (inactive_onCommand env s csid ts body)"
  using assms
  by (auto simp: inactive_onCommand_def stream_step_def split: AMFConvertible.split intro!: triples changes_ask)

lemma changes_handlers:
  "changes s t (onMessage env s ts msg)" "changes s t (onData env s ts body)"
  by (auto simp: onMessage_def onData_def publish_onMessage_def publish_onData_def
      split: option.split message.split AMFConvertible.split intro!: triples)

lemma changes_onCommand:
  assumes "str_handler s = handler_of (str_state s)" and "fmlookup (fst t) (str_streamID s) = Some s"
  shows "changes s t (onCommand env s csid ts tid body)"
proof -
  have "changes s t (client_onCommand body)"
    by (auto simp: client_onCommand_def split: AMFConvertible.split intro!: triples)
  then show ?thesis
    using assms changes_connect [of s t] changes_connected [of s t] changes_inactive [of s t]
    by (cases "str_state s") (auto simp: onCommand_def handler_of_def intro!: triples)
qed

lemma handleReply_cases:
  assumes "wf_transactions (tb, h)"
  shows "(\<exists>p t. fmlookup tb tid = Some p \<and> handleReply name tid enc body (tb, h) = (Ok (), (fmdrop tid tb, h[p := t])))
    \<or> fmlookup tb tid = None \<and> (\<exists>e. handleReply name tid enc body (tb, h) = (Err e, (tb, h)))"
proof (cases "fmlookup tb tid")
  case (Some p)
  then show ?thesis
    using reply_then_delete(1) [OF assms Some]
    by (auto simp: handleReply_def transactions_At_def transactions_Delete_def bind_io_def wrap_io_def Let_def)
qed (simp add: handleReply_def transactions_At_def bind_io_def wrap_io_def)

lemma changes_reply:
  assumes "wf_tables t" and "fmlookup (fst t) (str_streamID s) = Some s"
  shows "changes s t (with_transactions (str_streamID s) (handleReply name tid enc body))"
proof (rule triple_any)
  fix c :: "'a connState"
  assume c: "at t c"
  then have s: "fmlookup (c_streams c) (str_streamID s) = Some s" using assms(2) by (auto simp: tables_def)
  have "wf_transactions (str_transactions s, c_heap c)"
    using wf_tablesD(3) [OF _ s] assms(1) c unfolding tables_def by metis
  from handleReply_cases [OF this, of tid name enc body]
  show "table_change s t (tables (snd (with_transactions (str_streamID s) (handleReply name tid enc body) c)))"
  proof
    assume "\<exists>p t. fmlookup (str_transactions s) tid = Some p \<and> handleReply name tid enc body (str_transactions s, c_heap c) =
        (Ok (), (fmdrop tid (str_transactions s), (c_heap c)[p := t]))"
    then show ?thesis using s unfolding c [symmetric]
      by (auto simp: with_transactions_def Let_def tables_def intro: answered)
  next
    assume "fmlookup (str_transactions s) tid = None \<and>
        (\<exists>e. handleReply name tid enc body (str_transactions s, c_heap c) = (Err e, (str_transactions s, c_heap c)))"
    moreover have "fmupd (str_streamID s) s (c_streams c) = c_streams c" using s by (intro fmap_ext) auto
    ultimately show ?thesis using s unfolding c [symmetric]
      by (auto simp: with_transactions_def Let_def tables_def intro: unchanged)
  qed
qed

lemma changes_new_decoder: "(\<And>a. changes s t (f a)) \<Longrightarrow> changes s t (bind_io (NewAMFDecoder enc) f)"
  by (rule changes_after) (simp_all add: NewAMFDecoder_def)

lemma changes_decoded:
  assumes "\<And>v r. changes s t (f v r)"
  shows "changes s t (\<lambda>c. case d of (Ok v, r) \<Rightarrow> f v r c | (Err e, _) \<Rightarrow> (Err e, c) | (Panic p, _) \<Rightarrow> (Panic p, c))"
proof (cases d)
  case (Pair x r)
  then show ?thesis using assms by (cases x) (auto simp: triple_def unchanged)
qed

lemma changes_handle:
  assumes "wf_tables t" and "fmlookup (fst t) (str_streamID s) = Some s"
  shows "changes s t (stream_handle env s csid ts msg)"
proof -
  have h: "str_handler s = handler_of (str_state s)"
    using wf_tablesD(2) [of "fst t" "fst (snd t)" "snd (snd t)"] assms by simp
  have data: "changes s t (handleData env s ts name enc body)" for name enc body
    unfolding handleData_def
    by (intro changes_new_decoder changes_decoded changes_or_else changes_handlers) simp
  have command: "changes s t (handleCommand env s csid ts name tid enc body)" for name tid enc body
    unfolding handleCommand_def
    by (auto intro!: changes_reply assms changes_new_decoder changes_decoded changes_or_else changes_onCommand h)
  have other: "changes s t (or_else (onMessage env s ts msg) (with_user (OnUnknownMessage (e_handler env) ts msg)))" for msg
    by (intro changes_or_else changes_handlers) simp
  show ?thesis
    using data command other by (cases msg) (auto simp: stream_handle_def intro!: triples)
qed

text \<open>Whatever the message, the stream it is for and the user's answers: the tables stay in order.\<close>

lemma stream_handle_change:
  assumes "wf_tables (tables c)" and "fmlookup (c_streams c) (str_streamID s) = Some s"
  shows "table_change s (tables c) (tables (snd (stream_handle env s csid ts msg c)))"
    and "wf_tables (tables (snd (stream_handle env s csid ts msg c)))"
proof -
  show "table_change s (tables c) (tables (snd (stream_handle env s csid ts msg c)))"
    by (rule triple_state [OF changes_handle [OF assms(1)]]) (use assms(2) in \<open>simp_all add: tables_def\<close>)
  from table_change_wf [OF this assms(1)]
  show "wf_tables (tables (snd (stream_handle env s csid ts msg c)))" .
qed

section \<open>The control states\<close>

text \<open>Only the two control messages change the control state of the peer, nothing that of ourselves.\<close>

definition controls :: "'u connState \<Rightarrow> StreamControlState \<times> StreamControlState \<times> uint32 \<times> ConnConfig" where
  "controls c = (c_self c, c_peer c, c_ignored c, c_config c)"

lemma controls_same: "same_tables c c' \<Longrightarrow> controls c' = controls c"
  by (simp add: same_tables_def controls_def)

lemma controls_replies [simp]:
  "controls (snd (ReplyConnect amf s csid ts props info c)) = controls c"
  "controls (snd (ReplyCreateStream amf s csid ts tid r c)) = controls c"
  "controls (snd (NotifyStatus amf s csid ts st c)) = controls c"
  "controls (snd (WriteWinAckSize amf s csid ts sz c)) = controls c"
  "controls (snd (WriteSetPeerBandwidth amf s csid ts sz limit c)) = controls c"
  "controls (snd (WriteUserCtrl amf s csid ts ev c)) = controls c"
  by (rule controls_same, rule replies_same)+

lemma controls_tables [simp]:
  "controls (snd (with_user m c)) = controls c"
  "controls (snd (streams_Create k c)) = controls c"
  "controls (snd (streams_Delete k c)) = controls c"
  "controls (snd (ChangeState k st c)) = controls c"
  "controls (snd (with_transactions k op c)) = controls c"
  by (auto simp: controls_def with_user_def streams_Create_def streams_Delete_def ChangeState_def
      update_stream_def with_transactions_def Let_def split: option.splits)

lemma controls_create [simp]: "controls (snd (CreateIfAvailable c)) = controls c"
  by (cases rule: CreateIfAvailable_cases [of c]) (simp_all add: controls_def)

lemma controls_bind:
  "(\<And>c. controls (snd (m c)) = controls c) \<Longrightarrow> (\<And>a c. controls (snd (f a c)) = controls c)
    \<Longrightarrow> controls (snd (bind_io m f c)) = controls c"
  by (rule bind_io_pres)

lemma controls_error_reply:
  assumes "\<And>c. controls (snd (m c)) = controls c" and "\<And>c. controls (snd (reply c)) = controls c"
  shows "controls (snd (with_error_reply reply m c)) = controls c"
  using assms(1) [of c] assms(2) [of "snd (m c)"]
  by (auto simp: with_error_reply_def split: prod.splits result.splits)

lemma controls_or_else:
  assumes "\<And>c. controls (snd (m c)) = controls c" and "\<And>c. controls (snd (k c)) = controls c"
  shows "controls (snd (or_else m k c)) = controls c"
  using assms(1) [of c] assms(2) [of "snd (m c)"] by (auto simp: or_else_def split: prod.splits result.splits)

lemma controls_createStream [simp]: "controls (snd (createStream_reply env s csid ts tid c)) = controls c"
proof -
  define r :: "Stream \<Rightarrow> ('a connState, unit) io" where "r ns = bind_io (ChangeState (str_streamID ns) streamStateServerInactive) (\<lambda>_ c2.
            (case ReplyCreateStream (e_amf env) s csid ts tid (Some (str_streamID ns)) c2 of
               (Err e, c3) \<Rightarrow> (Err e, snd (streams_Delete (str_streamID ns) c3))
             | r \<Rightarrow> r))" for ns
  have 1: "controls (snd (r ns c)) = controls c" for ns c
    unfolding r_def
  proof (rule controls_bind)
    fix c :: "'a connState"
    show "controls (snd (case ReplyCreateStream (e_amf env) s csid ts tid (Some (str_streamID ns)) c of
               (Err e, c3) \<Rightarrow> (Err e, snd (streams_Delete (str_streamID ns) c3)) | r \<Rightarrow> r)) = controls c"
      using controls_replies(2) [of "e_amf env" s csid ts tid "Some (str_streamID ns)" c]
      by (auto split: prod.splits result.splits simp del: controls_replies)
  qed simp
  have 2: "controls (snd (case ReplyCreateStream (e_amf env) s csid ts tid None c of
      (Err e1, c2) \<Rightarrow> (Err (Wrapf e ''Failed to reply response: Err = %+v''), c2) | r \<Rightarrow> r)) = controls c" for e and c :: "'a connState"
    using controls_replies(2) [of "e_amf env" s csid ts tid None c]
    by (auto split: prod.splits result.splits simp del: controls_replies)
  show ?thesis
    using controls_create [of c] unfolding createStream_reply_def r_def [symmetric]
    by (auto simp: 1 2 split: prod.splits result.splits simp del: controls_create)
qed

lemma controls_ask [simp]: "controls (snd (ask_user env s csid ts callback failed started st c)) = controls c"
proof -
  have 1: "controls (snd (bind_io (NotifyStatus (e_amf env) s csid ts started) (\<lambda>_. ChangeState (str_streamID s) st) c)) = controls c"
    for c :: "'a connState"
    by (rule controls_bind) simp_all
  have 2: "controls (snd (case NotifyStatus (e_amf env) s csid ts failed c of
             (Err e1, c2) \<Rightarrow> (Err (Wrapf e ''Failed to reply response: Err = %+v''), c2)
           | (Panic p, c2) \<Rightarrow> (Panic p, c2) | (Ok _, c2) \<Rightarrow> (Err e, c2))) = controls c" for e and c :: "'a connState"
    using controls_replies(3) [of "e_amf env" s csid ts failed c]
    by (auto split: prod.splits result.splits simp del: controls_replies)
  show ?thesis
    using controls_tables(1) [of callback c] unfolding ask_user_def
    by (auto simp: 1 2 split: prod.splits result.splits simp del: controls_tables)
qed

lemma controls_handlers:
  "controls (snd (onMessage env s ts msg c)) = controls c"
  "controls (snd (onData env s ts body c)) = controls c"
  "controls (snd (onCommand env s csid ts tid body c)) = controls c"
  by (auto simp: onMessage_def onData_def onCommand_def publish_onMessage_def publish_onData_def
      connect_onCommand_def connected_onCommand_def inactive_onCommand_def client_onCommand_def
      split: option.split message.split AMFConvertible.split stateHandler.split
      intro!: controls_error_reply controls_bind)

lemma controls_handle:
  "controls (snd (stream_handle env s csid ts msg c)) =
     (case msg of
        MsgSetChunkSize sz \<Rightarrow> (c_self c, snd (SetChunkSize sz (c_peer c)), c_ignored c, c_config c)
      | MsgWinAckSize sz \<Rightarrow> (c_self c, snd (SetAckWindowSize sz (c_peer c)), c_ignored c, c_config c)
      | _ \<Rightarrow> controls c)"
proof -
  have new: "controls (snd (NewAMFDecoder enc c)) = controls c" for enc and c :: "'a connState"
    by (simp add: NewAMFDecoder_def)
  have decoded: "controls (snd (case d of (Ok v, r) \<Rightarrow> f v r c | (Err e, _) \<Rightarrow> (Err e, c) | (Panic p, _) \<Rightarrow> (Panic p, c)))
      = controls c" if "\<And>v r. controls (snd (f v r c)) = controls c"
    for d :: "'v result \<times> 'r" and f :: "'v \<Rightarrow> 'r \<Rightarrow> ('a connState, unit) io" and c
    using that by (auto split: prod.splits result.splits)
  have "controls (snd (handleData env s ts name enc body c)) = controls c" for name enc body
    unfolding handleData_def
    by (intro controls_bind new decoded controls_or_else controls_handlers controls_tables)
  moreover have "controls (snd (handleCommand env s csid ts name tid enc body c)) = controls c" for name tid enc body
    unfolding handleCommand_def
    by (auto intro!: controls_bind new decoded controls_or_else controls_handlers)
  moreover have "controls (snd (or_else (onMessage env s ts m) (with_user (OnUnknownMessage (e_handler env) ts m)) c)) = controls c" for m
    by (intro controls_or_else controls_handlers controls_tables)
  ultimately show ?thesis
    by (auto simp: stream_handle_def controls_def with_peer_def split: message.split)
qed

end
