(* ===== verification/Conn.thy ===== *)
theory Conn
  imports Stream_Handler Chunk_Read Handshake
begin

text \<open>
  A connection (\<^verbatim>\<open>conn.go\<close>): its configuration, the handling of one message, the loop over the
  messages the peer sends, and what the two kinds of connection do before that loop
  (\<^verbatim>\<open>server_conn.go\<close>, \<^verbatim>\<open>client_conn.go\<close>, \<^verbatim>\<open>client.go\<close>).
\<close>

section \<open>Configuration\<close>

text \<open>\<^verbatim>\<open>ConnConfig\<close> as the user gives it; nil pointers are \<open>None\<close>. The logger is left out.\<close>

record 'u userConfig =
  uc_Handler :: "'u Handler option"
  uc_SkipHandshakeVerification :: bool
  uc_IgnoreMessagesOnNotExistStream :: bool
  uc_IgnoreMessagesOnNotExistStreamThreshold :: uint32
  uc_ReaderBufferSize :: int
  uc_WriterBufferSize :: int
  uc_ControlState :: StreamControlStateConfig
  uc_RPreset :: "(NetConnectionConnectResultProperties \<times> (string \<times> goValue) list) option"

definition zero_userConfig :: "'u userConfig" where
  "zero_userConfig = \<lparr>uc_Handler = None, uc_SkipHandshakeVerification = False,
     uc_IgnoreMessagesOnNotExistStream = False, uc_IgnoreMessagesOnNotExistStreamThreshold = 0,
     uc_ReaderBufferSize = 0, uc_WriterBufferSize = 0, uc_ControlState = zero_config, uc_RPreset = None\<rparr>"

definition ConnConfig_normalize :: "'u userConfig \<Rightarrow> 'u userConfig" where
  "ConnConfig_normalize cb = cb\<lparr>
     uc_Handler := (case uc_Handler cb of None \<Rightarrow> Some DefaultHandler | h \<Rightarrow> h),
     uc_ReaderBufferSize := (if uc_ReaderBufferSize cb = 0 then 4 * 1024 else uc_ReaderBufferSize cb),
     uc_WriterBufferSize := (if uc_WriterBufferSize cb = 0 then 4 * 1024 else uc_WriterBufferSize cb),
     uc_ControlState := config_normalize (uc_ControlState cb)\<rparr>"

text \<open>The part the connection consults later, with the default of the response preset.\<close>

definition conn_config :: "'u userConfig \<Rightarrow> ConnConfig" where
  "conn_config cb = \<lparr>IgnoreMessagesOnNotExistStream = uc_IgnoreMessagesOnNotExistStream cb,
     IgnoreMessagesOnNotExistStreamThreshold = uc_IgnoreMessagesOnNotExistStreamThreshold cb,
     ControlState = uc_ControlState cb,
     RPresetProperties = (case uc_RPreset cb of None \<Rightarrow> defaultProperties | Some (ps, _) \<Rightarrow> ps),
     RPresetData = (case uc_RPreset cb of None \<Rightarrow> defaultData | Some (_, d) \<Rightarrow> d)\<rparr>"

section \<open>The state of the message loop\<close>

text \<open>
  The reading half of the chunk layer, and the rest of the connection. The peer's control state
  belongs to both; an operation on the rest borrows it from the reading half and returns it.
\<close>

type_synonym 'u connection = "chunkReadSide \<times> 'u connState"

definition on_conn :: "('u connState, 'a) io \<Rightarrow> ('u connection, 'a) io" where
  "on_conn m st =
     (let r = m ((snd st)\<lparr>c_peer := peerState (fst st)\<rparr>) in
      (fst r, ((fst st)\<lparr>peerState := c_peer (snd r)\<rparr>, snd r)))"

definition newConn :: "netConn \<Rightarrow> 'u userConfig option \<Rightarrow> 'u \<Rightarrow> 'u connection" where
  "newConn rwc config u =
     (let cfg = ConnConfig_normalize (case config of None \<Rightarrow> zero_userConfig | Some cfg \<Rightarrow> cfg);
          scs = NewStreamControlState (Some (uc_ControlState cfg)) in
      (\<lparr>rx_r = \<lparr>csr_reader = rwc, totalReadBytes = 0, fragmentReadBytes = 0\<rparr>, readers = fmempty,
        peerState = scs, rx_config = uc_ControlState cfg\<rparr>,
       \<lparr>c_streams = fmempty, c_heap = [], c_self = scs, c_peer = scs, c_sent = [], c_faults = [],
        c_ignored = 0, c_config = conn_config cfg, c_user = u\<rparr>))"

section \<open>One message\<close>

definition handleMessage :: "'u env \<Rightarrow> int \<Rightarrow> uint32 \<Rightarrow> ChunkMessage \<Rightarrow> ('u connState, unit) io" where
  "handleMessage env csid ts cmsg c =
     (case streams_At (cm_StreamID cmsg) c of
        (Ok s, c1) \<Rightarrow>
          (case stream_handle env s csid ts (cm_Message cmsg) c1 of
             (Err (UnknownDataBodyDecodeError _ _), c2) \<Rightarrow> (Ok (), c2)
           | (Err (UnknownCommandBodyDecodeError _ _ _), c2) \<Rightarrow> (Ok (), c2)
           | r \<Rightarrow> r)
      | (Err e, c1) \<Rightarrow>
          (if IgnoreMessagesOnNotExistStream (c_config c1)
              \<and> c_ignored c1 < IgnoreMessagesOnNotExistStreamThreshold (c_config c1)
           then (Ok (), c1\<lparr>c_ignored := c_ignored c1 + 1\<rparr>)
           else (Err (Errorf ''Specified stream is not created yet: StreamID = %d'' [uint (cm_StreamID cmsg)]), c1))
      | (Panic p, c1) \<Rightarrow> (Panic p, c1))"

section \<open>The loop\<close>

text \<open>\<^verbatim>\<open>conn.streamer.controlStreamWriter = ctrlStream.Write\<close>\<close>

definition controlStreamWrite :: "'u env \<Rightarrow> 'u connState controlStreamWriter" where
  "controlStreamWrite env csid ts msg = stream_Write (e_amf env) (newStream ControlStreamID) csid ts msg"

text \<open>
  Before each message the loop looks whether the write loop has ended. \<open>ended = Some (n, e)\<close> says
  that it is seen to have ended, with the error \<open>e\<close>, \<open>n\<close> messages from now.
\<close>

definition oneMessage :: "'u env \<Rightarrow> ('u connection, unit) io" where
  "oneMessage env =
     bind_io (streamer_Read (e_amf env) (controlStreamWrite env)) (\<lambda>(csid, ts, cmsg).
       on_conn (handleMessage env csid ts cmsg))"

abbreviation conn_left :: "'u connection \<Rightarrow> nat" where
  "conn_left st \<equiv> rx_left (fst st)"

lemma oneMessage_consumes:
  assumes "fst (oneMessage env st) = Ok ()"
  shows "conn_left (snd (oneMessage env st)) < conn_left st"
proof -
  let ?ctl = "controlStreamWrite env"
  obtain csid where csid: "fst (newChunkReader ?ctl st) = Ok csid"
    using assms by (auto simp: oneMessage_def streamer_Read_def bind_io_def split: result.splits)
  have keep: "rx_r (snd (decodeFrom amf k s)) = rx_r s" for amf k s
    by (auto simp: decodeFrom_def split: option.splits prod.splits)
  have "rx_r (fst (snd (oneMessage env st))) = rx_r (fst (snd (newChunkReader ?ctl st)))"
    using csid by (auto simp: oneMessage_def streamer_Read_def bind_io_def with_rx_def on_conn_def Let_def keep
        split: result.splits prod.splits)
  then show ?thesis using newChunkReader_consumes [OF csid] by simp
qed

function runHandleMessageLoop :: "'u env \<Rightarrow> (nat \<times> rtmp_error option) option \<Rightarrow> ('u connection, unit) io" where
  "runHandleMessageLoop env ended st =
     (case ended of
        Some (0, e) \<Rightarrow> (case e of None \<Rightarrow> Ok () | Some e \<Rightarrow> Err e, st)
      | _ \<Rightarrow>
          (case fst (oneMessage env st) of
             Ok _ \<Rightarrow> runHandleMessageLoop env (map_option (\<lambda>(n, e). (n - 1, e)) ended) (snd (oneMessage env st))
           | Err e \<Rightarrow> (Err e, snd (oneMessage env st))
           | Panic p \<Rightarrow> (Panic p, snd (oneMessage env st))))"
  by pat_completeness auto
termination
  by (relation "measure (\<lambda>(env, ended, st). conn_left st)") (auto dest: oneMessage_consumes)

declare runHandleMessageLoop.simps [simp del]

definition handleMessageLoop :: "'u env \<Rightarrow> (nat \<times> rtmp_error option) option \<Rightarrow> ('u connection, unit) io" where
  "handleMessageLoop env ended st = recovered (runHandleMessageLoop env ended st)"

section \<open>What the loop keeps\<close>

text \<open>
  Tables in order, a peer state within its bounds (in particular, a chunk size that is not zero),
  no more chunk streams than configured, and no more ignored messages than the threshold.
\<close>

definition conn_ok :: "'u connection \<Rightarrow> bool" where
  "conn_ok st \<longleftrightarrow> wf_tables (tables (snd st)) \<and> wf_control (peerState (fst st)) \<and> readers_within (fst st)
     \<and> c_ignored (snd st) \<le> IgnoreMessagesOnNotExistStreamThreshold (c_config (snd st))"

lemma decoded_chunk_size:
  assumes "fst (message_Decode amf ty b) = Ok (MsgSetChunkSize sz)"
  shows "0 < sz"
proof -
  have "fst (decodeSetChunkSize b) = Ok (MsgSetChunkSize sz)"
    using assms
    by (auto simp: message_Decode_def decode_message_defs bind_io_def Let_def split: result.splits if_splits prod.splits)
  then show ?thesis
    by (auto simp: decodeSetChunkSize_def bind_io_def Let_def word_gt_0 split: result.splits if_splits)
qed

lemma streamer_Read_chunk_size:
  assumes "streamer_Read amf ctl st = (Ok (csid, ts, cmsg), st')" and "cm_Message cmsg = MsgSetChunkSize sz"
  shows "0 < sz"
proof -
  obtain k st1 where "fst (decodeFrom amf k st1) = Ok (csid, ts, cmsg)"
    using assms(1) unfolding streamer_Read_def by (elim bind_io_OkE) (auto simp: with_rx_def)
  then show ?thesis
    using assms(2) decoded_chunk_size [of amf _ _ sz]
    by (auto simp: decodeFrom_def split: option.splits prod.splits result.splits) (metis fst_conv)
qed

lemma handleMessage_tables:
  assumes "wf_tables (tables c)"
  shows "wf_tables (tables (snd (handleMessage env csid ts cmsg c)))"
proof (cases "fmlookup (c_streams c) (cm_StreamID cmsg)")
  case None
  then show ?thesis using assms by (auto simp: handleMessage_def streams_At_def tables_def)
next
  case (Some s)
  then have id: "str_streamID s = cm_StreamID cmsg"
    using wf_tablesD(1) assms unfolding tables_def by blast
  have "tables (snd (handleMessage env csid ts cmsg c)) = tables (snd (stream_handle env s csid ts (cm_Message cmsg) c))"
    using Some by (auto simp: handleMessage_def streams_At_def split: prod.splits result.splits rtmp_error.splits)
  then show ?thesis using stream_handle_change(2) [OF assms, of s] Some id by simp
qed

lemma handleMessage_controls:
  fixes env :: "'u env" and csid :: int and ts :: uint32
  assumes "\<And>sz. cm_Message cmsg = MsgSetChunkSize sz \<Longrightarrow> 0 < sz" and "wf_control (c_peer c)"
    and "c_ignored c \<le> IgnoreMessagesOnNotExistStreamThreshold (c_config c)"
  defines "c' \<equiv> snd (handleMessage env csid ts cmsg c)"
  shows "wf_control (c_peer c')" and "c_ignored c' \<le> IgnoreMessagesOnNotExistStreamThreshold (c_config c')"
    and "c_config c' = c_config c" and "c_self c' = c_self c"
proof -
  have "wf_control (c_peer c') \<and> c_ignored c' \<le> IgnoreMessagesOnNotExistStreamThreshold (c_config c')
    \<and> c_config c' = c_config c \<and> c_self c' = c_self c"
  proof (cases "fmlookup (c_streams c) (cm_StreamID cmsg)")
    case None
    have "c_ignored c < n \<Longrightarrow> c_ignored c + 1 \<le> n" for n by (simp add: inc_le)
    then show ?thesis using assms(2,3) None
      by (auto simp: c'_def handleMessage_def streams_At_def)
  next
    case (Some s)
    have "controls c' = controls (snd (stream_handle env s csid ts (cm_Message cmsg) c))"
      using Some by (auto simp: c'_def handleMessage_def streams_At_def split: prod.splits result.splits rtmp_error.splits)
    also note controls_handle
    finally show ?thesis
      using assms(1-3) SetChunkSize_wf [OF assms(2)] SetAckWindowSize_wf [OF assms(2)]
      by (auto simp: controls_def split: message.splits)
  qed
  then show "wf_control (c_peer c')" "c_ignored c' \<le> IgnoreMessagesOnNotExistStreamThreshold (c_config c')"
    "c_config c' = c_config c" "c_self c' = c_self c" by blast+
qed

text \<open>Reading a message leaves everything but the reader and the log of what was sent alone.\<close>

lemma streamer_Read_keeps:
  "rx_keeps (fst st) (fst (snd (streamer_Read (e_amf env) (controlStreamWrite env) st)))"
  "same_tables (snd st) (snd (snd (streamer_Read (e_amf env) (controlStreamWrite env) st)))"
proof -
  let ?read = "newChunkReader (controlStreamWrite env) st"
  have decode: "rx_keeps s (snd (decodeFrom amf k s))" for amf k s
    by (auto simp: decodeFrom_def rx_keeps_def readers_within_def fcard_finsert_if fmdomI
        split: option.splits prod.splits)
  show "rx_keeps (fst st) (fst (snd (streamer_Read (e_amf env) (controlStreamWrite env) st)))"
    using newChunkReader_keeps [of st "controlStreamWrite env"]
    by (auto simp: streamer_Read_def bind_io_def with_rx_def intro: rx_keeps_trans decode split: result.split)
  have "same_tables (snd st) (snd (snd ?read))"
    by (rule newChunkReader_other)
      (auto simp: controlStreamWrite_def stream_Write_same intro: same_tables_trans)
  then show "same_tables (snd st) (snd (snd (streamer_Read (e_amf env) (controlStreamWrite env) st)))"
    by (auto simp: streamer_Read_def bind_io_def with_rx_def split: result.split)
qed

lemma oneMessage_ok:
  assumes "conn_ok st"
  shows "conn_ok (snd (oneMessage env st))" and "c_config (snd (snd (oneMessage env st))) = c_config (snd st)"
    and "c_self (snd (snd (oneMessage env st))) = c_self (snd st)"
proof -
  define st1 where "st1 = snd (streamer_Read (e_amf env) (controlStreamWrite env) st)"
  have same: "same_tables (snd st) (snd st1)" and keeps: "rx_keeps (fst st) (fst st1)"
    using streamer_Read_keeps [of st env] by (simp_all add: st1_def)
  have ok1: "conn_ok st1"
    using assms same keeps tables_same [OF same] by (auto simp: conn_ok_def rx_keeps_def same_tables_def)
  have "conn_ok (snd (oneMessage env st)) \<and> c_config (snd (snd (oneMessage env st))) = c_config (snd st)
    \<and> c_self (snd (snd (oneMessage env st))) = c_self (snd st)"
  proof (cases "fst (streamer_Read (e_amf env) (controlStreamWrite env) st)")
    case (Ok r)
    obtain csid ts cmsg where r: "r = (csid, ts, cmsg)" by (cases r)
    have read: "streamer_Read (e_amf env) (controlStreamWrite env) st = (Ok (csid, ts, cmsg), st1)"
      using Ok r by (simp add: st1_def prod_eq_iff)
    define c where "c = (snd st1)\<lparr>c_peer := peerState (fst st1)\<rparr>"
    have "wf_tables (tables c)" using ok1 by (simp add: c_def conn_ok_def tables_def)
    note t = handleMessage_tables [OF this, of env csid ts cmsg]
    have "wf_control (c_peer c)" "c_ignored c \<le> IgnoreMessagesOnNotExistStreamThreshold (c_config c)"
      using ok1 by (simp_all add: c_def conn_ok_def)
    note h = handleMessage_controls [of cmsg, OF streamer_Read_chunk_size [OF read] this, where env = env and csid = csid and ts = ts]
    have "snd (oneMessage env st) = ((fst st1)\<lparr>peerState := c_peer (snd (handleMessage env csid ts cmsg c))\<rparr>,
        snd (handleMessage env csid ts cmsg c))"
      by (simp add: oneMessage_def bind_io_def read on_conn_def Let_def c_def)
    then show ?thesis
      using t h ok1 same by (simp add: conn_ok_def readers_within_def c_def same_tables_def)
  qed (use ok1 same in \<open>simp_all add: oneMessage_def bind_io_def st1_def [symmetric] same_tables_def\<close>)
  then show "conn_ok (snd (oneMessage env st))" "c_config (snd (snd (oneMessage env st))) = c_config (snd st)"
    "c_self (snd (snd (oneMessage env st))) = c_self (snd st)" by blast+
qed

lemma loop_stopped:
  "runHandleMessageLoop env (Some (0, e)) st = (case e of None \<Rightarrow> Ok () | Some e \<Rightarrow> Err e, st)"
  by (simp add: runHandleMessageLoop.simps)

lemma loop_step:
  assumes "\<And>e. ended \<noteq> Some (0, e)"
  shows "runHandleMessageLoop env ended st =
     (case fst (oneMessage env st) of
        Ok _ \<Rightarrow> runHandleMessageLoop env (map_option (\<lambda>(n, e). (n - 1, e)) ended) (snd (oneMessage env st))
      | Err e \<Rightarrow> (Err e, snd (oneMessage env st))
      | Panic p \<Rightarrow> (Panic p, snd (oneMessage env st)))"
  using assms by (subst runHandleMessageLoop.simps) (auto split: option.split nat.split prod.split)

lemma loop_invariant:
  assumes step: "\<And>st. I st \<Longrightarrow> I (snd (oneMessage env st))" and "I st"
  shows "I (snd (runHandleMessageLoop env ended st))"
  using assms(2)
proof (induction "conn_left st" arbitrary: ended st rule: less_induct)
  case less
  show ?case
  proof (cases "\<exists>e. ended = Some (0, e)")
    case True
    then show ?thesis using less.prems by (auto simp: loop_stopped)
  next
    case False
    then have "runHandleMessageLoop env ended st =
      (case fst (oneMessage env st) of
         Ok _ \<Rightarrow> runHandleMessageLoop env (map_option (\<lambda>(n, e). (n - 1, e)) ended) (snd (oneMessage env st))
       | Err e \<Rightarrow> (Err e, snd (oneMessage env st))
       | Panic p \<Rightarrow> (Panic p, snd (oneMessage env st)))"
      by (intro loop_step) auto
    then show ?thesis
      using less.hyps oneMessage_consumes [of env st] step [OF less.prems]
      by (auto split: result.split)
  qed
qed

lemma loop_ok: "conn_ok st \<Longrightarrow> conn_ok (snd (runHandleMessageLoop env ended st))"
  by (rule loop_invariant) (rule oneMessage_ok(1))

lemma handleMessageLoop_ok: "conn_ok st \<Longrightarrow> conn_ok (snd (handleMessageLoop env ended st))"
  by (simp add: handleMessageLoop_def recovered_def loop_ok)

lemma newConn_ok:
  assumes "wf_config (config_normalize (uc_ControlState (case config of None \<Rightarrow> zero_userConfig | Some cfg \<Rightarrow> cfg)))"
  shows "conn_ok (newConn rwc config u)"
  using assms wf_New [of "Some (config_normalize (uc_ControlState (case config of None \<Rightarrow> zero_userConfig | Some cfg \<Rightarrow> cfg)))"]
  by (auto simp: newConn_def conn_ok_def Let_def ConnConfig_normalize_def tables_def wf_tables_def wf_waits_def
      waits_def readers_within_def conn_config_def fcard.rep_eq)

text \<open>The loop returns nil only when the write loop ended without an error; any finite input ends it.\<close>

lemma loop_nil:
  assumes "fst (runHandleMessageLoop env ended st) = Ok ()"
  shows "\<exists>n. ended = Some (n, None)"
  using assms
proof (induction "conn_left st" arbitrary: ended st rule: less_induct)
  case less
  show ?case
  proof (cases "\<exists>e. ended = Some (0, e)")
    case True
    then show ?thesis using less.prems by (auto simp: loop_stopped split: option.splits)
  next
    case False
    then have step: "runHandleMessageLoop env ended st =
      (case fst (oneMessage env st) of
         Ok _ \<Rightarrow> runHandleMessageLoop env (map_option (\<lambda>(n, e). (n - 1, e)) ended) (snd (oneMessage env st))
       | Err e \<Rightarrow> (Err e, snd (oneMessage env st))
       | Panic p \<Rightarrow> (Panic p, snd (oneMessage env st)))"
      by (intro loop_step) auto
    from less.prems obtain u where "fst (oneMessage env st) = Ok u"
      unfolding step by (cases "fst (oneMessage env st)") auto
    then have one: "fst (oneMessage env st) = Ok ()" by simp
    have "\<exists>n. map_option (\<lambda>(n, e). (n - 1, e)) ended = Some (n, None)"
      using less.prems by (intro less.hyps [OF oneMessage_consumes [OF one]]) (simp add: step one)
    then show ?thesis by auto
  qed
qed

lemma handleMessageLoop_nil:
  assumes "fst (handleMessageLoop env ended st) = Ok ()"
  shows "\<exists>n. ended = Some (n, None)"
  using assms loop_nil [of env ended st] by (auto simp: handleMessageLoop_def recovered_def split: result.splits)

section \<open>Both kinds of connection\<close>

text \<open>
  The control stream, in the state in which the handler of the side starts. Its creation cannot
  fail on a new connection unless the configuration allows no streams at all.
\<close>

definition createControlStream :: "streamState \<Rightarrow> ('u connState, unit) io" where
  "createControlStream st =
     bind_io (wrap_io ''Failed to create control stream'' (streams_Create ControlStreamID)) (\<lambda>s.
       ChangeState (str_streamID s) st)"

text \<open>After the handshake the connection reads on where the handshake stopped.\<close>

definition resume :: "hsWorld \<Rightarrow> 'u connection \<Rightarrow> 'u connection" where
  "resume w st = ((fst st)\<lparr>rx_r := (rx_r (fst st))\<lparr>csr_reader := hs_r w\<rparr>\<rparr>, snd st)"

text \<open>
  \<^verbatim>\<open>serverConn.Serve\<close>: the handshake, the control stream, \<^verbatim>\<open>OnServe\<close>, then the message loop. The
  handshake's world and the connection are returned as they are left.
\<close>

definition serverConn_Serve :: "'u env \<Rightarrow> hsConfig \<Rightarrow> (nat \<times> rtmp_error option) option
    \<Rightarrow> (hsWorld \<times> 'u connection, unit) io" where
  "serverConn_Serve env config ended ws =
     (case wrap_io ''Failed to handshake'' (HandshakeWithClient config) (fst ws) of
        (Ok _, w) \<Rightarrow>
          (let st = resume w (snd ws);
               r = bind_io (on_conn (createControlStream streamStateServerNotConnected)) (\<lambda>_ st.
                     handleMessageLoop env ended (fst st, (snd st)\<lparr>c_user := OnServe (e_handler env) (c_user (snd st))\<rparr>)) st in
           (fst r, (w, snd r)))
      | (Err e, w) \<Rightarrow> (Err e, (w, snd ws))
      | (Panic p, w) \<Rightarrow> (Panic p, (w, snd ws)))"

text \<open>
  \<^verbatim>\<open>newClientConnWithSetup\<close>: the handshake and the control stream; the loop then runs on its own
  goroutine. When either fails the code also closes the connection, which is not part of this step.
\<close>

definition newClientConnWithSetup :: "hsConfig \<Rightarrow> (hsWorld \<times> 'u connection, unit) io" where
  "newClientConnWithSetup config ws =
     (case wrap_io ''Failed to handshake'' (HandshakeWithServer config) (fst ws) of
        (Ok _, w) \<Rightarrow>
          (let r = on_conn (createControlStream streamStateClientNotConnected) (resume w (snd ws)) in
           (fst r, (w, snd r)))
      | (Err e, w) \<Rightarrow> (Err e, (w, snd ws))
      | (Panic p, w) \<Rightarrow> (Panic p, (w, snd ws)))"

text \<open>\<^verbatim>\<open>DialWithDialer\<close> and its TLS variant: \<open>scheme\<close> is the protocol asked for; \<open>dial\<close> the dialer's result.\<close>

definition DialWith :: "string \<Rightarrow> string \<Rightarrow> unit result \<Rightarrow> hsConfig \<Rightarrow> (hsWorld \<times> 'u connection, unit) io" where
  "DialWith scheme protocol dial config =
     (if protocol \<noteq> scheme then fail_io (Errorf (''Unknown protocol: '' @ protocol) [])
      else (case dial of
              Ok _ \<Rightarrow> newClientConnWithSetup config
            | Err e \<Rightarrow> fail_io e
            | Panic p \<Rightarrow> panic_io p))"

definition DialWithDialer :: "string \<Rightarrow> unit result \<Rightarrow> hsConfig \<Rightarrow> (hsWorld \<times> 'u connection, unit) io" where
  "DialWithDialer = DialWith ''rtmp''"

definition DialWithTLSDialer :: "string \<Rightarrow> unit result \<Rightarrow> hsConfig \<Rightarrow> (hsWorld \<times> 'u connection, unit) io" where
  "DialWithTLSDialer = DialWith ''rtmps''"

section \<open>The client's operations\<close>

text \<open>
  \<^verbatim>\<open>ClientConn\<close> adds the error its loop ended with. The operations that wait for an answer are
  split there: the request leaves the transaction to wait for, and the rest is a function of the
  transaction as the loop answered it.
\<close>

record 'u ClientConn =
  cc_conn :: "'u connState"
  cc_lastErr :: "rtmp_error option"

definition controllable :: "'u ClientConn \<Rightarrow> unit result" where
  "controllable cc = (case cc_lastErr cc of None \<Rightarrow> Ok () | Some e \<Rightarrow> Err (Wrapf e ''Client is in error state''))"

definition with_cc :: "('u connState, 'a) io \<Rightarrow> ('u ClientConn, 'a) io" where
  "with_cc m cc = (fst (m (cc_conn cc)), cc\<lparr>cc_conn := snd (m (cc_conn cc))\<rparr>)"

definition startHandleMessageLoop :: "unit result \<Rightarrow> 'u ClientConn \<Rightarrow> 'u ClientConn" where
  "startHandleMessageLoop r cc = (case r of Err e \<Rightarrow> cc\<lparr>cc_lastErr := Some e\<rparr> | _ \<Rightarrow> cc)"

definition ClientConn_Connect :: "amf0 \<Rightarrow> NetConnectionConnectCommand option \<Rightarrow> ('u ClientConn, nat) io" where
  "ClientConn_Connect amf body cc =
     bind_io (pure_io (controllable cc)) (\<lambda>_.
     bind_io (with_cc (streams_At ControlStreamID)) (\<lambda>s.
       with_cc (Connect_request amf s body))) cc"

definition ClientConn_CreateStream :: "amf0 \<Rightarrow> uint32 \<Rightarrow> ('u ClientConn, nat) io" where
  "ClientConn_CreateStream amf sz cc =
     bind_io (pure_io (controllable cc)) (\<lambda>_.
     bind_io (with_cc (streams_At ControlStreamID)) (\<lambda>s.
       with_cc (CreateStream_request amf s sz))) cc"

text \<open>The stream the server named is created, but gets no state: \<^verbatim>\<open>ChangeState\<close> is not called.\<close>

definition ClientConn_CreateStream_answer :: "amf0 \<Rightarrow> transaction \<Rightarrow> ('u ClientConn, Stream) io" where
  "ClientConn_CreateStream_answer amf t =
     bind_io (pure_io (CreateStream_answer amf t)) (\<lambda>streamID. with_cc (streams_Create streamID))"

definition ClientConn_DeleteStream :: "amf0 \<Rightarrow> uint32 \<Rightarrow> ('u ClientConn, unit) io" where
  "ClientConn_DeleteStream amf target cc =
     bind_io (pure_io (controllable cc)) (\<lambda>_.
     bind_io (with_cc (streams_At ControlStreamID)) (\<lambda>s.
     bind_io (with_cc (streams_At target)) (\<lambda>_.
     bind_io (with_cc (DeleteStream_request amf s target)) (\<lambda>_.
       with_cc (streams_Delete target))))) cc"

section \<open>From the handshake to the loop\<close>

lemma createControlStream_Ok:
  assumes "c_streams c = fmempty" and "0 < MaxMessageStreams c" and "handler_of st = Some h" and "st \<noteq> streamStateUnknown"
  shows "createControlStream st c = (Ok (), c\<lparr>c_streams := fmupd 0 (in_state st (newStream 0)) fmempty\<rparr>)"
proof -
  have "fmupd 0 x (fmupd 0 y fmempty) = fmupd 0 x (fmempty :: (uint32, Stream) fmap)" for x y
    by (intro fmap_ext) simp
  then show ?thesis
    using assms by (simp add: createControlStream_def streams_Create_def bind_io_def wrap_io_def ChangeState_def
        update_stream_def in_state_def newStream_def fcard.rep_eq)
qed

text \<open>When the handshake is done and streams are allowed, serving is running the loop on a new control stream.\<close>

definition serving :: "'u env \<Rightarrow> 'u connection \<Rightarrow> 'u connection" where
  "serving env st = (fst st, (snd st)\<lparr>c_peer := peerState (fst st),
     c_streams := fmupd 0 (in_state streamStateServerNotConnected (newStream 0)) fmempty,
     c_user := OnServe (e_handler env) (c_user (snd st))\<rparr>)"

lemma serve_runs_loop:
  assumes "HandshakeWithClient config w0 = (Ok (), w)" and "c_streams (snd st) = fmempty"
    and "0 < MaxMessageStreams (snd st)"
  shows "serverConn_Serve env config ended (w0, st) =
     (fst (handleMessageLoop env ended (serving env (resume w st))),
      (w, snd (handleMessageLoop env ended (serving env (resume w st)))))"
proof -
  let ?c = "(snd st)\<lparr>c_peer := peerState (fst (resume w st))\<rparr>"
  have c: "createControlStream streamStateServerNotConnected ?c = (Ok (), ?c\<lparr>c_streams :=
      fmupd 0 (in_state streamStateServerNotConnected (newStream 0)) fmempty\<rparr>)"
    by (rule createControlStream_Ok) (use assms in \<open>simp_all add: handler_of_def\<close>)
  have "snd (resume w st) = snd st" by (simp add: resume_def)
  then show ?thesis
    using assms(1) c by (simp add: serverConn_Serve_def wrap_io_def bind_io_def on_conn_def Let_def serving_def)
qed

lemma serving_ok:
  assumes "conn_ok st" and "c_streams (snd st) = fmempty" and "0 < MaxMessageStreams (snd st)"
  shows "conn_ok (serving env (resume w st))"
  using assms
  by (auto simp: conn_ok_def serving_def resume_def tables_def wf_tables_def wf_waits_def waits_def
      stream_ok_def in_state_def newStream_def handler_of_def readers_within_def fcard.rep_eq split: if_splits)

end
