(* ===== verification/Handler_Contract.thy ===== *)
theory Handler_Contract
  imports Conn
begin

text \<open>
  The interface between a connection and its user. The library promises in which order it calls
  the user's handler; the handler promises what it keeps from one call to the next. The locale
  \<open>handler_contract\<close> states the second promise and turns it into an invariant of the connection.
\<close>

section \<open>Callbacks\<close>

datatype call = CallConnect | CallCreateStream | CallReleaseStream | CallDeleteStream | CallPublish
  | CallPlay | CallFCPublish | CallFCUnpublish | CallSetDataFrame | CallAudio | CallVideo | CallUnknown

text \<open>The callbacks of a handler, with any arguments.\<close>

inductive user_callback :: "'u Handler \<Rightarrow> call \<Rightarrow> ('u, unit) io \<Rightarrow> bool" for h where
  connect: "user_callback h CallConnect (OnConnect h ts cmd)"
| createStream: "user_callback h CallCreateStream (OnCreateStream h ts)"
| releaseStream: "user_callback h CallReleaseStream (OnReleaseStream h ts name)"
| deleteStream: "user_callback h CallDeleteStream (OnDeleteStream h ts target)"
| publish: "user_callback h CallPublish (OnPublish h sid ts name ty)"
| play: "user_callback h CallPlay (OnPlay h sid ts name start)"
| fcPublish: "user_callback h CallFCPublish (OnFCPublish h ts name)"
| fcUnpublish: "user_callback h CallFCUnpublish (OnFCUnpublish h ts name)"
| setDataFrame: "user_callback h CallSetDataFrame (OnSetDataFrame h ts payload)"
| audio: "user_callback h CallAudio (OnAudio h ts payload)"
| video: "user_callback h CallVideo (OnVideo h ts payload)"
| unknownMessage: "user_callback h CallUnknown (OnUnknownMessage h ts msg)"
| unknownCommand: "user_callback h CallUnknown (OnUnknownCommandMessage h ts msg)"
| unknownData: "user_callback h CallUnknown (OnUnknownDataMessage h ts msg)"

inductive_cases user_callbackE: "user_callback h k m"

text \<open>
  What must have been accepted before: connecting before anything else on the control stream,
  creating a stream before publishing or playing, publishing before media arrives.
\<close>

fun needs :: "call \<Rightarrow> call option" where
  "needs CallConnect = None"
| "needs CallUnknown = None"
| "needs CallPublish = Some CallCreateStream"
| "needs CallPlay = Some CallCreateStream"
| "needs CallSetDataFrame = Some CallPublish"
| "needs CallAudio = Some CallPublish"
| "needs CallVideo = Some CallPublish"
| "needs _ = Some CallConnect"

text \<open>The state of a stream remembers which call was accepted for it.\<close>

fun accepted_for :: "streamState \<Rightarrow> call option" where
  "accepted_for streamStateServerConnected = Some CallConnect"
| "accepted_for streamStateServerInactive = Some CallCreateStream"
| "accepted_for streamStateServerPublish = Some CallPublish"
| "accepted_for streamStateServerPlay = Some CallPlay"
| "accepted_for _ = None"

section \<open>The contract\<close>

text \<open>
  \<open>I\<close> is the user's invariant, \<open>K j\<close> what it has from the moment it accepted a call \<open>j\<close>. Each
  callback, made when what it needs was accepted, keeps both and, if it returns nil, has its own.
\<close>

locale handler_contract =
  fixes env :: "'u env" and I :: "'u \<Rightarrow> bool" and K :: "call \<Rightarrow> 'u \<Rightarrow> bool"
  assumes call_keeps: "user_callback (e_handler env) k m \<Longrightarrow> I u \<Longrightarrow> (\<And>j. needs k = Some j \<Longrightarrow> K j u) \<Longrightarrow> I (snd (m u))"
    and call_remembers: "user_callback (e_handler env) k m \<Longrightarrow> I u \<Longrightarrow> (\<And>j. needs k = Some j \<Longrightarrow> K j u) \<Longrightarrow>
      K i u \<Longrightarrow> K i (snd (m u))"
    and call_accepted: "user_callback (e_handler env) k m \<Longrightarrow> I u \<Longrightarrow> (\<And>j. needs k = Some j \<Longrightarrow> K j u) \<Longrightarrow>
      fst (m u) = Ok () \<Longrightarrow> K k (snd (m u))"

text \<open>The invariant of the connection: what each stream's state says was accepted, the user has.\<close>

definition remembers :: "('u \<Rightarrow> bool) \<Rightarrow> (call \<Rightarrow> 'u \<Rightarrow> bool) \<Rightarrow> 'u connState \<Rightarrow> bool" where
  "remembers I K c \<longleftrightarrow> I (c_user c) \<and>
     (\<forall>k s j. fmlookup (c_streams c) k = Some s \<longrightarrow> accepted_for (str_state s) = Some j \<longrightarrow> K j (c_user c))"

definition holding :: "('u \<Rightarrow> bool) \<Rightarrow> (call \<Rightarrow> 'u \<Rightarrow> bool) \<Rightarrow> call set \<Rightarrow> 'u connState \<Rightarrow> bool" where
  "holding I K L c \<longleftrightarrow> remembers I K c \<and> (\<forall>j \<in> L. K j (c_user c))"

definition minding :: "('u \<Rightarrow> bool) \<Rightarrow> (call \<Rightarrow> 'u \<Rightarrow> bool) \<Rightarrow> 'u connection \<Rightarrow> bool" where
  "minding I K st \<longleftrightarrow> conn_ok st \<and> remembers I K (snd st)"

text \<open>For a stream in the table, the calls its state remembers.\<close>

definition state_calls :: "Stream \<Rightarrow> call set" where
  "state_calls s = (case accepted_for (str_state s) of None \<Rightarrow> {} | Some j \<Rightarrow> {j})"

lemma holding_fewer: "L' \<subseteq> L \<Longrightarrow> holding I K L c \<Longrightarrow> holding I K L' c"
  by (auto simp: holding_def)

context handler_contract
begin

abbreviation holds :: "call set \<Rightarrow> ('u connState, 'b) io \<Rightarrow> bool" where
  "holds L m \<equiv> triple (holding I K L) m (\<lambda>_. holding I K L) (holding I K L)"

lemma holds_same:
  assumes "\<And>c. c_streams (snd (m c)) = c_streams c" and "\<And>c. c_user (snd (m c)) = c_user c"
  shows "holds L m"
  by (rule triple_any) (simp add: holding_def remembers_def assms)

lemma holds_writes: "(\<And>c. same_tables c (snd (m c))) \<Longrightarrow> holds L m"
  by (rule holds_same) (simp_all add: same_tables_def)

lemma holds_replies [triples]:
  "holds L (ReplyConnect amf s csid ts props info)" "holds L (ReplyCreateStream amf s csid ts tid r)"
  "holds L (NotifyStatus amf s csid ts st)" "holds L (WriteWinAckSize amf s csid ts sz)"
  "holds L (WriteSetPeerBandwidth amf s csid ts sz limit)" "holds L (WriteUserCtrl amf s csid ts ev)"
  by (rule holds_writes, rule replies_same)+

lemma holds_call:
  assumes "user_callback (e_handler env) k m" and "\<And>j. needs k = Some j \<Longrightarrow> j \<in> L"
  shows "triple (holding I K L) (with_user m) (\<lambda>_. holding I K (insert k L)) (holding I K L)"
proof -
  have "I (snd (m (c_user c)))" "K i (c_user c) \<Longrightarrow> K i (snd (m (c_user c)))"
    "fst (m (c_user c)) = Ok () \<Longrightarrow> K k (snd (m (c_user c)))" if "holding I K L c" for c i
    using that assms call_keeps [OF assms(1), of "c_user c"] call_remembers [OF assms(1), of "c_user c" i]
      call_accepted [OF assms(1), of "c_user c"] by (auto simp: holding_def remembers_def)
  then show ?thesis
    by (intro tripleI) (auto simp: with_user_def holding_def remembers_def)
qed

lemma holds_call_only:
  "user_callback (e_handler env) k m \<Longrightarrow> (\<And>j. needs k = Some j \<Longrightarrow> j \<in> L) \<Longrightarrow> holds L (with_user m)"
  by (rule triple_weaken [OF holds_call [of k m L]]) (auto intro: holding_fewer [of L "insert k L"])

lemma holds_bind: "holds L m \<Longrightarrow> (\<And>a. holds L (f a)) \<Longrightarrow> holds L (bind_io m f)"
  by (rule triple_bind)

lemma holds_after_call:
  assumes "user_callback (e_handler env) k m" and "\<And>j. needs k = Some j \<Longrightarrow> j \<in> L" and "holds (insert k L) (f ())"
  shows "holds L (bind_io (with_user m) f)"
proof (rule triple_bind [OF holds_call [OF assms(1,2)]])
  fix a :: unit
  have "triple (holding I K (insert k L)) (f ()) (\<lambda>_. holding I K L) (holding I K L)"
    by (rule triple_weaken [OF assms(3)]) (auto intro: holding_fewer [of L "insert k L"])
  then show "triple (holding I K (insert k L)) (f a) (\<lambda>_. holding I K L) (holding I K L)" by simp
qed auto

lemma holds_state:
  assumes "\<And>j. accepted_for st = Some j \<Longrightarrow> j \<in> L"
  shows "holds L (ChangeState sid st)"
  using assms
  by (intro triple_any) (auto simp: holding_def remembers_def ChangeState_def update_stream_def
      split: option.splits if_splits)

lemma holds_delete [triples]: "holds L (streams_Delete k)"
  by (rule triple_any) (auto simp: holding_def remembers_def streams_Delete_def split: option.splits if_splits)

lemma holds_transactions [triples]: "holds L (with_transactions sid op)"
  by (rule triple_any) (auto simp: holding_def remembers_def with_transactions_def Let_def
      split: option.splits if_splits)

lemma holds_peer [triples]: "holds L (with_peer op)"
  by (rule holds_same) (simp_all add: with_peer_def)

lemma holds_error_reply:
  assumes "holds L m" and "holds L reply"
  shows "holds L (with_error_reply reply m)"
proof (rule triple_any)
  fix c :: "'u connState"
  assume "holding I K L c"
  then have 1: "holding I K L (snd (m c))" by (rule triple_state [OF assms(1)])
  then have "holding I K L (snd (reply (snd (m c))))" by (rule triple_state [OF assms(2)])
  with 1 show "holding I K L (snd (with_error_reply reply m c))"
    by (auto simp: with_error_reply_def split: prod.splits result.splits)
qed

lemma holds_or_else:
  assumes "holds L m" and "holds L k"
  shows "holds L (or_else m k)"
proof (rule triple_any)
  fix c :: "'u connState"
  assume "holding I K L c"
  then have 1: "holding I K L (snd (m c))" by (rule triple_state [OF assms(1)])
  then have "holding I K L (snd (k (snd (m c))))" by (rule triple_state [OF assms(2)])
  with 1 show "holding I K L (snd (or_else m k c))"
    by (auto simp: or_else_def split: prod.splits result.splits)
qed

end

section \<open>The handlers\<close>

context handler_contract
begin

lemma holds_connect: "holds L (connect_onCommand env s csid ts body)"
proof (cases body)
  case (NetConnectionConnect cmd)
  show ?thesis
    unfolding connect_onCommand_def NetConnectionConnect AMFConvertible.case
    by (intro holds_error_reply holds_after_call [OF user_callback.connect] holds_bind holds_state holds_writes replies_same) simp_all
qed (simp_all add: connect_onCommand_def triples)

lemma holds_createStream: "CallCreateStream \<in> L \<Longrightarrow> holds L (createStream_reply env s csid ts tid)"
proof (rule triple_any)
  fix c :: "'u connState"
  assume L: "CallCreateStream \<in> L" and c: "holding I K L c"
  show "holding I K L (snd (createStream_reply env s csid ts tid c))"
  proof (cases rule: CreateIfAvailable_cases [of c])
    case (1 k)
    let ?tell = "\<lambda>c2 :: 'u connState. case ReplyCreateStream (e_amf env) s csid ts tid (Some k) c2 of
               (Err e, c3) \<Rightarrow> (Err e, snd (streams_Delete k c3)) | r \<Rightarrow> r"
    have "holds L (\<lambda>c2. ?tell c2)"
    proof (rule triple_any)
      fix c2 :: "'u connState"
      assume "holding I K L c2"
      then have 1: "holding I K L (snd (ReplyCreateStream (e_amf env) s csid ts tid (Some k) c2))"
        by (rule triple_state [OF holds_replies(2)])
      then have "holding I K L (snd (streams_Delete k (snd (ReplyCreateStream (e_amf env) s csid ts tid (Some k) c2))))"
        by (rule triple_state [OF holds_delete])
      with 1 show "holding I K L (snd (?tell c2))" by (auto split: prod.splits result.splits)
    qed
    then have "holds L (bind_io (ChangeState k streamStateServerInactive) (\<lambda>_ c2. ?tell c2))"
      using L by (intro holds_bind holds_state) auto
    moreover have "holding I K L (c\<lparr>c_streams := fmupd k (newStream k) (c_streams c)\<rparr>)"
      using c by (auto simp: holding_def remembers_def newStream_def)
    ultimately have "holding I K L (snd (bind_io (ChangeState k streamStateServerInactive) (\<lambda>_ c2. ?tell c2)
        (c\<lparr>c_streams := fmupd k (newStream k) (c_streams c)\<rparr>)))"
      by (rule triple_state)
    moreover have "str_streamID (newStream k) = k" by (simp add: newStream_def)
    ultimately show ?thesis
      by (simp only: createStream_reply_def 1(1) prod.case result.case)
  next
    case (2 e)
    from c have "holding I K L (snd (ReplyCreateStream (e_amf env) s csid ts tid None c))"
      by (rule triple_state [OF holds_replies(2)])
    then show ?thesis by (auto simp: createStream_reply_def 2 split: prod.splits result.splits)
  qed
qed

lemma holds_connected:
  assumes "CallConnect \<in> L"
  shows "holds L (connected_onCommand env s csid ts tid body)"
  using assms
  by (auto simp: connected_onCommand_def split: AMFConvertible.split
      intro!: holds_error_reply holds_after_call [OF user_callback.createStream] holds_createStream triples
        holds_after_call [OF user_callback.deleteStream] holds_call_only [OF user_callback.releaseStream] holds_call_only [OF user_callback.fcPublish]
        holds_call_only [OF user_callback.fcUnpublish])

lemma holds_ask:
  assumes m: "user_callback (e_handler env) k m" and "\<And>j. needs k = Some j \<Longrightarrow> j \<in> L" and "accepted_for st = Some k"
  shows "holds L (ask_user env s csid ts m failed started st)"
proof (rule triple_any)
  fix c :: "'u connState"
  assume c: "holding I K L c"
  let ?r = "with_user m c"
  show "holding I K L (snd (ask_user env s csid ts m failed started st c))"
  proof (cases "fst ?r")
    case (Ok u)
    then have h: "holding I K (insert k L) (snd ?r)"
      using holds_call [OF m assms(2)] c by (fastforce simp: triple_def)
    have "holds (insert k L) (bind_io (NotifyStatus (e_amf env) s csid ts started) (\<lambda>_. ChangeState (str_streamID s) st))"
      using assms(3) by (intro holds_bind holds_state holds_writes replies_same) auto
    from triple_state [OF this h] holding_fewer [of L "insert k L"] show ?thesis
      using Ok by (cases ?r) (auto simp: ask_user_def)
  next
    case (Err e)
    then have h: "holding I K L (snd ?r)"
      using holds_call [OF m assms(2)] c by (fastforce simp: triple_def)
    then have "holding I K L (snd (NotifyStatus (e_amf env) s csid ts failed (snd ?r)))"
      by (rule triple_state [OF holds_replies(3)])
    then show ?thesis using Err by (cases ?r) (auto simp: ask_user_def split: prod.splits result.splits)
  next
    case (Panic p)
    then have "holding I K L (snd ?r)"
      using holds_call [OF m assms(2)] c by (fastforce simp: triple_def)
    then show ?thesis using Panic by (cases ?r) (auto simp: ask_user_def)
  qed
qed

lemma holds_inactive:
  assumes "CallCreateStream \<in> L"
  shows "holds L (inactive_onCommand env s csid ts body)"
  using assms by (auto simp: inactive_onCommand_def split: AMFConvertible.split intro!: holds_ask [OF user_callback.publish] holds_ask [OF user_callback.play] triples)

lemma holds_onMessage:
  assumes "str_handler s = Some serverDataPublishHandler \<Longrightarrow> CallPublish \<in> L"
  shows "holds L (onMessage env s ts msg)" and "holds L (onData env s ts body)"
  using assms
  by (auto simp: onMessage_def onData_def publish_onMessage_def publish_onData_def
      split: option.split message.split AMFConvertible.split intro!: triples
        holds_call_only [OF user_callback.audio] holds_call_only [OF user_callback.video] holds_call_only [OF user_callback.setDataFrame])

lemma holds_onCommand:
  assumes "str_handler s = handler_of (str_state s)" and "state_calls s \<subseteq> L"
  shows "holds L (onCommand env s csid ts tid body)"
proof -
  have "holds L (client_onCommand body)"
    by (auto simp: client_onCommand_def split: AMFConvertible.split intro!: triples)
  then show ?thesis
    using assms by (cases "str_state s")
      (auto simp: onCommand_def handler_of_def state_calls_def intro!: holds_connect holds_connected holds_inactive triples)
qed

end

section \<open>A message, and the loop\<close>

context handler_contract
begin

lemma holds_new_decoder: "(\<And>a. holds L (f a)) \<Longrightarrow> holds L (bind_io (NewAMFDecoder enc) f)"
  by (rule holds_bind [OF holds_same]) (simp_all add: NewAMFDecoder_def)

lemma holds_decoded:
  assumes "\<And>v r. holds L (f v r)"
  shows "holds L (\<lambda>c. case d of (Ok v, r) \<Rightarrow> f v r c | (Err e, _) \<Rightarrow> (Err e, c) | (Panic p, _) \<Rightarrow> (Panic p, c))"
proof (cases d)
  case (Pair x r)
  then show ?thesis using assms by (cases x) (auto simp: triple_def)
qed

lemma holds_handle:
  assumes h: "str_handler s = handler_of (str_state s)" and L: "state_calls s \<subseteq> L"
  shows "holds L (stream_handle env s csid ts msg)"
proof -
  have p: "str_handler s = Some serverDataPublishHandler \<Longrightarrow> CallPublish \<in> L"
    using assms by (cases "str_state s") (auto simp: handler_of_def state_calls_def)
  note unknown = holds_call_only [OF user_callback.unknownMessage] holds_call_only [OF user_callback.unknownCommand]
    holds_call_only [OF user_callback.unknownData]
  have data: "holds L (handleData env s ts name enc body)" for name enc body
    unfolding handleData_def
    by (intro holds_new_decoder holds_decoded holds_or_else holds_onMessage unknown p) simp_all
  have command: "holds L (handleCommand env s csid ts name tid enc body)" for name tid enc body
    unfolding handleCommand_def
    by (auto intro!: holds_new_decoder holds_decoded holds_or_else holds_onCommand unknown triples h L)
  have other: "holds L (or_else (onMessage env s ts m) (with_user (OnUnknownMessage (e_handler env) ts m)))" for m
    by (intro holds_or_else holds_onMessage unknown p) simp_all
  show ?thesis
    using data command other by (cases msg) (auto simp: stream_handle_def intro!: triples)
qed

lemma handleMessage_remembers:
  assumes "wf_tables (tables c)" and "remembers I K c"
  shows "remembers I K (snd (handleMessage env csid ts cmsg c))"
proof (cases "fmlookup (c_streams c) (cm_StreamID cmsg)")
  case None
  then show ?thesis using assms by (auto simp: handleMessage_def streams_At_def remembers_def)
next
  case (Some s)
  then have h: "str_handler s = handler_of (str_state s)"
    using wf_tablesD(2) assms(1) unfolding tables_def by blast
  have "holding I K (state_calls s) c"
    using assms(2) Some by (auto simp: holding_def remembers_def state_calls_def split: option.splits)
  from triple_state [OF holds_handle [OF h subset_refl] this]
  have "remembers I K (snd (stream_handle env s csid ts (cm_Message cmsg) c))" by (auto simp: holding_def)
  then show ?thesis using Some
    by (auto simp: handleMessage_def streams_At_def split: prod.splits result.splits rtmp_error.splits)
qed

lemma oneMessage_minding:
  assumes "minding I K st"
  shows "minding I K (snd (oneMessage env st))"
proof -
  let ?read = "streamer_Read (e_amf env) (controlStreamWrite env) st"
  have same: "same_tables (snd st) (snd (snd ?read))" by (rule streamer_Read_keeps(2))
  then have ok: "wf_tables (tables (snd (snd ?read)))" and r: "remembers I K (snd (snd ?read))"
    using assms tables_same [OF same] by (auto simp: minding_def conn_ok_def remembers_def same_tables_def)
  have "remembers I K (snd (snd (on_conn (handleMessage env csid ts cmsg) (snd ?read))))" for csid ts cmsg
    using handleMessage_remembers [of "(snd (snd ?read))\<lparr>c_peer := peerState (fst (snd ?read))\<rparr>" csid ts cmsg] ok r
    by (simp add: on_conn_def Let_def tables_def remembers_def)
  then have "remembers I K (snd (snd (oneMessage env st)))"
    using r by (auto simp: oneMessage_def bind_io_def split: result.split prod.split)
  then show ?thesis using oneMessage_ok(1) [of st env] assms by (simp add: minding_def)
qed

lemma loop_minding: "minding I K st \<Longrightarrow> minding I K (snd (runHandleMessageLoop env ended st))"
  by (rule loop_invariant) (rule oneMessage_minding)

text \<open>A connection as it is served, from the user's invariant on.\<close>

lemma serving_minding:
  assumes "conn_ok st" and "c_streams (snd st) = fmempty" and "0 < MaxMessageStreams (snd st)"
    and "I (OnServe (e_handler env) (c_user (snd st)))"
  shows "minding I K (serving env (resume w st))"
  using serving_ok [OF assms(1-3), of env w] assms(4)
  by (auto simp: minding_def remembers_def serving_def resume_def in_state_def)

end

end
