(* ===== verification/Protocol.thy ===== *)
theory Protocol
  imports Handler_Contract
begin

text \<open>
  What a server's user can rely on: in which order its callbacks are called. The user's handler
  is wrapped so that every call is logged with whether it was accepted; the wrapped handler meets
  the contract of \<open>Handler_Contract\<close> with the log for its memory, and so the log of a connection is
  orderly whatever the client sends.
\<close>

section \<open>The log\<close>

text \<open>The latest call comes first; with each, whether it returned nil.\<close>

type_synonym callLog = "(call \<times> bool) list"

definition logged :: "call \<Rightarrow> ('u, unit) io \<Rightarrow> (callLog \<times> 'u, unit) io" where
  "logged k m lu = (fst (m (snd lu)), ((k, fst (m (snd lu)) = Ok ()) # fst lu, snd (m (snd lu))))"

definition logging :: "'u Handler \<Rightarrow> (callLog \<times> 'u) Handler" where
  "logging h = \<lparr>OnServe = (\<lambda>lu. (fst lu, OnServe h (snd lu))),
     OnConnect = (\<lambda>ts cmd. logged CallConnect (OnConnect h ts cmd)),
     OnCreateStream = (\<lambda>ts. logged CallCreateStream (OnCreateStream h ts)),
     OnReleaseStream = (\<lambda>ts name. logged CallReleaseStream (OnReleaseStream h ts name)),
     OnDeleteStream = (\<lambda>ts target. logged CallDeleteStream (OnDeleteStream h ts target)),
     OnPublish = (\<lambda>sid ts name ty. logged CallPublish (OnPublish h sid ts name ty)),
     OnPlay = (\<lambda>sid ts name start. logged CallPlay (OnPlay h sid ts name start)),
     OnFCPublish = (\<lambda>ts name. logged CallFCPublish (OnFCPublish h ts name)),
     OnFCUnpublish = (\<lambda>ts name. logged CallFCUnpublish (OnFCUnpublish h ts name)),
     OnSetDataFrame = (\<lambda>ts payload. logged CallSetDataFrame (OnSetDataFrame h ts payload)),
     OnAudio = (\<lambda>ts payload. logged CallAudio (OnAudio h ts payload)),
     OnVideo = (\<lambda>ts payload. logged CallVideo (OnVideo h ts payload)),
     OnUnknownMessage = (\<lambda>ts msg. logged CallUnknown (OnUnknownMessage h ts msg)),
     OnUnknownCommandMessage = (\<lambda>ts msg. logged CallUnknown (OnUnknownCommandMessage h ts msg)),
     OnUnknownDataMessage = (\<lambda>ts msg. logged CallUnknown (OnUnknownDataMessage h ts msg)),
     OnClose = (\<lambda>lu. (fst lu, OnClose h (snd lu)))\<rparr>"

definition logging_env :: "'u env \<Rightarrow> (callLog \<times> 'u) env" where
  "logging_env env = \<lparr>e_amf = e_amf env, e_ms = e_ms env, e_handler = logging (e_handler env)\<rparr>"

text \<open>Every call came after what it needs was accepted.\<close>

fun orderly :: "callLog \<Rightarrow> bool" where
  "orderly [] = True"
| "orderly ((k, ok) # past) =
     ((case needs k of None \<Rightarrow> True | Some j \<Rightarrow> (j, True) \<in> set past) \<and> orderly past)"

abbreviation call_log :: "(callLog \<times> 'u) connState \<Rightarrow> callLog" where
  "call_log c \<equiv> fst (c_user c)"

lemma logging_simps [simp]:
  "OnConnect (logging h) ts cmd = logged CallConnect (OnConnect h ts cmd)"
  "OnCreateStream (logging h) ts = logged CallCreateStream (OnCreateStream h ts)"
  "OnReleaseStream (logging h) ts name = logged CallReleaseStream (OnReleaseStream h ts name)"
  "OnDeleteStream (logging h) ts target = logged CallDeleteStream (OnDeleteStream h ts target)"
  "OnPublish (logging h) sid ts name ty = logged CallPublish (OnPublish h sid ts name ty)"
  "OnPlay (logging h) sid ts name start = logged CallPlay (OnPlay h sid ts name start)"
  "OnFCPublish (logging h) ts name = logged CallFCPublish (OnFCPublish h ts name)"
  "OnFCUnpublish (logging h) ts name = logged CallFCUnpublish (OnFCUnpublish h ts name)"
  "OnSetDataFrame (logging h) ts payload = logged CallSetDataFrame (OnSetDataFrame h ts payload)"
  "OnAudio (logging h) ts payload = logged CallAudio (OnAudio h ts payload)"
  "OnVideo (logging h) ts payload = logged CallVideo (OnVideo h ts payload)"
  "OnUnknownMessage (logging h) ts msg = logged CallUnknown (OnUnknownMessage h ts msg)"
  "OnUnknownCommandMessage (logging h) ts msg = logged CallUnknown (OnUnknownCommandMessage h ts msg)"
  "OnUnknownDataMessage (logging h) ts msg = logged CallUnknown (OnUnknownDataMessage h ts msg)"
  "e_amf (logging_env env) = e_amf env" "e_ms (logging_env env) = e_ms env"
  "e_handler (logging_env env) = logging (e_handler env)"
  by (simp_all add: logging_def logging_env_def)

section \<open>The log keeps the contract\<close>

text \<open>Each callback of the wrapped handler is a logged one.\<close>

lemma callback_logging: "user_callback (logging h) k m \<Longrightarrow> \<exists>m'. m = logged k m'"
  by (erule user_callbackE) auto

interpretation log: handler_contract "logging_env env" "\<lambda>lu. orderly (fst lu)" "\<lambda>j lu. (j, True) \<in> set (fst lu)" for env
proof
  fix k m and u :: "callLog \<times> 'a"
  assume "user_callback (e_handler (logging_env env)) k m" and ord: "orderly (fst u)"
    and n: "\<And>j. needs k = Some j \<Longrightarrow> (j, True) \<in> set (fst u)"
  then obtain m' where m: "m = logged k m'" using callback_logging by fastforce
  show "orderly (fst (snd (m u)))" using ord n by (auto simp: m logged_def split: option.split)
  show "(i, True) \<in> set (fst u) \<Longrightarrow> (i, True) \<in> set (fst (snd (m u)))" for i by (simp add: m logged_def)
  show "fst (m u) = Ok () \<Longrightarrow> (k, True) \<in> set (fst (snd (m u)))" by (simp add: m logged_def)
qed

end
