(* ===== verification/Flv.thy ===== *)
theory Flv
  imports Message
begin

text \<open>The tags that the demo servers exchange with the FLV library.\<close>

section \<open>FLV tags\<close>

text \<open>
  Package \<^verbatim>\<open>github.com/yutopp/go-flv/tag\<close> is not part of the repository. Of its types the model has
  the fields the program reads; its codec and constants are parameters. A decoder is given a
  payload and leaves the rest of it in \<^verbatim>\<open>Data\<close>, which the program copies into a buffer at once;
  what a script holds is a type variable.
\<close>

record AudioData =
  SoundFormat :: byte
  SoundRate :: byte
  SoundSize :: byte
  SoundType :: byte
  AACPacketType :: byte
  AudioBody :: "byte list"

record VideoData =
  FrameType :: byte
  CodecID :: byte
  AVCPacketType :: byte
  CompositionTime :: int32
  VideoBody :: "byte list"

text \<open>\<^verbatim>\<open>flv.Data\<close> is an interface; the last constructor is any other type.\<close>

datatype 's flvData = FlvAudio AudioData | FlvVideo VideoData | FlvScript 's | FlvOther

record 's FlvTag =
  TagType :: byte
  Timestamp :: uint32
  Data :: "'s flvData"

record 's flvCodec =
  decodeAudioData :: "byte list \<Rightarrow> AudioData result"
  encodeAudioData :: "AudioData \<Rightarrow> byte list result"
  decodeVideoData :: "byte list \<Rightarrow> VideoData result"
  encodeVideoData :: "VideoData \<Rightarrow> byte list result"
  decodeScriptData :: "byte list \<Rightarrow> 's result"
  encodeScriptData :: "'s \<Rightarrow> byte list result"
  TagTypeAudio :: byte
  TagTypeVideo :: byte
  TagTypeScriptData :: byte
  AVCPacketTypeSequenceHeader :: byte
  FrameTypeKeyFrame :: byte

text \<open>The tag of an audio or video message, if its payload is readable.\<close>

definition media_tag :: "'s flvCodec \<Rightarrow> uint32 \<Rightarrow> message \<Rightarrow> 's FlvTag option" where
  "media_tag flv ts msg =
     (case msg of
        MsgAudioMessage p \<Rightarrow> (case decodeAudioData flv p of
           Ok d \<Rightarrow> Some \<lparr>TagType = TagTypeAudio flv, Timestamp = ts, Data = FlvAudio d\<rparr> | _ \<Rightarrow> None)
      | MsgVideoMessage p \<Rightarrow> (case decodeVideoData flv p of
           Ok d \<Rightarrow> Some \<lparr>TagType = TagTypeVideo flv, Timestamp = ts, Data = FlvVideo d\<rparr> | _ \<Rightarrow> None)
      | _ \<Rightarrow> None)"

end
