(* ===== verification/Relay.thy ===== *)
theory Relay
  imports Protocol Flv
begin

text \<open>
  The relay server of \<^verbatim>\<open>example/server_relay_demo\<close>: a handler that publishes what one client sends
  under a name and writes it to every client that plays that name. All connections share one
  relay service, so the state of the user is the state of the whole relay.
\<close>

section \<open>The state\<close>

text \<open>
  Objects that are shared through pointers live in heaps, one for each type; a pointer is an
  index. Of \<^verbatim>\<open>Sub.eventCallback\<close>, a closure, the model has the connection and the stream it
  captured; it is nil until \<^verbatim>\<open>OnPlay\<close> has set it.
\<close>

record Sub =
  sub_initialized :: bool
  sub_closed :: bool
  sub_lastTimestamp :: uint32
  sub_eventCallback :: "(nat option \<times> uint32) option"

record 's Pub =
  pub_pb :: nat
  pub_avcSeqHeader :: "'s FlvTag option"
  pub_lastKeyFrame :: "'s FlvTag option"

record Pubsub =
  pb_name :: string
  pb_pub :: "nat option"
  pb_subs :: "nat list"

text \<open>The handler of a connection; \<^verbatim>\<open>conn\<close> is the number of the connection.\<close>

record relayHandler =
  h_conn :: "nat option"
  h_pub :: "nat option"
  h_sub :: "nat option"

text \<open>
  The relay: the map of the service, the heaps, the handler of each connection, and the calls of
  \<^verbatim>\<open>Conn.Write\<close> that were made: connection, chunk stream, timestamp and message.
\<close>

type_synonym relayWrites = "(nat \<times> int \<times> uint32 \<times> ChunkMessage) list"

record 's relayWorld =
  w_streams :: "string \<Rightarrow> nat option"
  w_pubsubs :: "Pubsub list"
  w_pubs :: "'s Pub list"
  w_subs :: "Sub list"
  w_handlers :: "nat \<Rightarrow> relayHandler"
  w_wire :: relayWrites

definition zero_relayHandler :: relayHandler where
  "zero_relayHandler = \<lparr>h_conn = None, h_pub = None, h_sub = None\<rparr>"

definition NewRelayService :: "'s relayWorld" where
  "NewRelayService = \<lparr>w_streams = (\<lambda>_. None), w_pubsubs = [], w_pubs = [], w_subs = [],
     w_handlers = (\<lambda>_. zero_relayHandler), w_wire = []\<rparr>"

text \<open>
  The parameters: both codecs, and the error of each \<^verbatim>\<open>Conn.Write\<close>, which may depend on all
  the calls before it.
\<close>

record 's relayEnv =
  re_flv :: "'s flvCodec"
  re_amf :: amf0
  re_write :: "relayWrites \<Rightarrow> nat \<Rightarrow> ChunkMessage \<Rightarrow> rtmp_error option"

section \<open>\<^verbatim>\<open>relay_service.go\<close>\<close>

definition NewPubsub :: "string \<Rightarrow> ('s relayWorld, nat) io" where
  "NewPubsub key w =
     (case w_streams w key of
        Some _ \<Rightarrow> (Err (Errorf (''Already published: '' @ key) []), w)
      | None \<Rightarrow>
          (let p = length (w_pubsubs w) in
           (Ok p, w\<lparr>w_pubsubs := w_pubsubs w @ [\<lparr>pb_name = key, pb_pub = None, pb_subs = []\<rparr>],
                    w_streams := (w_streams w)(key \<mapsto> p)\<rparr>)))"

definition GetPubsub :: "string \<Rightarrow> ('s relayWorld, nat) io" where
  "GetPubsub key w =
     (case w_streams w key of
        None \<Rightarrow> (Err (Errorf (''Not published: '' @ key) []), w)
      | Some p \<Rightarrow> (Ok p, w))"

definition RemovePubsub :: "string \<Rightarrow> ('s relayWorld, unit) io" where
  "RemovePubsub key w =
     (case w_streams w key of
        None \<Rightarrow> (Err (Errorf (''Not published: '' @ key) []), w)
      | Some _ \<Rightarrow> (Ok (), w\<lparr>w_streams := (w_streams w)(key := None)\<rparr>))"

section \<open>\<^verbatim>\<open>callback.go\<close>\<close>

text \<open>
  \<^verbatim>\<open>Conn.Write\<close>: the wire lists what was handed to a connection, also a message that it then
  refuses with an error.
\<close>

definition Conn_Write :: "'s relayEnv \<Rightarrow> nat option \<Rightarrow> int \<Rightarrow> uint32 \<Rightarrow> ChunkMessage \<Rightarrow> ('s relayWorld, unit) io" where
  "Conn_Write env conn csid ts cmsg w =
     (case conn of
        None \<Rightarrow> (Panic ''nil pointer dereference'', w)
      | Some i \<Rightarrow> (case re_write env (w_wire w) i cmsg of None \<Rightarrow> Ok () | Some e \<Rightarrow> Err e,
                   w\<lparr>w_wire := w_wire w @ [(i, csid, ts, cmsg)]\<rparr>))"

text \<open>The script data that was encoded goes into \<^verbatim>\<open>Payload\<close>; \<^verbatim>\<open>AmfData\<close> stays nil.\<close>

definition onEventCallback :: "'s relayEnv \<Rightarrow> nat option \<Rightarrow> uint32 \<Rightarrow> 's FlvTag \<Rightarrow> ('s relayWorld, unit) io" where
  "onEventCallback env conn streamID flv =
     (case Data flv of
        FlvAudio d \<Rightarrow>
          bind_io (pure_io (encodeAudioData (re_flv env) d)) (\<lambda>buf.
            Conn_Write env conn 5 (Timestamp flv) \<lparr>cm_StreamID = streamID, cm_Message = MsgAudioMessage buf\<rparr>)
      | FlvVideo d \<Rightarrow>
          bind_io (pure_io (encodeVideoData (re_flv env) d)) (\<lambda>buf.
            Conn_Write env conn 6 (Timestamp flv) \<lparr>cm_StreamID = streamID, cm_Message = MsgVideoMessage buf\<rparr>)
      | FlvScript d \<Rightarrow>
          bind_io (pure_io (encodeScriptData (re_flv env) d)) (\<lambda>buf.
          bind_io (NewAMFEncoder EncodingTypeAMF0) (\<lambda>_.
          bind_io (pure_io (fst (EncodeBodyAnyValues (re_amf env) (Some (NetStreamSetDataFrame buf GoNil)) []))) (\<lambda>_.
            Conn_Write env conn 8 (Timestamp flv) \<lparr>cm_StreamID = streamID,
              cm_Message = MsgDataMessage ''@setDataFrame'' EncodingTypeAMF0
                (snd (EncodeBodyAnyValues (re_amf env) (Some (NetStreamSetDataFrame buf GoNil)) []))\<rparr>)))
      | FlvOther \<Rightarrow> panic_io ''unreachable'')"

section \<open>\<^verbatim>\<open>pubsub.go\<close>\<close>

definition put_sub :: "nat \<Rightarrow> Sub \<Rightarrow> 's relayWorld \<Rightarrow> 's relayWorld" where
  "put_sub k s w = w\<lparr>w_subs := (w_subs w)[k := s]\<rparr>"

text \<open>\<^verbatim>\<open>Sub.onEvent\<close> of a tag of its own.\<close>

definition Sub_onEvent :: "'s relayEnv \<Rightarrow> nat \<Rightarrow> 's FlvTag \<Rightarrow> ('s relayWorld, unit) io" where
  "Sub_onEvent env k flv w =
     (let s = w_subs w ! k in
      if sub_closed s then (Ok (), w)
      else
        let s' = (if Timestamp flv \<noteq> 0 \<and> sub_lastTimestamp s = 0 then s\<lparr>sub_lastTimestamp := Timestamp flv\<rparr> else s);
            w' = put_sub k s' w in
        (case sub_eventCallback s' of
           None \<Rightarrow> (Panic ''nil pointer dereference'', w')
         | Some (conn, streamID) \<Rightarrow>
             onEventCallback env conn streamID (flv\<lparr>Timestamp := Timestamp flv - sub_lastTimestamp s'\<rparr>) w'))"

definition Sub_Close :: "nat \<Rightarrow> ('s relayWorld, unit) io" where
  "Sub_Close k w =
     (if sub_closed (w_subs w ! k) then (Ok (), w) else (Ok (), put_sub k ((w_subs w ! k)\<lparr>sub_closed := True\<rparr>) w))"

text \<open>
  \<^verbatim>\<open>cloneView\<close> copies a tag; of values the copy is the value. That it keeps subscribers from reading
  the same buffer is not expressed: tags are values here, and reading one does not use it up.
\<close>

definition cloneView :: "'s FlvTag \<Rightarrow> 's FlvTag result" where
  "cloneView flv = (case Data flv of FlvOther \<Rightarrow> Panic ''unreachable'' | _ \<Rightarrow> Ok flv)"

text \<open>\<^verbatim>\<open>_ = m()\<close>, and \<^verbatim>\<open>for _, k := range ks\<close>.\<close>

definition ignoring :: "('s, unit) io \<Rightarrow> ('s, unit) io" where
  "ignoring m w = (case m w of (Err e, w') \<Rightarrow> (Ok (), w') | r \<Rightarrow> r)"

fun each :: "('k \<Rightarrow> ('s, unit) io) \<Rightarrow> 'k list \<Rightarrow> ('s, unit) io" where
  "each f [] = return_io ()"
| "each f (k # ks) = bind_io (f k) (\<lambda>_. each f ks)"

definition send_clone :: "'s relayEnv \<Rightarrow> 's FlvTag \<Rightarrow> nat \<Rightarrow> ('s relayWorld, unit) io" where
  "send_clone env flv k = bind_io (pure_io (cloneView flv)) (\<lambda>v. ignoring (Sub_onEvent env k v))"

definition send_cached :: "'s relayEnv \<Rightarrow> 's FlvTag option \<Rightarrow> nat \<Rightarrow> ('s relayWorld, unit) io" where
  "send_cached env flv k = (case flv of None \<Rightarrow> return_io () | Some v \<Rightarrow> send_clone env v k)"

text \<open>Video for one subscriber: a new one is given what is cached instead.\<close>

definition send_video :: "'s relayEnv \<Rightarrow> 's Pub \<Rightarrow> 's FlvTag \<Rightarrow> nat \<Rightarrow> ('s relayWorld, unit) io" where
  "send_video env p flv k w =
     (if \<not> sub_initialized (w_subs w ! k) then
        bind_io (send_cached env (pub_avcSeqHeader p) k) (\<lambda>_.
        bind_io (send_cached env (pub_lastKeyFrame p) k) (\<lambda>_ w.
          (Ok (), put_sub k ((w_subs w ! k)\<lparr>sub_initialized := True\<rparr>) w))) w
      else send_clone env flv k w)"

definition pub_cache :: "'s flvCodec \<Rightarrow> 's FlvTag \<Rightarrow> VideoData \<Rightarrow> 's Pub \<Rightarrow> 's Pub" where
  "pub_cache flvc flv d p =
     (let p1 = (if AVCPacketType d = AVCPacketTypeSequenceHeader flvc then p\<lparr>pub_avcSeqHeader := Some flv\<rparr> else p) in
      if FrameType d = FrameTypeKeyFrame flvc then p1\<lparr>pub_lastKeyFrame := Some flv\<rparr> else p1)"

definition Pub_Publish :: "'s relayEnv \<Rightarrow> nat \<Rightarrow> 's FlvTag \<Rightarrow> ('s relayWorld, unit) io" where
  "Pub_Publish env q flv w =
     (let p = w_pubs w ! q; ks = pb_subs (w_pubsubs w ! pub_pb p) in
      case Data flv of
        FlvVideo d \<Rightarrow>
          (let p' = pub_cache (re_flv env) flv d p in
           each (send_video env p' flv) ks (w\<lparr>w_pubs := (w_pubs w)[q := p']\<rparr>))
      | FlvOther \<Rightarrow> (Panic ''unexpected'', w)
      | _ \<Rightarrow> each (send_clone env flv) ks w)"

definition Pubsub_Pub :: "nat \<Rightarrow> ('s relayWorld, nat) io" where
  "Pubsub_Pub p w =
     (let q = length (w_pubs w) in
      (Ok q, w\<lparr>w_pubs := w_pubs w @ [\<lparr>pub_pb = p, pub_avcSeqHeader = None, pub_lastKeyFrame = None\<rparr>],
               w_pubsubs := (w_pubsubs w)[p := (w_pubsubs w ! p)\<lparr>pb_pub := Some q\<rparr>]\<rparr>))"

definition Pubsub_Sub :: "nat \<Rightarrow> ('s relayWorld, nat) io" where
  "Pubsub_Sub p w =
     (let k = length (w_subs w); pb = w_pubsubs w ! p in
      (Ok k, w\<lparr>w_subs := w_subs w @ [\<lparr>sub_initialized = False, sub_closed = False, sub_lastTimestamp = 0,
                 sub_eventCallback = None\<rparr>],
               w_pubsubs := (w_pubsubs w)[p := pb\<lparr>pb_subs := pb_subs pb @ [k]\<rparr>]\<rparr>))"

definition Pubsub_Deregister :: "nat \<Rightarrow> ('s relayWorld, unit) io" where
  "Pubsub_Deregister p w =
     bind_io (each (\<lambda>k. ignoring (Sub_Close k)) (pb_subs (w_pubsubs w ! p)))
       (\<lambda>_. RemovePubsub (pb_name (w_pubsubs w ! p))) w"

definition Pub_Close :: "nat \<Rightarrow> ('s relayWorld, unit) io" where
  "Pub_Close q w = Pubsub_Deregister (pub_pb (w_pubs w ! q)) w"

section \<open>\<^verbatim>\<open>handler.go\<close>\<close>

definition put_handler :: "nat \<Rightarrow> relayHandler \<Rightarrow> 's relayWorld \<Rightarrow> 's relayWorld" where
  "put_handler i h w = w\<lparr>w_handlers := (w_handlers w)(i := h)\<rparr>"

definition relay_OnServe :: "nat \<Rightarrow> 's relayWorld \<Rightarrow> 's relayWorld" where
  "relay_OnServe i w = put_handler i ((w_handlers w i)\<lparr>h_conn := Some i\<rparr>) w"

definition relay_OnPublish :: "nat \<Rightarrow> string \<Rightarrow> ('s relayWorld, unit) io" where
  "relay_OnPublish i name w =
     (if h_sub (w_handlers w i) \<noteq> None then (Err (Errorf ''Cannot publish to this stream'' []), w)
      else if name = '''' then (Err (Errorf ''PublishingName is empty'' []), w)
      else
        bind_io (wrap_io ''Failed to create pubsub'' (NewPubsub name)) (\<lambda>p.
        bind_io (Pubsub_Pub p) (\<lambda>q w.
          (Ok (), put_handler i ((w_handlers w i)\<lparr>h_pub := Some q\<rparr>) w))) w)"

definition relay_OnPlay :: "nat \<Rightarrow> uint32 \<Rightarrow> string \<Rightarrow> ('s relayWorld, unit) io" where
  "relay_OnPlay i streamID name w =
     (if h_sub (w_handlers w i) \<noteq> None then (Err (Errorf ''Cannot play on this stream'' []), w)
      else
        bind_io (wrap_io ''Failed to get pubsub'' (GetPubsub name)) (\<lambda>p.
        bind_io (Pubsub_Sub p) (\<lambda>k w.
          (Ok (), put_handler i ((w_handlers w i)\<lparr>h_sub := Some k\<rparr>)
                    (put_sub k ((w_subs w ! k)\<lparr>sub_eventCallback := Some (h_conn (w_handlers w i), streamID)\<rparr>) w)))) w)"

text \<open>\<^verbatim>\<open>_ = h.pub.Publish(tag)\<close>\<close>

definition relay_publish :: "'s relayEnv \<Rightarrow> nat \<Rightarrow> 's FlvTag \<Rightarrow> ('s relayWorld, unit) io" where
  "relay_publish env i flv w =
     (case h_pub (w_handlers w i) of
        None \<Rightarrow> (Panic ''nil pointer dereference'', w)
      | Some q \<Rightarrow> ignoring (Pub_Publish env q flv) w)"

definition relay_OnSetDataFrame :: "'s relayEnv \<Rightarrow> nat \<Rightarrow> uint32 \<Rightarrow> byte list \<Rightarrow> ('s relayWorld, unit) io" where
  "relay_OnSetDataFrame env i ts payload w =
     (case decodeScriptData (re_flv env) payload of
        Ok script \<Rightarrow> relay_publish env i \<lparr>TagType = TagTypeScriptData (re_flv env), Timestamp = ts, Data = FlvScript script\<rparr> w
      | Err e \<Rightarrow> (Ok (), w)
      | Panic p \<Rightarrow> (Panic p, w))"

definition relay_OnAudio :: "'s relayEnv \<Rightarrow> nat \<Rightarrow> uint32 \<Rightarrow> byte list \<Rightarrow> ('s relayWorld, unit) io" where
  "relay_OnAudio env i ts payload =
     bind_io (pure_io (decodeAudioData (re_flv env) payload)) (\<lambda>audio.
       relay_publish env i \<lparr>TagType = TagTypeAudio (re_flv env), Timestamp = ts, Data = FlvAudio audio\<rparr>)"

definition relay_OnVideo :: "'s relayEnv \<Rightarrow> nat \<Rightarrow> uint32 \<Rightarrow> byte list \<Rightarrow> ('s relayWorld, unit) io" where
  "relay_OnVideo env i ts payload =
     bind_io (pure_io (decodeVideoData (re_flv env) payload)) (\<lambda>video.
       relay_publish env i \<lparr>TagType = TagTypeVideo (re_flv env), Timestamp = ts, Data = FlvVideo video\<rparr>)"

definition relay_OnClose :: "nat \<Rightarrow> 's relayWorld \<Rightarrow> 's relayWorld" where
  "relay_OnClose i w =
     (let w1 = (case h_pub (w_handlers w i) of None \<Rightarrow> w | Some q \<Rightarrow> snd (Pub_Close q w)) in
      case h_sub (w_handlers w1 i) of None \<Rightarrow> w1 | Some k \<Rightarrow> snd (Sub_Close k w1))"

text \<open>\<^verbatim>\<open>OnConnect\<close> and \<^verbatim>\<open>OnCreateStream\<close> only log; the rest is the default handler's.\<close>

definition relay_handler :: "'s relayEnv \<Rightarrow> nat \<Rightarrow> 's relayWorld Handler" where
  "relay_handler env i = DefaultHandler\<lparr>OnServe := relay_OnServe i,
     OnPublish := (\<lambda>_ _ name _. relay_OnPublish i name), OnPlay := (\<lambda>sid _ name _. relay_OnPlay i sid name),
     OnSetDataFrame := relay_OnSetDataFrame env i, OnAudio := relay_OnAudio env i, OnVideo := relay_OnVideo env i,
     OnClose := relay_OnClose i\<rparr>"

end
