(* ===== verification/Relay_System.thy ===== *)
theory Relay_System
  imports Relay
begin

text \<open>
  What holds of a relay whatever its clients do: the invariant of its heaps, that every callback
  keeps it (the contract of \<open>Handler_Contract\<close>, met by the relay's handler), and the system of all
  connections around one relay.
\<close>

section \<open>The shape of a relay\<close>

text \<open>What media changes is left out: caches, timestamps, which subscriber is initialised, the wire.\<close>

type_synonym relayShape = "(string \<Rightarrow> nat option) \<times> Pubsub list \<times> (nat \<Rightarrow> relayHandler) \<times> nat list
  \<times> ((nat option \<times> uint32) option \<times> bool) list"

definition relay_shape :: "'s relayWorld \<Rightarrow> relayShape" where
  "relay_shape w = (w_streams w, w_pubsubs w, w_handlers w, map pub_pb (w_pubs w),
     map (\<lambda>s. (sub_eventCallback s, sub_closed s)) (w_subs w))"

lemma relay_shapeD:
  assumes "relay_shape w' = relay_shape w"
  shows "w_streams w' = w_streams w" "w_pubsubs w' = w_pubsubs w" "w_handlers w' = w_handlers w"
    "length (w_pubs w') = length (w_pubs w)" "length (w_subs w') = length (w_subs w)"
    "q < length (w_pubs w) \<Longrightarrow> pub_pb (w_pubs w' ! q) = pub_pb (w_pubs w ! q)"
    "k < length (w_subs w) \<Longrightarrow> sub_eventCallback (w_subs w' ! k) = sub_eventCallback (w_subs w ! k)"
    "k < length (w_subs w) \<Longrightarrow> sub_closed (w_subs w' ! k) = sub_closed (w_subs w ! k)"
proof -
  from assms show same: "w_streams w' = w_streams w" "w_pubsubs w' = w_pubsubs w" "w_handlers w' = w_handlers w"
    by (simp_all add: relay_shape_def)
  from assms have pubs: "map pub_pb (w_pubs w') = map pub_pb (w_pubs w)"
    and subs: "map (\<lambda>s. (sub_eventCallback s, sub_closed s)) (w_subs w') = map (\<lambda>s. (sub_eventCallback s, sub_closed s)) (w_subs w)"
    by (simp_all add: relay_shape_def)
  show len: "length (w_pubs w') = length (w_pubs w)" "length (w_subs w') = length (w_subs w)"
    using pubs subs by (auto dest: map_eq_imp_length_eq)
  show "q < length (w_pubs w) \<Longrightarrow> pub_pb (w_pubs w' ! q) = pub_pb (w_pubs w ! q)"
    using arg_cong [OF pubs, of "\<lambda>l. l ! q"] len by simp
  show "k < length (w_subs w) \<Longrightarrow> sub_eventCallback (w_subs w' ! k) = sub_eventCallback (w_subs w ! k)"
    "k < length (w_subs w) \<Longrightarrow> sub_closed (w_subs w' ! k) = sub_closed (w_subs w ! k)"
    using arg_cong [OF subs, of "\<lambda>l. l ! k"] len by simp_all
qed

text \<open>
  Pointers: what is in the map is a pubsub of that name; a subscriber belongs to one pubsub, once;
  a publisher is the publisher of its pubsub; a subscriber's callback is that of the connection
  whose handler holds it, a publisher is held by at most one handler.
\<close>

definition heaps_ok :: "'s relayWorld \<Rightarrow> bool" where
  "heaps_ok w \<longleftrightarrow>
     (\<forall>n p. w_streams w n = Some p \<longrightarrow> p < length (w_pubsubs w) \<and> pb_name (w_pubsubs w ! p) = n)
   \<and> (\<forall>p < length (w_pubsubs w). distinct (pb_subs (w_pubsubs w ! p))
        \<and> (\<forall>k \<in> set (pb_subs (w_pubsubs w ! p)). k < length (w_subs w)
            \<and> (\<forall>p' < length (w_pubsubs w). k \<in> set (pb_subs (w_pubsubs w ! p')) \<longrightarrow> p' = p)))
   \<and> (\<forall>q < length (w_pubs w). pub_pb (w_pubs w ! q) < length (w_pubsubs w)
        \<and> pb_pub (w_pubsubs w ! pub_pb (w_pubs w ! q)) = Some q)"

definition handlers_ok :: "'s relayWorld \<Rightarrow> bool" where
  "handlers_ok w \<longleftrightarrow>
     (\<forall>k < length (w_subs w). \<exists>i sid. sub_eventCallback (w_subs w ! k) = Some (Some i, sid) \<and> h_sub (w_handlers w i) = Some k)
   \<and> (\<forall>i k. h_sub (w_handlers w i) = Some k \<longrightarrow> k < length (w_subs w)
        \<and> (\<exists>sid. sub_eventCallback (w_subs w ! k) = Some (Some i, sid)))
   \<and> (\<forall>i q. h_pub (w_handlers w i) = Some q \<longrightarrow> q < length (w_pubs w)
        \<and> (\<forall>j. h_pub (w_handlers w j) = Some q \<longrightarrow> j = i))"

text \<open>
  Of the connections \<open>A\<close> that are open, the publisher is the one the map has under its name, and
  the subscriber of a published name is not closed.
\<close>

definition live_ok :: "nat set \<Rightarrow> 's relayWorld \<Rightarrow> bool" where
  "live_ok A w \<longleftrightarrow> (\<forall>i \<in> A. h_conn (w_handlers w i) = Some i
     \<and> (\<forall>q. h_pub (w_handlers w i) = Some q \<longrightarrow>
          w_streams w (pb_name (w_pubsubs w ! pub_pb (w_pubs w ! q))) = Some (pub_pb (w_pubs w ! q)))
     \<and> (\<forall>k n p. h_sub (w_handlers w i) = Some k \<longrightarrow> w_streams w n = Some p \<longrightarrow> k \<in> set (pb_subs (w_pubsubs w ! p))
          \<longrightarrow> \<not> sub_closed (w_subs w ! k)))"

text \<open>What is cached is video.\<close>

definition cached_ok :: "'s relayWorld \<Rightarrow> bool" where
  "cached_ok w \<longleftrightarrow> (\<forall>p \<in> set (w_pubs w). \<forall>v. pub_avcSeqHeader p = Some v \<or> pub_lastKeyFrame p = Some v \<longrightarrow>
     (\<exists>d. Data v = FlvVideo d))"

definition relay_ok :: "nat set \<Rightarrow> 's relayWorld \<Rightarrow> bool" where
  "relay_ok A w \<longleftrightarrow> heaps_ok w \<and> handlers_ok w \<and> live_ok A w \<and> cached_ok w"

lemma shape_ok:
  assumes "relay_shape w' = relay_shape w"
  shows "heaps_ok w \<Longrightarrow> heaps_ok w'" and "handlers_ok w \<Longrightarrow> handlers_ok w'"
    and "heaps_ok w \<Longrightarrow> handlers_ok w \<Longrightarrow> live_ok A w \<Longrightarrow> live_ok A w'"
proof -
  note D = relay_shapeD [OF assms]
  show "heaps_ok w \<Longrightarrow> heaps_ok w'" unfolding heaps_ok_def using D by simp
  show "handlers_ok w \<Longrightarrow> handlers_ok w'" unfolding handlers_ok_def using D by simp
  show "live_ok A w'" if "heaps_ok w" "handlers_ok w" "live_ok A w"
    using that D unfolding live_ok_def handlers_ok_def by simp
qed

section \<open>Media\<close>

text \<open>Sending leaves the shape and the caches alone.\<close>

definition quiet :: "('s relayWorld, 'a) io \<Rightarrow> bool" where
  "quiet m \<longleftrightarrow> (\<forall>w. relay_shape (snd (m w)) = relay_shape w \<and> w_pubs (snd (m w)) = w_pubs w)"

named_theorems quiets

lemma quietD: "quiet m \<Longrightarrow> relay_shape (snd (m w)) = relay_shape w" "quiet m \<Longrightarrow> w_pubs (snd (m w)) = w_pubs w"
  by (simp_all add: quiet_def)

lemma quiet_bind [quiets]: "quiet m \<Longrightarrow> (\<And>a. quiet (f a)) \<Longrightarrow> quiet (bind_io m f)"
  by (auto simp: quiet_def bind_io_def split: result.split)

lemma quiet_basic [quiets]: "quiet (return_io a)" "quiet (pure_io r)" "quiet (panic_io p)"
  by (simp_all add: quiet_def pure_io_def)

lemma quiet_ignoring [quiets]: "quiet m \<Longrightarrow> quiet (ignoring m)"
  by (auto simp: quiet_def ignoring_def split: prod.split result.split) (metis snd_conv)+

lemma quiet_each [quiets]: "(\<And>k. quiet (f k)) \<Longrightarrow> quiet (each f ks)"
  by (induction ks) (auto intro: quiets)

lemma quiet_put:
  assumes "sub_eventCallback s = sub_eventCallback (w_subs w ! k)" and "sub_closed s = sub_closed (w_subs w ! k)"
  shows "relay_shape (put_sub k s w) = relay_shape w"
proof -
  have "(map g (w_subs w))[k := g s] = map g (w_subs w)" if "g s = g (w_subs w ! k)" for g :: "Sub \<Rightarrow> 'b"
    using that by (cases "k < length (w_subs w)") (simp_all add: list_update_beyond list_update_same_conv)
  from this [of "\<lambda>s. (sub_eventCallback s, sub_closed s)"] assms show ?thesis
    by (simp add: relay_shape_def put_sub_def map_update)
qed

lemma put_sub_pubs [simp]: "w_pubs (put_sub k s w) = w_pubs w"
  by (simp add: put_sub_def)

lemma quiet_Write [quiets]: "quiet (Conn_Write env conn csid ts cmsg)"
  by (auto simp: quiet_def Conn_Write_def relay_shape_def split: option.split)

lemma quiet_callback [quiets]: "quiet (onEventCallback env conn sid flv)"
  by (cases "Data flv") (auto simp: onEventCallback_def NewAMFEncoder_def intro!: quiets)

lemma quiet_onEvent [quiets]: "quiet (Sub_onEvent env k flv)"
  by (auto simp: quiet_def Sub_onEvent_def Let_def quietD [OF quiet_callback] quiet_put split: option.split)

lemma quiet_clone [quiets]: "quiet (send_clone env flv k)" "quiet (send_cached env v k)"
  by (auto simp: send_cached_def send_clone_def split: option.split intro!: quiets)

lemma quiet_video [quiets]: "quiet (send_video env p flv k)"
proof -
  have "quiet (\<lambda>w. (Ok (), put_sub k ((w_subs w ! k)\<lparr>sub_initialized := True\<rparr>) w))"
    by (simp add: quiet_def quiet_put)
  then have "quiet (bind_io (send_cached env (pub_avcSeqHeader p) k) (\<lambda>_.
        bind_io (send_cached env (pub_lastKeyFrame p) k) (\<lambda>_ w.
          (Ok (), put_sub k ((w_subs w ! k)\<lparr>sub_initialized := True\<rparr>) w))))"
    by (intro quiets)
  then show ?thesis using quiet_clone(1) [of env flv k]
    by (auto simp: quiet_def send_video_def)
qed

lemma Publish_keeps:
  "relay_shape (snd (Pub_Publish env q flv w)) = relay_shape w"
  "cached_ok w \<Longrightarrow> cached_ok (snd (Pub_Publish env q flv w))"
proof -
  let ?w = "\<lambda>p'. w\<lparr>w_pubs := (w_pubs w)[q := p']\<rparr>" and ?p = "\<lambda>d. pub_cache (re_flv env) flv d (w_pubs w ! q)"
  have "map pub_pb ((w_pubs w)[q := ?p d]) = map pub_pb (w_pubs w)" for d
    by (cases "q < length (w_pubs w)")
      (simp_all add: map_update pub_cache_def Let_def list_update_same_conv list_update_beyond)
  then have shape: "relay_shape (?w (?p d)) = relay_shape w" for d by (simp add: relay_shape_def)
  have each: "quiet (each (send_video env p flv) ks)" "quiet (each (send_clone env flv) ks)" for p ks
    by (intro quiets)+
  show "relay_shape (snd (Pub_Publish env q flv w)) = relay_shape w"
    by (auto simp: Pub_Publish_def Let_def shape quietD(1) [OF each(1)] quietD(1) [OF each(2)] split: flvData.split)
  assume c: "cached_ok w"
  have "cached_ok (?w (?p d))" if "Data flv = FlvVideo d" for d
  proof (cases "q < length (w_pubs w)")
    case True
    then show ?thesis using c that
      by (auto simp: cached_ok_def pub_cache_def Let_def dest!: set_update_subset_insert [THEN subsetD] split: if_splits)
        (metis nth_mem)+
  qed (use c in \<open>simp add: list_update_beyond cached_ok_def\<close>)
  then show "cached_ok (snd (Pub_Publish env q flv w))"
    using c quietD(2) [OF each(1)] quietD(2) [OF each(2)]
    by (auto simp: Pub_Publish_def Let_def cached_ok_def split: flvData.split)
qed

section \<open>Publishing, playing, closing\<close>

text \<open>A publish and a play that are accepted, as one step; a refused one changes nothing.\<close>

definition published_by :: "nat \<Rightarrow> string \<Rightarrow> 's relayWorld \<Rightarrow> 's relayWorld" where
  "published_by i name w =
     (let p = length (w_pubsubs w); q = length (w_pubs w) in
      w\<lparr>w_streams := (w_streams w)(name \<mapsto> p),
        w_pubsubs := w_pubsubs w @ [\<lparr>pb_name = name, pb_pub = Some q, pb_subs = []\<rparr>],
        w_pubs := w_pubs w @ [\<lparr>pub_pb = p, pub_avcSeqHeader = None, pub_lastKeyFrame = None\<rparr>],
        w_handlers := (w_handlers w)(i := (w_handlers w i)\<lparr>h_pub := Some q\<rparr>)\<rparr>)"

definition played_by :: "nat \<Rightarrow> uint32 \<Rightarrow> nat \<Rightarrow> 's relayWorld \<Rightarrow> 's relayWorld" where
  "played_by i sid p w =
     (let k = length (w_subs w) in
      w\<lparr>w_pubsubs := (w_pubsubs w)[p := (w_pubsubs w ! p)\<lparr>pb_subs := pb_subs (w_pubsubs w ! p) @ [k]\<rparr>],
        w_subs := w_subs w @ [\<lparr>sub_initialized = False, sub_closed = False, sub_lastTimestamp = 0,
          sub_eventCallback = Some (h_conn (w_handlers w i), sid)\<rparr>],
        w_handlers := (w_handlers w)(i := (w_handlers w i)\<lparr>h_sub := Some k\<rparr>)\<rparr>)"

lemma OnPublish_result:
  "relay_OnPublish i name w =
     (if h_sub (w_handlers w i) \<noteq> None then (Err (Errorf ''Cannot publish to this stream'' []), w)
      else if name = '''' then (Err (Errorf ''PublishingName is empty'' []), w)
      else if w_streams w name \<noteq> None
        then (Err (Wrapf (Errorf (''Already published: '' @ name) []) ''Failed to create pubsub''), w)
      else (Ok (), published_by i name w))"
  by (auto simp: relay_OnPublish_def NewPubsub_def Pubsub_Pub_def put_handler_def published_by_def wrap_io_def
      bind_io_def Let_def split: option.split)

lemma OnPlay_result:
  "relay_OnPlay i sid name w =
     (if h_sub (w_handlers w i) \<noteq> None then (Err (Errorf ''Cannot play on this stream'' []), w)
      else case w_streams w name of
          None \<Rightarrow> (Err (Wrapf (Errorf (''Not published: '' @ name) []) ''Failed to get pubsub''), w)
        | Some p \<Rightarrow> (Ok (), played_by i sid p w))"
  by (auto simp: relay_OnPlay_def GetPubsub_def Pubsub_Sub_def put_handler_def put_sub_def played_by_def wrap_io_def
      bind_io_def Let_def split: option.split)

lemma published_fields [simp]:
  "w_streams (published_by i name w) = (w_streams w)(name \<mapsto> length (w_pubsubs w))"
  "w_pubsubs (published_by i name w) = w_pubsubs w @ [\<lparr>pb_name = name, pb_pub = Some (length (w_pubs w)), pb_subs = []\<rparr>]"
  "w_pubs (published_by i name w) =
     w_pubs w @ [\<lparr>pub_pb = length (w_pubsubs w), pub_avcSeqHeader = None, pub_lastKeyFrame = None\<rparr>]"
  "w_handlers (published_by i name w) = (w_handlers w)(i := (w_handlers w i)\<lparr>h_pub := Some (length (w_pubs w))\<rparr>)"
  "w_subs (published_by i name w) = w_subs w" "w_wire (published_by i name w) = w_wire w"
  by (simp_all add: published_by_def Let_def)

lemma played_fields [simp]:
  "w_streams (played_by i sid p w) = w_streams w"
  "w_pubsubs (played_by i sid p w) =
     (w_pubsubs w)[p := (w_pubsubs w ! p)\<lparr>pb_subs := pb_subs (w_pubsubs w ! p) @ [length (w_subs w)]\<rparr>]"
  "w_pubs (played_by i sid p w) = w_pubs w"
  "w_handlers (played_by i sid p w) = (w_handlers w)(i := (w_handlers w i)\<lparr>h_sub := Some (length (w_subs w))\<rparr>)"
  "w_subs (played_by i sid p w) = w_subs w @ [\<lparr>sub_initialized = False, sub_closed = False, sub_lastTimestamp = 0,
     sub_eventCallback = Some (h_conn (w_handlers w i), sid)\<rparr>]"
  "w_wire (played_by i sid p w) = w_wire w"
  by (simp_all add: played_by_def Let_def)

lemma heaps_okD:
  assumes "heaps_ok w"
  shows "w_streams w n = Some p \<Longrightarrow> p < length (w_pubsubs w)"
    and "w_streams w n = Some p \<Longrightarrow> pb_name (w_pubsubs w ! p) = n"
    and "p < length (w_pubsubs w) \<Longrightarrow> distinct (pb_subs (w_pubsubs w ! p))"
    and "p < length (w_pubsubs w) \<Longrightarrow> k \<in> set (pb_subs (w_pubsubs w ! p)) \<Longrightarrow> k < length (w_subs w)"
    and "p < length (w_pubsubs w) \<Longrightarrow> k \<in> set (pb_subs (w_pubsubs w ! p)) \<Longrightarrow>
      p' < length (w_pubsubs w) \<Longrightarrow> k \<in> set (pb_subs (w_pubsubs w ! p')) \<Longrightarrow> p' = p"
    and "q < length (w_pubs w) \<Longrightarrow> pub_pb (w_pubs w ! q) < length (w_pubsubs w)"
    and "q < length (w_pubs w) \<Longrightarrow> pb_pub (w_pubsubs w ! pub_pb (w_pubs w ! q)) = Some q"
  using assms unfolding heaps_ok_def by blast+

lemma handlers_okD:
  assumes "handlers_ok w"
  shows "k < length (w_subs w) \<Longrightarrow> \<exists>i sid. sub_eventCallback (w_subs w ! k) = Some (Some i, sid) \<and> h_sub (w_handlers w i) = Some k"
    and "h_sub (w_handlers w i) = Some k \<Longrightarrow> k < length (w_subs w)"
    and "h_sub (w_handlers w i) = Some k \<Longrightarrow> \<exists>sid. sub_eventCallback (w_subs w ! k) = Some (Some i, sid)"
    and "h_pub (w_handlers w i) = Some q \<Longrightarrow> q < length (w_pubs w)"
    and "h_pub (w_handlers w i) = Some q \<Longrightarrow> h_pub (w_handlers w j) = Some q \<Longrightarrow> j = i"
  using assms unfolding handlers_ok_def by blast+

lemma live_okD:
  assumes "live_ok A w" and "i \<in> A"
  shows "h_conn (w_handlers w i) = Some i"
    and "h_pub (w_handlers w i) = Some q \<Longrightarrow>
      w_streams w (pb_name (w_pubsubs w ! pub_pb (w_pubs w ! q))) = Some (pub_pb (w_pubs w ! q))"
    and "h_sub (w_handlers w i) = Some k \<Longrightarrow> w_streams w n = Some p \<Longrightarrow> k \<in> set (pb_subs (w_pubsubs w ! p)) \<Longrightarrow>
      \<not> sub_closed (w_subs w ! k)"
  using assms unfolding live_ok_def by blast+

lemma published_ok:
  assumes ok: "relay_ok A w" and free: "w_streams w name = None"
  shows "relay_ok A (published_by i name w)"
proof -
  from ok have h: "heaps_ok w" and c: "handlers_ok w" and l: "live_ok A w" and v: "cached_ok w"
    by (simp_all add: relay_ok_def)
  have "heaps_ok (published_by i name w)"
    using heaps_okD [OF h] free unfolding heaps_ok_def
    by (auto simp: nth_append less_Suc_eq)
  moreover have "handlers_ok (published_by i name w)"
    using handlers_okD [OF c] unfolding handlers_ok_def
    by (auto simp: nth_append less_Suc_eq) (metis less_irrefl)+
  moreover have "live_ok A (published_by i name w)"
    using live_okD [OF l] handlers_okD(4) [OF c] heaps_okD(1,2,6) [OF h] free unfolding live_ok_def
    by (auto simp: nth_append)
  moreover have "cached_ok (published_by i name w)"
    using v by (auto simp: cached_ok_def)
  ultimately show ?thesis by (simp add: relay_ok_def)
qed

lemma played_ok:
  assumes ok: "relay_ok A w" and i: "h_conn (w_handlers w i) = Some i" "h_sub (w_handlers w i) = None"
    and name: "w_streams w name = Some p"
  shows "relay_ok A (played_by i sid p w)"
proof -
  from ok have h: "heaps_ok w" and c: "handlers_ok w" and l: "live_ok A w" and v: "cached_ok w"
    by (simp_all add: relay_ok_def)
  note p = heaps_okD(1) [OF h name]
  have "length (w_subs w) \<notin> set (pb_subs (w_pubsubs w ! p'))" if "p' < length (w_pubsubs w)" for p'
    using heaps_okD(4) [OF h that, of "length (w_subs w)"] by auto
  then have "heaps_ok (played_by i sid p w)"
    using heaps_okD [OF h] p unfolding heaps_ok_def
    by (auto simp: nth_list_update less_Suc_eq)
  moreover have "handlers_ok (played_by i sid p w)"
    using handlers_okD [OF c] i unfolding handlers_ok_def
    by (auto simp: nth_append less_Suc_eq) (metis option.distinct(1))
  moreover have "h_sub (w_handlers w j) \<noteq> Some (length (w_subs w))" for j
    using handlers_okD(2) [OF c, of j "length (w_subs w)"] by auto
  then have "live_ok A (played_by i sid p w)"
    using live_okD [OF l] handlers_okD(2,4) [OF c] heaps_okD(1,4,6) [OF h] p unfolding live_ok_def
    by (auto simp: nth_append nth_list_update)
  moreover have "cached_ok (played_by i sid p w)"
    using v by (auto simp: cached_ok_def)
  ultimately show ?thesis by (simp add: relay_ok_def)
qed

lemma already_closed [simp]: "sub_closed s \<Longrightarrow> s\<lparr>sub_closed := True\<rparr> = s"
  by (cases s) simp

lemma same_subs [simp]: "w\<lparr>w_subs := w_subs w\<rparr> = w"
  by (cases w) simp

lemma Close_subs:
  "each (\<lambda>k. ignoring (Sub_Close k)) ks w =
     (Ok (), w\<lparr>w_subs := fold (\<lambda>k ss. ss[k := (ss ! k)\<lparr>sub_closed := True\<rparr>]) ks (w_subs w)\<rparr>)"
proof (induction ks arbitrary: w)
  case (Cons k ks)
  have "snd (ignoring (Sub_Close k) w) = w\<lparr>w_subs := (w_subs w)[k := (w_subs w ! k)\<lparr>sub_closed := True\<rparr>]\<rparr>"
    "fst (ignoring (Sub_Close k) w) = Ok ()"
    by (auto simp: ignoring_def Sub_Close_def put_sub_def)
  then show ?case by (simp add: bind_io_def Cons.IH)
qed simp

lemma closed_all:
  "length (fold (\<lambda>k ss. ss[k := (ss ! k)\<lparr>sub_closed := True\<rparr>]) ks ss) = length ss"
  "k < length ss \<Longrightarrow> fold (\<lambda>k ss. ss[k := (ss ! k)\<lparr>sub_closed := True\<rparr>]) ks ss ! k =
     (if k \<in> set ks then (ss ! k)\<lparr>sub_closed := True\<rparr> else ss ! k)"
proof -
  show len: "length (fold (\<lambda>k ss. ss[k := (ss ! k)\<lparr>sub_closed := True\<rparr>]) ks ss) = length ss" for ss
    by (induction ks arbitrary: ss) simp_all
  show "k < length ss \<Longrightarrow> fold (\<lambda>k ss. ss[k := (ss ! k)\<lparr>sub_closed := True\<rparr>]) ks ss ! k =
     (if k \<in> set ks then (ss ! k)\<lparr>sub_closed := True\<rparr> else ss ! k)"
  proof (induction ks arbitrary: ss)
    case (Cons a ks)
    then show ?case by (cases "a = k") simp_all
  qed simp
qed

text \<open>A relay in which more subscribers are closed, and names removed from the map, is still in order.\<close>

definition closed_subs :: "nat set \<Rightarrow> 's relayWorld \<Rightarrow> 's relayWorld" where
  "closed_subs K w = w\<lparr>w_subs := [if k \<in> K then (w_subs w ! k)\<lparr>sub_closed := True\<rparr> else w_subs w ! k. k \<leftarrow> [0..<length (w_subs w)]]\<rparr>"

lemma closed_subs_fields [simp]:
  "w_streams (closed_subs K w) = w_streams w" "w_pubsubs (closed_subs K w) = w_pubsubs w"
  "w_pubs (closed_subs K w) = w_pubs w" "w_handlers (closed_subs K w) = w_handlers w"
  "w_wire (closed_subs K w) = w_wire w" "length (w_subs (closed_subs K w)) = length (w_subs w)"
  "k < length (w_subs w) \<Longrightarrow> w_subs (closed_subs K w) ! k =
     (if k \<in> K then (w_subs w ! k)\<lparr>sub_closed := True\<rparr> else w_subs w ! k)"
  by (simp_all add: closed_subs_def)

lemma Close_result: "Sub_Close k w = (Ok (), closed_subs {k} w)" if "k < length (w_subs w)"
proof -
  have "w_subs (closed_subs {k} w) = (w_subs w)[k := (w_subs w ! k)\<lparr>sub_closed := True\<rparr>]"
    using that by (intro nth_equalityI) (auto simp: nth_list_update)
  then have "put_sub k ((w_subs w ! k)\<lparr>sub_closed := True\<rparr>) w = closed_subs {k} w"
    by (simp add: put_sub_def closed_subs_def)
  moreover have "sub_closed (w_subs w ! k) \<Longrightarrow> put_sub k ((w_subs w ! k)\<lparr>sub_closed := True\<rparr>) w = w"
    by (simp add: put_sub_def)
  ultimately show ?thesis by (auto simp: Sub_Close_def)
qed

lemma Deregister_result:
  "Pubsub_Deregister p w =
     (case w_streams w (pb_name (w_pubsubs w ! p)) of
        None \<Rightarrow> (Err (Errorf (''Not published: '' @ pb_name (w_pubsubs w ! p)) []), closed_subs (set (pb_subs (w_pubsubs w ! p))) w)
      | Some _ \<Rightarrow> (Ok (), closed_subs (set (pb_subs (w_pubsubs w ! p))) w\<lparr>w_streams := (w_streams w)(pb_name (w_pubsubs w ! p) := None)\<rparr>))"
proof -
  have "w\<lparr>w_subs := fold (\<lambda>k ss. ss[k := (ss ! k)\<lparr>sub_closed := True\<rparr>]) (pb_subs (w_pubsubs w ! p)) (w_subs w)\<rparr> =
    closed_subs (set (pb_subs (w_pubsubs w ! p))) w"
    unfolding closed_subs_def
    by (rule arg_cong [where f = "\<lambda>ss. w\<lparr>w_subs := ss\<rparr>"], rule nth_equalityI) (simp_all add: closed_all)
  then show ?thesis
    by (auto simp: Pubsub_Deregister_def Close_subs bind_io_def RemovePubsub_def split: option.split)
qed

lemma closed_subs_more:
  "closed_subs {} w = w" "closed_subs K (closed_subs K' w) = closed_subs (K' \<union> K) w"
  "closed_subs K (w\<lparr>w_streams := ns\<rparr>) = closed_subs K w\<lparr>w_streams := ns\<rparr>"
proof -
  have "[w_subs w ! k. k \<leftarrow> [0..<length (w_subs w)]] = w_subs w" by (rule map_nth)
  then show "closed_subs {} w = w" by (simp add: closed_subs_def)
  show "closed_subs K (w\<lparr>w_streams := ns\<rparr>) = closed_subs K w\<lparr>w_streams := ns\<rparr>"
    by (simp add: closed_subs_def)
  have "w_subs (closed_subs K (closed_subs K' w)) = w_subs (closed_subs (K' \<union> K) w)"
    by (rule nth_equalityI) auto
  then show "closed_subs K (closed_subs K' w) = closed_subs (K' \<union> K) w"
    by (simp add: closed_subs_def)
qed

text \<open>
  When a connection closes: its publisher's subscribers are closed and the name is free again, and
  its own subscriber is closed.
\<close>

definition pubsub_of :: "nat \<Rightarrow> 's relayWorld \<Rightarrow> Pubsub option" where
  "pubsub_of i w = map_option (\<lambda>q. w_pubsubs w ! pub_pb (w_pubs w ! q)) (h_pub (w_handlers w i))"

definition left_by :: "nat \<Rightarrow> 's relayWorld \<Rightarrow> 's relayWorld" where
  "left_by i w =
     closed_subs ((case pubsub_of i w of None \<Rightarrow> {} | Some pb \<Rightarrow> set (pb_subs pb)) \<union> set_option (h_sub (w_handlers w i))) w
       \<lparr>w_streams := (case pubsub_of i w of None \<Rightarrow> w_streams w | Some pb \<Rightarrow> (w_streams w)(pb_name pb := None))\<rparr>"

lemma OnClose_result:
  assumes "relay_ok A w" and "i \<in> A"
  shows "relay_OnClose i w = left_by i w"
proof -
  have c: "handlers_ok w" and l: "live_ok A w" using assms(1) by (simp_all add: relay_ok_def)
  have same: "w\<lparr>w_streams := w_streams w\<rparr> = w" "closed_subs K w\<lparr>w_streams := w_streams w\<rparr> = closed_subs K w" for K
    by (cases w, simp) (cases w, simp add: closed_subs_def)
  show ?thesis
    using handlers_okD(2) [OF c, of i] live_okD(2) [OF l assms(2)]
    by (auto simp: relay_OnClose_def left_by_def pubsub_of_def Let_def Pub_Close_def Deregister_result Close_result
        closed_subs_more same split: option.split)
qed

lemma left_ok:
  assumes ok: "relay_ok A w" and i: "i \<in> A"
  shows "relay_ok (A - {i}) (left_by i w)"
proof -
  from ok have h: "heaps_ok w" and c: "handlers_ok w" and l: "live_ok A w" and v: "cached_ok w"
    by (simp_all add: relay_ok_def)
  define K where "K = (case pubsub_of i w of None \<Rightarrow> {} | Some pb \<Rightarrow> set (pb_subs pb)) \<union> set_option (h_sub (w_handlers w i))"
  define ns where "ns = (case pubsub_of i w of None \<Rightarrow> w_streams w | Some pb \<Rightarrow> (w_streams w)(pb_name pb := None))"
  have left: "left_by i w = closed_subs K w\<lparr>w_streams := ns\<rparr>" by (simp add: left_by_def K_def ns_def)
  have ns: "ns n = Some p \<Longrightarrow> w_streams w n = Some p" for n p
    by (auto simp: ns_def split: option.splits if_splits)
  have "heaps_ok (left_by i w)"
    using h ns unfolding left heaps_ok_def by auto
  moreover have "handlers_ok (left_by i w)"
    using c unfolding left handlers_ok_def by auto
  moreover have "cached_ok (left_by i w)"
    using v by (simp add: left cached_ok_def)
  moreover have "live_ok (A - {i}) (left_by i w)"
    unfolding live_ok_def
  proof (intro ballI conjI allI impI)
    fix j assume j: "j \<in> A - {i}"
    then have A: "j \<in> A" and ne: "j \<noteq> i" by auto
    show "h_conn (w_handlers (left_by i w) j) = Some j" using live_okD(1) [OF l A] by (simp add: left)
    fix q assume "h_pub (w_handlers (left_by i w) j) = Some q"
    then have q: "h_pub (w_handlers w j) = Some q" by (simp add: left)
    show "w_streams (left_by i w) (pb_name (w_pubsubs (left_by i w) ! pub_pb (w_pubs (left_by i w) ! q))) =
        Some (pub_pb (w_pubs (left_by i w) ! q))"
    proof (cases "h_pub (w_handlers w i)")
      case (Some q')
      let ?p = "pub_pb (w_pubs w ! q)" and ?p' = "pub_pb (w_pubs w ! q')"
      have "q' \<noteq> q" using handlers_okD(5) [OF c Some, of j] q ne by auto
      then have "?p' \<noteq> ?p"
        using heaps_okD(7) [OF h handlers_okD(4) [OF c q]] heaps_okD(7) [OF h handlers_okD(4) [OF c Some]] by auto
      then have "pb_name (w_pubsubs w ! ?p) \<noteq> pb_name (w_pubsubs w ! ?p')"
        using live_okD(2) [OF l A q] live_okD(2) [OF l i Some] by auto
      then show ?thesis using live_okD(2) [OF l A q] by (simp add: left ns_def pubsub_of_def Some)
    qed (simp add: left ns_def pubsub_of_def live_okD(2) [OF l A q])
  next
    fix j k n p assume j: "j \<in> A - {i}"
      and k: "h_sub (w_handlers (left_by i w) j) = Some k" and "w_streams (left_by i w) n = Some p"
        "k \<in> set (pb_subs (w_pubsubs (left_by i w) ! p))"
    then have A: "j \<in> A" and ne: "j \<noteq> i" and sub: "h_sub (w_handlers w j) = Some k" and n: "ns n = Some p"
      and mem: "k \<in> set (pb_subs (w_pubsubs w ! p))" by (auto simp: left)
    have "h_sub (w_handlers w i) \<noteq> Some k"
      using handlers_okD(3) [OF c sub] handlers_okD(3) [OF c, of i k] ne by auto
    moreover have "k \<notin> set (pb_subs pb)" if pb: "pubsub_of i w = Some pb" for pb
    proof
      assume kin: "k \<in> set (pb_subs pb)"
      obtain q where q: "h_pub (w_handlers w i) = Some q" and pb': "pb = w_pubsubs w ! pub_pb (w_pubs w ! q)"
        using pb by (auto simp: pubsub_of_def)
      have "pub_pb (w_pubs w ! q) = p"
        using heaps_okD(5) [OF h heaps_okD(1) [OF h ns [OF n]] mem heaps_okD(6) [OF h handlers_okD(4) [OF c q]]] kin pb' by simp
      then have "pb_name pb = n" using heaps_okD(2) [OF h ns [OF n]] pb' by simp
      with n pb show False by (simp add: ns_def)
    qed
    ultimately have "k \<notin> K" by (auto simp: K_def split: option.splits)
    then show "\<not> sub_closed (w_subs (left_by i w) ! k)"
      using live_okD(3) [OF l A sub ns [OF n] mem] handlers_okD(2) [OF c sub] by (simp add: left)
  qed
  ultimately show ?thesis by (simp add: relay_ok_def)
qed

section \<open>The relay's handler keeps the contract\<close>

definition relay_conn_env :: "'s relayEnv \<Rightarrow> mapstructure \<Rightarrow> nat \<Rightarrow> 's relayWorld env" where
  "relay_conn_env env ms i = \<lparr>e_amf = re_amf env, e_ms = ms, e_handler = relay_handler env i\<rparr>"

text \<open>The relay is in order, and the handlers of other connections are what they were.\<close>

definition relay_inv :: "nat set \<Rightarrow> nat \<Rightarrow> (nat \<Rightarrow> relayHandler) \<Rightarrow> 's relayWorld \<Rightarrow> bool" where
  "relay_inv A i hs w \<longleftrightarrow> relay_ok A w \<and> i \<in> A \<and> (\<forall>j. j \<noteq> i \<longrightarrow> w_handlers w j = hs j)"

fun relay_has :: "nat \<Rightarrow> call \<Rightarrow> 's relayWorld \<Rightarrow> bool" where
  "relay_has i CallPublish w \<longleftrightarrow> h_pub (w_handlers w i) \<noteq> None"
| "relay_has i CallPlay w \<longleftrightarrow> h_sub (w_handlers w i) \<noteq> None"
| "relay_has i _ w \<longleftrightarrow> True"

lemma ignoring_state [simp]: "snd (ignoring m w) = snd (m w)"
  by (auto simp: ignoring_def split: prod.split result.split)

text \<open>Media leaves the handlers alone.\<close>

lemma publish_keeps:
  "relay_ok A w \<Longrightarrow> relay_ok A (snd (relay_publish env i flv w))"
  "w_handlers (snd (relay_publish env i flv w)) = w_handlers w"
proof -
  have *: "relay_ok A w \<Longrightarrow> relay_ok A (snd (Pub_Publish env q flv w)) \<and> w_handlers (snd (Pub_Publish env q flv w)) = w_handlers w" for q A
    using Publish_keeps [where env = env and q = q and flv = flv and w = w]
      shape_ok [OF Publish_keeps(1) [of env q flv w]] relay_shapeD(3) [OF Publish_keeps(1) [of env q flv w]]
    by (simp add: relay_ok_def)
  then show "relay_ok A w \<Longrightarrow> relay_ok A (snd (relay_publish env i flv w))"
    by (auto simp: relay_publish_def split: option.split)
  show "w_handlers (snd (relay_publish env i flv w)) = w_handlers w"
    using relay_shapeD(3) [OF Publish_keeps(1)] by (auto simp: relay_publish_def split: option.split)
qed

lemma media_keeps:
  "relay_ok A w \<Longrightarrow> relay_ok A (snd (relay_OnAudio env i ts payload w))"
  "relay_ok A w \<Longrightarrow> relay_ok A (snd (relay_OnVideo env i ts payload w))"
  "relay_ok A w \<Longrightarrow> relay_ok A (snd (relay_OnSetDataFrame env i ts payload w))"
  "w_handlers (snd (relay_OnAudio env i ts payload w)) = w_handlers w"
  "w_handlers (snd (relay_OnVideo env i ts payload w)) = w_handlers w"
  "w_handlers (snd (relay_OnSetDataFrame env i ts payload w)) = w_handlers w"
  by (auto simp: relay_OnAudio_def relay_OnVideo_def relay_OnSetDataFrame_def bind_io_def pure_io_def publish_keeps
      split: result.split)

lemma callback_keeps:
  assumes "user_callback (relay_handler env i) k m" and "relay_inv A i hs w"
  shows "relay_inv A i hs (snd (m w))" and "relay_has i j w \<Longrightarrow> relay_has i j (snd (m w))"
    and "fst (m w) = Ok () \<Longrightarrow> relay_has i k (snd (m w))"
proof -
  have ok: "relay_ok A w" and i: "i \<in> A" and others: "\<And>j. j \<noteq> i \<Longrightarrow> w_handlers w j = hs j"
    using assms(2) by (auto simp: relay_inv_def)
  then have conn: "h_conn (w_handlers w i) = Some i" by (auto simp: relay_ok_def live_ok_def)
  have same: "relay_inv A i hs (snd (m w)) \<and> (relay_has i j w \<longrightarrow> relay_has i j (snd (m w)))"
    if "relay_ok A (snd (m w))" "w_handlers (snd (m w)) = w_handlers w" for j
    using that i others by (cases j) (auto simp: relay_inv_def)
  have publish: "relay_inv A i hs (snd (relay_OnPublish i name w))
      \<and> (relay_has i j w \<longrightarrow> relay_has i j (snd (relay_OnPublish i name w)))
      \<and> (fst (relay_OnPublish i name w) = Ok () \<longrightarrow> relay_has i CallPublish (snd (relay_OnPublish i name w)))" for name j
    using published_ok [OF ok] assms(2) others
    by (cases j) (auto simp: OnPublish_result relay_inv_def)
  have play: "relay_inv A i hs (snd (relay_OnPlay i sid name w))
      \<and> (relay_has i j w \<longrightarrow> relay_has i j (snd (relay_OnPlay i sid name w)))
      \<and> (fst (relay_OnPlay i sid name w) = Ok () \<longrightarrow> relay_has i CallPlay (snd (relay_OnPlay i sid name w)))" for sid name j
    using played_ok [OF ok conn] assms(2) others
    by (cases j) (auto simp: OnPlay_result relay_inv_def split: option.split)
  have "relay_inv A i hs (snd (m w)) \<and> (relay_has i j w \<longrightarrow> relay_has i j (snd (m w)))
      \<and> (fst (m w) = Ok () \<longrightarrow> relay_has i k (snd (m w)))"
    using assms(1)
    by (cases rule: user_callback.cases)
      (use publish play same [of j] ok assms(2) in
        \<open>auto simp: relay_handler_def DefaultHandler_def media_keeps(1-3) [OF ok] media_keeps(4-6)\<close>)
  then show "relay_inv A i hs (snd (m w))" "relay_has i j w \<Longrightarrow> relay_has i j (snd (m w))"
    "fst (m w) = Ok () \<Longrightarrow> relay_has i k (snd (m w))" by blast+
qed

interpretation rl: handler_contract "relay_conn_env env ms i" "relay_inv A i hs" "relay_has i" for env ms i A hs
  by unfold_locales (simp_all add: relay_conn_env_def callback_keeps)

section \<open>The system\<close>

text \<open>
  All connections of one relay. Each keeps its own tables; the user's state is the relay, which a
  connection is lent while it handles a message. Messages of different connections are handled in
  any order, one at a time: the interleaving inside of a callback is not modelled.
\<close>

record 's relaySystem =
  y_conns :: "nat \<Rightarrow> 's relayWorld connState option"
  y_opened :: nat
  y_world :: "'s relayWorld"

datatype relayEvent = Opened | Received nat int uint32 ChunkMessage | Ended nat

definition relay_config :: "'s relayEnv \<Rightarrow> nat \<Rightarrow> 's relayWorld userConfig" where
  "relay_config env i = zero_userConfig\<lparr>uc_Handler := Some (relay_handler env i),
     uc_ControlState := zero_config\<lparr>cfg_DefaultBandwidthWindowSize := 6 * 1024 * 1024 div 8\<rparr>\<rparr>"

definition relay_start :: "'s relaySystem" where
  "relay_start = \<lparr>y_conns = (\<lambda>_. None), y_opened = 0, y_world = NewRelayService\<rparr>"

definition hang_up :: "nat \<Rightarrow> 's relaySystem \<Rightarrow> 's relaySystem" where
  "hang_up i S = S\<lparr>y_conns := (y_conns S)(i := None), y_world := relay_OnClose i (y_world S)\<rparr>"

text \<open>A connection that is open has had its handshake; a message that fails ends it.\<close>

fun relay_step :: "'s relayEnv \<Rightarrow> mapstructure \<Rightarrow> relayEvent \<Rightarrow> 's relaySystem \<Rightarrow> 's relaySystem" where
  "relay_step env ms Opened S =
     (let i = y_opened S;
          c = snd (serving (relay_conn_env env ms i) (newConn \<lparr>segs = [], net_end = EOF\<rparr> (Some (relay_config env i)) (y_world S))) in
      S\<lparr>y_conns := (y_conns S)(i \<mapsto> c), y_opened := i + 1, y_world := c_user c\<rparr>)"
| "relay_step env ms (Received i csid ts cmsg) S =
     (case y_conns S i of
        None \<Rightarrow> S
      | Some c \<Rightarrow>
          (case handleMessage (relay_conn_env env ms i) csid ts cmsg (c\<lparr>c_user := y_world S\<rparr>) of
             (Ok _, c') \<Rightarrow> S\<lparr>y_conns := (y_conns S)(i \<mapsto> c'), y_world := c_user c'\<rparr>
           | (_, c') \<Rightarrow> hang_up i (S\<lparr>y_world := c_user c'\<rparr>)))"
| "relay_step env ms (Ended i) S = (case y_conns S i of None \<Rightarrow> S | Some _ \<Rightarrow> hang_up i S)"

definition relay_run :: "'s relayEnv \<Rightarrow> mapstructure \<Rightarrow> relayEvent list \<Rightarrow> 's relaySystem" where
  "relay_run env ms evs = fold (relay_step env ms) evs relay_start"

text \<open>The connections that are open, and what holds of the system.\<close>

definition open_conns :: "'s relaySystem \<Rightarrow> nat set" where
  "open_conns S = {i. y_conns S i \<noteq> None}"

definition system_ok :: "'s relaySystem \<Rightarrow> bool" where
  "system_ok S \<longleftrightarrow> relay_ok (open_conns S) (y_world S)
     \<and> (\<forall>i \<ge> y_opened S. y_conns S i = None \<and> w_handlers (y_world S) i = zero_relayHandler)
     \<and> (\<forall>i c. y_conns S i = Some c \<longrightarrow> wf_tables (tables c)
          \<and> (\<forall>sid s j. fmlookup (c_streams c) sid = Some s \<longrightarrow> accepted_for (str_state s) = Some j \<longrightarrow>
               relay_has i j (y_world S)))"

lemma served_relay_ok:
  assumes "relay_ok A w" and "w_handlers w i = zero_relayHandler"
  shows "relay_ok (insert i A) (relay_OnServe i w)"
proof -
  from assms have h: "heaps_ok w" and c: "handlers_ok w" and l: "live_ok A w" and v: "cached_ok w"
    by (simp_all add: relay_ok_def)
  have w: "w_handlers (relay_OnServe i w) = (w_handlers w)(i := \<lparr>h_conn = Some i, h_pub = None, h_sub = None\<rparr>)"
    using assms(2) by (simp add: relay_OnServe_def put_handler_def zero_relayHandler_def)
  have none: "h_pub (w_handlers w i) = None" "h_sub (w_handlers w i) = None"
    using assms(2) by (simp_all add: zero_relayHandler_def)
  have "heaps_ok (relay_OnServe i w)" "cached_ok (relay_OnServe i w)"
    using h v by (simp_all add: relay_OnServe_def put_handler_def heaps_ok_def cached_ok_def)
  moreover have "handlers_ok (relay_OnServe i w)"
    using c none unfolding handlers_ok_def w
    by (auto simp: relay_OnServe_def put_handler_def) (metis option.distinct(1))
  moreover have "live_ok (insert i A) (relay_OnServe i w)"
    using live_okD [OF l] unfolding live_ok_def w by (auto simp: relay_OnServe_def put_handler_def)
  ultimately show ?thesis by (simp add: relay_ok_def)
qed

lemma relay_has_handlers: "w_handlers w' i = w_handlers w i \<Longrightarrow> relay_has i j w' = relay_has i j w"
  by (cases j) simp_all

text \<open>A connection hangs up: what the others have is what they had.\<close>

lemma left_handlers [simp]: "w_handlers (left_by i w) = w_handlers w"
  by (simp add: left_by_def)

lemma hang_up_ok:
  assumes "system_ok S" and "y_conns S i \<noteq> None"
  shows "system_ok (hang_up i S)"
proof -
  have ok: "relay_ok (open_conns S) (y_world S)" and i: "i \<in> open_conns S"
    using assms by (auto simp: system_ok_def open_conns_def)
  have "open_conns (hang_up i S) = open_conns S - {i}" by (auto simp: open_conns_def hang_up_def)
  then show ?thesis
    using assms(1) left_ok [OF ok i] OnClose_result [OF ok i] relay_has_handlers [of "left_by i (y_world S)" _ "y_world S"]
    by (auto simp: system_ok_def hang_up_def)
qed

text \<open>One message, handled with the relay lent to the connection.\<close>

lemma lent_ok:
  fixes env :: "'s relayEnv" and c :: "'s relayWorld connState" and ms csid ts cmsg
  assumes S: "system_ok S" and i: "y_conns S i = Some c"
  defines "c' \<equiv> snd (handleMessage (relay_conn_env env ms i) csid ts cmsg (c\<lparr>c_user := y_world S\<rparr>))"
  shows "system_ok (S\<lparr>y_conns := (y_conns S)(i \<mapsto> c'), y_world := c_user c'\<rparr>)" and "wf_tables (tables c')"
proof -
  let ?hs = "w_handlers (y_world S)" and ?A = "open_conns S"
  have wf: "wf_tables (tables (c\<lparr>c_user := y_world S\<rparr>))"
    using S i by (auto simp: system_ok_def tables_def)
  show wf': "wf_tables (tables c')"
    unfolding c'_def by (rule handleMessage_tables [OF wf])
  have "remembers (relay_inv ?A i ?hs) (relay_has i) (c\<lparr>c_user := y_world S\<rparr>)"
    using S i by (auto simp: remembers_def relay_inv_def system_ok_def open_conns_def)
  then have r: "remembers (relay_inv ?A i ?hs) (relay_has i) c'"
    unfolding c'_def by (rule rl.handleMessage_remembers [OF wf])
  have others: "w_handlers (c_user c') j = w_handlers (y_world S) j" if "j \<noteq> i" for j
    using r that by (simp add: remembers_def relay_inv_def)
  have "open_conns (S\<lparr>y_conns := (y_conns S)(i \<mapsto> c'), y_world := c_user c'\<rparr>) = ?A"
    using i by (auto simp: open_conns_def)
  then show "system_ok (S\<lparr>y_conns := (y_conns S)(i \<mapsto> c'), y_world := c_user c'\<rparr>)"
    using S i r wf' others relay_has_handlers [OF others]
    by (auto simp: system_ok_def remembers_def relay_inv_def)
qed

lemma hung_up_after: "hang_up i (S\<lparr>y_world := w\<rparr>) = hang_up i (S\<lparr>y_conns := (y_conns S)(i \<mapsto> c), y_world := w\<rparr>)"
  by (simp add: hang_up_def)

lemma relay_step_ok: "system_ok S \<Longrightarrow> system_ok (relay_step env ms ev S)"
proof (cases ev)
  case Opened
  assume S: "system_ok S"
  let ?i = "y_opened S"
  let ?c = "snd (serving (relay_conn_env env ms ?i) (newConn \<lparr>segs = [], net_end = EOF\<rparr> (Some (relay_config env ?i)) (y_world S)))"
  have none: "w_handlers (y_world S) ?i = zero_relayHandler" using S by (auto simp: system_ok_def)
  have user: "c_user ?c = relay_OnServe ?i (y_world S)"
    by (simp add: serving_def relay_conn_env_def relay_handler_def newConn_def Let_def)
  have tables: "wf_tables (tables ?c)" and states: "fmlookup (c_streams ?c) sid = Some s \<Longrightarrow>
      str_state s = streamStateServerNotConnected" for sid s
    by (auto simp: serving_def newConn_def Let_def tables_def wf_tables_def wf_waits_def waits_def stream_ok_def
        in_state_def newStream_def handler_of_def fcard.rep_eq relay_config_def ConnConfig_normalize_def zero_userConfig_def
        conn_config_def zero_config_def config_normalize_def split: if_splits)
  have "open_conns (relay_step env ms Opened S) = insert ?i (open_conns S)"
    by (auto simp: open_conns_def Let_def)
  moreover have "y_conns S j = Some c \<Longrightarrow> j \<noteq> ?i" for j c using S by (auto simp: system_ok_def)
  moreover have others: "w_handlers (relay_OnServe ?i (y_world S)) j = w_handlers (y_world S) j" if "j \<noteq> ?i" for j
    using that by (simp add: relay_OnServe_def put_handler_def)
  moreover have "relay_has j k (relay_OnServe ?i (y_world S)) = relay_has j k (y_world S)" if "j \<noteq> ?i" for j k
    using that by (intro relay_has_handlers others)
  ultimately show ?thesis
    using S served_relay_ok [OF _ none, of "open_conns S"] tables states
    by (auto simp: Opened Let_def system_ok_def user)
next
  case (Received i csid ts cmsg)
  assume S: "system_ok S"
  show ?thesis
  proof (cases "y_conns S i")
    case (Some c)
    let ?r = "handleMessage (relay_conn_env env ms i) csid ts cmsg (c\<lparr>c_user := y_world S\<rparr>)"
    note ok = lent_ok(1) [OF S Some, of env ms csid ts cmsg]
    have "system_ok (hang_up i (S\<lparr>y_world := c_user (snd ?r)\<rparr>))"
      by (subst hung_up_after [where c = "snd ?r"], rule hang_up_ok [OF ok]) simp
    then show ?thesis using ok
      by (cases ?r) (auto simp: Received Some split: result.split)
  qed (use S in \<open>simp add: Received\<close>)
next
  case (Ended i)
  assume "system_ok S"
  then show ?thesis by (auto simp: Ended hang_up_ok split: option.split)
qed

lemma relay_start_ok: "system_ok relay_start"
  by (simp add: system_ok_def relay_start_def open_conns_def relay_ok_def heaps_ok_def handlers_ok_def live_ok_def
      cached_ok_def NewRelayService_def zero_relayHandler_def)

theorem relay_run_ok: "system_ok (relay_run env ms evs)"
proof -
  have "system_ok S \<Longrightarrow> system_ok (fold (relay_step env ms) evs S)" for S
    by (induction evs arbitrary: S) (simp_all add: relay_step_ok)
  then show ?thesis by (simp add: relay_run_def relay_start_ok)
qed

section \<open>A name nobody holds\<close>

text \<open>
  A pubsub that is in the map under a name, but that no open connection has as its publisher's:
  nothing removes it. A second publish on one connection leaves the first name like this.
\<close>

definition abandoned :: "nat set \<Rightarrow> string \<Rightarrow> nat \<Rightarrow> 's relayWorld \<Rightarrow> bool" where
  "abandoned A name p w \<longleftrightarrow> w_streams w name = Some p
     \<and> (\<forall>i \<in> A. \<forall>q. h_pub (w_handlers w i) = Some q \<longrightarrow> pub_pb (w_pubs w ! q) \<noteq> p)"

lemma abandoned_shape:
  assumes "relay_shape w' = relay_shape w" and "handlers_ok w"
  shows "abandoned A name p w \<Longrightarrow> abandoned A name p w'"
  using relay_shapeD [OF assms(1)] handlers_okD(4) [OF assms(2)] by (simp add: abandoned_def)

lemma media_shape:
  "relay_shape (snd (relay_OnAudio env i ts payload w)) = relay_shape w"
  "relay_shape (snd (relay_OnVideo env i ts payload w)) = relay_shape w"
  "relay_shape (snd (relay_OnSetDataFrame env i ts payload w)) = relay_shape w"
  by (auto simp: relay_OnAudio_def relay_OnVideo_def relay_OnSetDataFrame_def relay_publish_def bind_io_def pure_io_def
      Publish_keeps(1) split: result.split option.split)

lemma published_abandoned:
  assumes "relay_ok A w" and "w_streams w n = None" and "abandoned A name p w"
  shows "abandoned A name p (published_by i n w)"
proof -
  have h: "heaps_ok w" and c: "handlers_ok w" using assms(1) by (simp_all add: relay_ok_def)
  have "p < length (w_pubsubs w)" using assms(3) heaps_okD(1) [OF h, of name p] by (simp add: abandoned_def)
  then show ?thesis
    using assms(2,3) handlers_okD(4) [OF c] by (auto simp: abandoned_def nth_append)
qed

lemma callback_abandoned:
  assumes "user_callback (relay_handler env i) k m" and "relay_inv A i hs w" and "abandoned A name p w"
  shows "abandoned A name p (snd (m w))"
proof -
  have ok: "relay_ok A w" using assms(2) by (simp add: relay_inv_def)
  then have c: "handlers_ok w" by (simp add: relay_ok_def)
  have publish: "abandoned A name p (snd (relay_OnPublish i n w))" for n
    using published_abandoned [OF ok _ assms(3)] assms(3) by (simp add: OnPublish_result)
  have play: "abandoned A name p (snd (relay_OnPlay i sid n w))" for sid n
    using assms(3) by (auto simp: OnPlay_result abandoned_def split: option.split)
  show ?thesis
    using assms(1)
    by (cases rule: user_callback.cases)
      (use publish play assms(3) abandoned_shape [OF media_shape(1) c] abandoned_shape [OF media_shape(2) c] abandoned_shape [OF media_shape(3) c]
        in \<open>auto simp: relay_handler_def DefaultHandler_def\<close>)
qed

interpretation leak: handler_contract "relay_conn_env env ms i" "\<lambda>w. relay_inv A i hs w \<and> abandoned A name p w" "relay_has i"
  for env ms i A hs name p
  by unfold_locales (auto simp: relay_conn_env_def callback_keeps callback_abandoned)

lemma hang_up_abandoned:
  assumes "system_ok S" and "abandoned (open_conns S) name p (y_world S)" and "y_conns S i \<noteq> None"
  shows "abandoned (open_conns (hang_up i S)) name p (y_world (hang_up i S))"
proof -
  let ?w = "y_world S"
  have ok: "relay_ok (open_conns S) ?w" and i: "i \<in> open_conns S"
    using assms(1,3) by (auto simp: system_ok_def open_conns_def)
  then have l: "live_ok (open_conns S) ?w" by (simp add: relay_ok_def)
  have "pb_name pb \<noteq> name" if "pubsub_of i ?w = Some pb" for pb
    using that assms(2) live_okD(2) [OF l i] i by (fastforce simp: pubsub_of_def abandoned_def)
  moreover have "open_conns (hang_up i S) = open_conns S - {i}" by (auto simp: open_conns_def hang_up_def)
  ultimately show ?thesis
    using assms(2) OnClose_result [OF ok i]
    by (auto simp: hang_up_def abandoned_def left_by_def split: option.split)
qed

lemma relay_step_abandoned:
  assumes S: "system_ok S" and a: "abandoned (open_conns S) name p (y_world S)"
  shows "abandoned (open_conns (relay_step env ms ev S)) name p (y_world (relay_step env ms ev S))"
proof (cases ev)
  case Opened
  have "w_handlers (y_world S) (y_opened S) = zero_relayHandler" using S by (auto simp: system_ok_def)
  then show ?thesis
    using a by (auto simp: Opened Let_def serving_def relay_conn_env_def relay_handler_def newConn_def relay_OnServe_def
        put_handler_def abandoned_def open_conns_def zero_relayHandler_def)
next
  case (Received i csid ts cmsg)
  show ?thesis
  proof (cases "y_conns S i")
    case (Some c)
    let ?hs = "w_handlers (y_world S)" and ?A = "open_conns S"
    let ?r = "handleMessage (relay_conn_env env ms i) csid ts cmsg (c\<lparr>c_user := y_world S\<rparr>)"
    let ?S' = "S\<lparr>y_conns := (y_conns S)(i \<mapsto> snd ?r), y_world := c_user (snd ?r)\<rparr>"
    have wf: "wf_tables (tables (c\<lparr>c_user := y_world S\<rparr>))"
      using S Some by (auto simp: system_ok_def tables_def)
    have "remembers (\<lambda>w. relay_inv ?A i ?hs w \<and> abandoned ?A name p w) (relay_has i) (c\<lparr>c_user := y_world S\<rparr>)"
      using S a Some by (auto simp: remembers_def relay_inv_def system_ok_def open_conns_def)
    from leak.handleMessage_remembers [OF wf this]
    have "abandoned ?A name p (c_user (snd ?r))" by (simp add: remembers_def)
    moreover have "open_conns ?S' = ?A" using Some by (auto simp: open_conns_def)
    ultimately have a': "abandoned (open_conns ?S') name p (y_world ?S')" by simp
    have "abandoned (open_conns (hang_up i ?S')) name p (y_world (hang_up i ?S'))"
      by (rule hang_up_abandoned [OF lent_ok(1) [OF S Some] a']) simp
    then have "abandoned (open_conns (hang_up i (S\<lparr>y_world := c_user (snd ?r)\<rparr>))) name p (y_world (hang_up i (S\<lparr>y_world := c_user (snd ?r)\<rparr>)))"
      by (subst (1 2) hung_up_after [where c = "snd ?r"])
    then show ?thesis using a' by (cases ?r) (auto simp: Received Some split: result.split)
  qed (use a in \<open>simp add: Received\<close>)
next
  case (Ended i)
  then show ?thesis using a hang_up_abandoned [OF S a] by (auto split: option.split)
qed

lemma abandoned_for_ever:
  assumes "system_ok S" and "abandoned (open_conns S) name p (y_world S)"
  shows "w_streams (y_world (fold (relay_step env ms) evs S)) name = Some p"
  using assms
proof (induction evs arbitrary: S)
  case (Cons ev evs)
  then show ?case using Cons.IH [OF relay_step_ok [OF Cons.prems(1)] relay_step_abandoned [OF Cons.prems]] by simp
qed (simp add: abandoned_def)

text \<open>Publishing twice.\<close>

lemma publishing_ok:
  assumes S: "system_ok S" and i: "y_conns S i \<noteq> None" and r: "relay_OnPublish i name (y_world S) = (Ok (), w')"
  shows "system_ok (S\<lparr>y_world := w'\<rparr>)"
proof -
  have ok: "relay_ok (open_conns S) (y_world S)" using S by (simp add: system_ok_def)
  have w': "w' = published_by i name (y_world S)" "w_streams (y_world S) name = None"
    using r by (auto simp: OnPublish_result split: if_splits)
  have "relay_has j k (y_world S) \<Longrightarrow> relay_has j k w'" for j k by (cases k) (auto simp: w')
  moreover have "relay_ok (open_conns S) w'" unfolding w'(1) by (rule published_ok [OF ok w'(2)])
  ultimately show ?thesis using S i by (auto simp: system_ok_def open_conns_def w'(1))
qed

lemma twice_abandons:
  assumes S: "system_ok S" and i: "y_conns S i \<noteq> None" and r: "relay_OnPublish i a (y_world S) = (Ok (), w1)"
    and r': "relay_OnPublish i b w1 = (Ok (), w2)"
  shows "abandoned (open_conns S) a (length (w_pubsubs (y_world S))) w2"
proof -
  have w1: "w1 = published_by i a (y_world S)" using r by (auto simp: OnPublish_result split: if_splits)
  have w2: "w2 = published_by i b w1" "b \<noteq> a" using r' by (auto simp: OnPublish_result w1 split: if_splits)
  have h: "heaps_ok (y_world S)" and c: "handlers_ok (y_world S)" using S by (simp_all add: system_ok_def relay_ok_def)
  have "pub_pb (w_pubs (y_world S) ! q) \<noteq> length (w_pubsubs (y_world S))" if "h_pub (w_handlers (y_world S) j) = Some q" for j q
    using heaps_okD(6) [OF h handlers_okD(4) [OF c that]] by simp
  then show ?thesis
    using w2(2) handlers_okD(4) [OF c] by (fastforce simp: abandoned_def w2(1) w1 nth_append)
qed

end
