(* ===== verification/Server.thy ===== *)
theory Server
  imports Protocol Write_Sched
begin

text \<open>
  The life of connections: closing one (\<^verbatim>\<open>Conn.Close\<close>), serving one from its configuration on
  (\<^verbatim>\<open>handleConn\<close>), and the server that accepts them (\<^verbatim>\<open>server.go\<close>).
\<close>

section \<open>Closing a connection\<close>

text \<open>
  What \<^verbatim>\<open>Close\<close> works on: whether it ran before, the user's state, the writing half with its
  write loop, and how often the transport was closed.
\<close>

record 'u connLife =
  l_isClosed :: bool
  l_user :: 'u
  l_streamer :: streamerSystem
  l_transport_closes :: nat

text \<open>
  \<^verbatim>\<open>waitWriters\<close> waits on each writer and only logs what comes of it; the arms of the \<^verbatim>\<open>select\<close>
  are chosen from outside, as in \<open>Write_Sched\<close>. A writer that was waited for stays taken.
\<close>

datatype waitArm = ArmDone | ArmClosed | ArmExpired

fun wait_arm :: "waitArm \<Rightarrow> chunkStreamWriter \<Rightarrow> (unit result \<times> chunkStreamWriter) option" where
  "wait_arm ArmDone w = wait_done w"
| "wait_arm ArmClosed w = wait_closed w"
| "wait_arm ArmExpired w = wait_expired w"

fun waitWriters :: "(int \<times> waitArm) list \<Rightarrow> streamerSystem \<Rightarrow> streamerSystem" where
  "waitWriters [] S = S"
| "waitWriters ((csid, arm) # ws) S =
     waitWriters ws (case fmlookup (writers (tx S)) csid of
        None \<Rightarrow> S
      | Some w \<Rightarrow> (case wait_arm arm w of None \<Rightarrow> S | Some (_, w') \<Rightarrow> put_writer csid w' S))"

text \<open>
  The errors of the streamer and of the transport are collected; the streamer has none. The code
  collects with the third-party \<^verbatim>\<open>multierror\<close>, whose wrapper around the one error is left out.
\<close>

definition Conn_Close :: "'u Handler \<Rightarrow> (int \<times> waitArm) list \<Rightarrow> unit result \<Rightarrow> ('u connLife, unit) io" where
  "Conn_Close h arms transport l =
     (if l_isClosed l then (Ok (), l)
      else
        let l1 = l\<lparr>l_isClosed := True, l_user := OnClose h (l_user l),
                   l_streamer := waitWriters arms (l_streamer l)\<rparr> in
        case streamer_Close (l_streamer l1) of
          None \<Rightarrow> (Panic ''close of closed channel'', l1)
        | Some S \<Rightarrow> (transport, l1\<lparr>l_streamer := S, l_transport_closes := l_transport_closes l1 + 1\<rparr>))"

text \<open>The streamer is closed when, and only when, the connection is.\<close>

definition life_ok :: "'u connLife \<Rightarrow> bool" where
  "life_ok l \<longleftrightarrow> stopClosed (l_streamer l) = l_isClosed l \<and> l_transport_closes l = (if l_isClosed l then 1 else 0)"

lemma waitWriters_frame: "stopClosed (waitWriters arms S) = stopClosed S"
  by (induction arms S rule: waitWriters.induct) (auto split: option.splits)

lemma Conn_Close_ok:
  assumes "life_ok l"
  shows "life_ok (snd (Conn_Close h arms transport l))" and "l_isClosed (snd (Conn_Close h arms transport l))"
    and "fst (Conn_Close h arms transport l) = (if l_isClosed l then Ok () else transport)"
    and "l_user (snd (Conn_Close h arms transport l)) = (if l_isClosed l then l_user l else OnClose h (l_user l))"
  using assms by (auto simp: Conn_Close_def life_ok_def streamer_Close_def waitWriters_frame Let_def)

section \<open>Serving a connection\<close>

text \<open>
  \<^verbatim>\<open>handleConn\<close>: the configuration is what the server's \<^verbatim>\<open>OnConnect\<close> chose, the handshake's world
  is the transport; \<^verbatim>\<open>Serve\<close> and, deferred, \<^verbatim>\<open>Close\<close>. The result is what \<^verbatim>\<open>Serve\<close> returned, which
  is only logged.
\<close>

definition conn_env :: "amf0 \<Rightarrow> mapstructure \<Rightarrow> 'u userConfig option \<Rightarrow> 'u env" where
  "conn_env amf ms config = \<lparr>e_amf = amf, e_ms = ms,
     e_handler = the (uc_Handler (ConnConfig_normalize (case config of None \<Rightarrow> zero_userConfig | Some cfg \<Rightarrow> cfg)))\<rparr>"

definition hs_config :: "'u userConfig option \<Rightarrow> hsConfig" where
  "hs_config config = \<lparr>SkipHandshakeVerification =
     (case config of None \<Rightarrow> False | Some cfg \<Rightarrow> uc_SkipHandshakeVerification cfg)\<rparr>"

definition handleConn :: "amf0 \<Rightarrow> mapstructure \<Rightarrow> 'u userConfig option \<Rightarrow> (nat \<times> rtmp_error option) option
    \<Rightarrow> hsWorld \<Rightarrow> 'u \<Rightarrow> unit result \<times> 'u connection" where
  "handleConn amf ms config ended w u =
     (let env = conn_env amf ms config;
          r = serverConn_Serve env (hs_config config) ended (w, newConn (hs_r w) config u);
          st = snd (snd r) in
      (fst r, (fst st, (snd st)\<lparr>c_user := OnClose (e_handler env) (c_user (snd st))\<rparr>)))"

text \<open>
  From the configuration to the end: whatever the client sends and however it ends, the
  connection is in order and the user's contract is kept.
\<close>

context handler_contract
begin

lemma serverConn_minding:
  assumes st: "conn_ok st" "c_streams (snd st) = fmempty" and start: "I (c_user (snd st))"
    and serve: "I (OnServe (e_handler env) (c_user (snd st)))"
  shows "minding I K (snd (snd (serverConn_Serve env config ended (w, st))))"
proof -
  have fresh: "minding I K st" using st start by (simp add: minding_def remembers_def)
  have resumed: "minding I K (resume w' st)" for w'
    using fresh by (simp add: minding_def resume_def conn_ok_def readers_within_def)
  show ?thesis
  proof (cases "HandshakeWithClient config w")
    case (Pair r w1)
    show ?thesis
    proof (cases r)
      case (Ok x)
      then have hs: "HandshakeWithClient config w = (Ok (), w1)" using Pair by simp
      show ?thesis
      proof (cases "0 < MaxMessageStreams (snd st)")
        case True
        have "minding I K (serving env (resume w1 st))"
          by (rule serving_minding [OF st True serve])
        then have "minding I K (snd (handleMessageLoop env ended (serving env (resume w1 st))))"
          by (simp add: handleMessageLoop_def recovered_def loop_minding)
        then show ?thesis by (simp add: serve_runs_loop [OF hs st(2) True])
      next
        case False
        have "createControlStream streamStateServerNotConnected c = (Err (Wrapf (Errorf
            ''Creating message streams limit exceeded: Limit = %d'' [MaxMessageStreams c]) ''Failed to create control stream''), c)"
          if "c_streams c = fmempty" "\<not> 0 < MaxMessageStreams c" for c :: "'u connState"
          using that by (simp add: createControlStream_def streams_Create_def bind_io_def wrap_io_def fcard.rep_eq)
        then have "serverConn_Serve env config ended (w, st) =
          (Err (Wrapf (Errorf ''Creating message streams limit exceeded: Limit = %d'' [MaxMessageStreams (snd st)])
             ''Failed to create control stream''), (w1, (fst (resume w1 st), (snd st)\<lparr>c_peer := peerState (fst st)\<rparr>)))"
          using hs False st(2)
          by (simp add: serverConn_Serve_def wrap_io_def bind_io_def on_conn_def Let_def resume_def)
        moreover have "minding I K (fst (resume w1 st), (snd st)\<lparr>c_peer := peerState (fst st)\<rparr>)"
          using resumed [of w1] by (simp add: minding_def conn_ok_def tables_def remembers_def resume_def)
        ultimately show ?thesis by simp
      qed
    qed (use Pair fresh in \<open>simp_all add: serverConn_Serve_def wrap_io_def\<close>)
  qed
qed

lemma handleConn_minding:
  assumes cfg: "wf_config (config_normalize (uc_ControlState cfg))" and env: "conn_env amf ms (Some cfg) = env"
    and start: "I u" "I (OnServe (e_handler env) u)"
    and close: "\<And>v. I v \<Longrightarrow> I (OnClose (e_handler env) v)" "\<And>j v. K j v \<Longrightarrow> K j (OnClose (e_handler env) v)"
  shows "minding I K (snd (handleConn amf ms (Some cfg) ended w u))"
proof -
  define st where "st = newConn (hs_r w) (Some cfg) u"
  have ok: "conn_ok st" unfolding st_def by (rule newConn_ok) (simp add: cfg)
  have new: "c_streams (snd st) = fmempty" "c_user (snd st) = u"
    by (simp_all add: st_def newConn_def Let_def)
  have "minding I K (snd (snd (serverConn_Serve env (hs_config (Some cfg)) ended (w, st))))"
    by (rule serverConn_minding [OF ok new(1)]) (simp_all add: new start)
  then show ?thesis
    using close unfolding handleConn_def env Let_def st_def [symmetric]
    by (auto simp: minding_def conn_ok_def tables_def remembers_def)
qed

end

text \<open>When the user's handler is the logging one, the log is orderly.\<close>

lemma handleConn_orderly:
  assumes cfg: "wf_config (config_normalize (uc_ControlState cfg))" and h: "uc_Handler cfg = Some (logging h)"
  shows "orderly (call_log (snd (snd (handleConn amf ms (Some cfg) ended w ([], u)))))"
proof -
  define env :: "'a env" where "env = \<lparr>e_amf = amf, e_ms = ms, e_handler = h\<rparr>"
  have env: "conn_env amf ms (Some cfg) = logging_env env"
    by (simp add: conn_env_def ConnConfig_normalize_def h logging_env_def env_def)
  have "minding (\<lambda>lu. orderly (fst lu)) (\<lambda>j lu. (j, True) \<in> set (fst lu)) (snd (handleConn amf ms (Some cfg) ended w ([], u)))"
    by (rule log.handleConn_minding [OF cfg env]) (simp_all add: logging_def)
  then show ?thesis by (simp add: minding_def remembers_def)
qed

section \<open>The server\<close>

text \<open>
  A listener is known by a number; \<^verbatim>\<open>doneCh\<close> is nil, open or closed. The last field records the
  calls of \<^verbatim>\<open>Close\<close> on listeners.
\<close>

record Server =
  srv_listener :: "nat option"
  srv_doneCh :: "bool option"
  srv_closes :: "nat list"

definition NewServer :: Server where
  "NewServer = \<lparr>srv_listener = None, srv_doneCh = None, srv_closes = []\<rparr>"

definition listener_Close :: "nat \<Rightarrow> Server \<Rightarrow> Server" where
  "listener_Close l srv = srv\<lparr>srv_closes := srv_closes srv @ [l]\<rparr>"

definition registerListener :: "nat \<Rightarrow> (Server, unit) io" where
  "registerListener l srv =
     (case srv_listener srv of
        Some _ \<Rightarrow> (Err (Errorf ''Listener is already registered'' []), srv)
      | None \<Rightarrow> (Ok (), srv\<lparr>srv_listener := Some l\<rparr>))"

definition getDoneChLocked :: "Server \<Rightarrow> bool \<times> Server" where
  "getDoneChLocked srv =
     (case srv_doneCh srv of
        None \<Rightarrow> (False, srv\<lparr>srv_doneCh := Some False\<rparr>)
      | Some b \<Rightarrow> (b, srv))"

definition Server_Close :: "unit result \<Rightarrow> (Server, unit) io" where
  "Server_Close listener_close srv =
     (let (closed, srv1) = getDoneChLocked srv in
      if closed then (Ok (), srv1)
      else
        let srv2 = srv1\<lparr>srv_doneCh := Some True\<rparr> in
        case srv_listener srv2 of
          None \<Rightarrow> (Ok (), srv2)
        | Some l \<Rightarrow> (listener_close, listener_Close l srv2))"

text \<open>
  The accept loop over what happens: a connection comes in, \<^verbatim>\<open>Accept\<close> fails, or another goroutine
  calls \<^verbatim>\<open>Close\<close>. The result is \<open>None\<close> while the loop goes on; with it, the connections that
  were given to \<^verbatim>\<open>handleConn\<close>.
\<close>

datatype 'c acceptEvent = Accepted 'c | AcceptFailed rtmp_error | CloseCalled "unit result"

fun acceptLoop :: "'c acceptEvent list \<Rightarrow> Server \<Rightarrow> unit result option \<times> 'c list \<times> Server" where
  "acceptLoop [] srv = (None, [], srv)"
| "acceptLoop (Accepted c # evs) srv =
     (let (r, cs, srv') = acceptLoop evs srv in (r, c # cs, srv'))"
| "acceptLoop (AcceptFailed e # evs) srv =
     (let (closed, srv1) = getDoneChLocked srv in
      if closed then (Some (Err ErrClosed), [], srv1) else acceptLoop evs srv1)"
| "acceptLoop (CloseCalled r # evs) srv = acceptLoop evs (snd (Server_Close r srv))"

text \<open>When the loop returns, the deferred call closes the listener, once more.\<close>

definition Serve :: "nat \<Rightarrow> 'c acceptEvent list \<Rightarrow> Server \<Rightarrow> unit result option \<times> 'c list \<times> Server" where
  "Serve l evs srv =
     (case wrap_io ''Already served'' (registerListener l) srv of
        (Ok _, srv1) \<Rightarrow>
          (case acceptLoop evs srv1 of
             (Some r, cs, srv2) \<Rightarrow> (Some r, cs, listener_Close l srv2)
           | (None, cs, srv2) \<Rightarrow> (None, cs, srv2))
      | (r, srv1) \<Rightarrow> (Some r, [], srv1))"

section \<open>Serving in order\<close>

definition server_closed :: "Server \<Rightarrow> bool" where
  "server_closed srv \<longleftrightarrow> srv_doneCh srv = Some True"

lemma Server_Close_closed: "server_closed (snd (Server_Close r srv))"
  by (auto simp: Server_Close_def listener_Close_def getDoneChLocked_def server_closed_def Let_def split: option.splits)

lemma Server_Close_twice:
  "Server_Close r (snd (Server_Close r' srv)) = (Ok (), snd (Server_Close r' srv))"
  using Server_Close_closed [of r' srv]
  by (auto simp: Server_Close_def [of r] getDoneChLocked_def server_closed_def)

lemma Serve_loop:
  assumes "srv_listener srv = None"
  shows "fst (Serve l evs srv) = fst (acceptLoop evs (srv\<lparr>srv_listener := Some l\<rparr>))"
    and "fst (snd (Serve l evs srv)) = fst (snd (acceptLoop evs (srv\<lparr>srv_listener := Some l\<rparr>)))"
  using assms by (auto simp: Serve_def registerListener_def wrap_io_def split: prod.split option.split)

text \<open>The events up to the one at which the loop returns.\<close>

fun served :: "bool \<Rightarrow> 'c acceptEvent list \<Rightarrow> 'c acceptEvent list" where
  "served closed [] = []"
| "served closed (Accepted c # evs) = Accepted c # served closed evs"
| "served closed (AcceptFailed e # evs) = (if closed then [] else AcceptFailed e # served closed evs)"
| "served closed (CloseCalled r # evs) = CloseCalled r # served True evs"

fun accepted_conns :: "'c acceptEvent list \<Rightarrow> 'c list" where
  "accepted_conns [] = []"
| "accepted_conns (Accepted c # evs) = c # accepted_conns evs"
| "accepted_conns (_ # evs) = accepted_conns evs"

lemma getDoneChLocked_simps:
  "fst (getDoneChLocked srv) = server_closed srv" "server_closed (snd (getDoneChLocked srv)) = server_closed srv"
  by (auto simp: getDoneChLocked_def server_closed_def split: option.splits)

lemma acceptLoop_serves:
  "fst (acceptLoop evs srv) = (if served (server_closed srv) evs = evs then None else Some (Err ErrClosed))
   \<and> fst (snd (acceptLoop evs srv)) = accepted_conns (served (server_closed srv) evs)"
proof (induction evs srv rule: acceptLoop.induct)
  case (3 e evs srv)
  then show ?case
    using getDoneChLocked_simps [of srv] by (cases "getDoneChLocked srv") auto
next
  case (4 r evs srv)
  then show ?case using Server_Close_closed [of r srv] by simp
qed (auto split: prod.splits)

text \<open>The loop returns at the first failed \<^verbatim>\<open>Accept\<close> after a \<^verbatim>\<open>Close\<close>, not before.\<close>

lemma served_cut:
  "served False (as @ CloseCalled r # bs @ AcceptFailed e # evs) = as @ CloseCalled r # bs"
  if "\<And>r. CloseCalled r \<notin> set as" and "\<And>e. AcceptFailed e \<notin> set bs"
proof -
  have bs: "served True (bs @ AcceptFailed e # evs) = bs"
    using that(2) by (induction bs rule: accepted_conns.induct) auto
  have "served False (as @ CloseCalled r # zs) = as @ CloseCalled r # served True zs" for zs
    using that(1) by (induction as rule: accepted_conns.induct) auto
  then show ?thesis using bs by simp
qed

end
