(* ===== verification/Dialogue.thy ===== *)
theory Dialogue
  imports Server
begin

text \<open>
  What the server says to a client, message by message: the answers to \<^verbatim>\<open>connect\<close>,
  \<^verbatim>\<open>createStream\<close>, \<^verbatim>\<open>publish\<close> and \<^verbatim>\<open>play\<close>, and where media, unknown messages and answers go.
\<close>

section \<open>A command on a stream\<close>

text \<open>An environment and a connection in which sending works.\<close>

definition can_send :: "'u env \<Rightarrow> 'u connState \<Rightarrow> Stream \<Rightarrow> bool" where
  "can_send env c s \<longleftrightarrow> wf_tables (tables c) \<and> fmlookup (c_streams c) (str_streamID s) = Some s
     \<and> str_encTy s = EncodingTypeAMF0 \<and> c_faults c = []"

lemma can_send_handler: "can_send env c s \<Longrightarrow> str_handler s = handler_of (str_state s)"
  using wf_tablesD(2) unfolding can_send_def tables_def by blast

lemma handleMessage_at:
  assumes "fmlookup (c_streams c) (cm_StreamID cmsg) = Some s"
    and "stream_handle env s csid ts (cm_Message cmsg) c = (Ok (), c')"
  shows "handleMessage env csid ts cmsg c = (Ok (), c')"
  using assms by (simp add: handleMessage_def streams_At_def)

lemma handle_command:
  assumes "name \<noteq> ''_result''" and "name \<noteq> ''_error''"
    and "CmdBodyDecoderFor (e_amf env) (e_ms env) name tid body = (Ok v, rest)"
  shows "stream_handle env s csid ts (MsgCommandMessage name tid EncodingTypeAMF0 body) c =
     or_else (onCommand env s csid ts tid v)
       (with_user (OnUnknownCommandMessage (e_handler env) ts (MsgCommandMessage name tid EncodingTypeAMF0 rest))) c"
  using assms by (simp add: stream_handle_def handleCommand_def NewAMFDecoder_def)

text \<open>The connection after more was sent.\<close>

definition said :: "(int \<times> uint32 \<times> uint32 \<times> message) list \<Rightarrow> 'u connState \<Rightarrow> 'u connState" where
  "said ms c = c\<lparr>c_sent := c_sent c @ ms\<rparr>"

lemma said_simps [simp]:
  "c_faults (said ms c) = c_faults c" "c_config (said ms c) = c_config c" "c_self (said ms c) = c_self c"
  "c_streams (said ms c) = c_streams c" "c_user (said ms c) = c_user c" "c_sent (said ms c) = c_sent c @ ms"
  "said ns (said ms c) = said (ms @ ns) c" "c_heap (said ms c) = c_heap c" "c_peer (said ms c) = c_peer c"
  by (simp_all add: said_def)

lemma bind_io_then: "m s = (Ok a, s') \<Longrightarrow> bind_io m f s = f a s'"
  by (simp add: bind_io_def)

text \<open>Control messages always encode.\<close>

lemma control_writes:
  assumes "c_faults c = []"
  shows "WriteWinAckSize amf s csid ts sz c = (Ok (), said [(csid, ts, str_streamID s, MsgWinAckSize sz)] c)"
    and "WriteSetPeerBandwidth amf s csid ts sz limit c =
      (Ok (), said [(csid, ts, str_streamID s, MsgSetPeerBandwidth sz limit)] c)"
    and "WriteUserCtrl amf s csid ts (UserCtrlEventStreamBegin k) c =
      (Ok (), said [(csid, ts, str_streamID s, MsgUserCtrl (UserCtrlEventStreamBegin k))] c)"
  using assms unfolding said_def
  by (auto intro!: stream_Write_Ok exI simp: WriteWinAckSize_def WriteSetPeerBandwidth_def WriteUserCtrl_def
      encodeWinAckSize_def encodeSetPeerBandwidth_def encodeUserCtrl_def encodeStreamBegin_def buf_Write_def)

text \<open>And commands whose name, transaction and body do.\<close>

lemma command_writes:
  assumes "c_faults c = []" and "str_encTy s = EncodingTypeAMF0"
    and "EncodeBodyAnyValues amf body [] = (Ok (), bs)"
    and "amf_encode amf (GoString name) = Ok nb" and "amf_encode amf (GoInt64 tid) = Ok tb"
  shows "writeCommandMessage amf s csid ts name tid body c =
    (Ok (), said [(csid, ts, str_streamID s, MsgCommandMessage name tid EncodingTypeAMF0 bs)] c)"
  using writeCommandMessage_Ok [OF assms] by (simp add: said_def)

section \<open>\<^verbatim>\<open>connect\<close>\<close>

text \<open>
  A \<^verbatim>\<open>connect\<close> the user accepts: window size, peer bandwidth and stream-begin on chunk stream 2,
  then \<^verbatim>\<open>_result\<close> on the chunk stream of the request, and the stream is connected.
\<close>

lemma connect_accept:
  assumes can: "can_send env c s" and st: "str_state s = streamStateServerNotConnected"
    and user: "OnConnect (e_handler env) ts cmd (c_user c) = (Ok (), u)"
    and body: "EncodeBodyAnyValues (e_amf env) (Some (NetConnectionConnectResult (RPresetProperties (c_config c))
        (newConnectSuccessResult c))) [] = (Ok (), bs)"
    and amf: "amf_encode (e_amf env) (GoString ''_result'') = Ok nb" "amf_encode (e_amf env) (GoInt64 1) = Ok tb"
  shows "onCommand env s csid ts tid (NetConnectionConnect cmd) c =
    (Ok (), update_stream (str_streamID s) (in_state streamStateServerConnected) (said
         [(2, ts, str_streamID s, MsgWinAckSize (ackWindowSize (c_self c))),
          (2, ts, str_streamID s, MsgSetPeerBandwidth (bandwidthWindowSize (c_self c)) (bandwidthLimitType (c_self c))),
          (2, ts, str_streamID s, MsgUserCtrl (UserCtrlEventStreamBegin (str_streamID s))),
          (csid, ts, str_streamID s, MsgCommandMessage ''_result'' 1 EncodingTypeAMF0 bs)] (c\<lparr>c_user := u\<rparr>)))"
proof -
  have faults: "c_faults c = []" and enc: "str_encTy s = EncodingTypeAMF0" using can by (simp_all add: can_send_def)
  have call: "with_user (OnConnect (e_handler env) ts cmd) c = (Ok (), c\<lparr>c_user := u\<rparr>)"
    using user by (simp add: with_user_def)
  have info: "newConnectSuccessResult (said ms (c\<lparr>c_user := u\<rparr>)) = newConnectSuccessResult c" for ms
    by (simp add: newConnectSuccessResult_def)
  have reply: "ReplyConnect (e_amf env) s csid ts (RPresetProperties (c_config c)) (newConnectSuccessResult c)
      (said ms (c\<lparr>c_user := u\<rparr>)) =
      (Ok (), said (ms @ [(csid, ts, str_streamID s, MsgCommandMessage ''_result'' 1 EncodingTypeAMF0 bs)]) (c\<lparr>c_user := u\<rparr>))" for ms
    using command_writes [OF _ enc body amf, of "said ms (c\<lparr>c_user := u\<rparr>)"] faults
    by (simp add: ReplyConnect_def newConnectSuccessResult_def)
  have state: "ChangeState (str_streamID s) streamStateServerConnected c' =
      (Ok (), update_stream (str_streamID s) (in_state streamStateServerConnected) c')" for c' :: "'a connState"
    by (simp add: ChangeState_def handler_of_def in_state_def [abs_def])
  have "(bind_io (with_user (OnConnect (e_handler env) ts cmd)) (\<lambda>_.
             bind_io (\<lambda>c. WriteWinAckSize (e_amf env) s 2 ts (ackWindowSize (c_self c)) c) (\<lambda>_.
             bind_io (\<lambda>c. WriteSetPeerBandwidth (e_amf env) s 2 ts (bandwidthWindowSize (c_self c))
                            (bandwidthLimitType (c_self c)) c) (\<lambda>_.
             bind_io (WriteUserCtrl (e_amf env) s 2 ts (UserCtrlEventStreamBegin (str_streamID s))) (\<lambda>_.
             bind_io (\<lambda>c. ReplyConnect (e_amf env) s csid ts (RPresetProperties (c_config c)) (newConnectSuccessResult c) c) (\<lambda>_.
               ChangeState (str_streamID s) streamStateServerConnected)))))) c =
    (Ok (), update_stream (str_streamID s) (in_state streamStateServerConnected) (said
         [(2, ts, str_streamID s, MsgWinAckSize (ackWindowSize (c_self c))),
          (2, ts, str_streamID s, MsgSetPeerBandwidth (bandwidthWindowSize (c_self c)) (bandwidthLimitType (c_self c))),
          (2, ts, str_streamID s, MsgUserCtrl (UserCtrlEventStreamBegin (str_streamID s))),
          (csid, ts, str_streamID s, MsgCommandMessage ''_result'' 1 EncodingTypeAMF0 bs)] (c\<lparr>c_user := u\<rparr>)))"
    by (subst bind_io_then, rule call, subst bind_io_then, rule control_writes(1), simp add: faults,
        subst bind_io_then, rule control_writes(2), simp add: faults,
        subst bind_io_then, rule control_writes(3), simp add: faults)
      (simp add: info reply bind_io_def state)
  then show ?thesis
    using can_send_handler [OF can] by (simp add: onCommand_def handler_of_def st connect_onCommand_def with_error_reply_def)
qed

text \<open>One the user refuses is answered \<^verbatim>\<open>_error\<close>, and nothing else is sent.\<close>

lemma connect_refuse:
  assumes can: "can_send env c s" and st: "str_state s = streamStateServerNotConnected"
    and user: "OnConnect (e_handler env) ts cmd (c_user c) = (Err e, u)"
    and body: "EncodeBodyAnyValues (e_amf env) (Some (NetConnectionConnectResult (RPresetProperties (c_config c))
        (newConnectErrorResult c))) [] = (Ok (), bs)"
    and amf: "amf_encode (e_amf env) (GoString ''_error'') = Ok nb" "amf_encode (e_amf env) (GoInt64 1) = Ok tb"
  shows "onCommand env s csid ts tid (NetConnectionConnect cmd) c =
    (Err e, said [(csid, ts, str_streamID s, MsgCommandMessage ''_error'' 1 EncodingTypeAMF0 bs)] (c\<lparr>c_user := u\<rparr>))"
proof -
  have "ReplyConnect (e_amf env) s csid ts (RPresetProperties (c_config c)) (newConnectErrorResult c) (c\<lparr>c_user := u\<rparr>) =
      (Ok (), said [(csid, ts, str_streamID s, MsgCommandMessage ''_error'' 1 EncodingTypeAMF0 bs)] (c\<lparr>c_user := u\<rparr>))"
    using command_writes [of "c\<lparr>c_user := u\<rparr>", OF _ _ body amf] can
    by (simp add: ReplyConnect_def newConnectErrorResult_def Let_def can_send_def)
  moreover have "newConnectErrorResult (c\<lparr>c_user := u\<rparr>) = newConnectErrorResult c" by (simp add: newConnectErrorResult_def)
  ultimately show ?thesis
    using can_send_handler [OF can] user
    by (simp add: onCommand_def handler_of_def st connect_onCommand_def with_error_reply_def bind_io_def with_user_def)
qed

section \<open>\<^verbatim>\<open>createStream\<close>\<close>

text \<open>The smallest unused ID, on the wire and in the table; the new stream is inactive.\<close>

lemma createStream_accept:
  assumes can: "can_send env c s" and st: "str_state s = streamStateServerConnected"
    and user: "OnCreateStream (e_handler env) ts (c_user c) = (Ok (), u)"
    and room: "int (fcard (fmdom (c_streams c))) < MaxMessageStreams c"
    and k: "0 \<le> k" "k < MaxMessageStreams c" "fmlookup (c_streams c) (word_of_int k) = None"
    and taken: "\<And>j. 0 \<le> j \<Longrightarrow> j < k \<Longrightarrow> fmlookup (c_streams c) (word_of_int j) \<noteq> None"
    and body: "EncodeBodyAnyValues (e_amf env) (Some (NetConnectionCreateStreamResult (word_of_int k))) [] = (Ok (), bs)"
    and amf: "amf_encode (e_amf env) (GoString ''_result'') = Ok nb" "amf_encode (e_amf env) (GoInt64 tid) = Ok tb"
  shows "onCommand env s csid ts tid NetConnectionCreateStream c =
    (Ok (), said [(csid, ts, str_streamID s, MsgCommandMessage ''_result'' tid EncodingTypeAMF0 bs)]
       (c\<lparr>c_user := u, c_streams := fmupd (word_of_int k)
          (in_state streamStateServerInactive (newStream (word_of_int k))) (c_streams c)\<rparr>))"
proof -
  let ?c1 = "c\<lparr>c_user := u, c_streams := fmupd (word_of_int k) (in_state streamStateServerInactive (newStream (word_of_int k))) (c_streams c)\<rparr>"
  have create: "CreateIfAvailable (c\<lparr>c_user := u\<rparr>) =
      (Ok (newStream (word_of_int k)), c\<lparr>c_user := u, c_streams := fmupd (word_of_int k) (newStream (word_of_int k)) (c_streams c)\<rparr>)"
    unfolding CreateIfAvailable_def
    by (subst createFrom_free [of _ 0 k]) (use room k taken in \<open>simp_all add: stream_find_def streams_Create_def\<close>)
  have reply: "ReplyCreateStream (e_amf env) s csid ts tid (Some (word_of_int k)) ?c1 = 
      (Ok (), said [(csid, ts, str_streamID s, MsgCommandMessage ''_result'' tid EncodingTypeAMF0 bs)] ?c1)"
    using command_writes [of ?c1, OF _ _ body amf] can by (simp add: ReplyCreateStream_def can_send_def)
  have id: "str_streamID (newStream (word_of_int k)) = word_of_int k" by (simp add: newStream_def)
  have twice: "fmupd (word_of_int k) x (fmupd (word_of_int k) y m) = fmupd (word_of_int k) x m" for x y and m :: "(uint32, Stream) fmap"
    by (rule fmap_ext) simp
  have state: "ChangeState (word_of_int k) streamStateServerInactive
      (c\<lparr>c_user := u, c_streams := fmupd (word_of_int k) (newStream (word_of_int k)) (c_streams c)\<rparr>) = (Ok (), ?c1)"
    by (simp add: ChangeState_def handler_of_def update_stream_def in_state_def twice)
  have "createStream_reply env s csid ts tid (c\<lparr>c_user := u\<rparr>) = 
      (Ok (), said [(csid, ts, str_streamID s, MsgCommandMessage ''_result'' tid EncodingTypeAMF0 bs)] ?c1)"
    unfolding createStream_reply_def create prod.case result.case id bind_io_def state fst_conv snd_conv reply by simp
  then show ?thesis
    using can_send_handler [OF can] user
    by (simp add: onCommand_def handler_of_def st connected_onCommand_def with_error_reply_def bind_io_def with_user_def)
qed

text \<open>Without a free ID the client is told, and the connection goes on as it was.\<close>

lemma createStream_full:
  assumes can: "can_send env c s" and st: "str_state s = streamStateServerConnected"
    and user: "OnCreateStream (e_handler env) ts (c_user c) = (Ok (), u)"
    and full: "MaxMessageStreams c \<le> int (fcard (fmdom (c_streams c)))"
    and body: "EncodeBodyAnyValues (e_amf env) (Some (NetConnectionCreateStreamResult 0)) [] = (Ok (), bs)"
    and amf: "amf_encode (e_amf env) (GoString ''_error'') = Ok nb" "amf_encode (e_amf env) (GoInt64 tid) = Ok tb"
  shows "onCommand env s csid ts tid NetConnectionCreateStream c =
    (Ok (), said [(csid, ts, str_streamID s, MsgCommandMessage ''_error'' tid EncodingTypeAMF0 bs)] (c\<lparr>c_user := u\<rparr>))"
proof -
  have create: "CreateIfAvailable (c\<lparr>c_user := u\<rparr>) =
      (Err (Errorf ''Creating streams limit exceeded: Limit = %d'' [MaxMessageStreams c]), c\<lparr>c_user := u\<rparr>)"
    unfolding CreateIfAvailable_def by (subst createFrom_full) (use full in simp_all)
  have "ReplyCreateStream (e_amf env) s csid ts tid None (c\<lparr>c_user := u\<rparr>) = 
      (Ok (), said [(csid, ts, str_streamID s, MsgCommandMessage ''_error'' tid EncodingTypeAMF0 bs)] (c\<lparr>c_user := u\<rparr>))"
    using command_writes [of "c\<lparr>c_user := u\<rparr>", OF _ _ body amf] can by (simp add: ReplyCreateStream_def can_send_def)
  then show ?thesis
    using can_send_handler [OF can] user
    by (simp add: onCommand_def handler_of_def st connected_onCommand_def with_error_reply_def bind_io_def with_user_def
        createStream_reply_def create)
qed

section \<open>\<^verbatim>\<open>publish\<close> and \<^verbatim>\<open>play\<close>\<close>

lemma ask_user_accept:
  assumes can: "can_send env c s" and h: "handler_of st = Some h" "st \<noteq> streamStateUnknown"
    and user: "callback (c_user c) = (Ok (), u)"
    and body: "EncodeBodyAnyValues (e_amf env) (Some (NetStreamOnStatus started)) [] = (Ok (), bs)"
    and amf: "amf_encode (e_amf env) (GoString ''onStatus'') = Ok nb" "amf_encode (e_amf env) (GoInt64 0) = Ok tb"
  shows "ask_user env s csid ts callback failed started st c =
    (Ok (), update_stream (str_streamID s) (in_state st)
       (said [(csid, ts, str_streamID s, MsgCommandMessage ''onStatus'' 0 EncodingTypeAMF0 bs)] (c\<lparr>c_user := u\<rparr>)))"
  using command_writes [of "c\<lparr>c_user := u\<rparr>", OF _ _ body amf] can user h
  by (simp add: ask_user_def with_user_def can_send_def NotifyStatus_def bind_io_def ChangeState_def in_state_def [abs_def])

lemma ask_user_refuse:
  assumes can: "can_send env c s" and user: "callback (c_user c) = (Err e, u)"
    and body: "EncodeBodyAnyValues (e_amf env) (Some (NetStreamOnStatus failed)) [] = (Ok (), bs)"
    and amf: "amf_encode (e_amf env) (GoString ''onStatus'') = Ok nb" "amf_encode (e_amf env) (GoInt64 0) = Ok tb"
  shows "ask_user env s csid ts callback failed started st c =
    (Err e, said [(csid, ts, str_streamID s, MsgCommandMessage ''onStatus'' 0 EncodingTypeAMF0 bs)] (c\<lparr>c_user := u\<rparr>))"
  using command_writes [of "c\<lparr>c_user := u\<rparr>", OF _ _ body amf] can user
  by (simp add: ask_user_def with_user_def can_send_def NotifyStatus_def)

lemma publish_accept:
  assumes can: "can_send env c s" and st: "str_state s = streamStateServerInactive"
    and user: "OnPublish (e_handler env) (str_streamID s) ts name ty (c_user c) = (Ok (), u)"
    and body: "EncodeBodyAnyValues (e_amf env) (Some (NetStreamOnStatus
        (newOnStatus NetStreamOnStatusCodePublishStart ''Publish succeeded.''))) [] = (Ok (), bs)"
    and amf: "amf_encode (e_amf env) (GoString ''onStatus'') = Ok nb" "amf_encode (e_amf env) (GoInt64 0) = Ok tb"
  shows "onCommand env s csid ts tid (NetStreamPublish name ty) c =
    (Ok (), update_stream (str_streamID s) (in_state streamStateServerPublish)
       (said [(csid, ts, str_streamID s, MsgCommandMessage ''onStatus'' 0 EncodingTypeAMF0 bs)] (c\<lparr>c_user := u\<rparr>)))"
  using can_send_handler [OF can] st ask_user_accept [where callback = "OnPublish (e_handler env) (str_streamID s) ts name ty",
      OF can _ _ user body amf, of streamStateServerPublish serverDataPublishHandler]
  by (simp add: onCommand_def inactive_onCommand_def handler_of_def)

section \<open>Media\<close>

text \<open>
  Audio and video reach \<^verbatim>\<open>OnAudio\<close> and \<^verbatim>\<open>OnVideo\<close> on a publishing stream only; on any other
  stream with a handler they are unknown messages.
\<close>

definition media :: "message \<Rightarrow> bool" where
  "media msg \<longleftrightarrow> (\<exists>p. msg = MsgAudioMessage p \<or> msg = MsgVideoMessage p)"

definition media_callback :: "'u env \<Rightarrow> uint32 \<Rightarrow> message \<Rightarrow> ('u, unit) io" where
  "media_callback env ts msg =
     (case msg of MsgAudioMessage p \<Rightarrow> OnAudio (e_handler env) ts p
      | MsgVideoMessage p \<Rightarrow> OnVideo (e_handler env) ts p
      | _ \<Rightarrow> OnUnknownMessage (e_handler env) ts msg)"

lemma media_published:
  assumes "media msg" and "str_state s = streamStateServerPublish" and "str_handler s = handler_of (str_state s)"
    and "fst (media_callback env ts msg (c_user c)) \<noteq> Err ErrPassThroughMsg"
  shows "stream_handle env s csid ts msg c = with_user (media_callback env ts msg) c"
  using assms
  by (auto simp: media_def stream_handle_def onMessage_def publish_onMessage_def handler_of_def media_callback_def
      or_else_def with_user_def split: result.splits)

lemma media_elsewhere:
  assumes "media msg" and "str_state s \<noteq> streamStateServerPublish" and "str_handler s = handler_of (str_state s)"
    and "handler_of (str_state s) \<noteq> None"
  shows "stream_handle env s csid ts msg c = with_user (OnUnknownMessage (e_handler env) ts msg) c"
  using assms
  by (cases "str_state s") (auto simp: media_def stream_handle_def onMessage_def handler_of_def or_else_def)

text \<open>A stream that a client created has no handler: media on it is a panic.\<close>

lemma media_no_handler:
  assumes "media msg" and "str_handler s = None"
  shows "stream_handle env s csid ts msg c = (Panic ''nil pointer dereference'', c)"
  using assms by (auto simp: media_def stream_handle_def onMessage_def or_else_def)

section \<open>Answers\<close>

text \<open>An answer resolves its transaction; a second one to the same transaction ends the connection.\<close>

lemma answer_once:
  assumes wf: "wf_tables (tables c)" and s: "fmlookup (c_streams c) (str_streamID s) = Some s"
    and name: "name = ''_result'' \<or> name = ''_error''" and p: "fmlookup (str_transactions s) tid = Some p"
  obtains c' s' where "stream_handle env s csid ts (MsgCommandMessage name tid enc body) c = (Ok (), c')"
    and "c_heap c' = (c_heap c)[p := \<lparr>t_commandName = name, t_encoding = enc, t_body = Some body, t_lastErr = None, t_done = True\<rparr>]"
    and "fmlookup (c_streams c') (str_streamID s) = Some s'" and "str_streamID s' = str_streamID s"
    and "\<And>name' enc' body'. name' = ''_result'' \<or> name' = ''_error'' \<Longrightarrow>
      \<exists>e. stream_handle env s' csid ts (MsgCommandMessage name' tid enc' body') c' = (Err e, c')"
proof -
  let ?t = "\<lparr>t_commandName = name, t_encoding = enc, t_body = Some body, t_lastErr = None, t_done = True\<rparr>"
  let ?s' = "s\<lparr>str_transactions := fmdrop tid (str_transactions s)\<rparr>"
  let ?c' = "c\<lparr>c_streams := fmupd (str_streamID s) ?s' (c_streams c), c_heap := (c_heap c)[p := ?t]\<rparr>"
  have wt: "wf_transactions (str_transactions s, c_heap c)" using wf_tablesD(3) wf s unfolding tables_def by blast
  have 1: "stream_handle env s csid ts (MsgCommandMessage name tid enc body) c = (Ok (), ?c')"
    using name s p reply_then_delete(1) [OF wt p]
    by (auto simp: stream_handle_def handleCommand_def with_transactions_def handleReply_def transactions_At_def
        transactions_Delete_def bind_io_def wrap_io_def Let_def)
  have "fmupd (str_streamID s) ?s' (fmupd (str_streamID s) ?s' (c_streams c)) = fmupd (str_streamID s) ?s' (c_streams c)"
    by (rule fmap_ext) simp
  then have "\<exists>e. stream_handle env ?s' csid ts (MsgCommandMessage name' tid enc' body') ?c' = (Err e, ?c')"
    if "name' = ''_result'' \<or> name' = ''_error''" for name' enc' body'
    using that by (auto simp: stream_handle_def handleCommand_def with_transactions_def handleReply_def transactions_At_def
        bind_io_def wrap_io_def Let_def)
  with 1 show ?thesis by (intro that [of ?c' ?s']) simp_all
qed

section \<open>What is ignored\<close>

text \<open>
  Messages for streams that do not exist are ignored up to the threshold, if the configuration
  says so; the next one ends the connection. Unknown commands and data are always ignored.
\<close>

lemma missing_stream_ignored:
  assumes "fmlookup (c_streams c) (cm_StreamID cmsg) = None"
  shows "handleMessage env csid ts cmsg c =
     (if IgnoreMessagesOnNotExistStream (c_config c)
         \<and> c_ignored c < IgnoreMessagesOnNotExistStreamThreshold (c_config c)
      then (Ok (), c\<lparr>c_ignored := c_ignored c + 1\<rparr>)
      else (Err (Errorf ''Specified stream is not created yet: StreamID = %d'' [uint (cm_StreamID cmsg)]), c))"
  using assms by (simp add: handleMessage_def streams_At_def)

fun handle_all :: "'u env \<Rightarrow> (int \<times> uint32 \<times> ChunkMessage) list \<Rightarrow> ('u connState, unit) io" where
  "handle_all env [] = return_io ()"
| "handle_all env ((csid, ts, cmsg) # ms) = bind_io (handleMessage env csid ts cmsg) (\<lambda>_. handle_all env ms)"

lemma missing_streams_ignored:
  assumes "\<And>csid ts cmsg. (csid, ts, cmsg) \<in> set ms \<Longrightarrow> fmlookup (c_streams c) (cm_StreamID cmsg) = None"
    and "IgnoreMessagesOnNotExistStream (c_config c)" and "c_ignored c = 0"
    and "length ms \<le> unat (IgnoreMessagesOnNotExistStreamThreshold (c_config c))"
  shows "handle_all env ms c = (Ok (), c\<lparr>c_ignored := of_nat (length ms)\<rparr>)"
proof -
  have "handle_all env ms (c\<lparr>c_ignored := of_nat n\<rparr>) = (Ok (), c\<lparr>c_ignored := of_nat (n + length ms)\<rparr>)"
    if "n + length ms \<le> unat (IgnoreMessagesOnNotExistStreamThreshold (c_config c))" for n
    using that assms(1)
  proof (induction ms arbitrary: n)
    case (Cons m ms)
    obtain csid ts cmsg where m: "m = (csid, ts, cmsg)" by (cases m)
    have "n < unat (IgnoreMessagesOnNotExistStreamThreshold (c_config c))" using Cons.prems(1) by simp
    then have "(of_nat n :: uint32) < IgnoreMessagesOnNotExistStreamThreshold (c_config c)"
      using unsigned_less [of "IgnoreMessagesOnNotExistStreamThreshold (c_config c)", where 'a = nat]
      by (simp add: word_less_nat_alt unat_of_nat take_bit_nat_eq_self)
    then have "handleMessage env csid ts cmsg (c\<lparr>c_ignored := of_nat n\<rparr>) = (Ok (), c\<lparr>c_ignored := of_nat (Suc n)\<rparr>)"
      using Cons.prems(2) [of csid ts cmsg] assms(2) m by (simp add: missing_stream_ignored add.commute)
    moreover have "handle_all env ms (c\<lparr>c_ignored := of_nat (Suc n)\<rparr>) = (Ok (), c\<lparr>c_ignored := of_nat (Suc n + length ms)\<rparr>)"
      by (rule Cons.IH) (use Cons.prems in auto)
    ultimately show ?case using m by (simp add: bind_io_def)
  qed simp
  from this [of 0] assms(3,4) show ?thesis by (cases c) simp
qed

lemma unknown_command_ignored:
  assumes "amf_value_consumes (e_amf env)" and "\<And>b p. fst (amf_decode_value (e_amf env) b) \<noteq> Panic p"
    and "CmdBodyDecoders (e_amf env) (e_ms env) name = None" and "name \<noteq> ''_result''" and "name \<noteq> ''_error''"
    and "fmlookup (c_streams c) (cm_StreamID cmsg) = Some s" and "cm_Message cmsg = MsgCommandMessage name tid EncodingTypeAMF0 body"
  shows "handleMessage env csid ts cmsg c = (Ok (), c)"
proof -
  obtain vs where "fst (CmdBodyDecoderFor (e_amf env) (e_ms env) name tid body) = Err (UnknownCommandBodyDecodeError name tid vs)"
    using unknown_body_read_through(1) [OF assms(1-3)] by blast
  then show ?thesis
    using assms(4-7) by (cases "CmdBodyDecoderFor (e_amf env) (e_ms env) name tid body")
      (simp add: handleMessage_def streams_At_def stream_handle_def handleCommand_def NewAMFDecoder_def)
qed

end
