(* ===== verification/Relay_View.thy ===== *)
theory Relay_View
  imports Relay_System Dialogue
begin

text \<open>
  What the relay does with media: a publish, for all subscribers at once, against what each of them
  is sent; and from the messages of a publisher to the wire of a connection that plays.
\<close>

section \<open>What one subscriber is sent\<close>

text \<open>The message for a tag, on its chunk stream.\<close>

definition map_result :: "('a \<Rightarrow> 'b) \<Rightarrow> 'a result \<Rightarrow> 'b result" where
  "map_result f r = (case r of Ok a \<Rightarrow> Ok (f a) | Err e \<Rightarrow> Err e | Panic p \<Rightarrow> Panic p)"

text \<open>Script data is sent without its content.\<close>

definition script_body :: "'s relayEnv \<Rightarrow> byte list result" where
  "script_body env = (let r = EncodeBodyAnyValues (re_amf env) (Some (NetStreamSetDataFrame [] GoNil)) [] in
     map_result (\<lambda>_. snd r) (fst r))"

definition tag_message :: "'s relayEnv \<Rightarrow> uint32 \<Rightarrow> 's FlvTag \<Rightarrow> (int \<times> ChunkMessage) result" where
  "tag_message env sid flv =
     (case Data flv of
        FlvAudio d \<Rightarrow> map_result (\<lambda>b. (5, \<lparr>cm_StreamID = sid, cm_Message = MsgAudioMessage b\<rparr>)) (encodeAudioData (re_flv env) d)
      | FlvVideo d \<Rightarrow> map_result (\<lambda>b. (6, \<lparr>cm_StreamID = sid, cm_Message = MsgVideoMessage b\<rparr>)) (encodeVideoData (re_flv env) d)
      | FlvScript d \<Rightarrow>
          (case encodeScriptData (re_flv env) d of
             Ok _ \<Rightarrow> map_result (\<lambda>b. (8, \<lparr>cm_StreamID = sid,
               cm_Message = MsgDataMessage ''@setDataFrame'' EncodingTypeAMF0 b\<rparr>)) (script_body env)
           | Err e \<Rightarrow> Err e | Panic p \<Rightarrow> Panic p)
      | FlvOther \<Rightarrow> Panic ''unreachable'')"

definition written :: "'s relayEnv \<Rightarrow> nat \<Rightarrow> uint32 \<Rightarrow> uint32 \<Rightarrow> 's FlvTag \<Rightarrow> relayWrites" where
  "written env i sid ts flv = (case tag_message env sid flv of Ok (csid, m) \<Rightarrow> [(i, csid, ts, m)] | _ \<Rightarrow> [])"

definition event_view :: "'s relayEnv \<Rightarrow> 's FlvTag \<Rightarrow> Sub \<Rightarrow> relayWrites \<times> Sub" where
  "event_view env flv s =
     (if sub_closed s then ([], s)
      else
        let s' = (if Timestamp flv \<noteq> 0 \<and> sub_lastTimestamp s = 0 then s\<lparr>sub_lastTimestamp := Timestamp flv\<rparr> else s) in
        (case sub_eventCallback s of
           Some (Some i, sid) \<Rightarrow> written env i sid (Timestamp flv - sub_lastTimestamp s') flv
         | _ \<Rightarrow> [], s'))"

definition cached_view :: "'s relayEnv \<Rightarrow> 's FlvTag option \<Rightarrow> Sub \<Rightarrow> relayWrites \<times> Sub" where
  "cached_view env flv s = (case flv of None \<Rightarrow> ([], s) | Some v \<Rightarrow> event_view env v s)"

definition start_view :: "'s relayEnv \<Rightarrow> 's Pub \<Rightarrow> Sub \<Rightarrow> relayWrites \<times> Sub" where
  "start_view env p s =
     (let (a, s1) = cached_view env (pub_avcSeqHeader p) s;
          (b, s2) = cached_view env (pub_lastKeyFrame p) s1 in
      (a @ b, s2\<lparr>sub_initialized := True\<rparr>))"

definition is_video :: "'s FlvTag \<Rightarrow> bool" where
  "is_video flv \<longleftrightarrow> (\<exists>d. Data flv = FlvVideo d)"

definition publish_view :: "'s relayEnv \<Rightarrow> 's Pub \<Rightarrow> 's FlvTag \<Rightarrow> Sub \<Rightarrow> relayWrites \<times> Sub" where
  "publish_view env p flv s =
     (if is_video flv \<and> \<not> sub_initialized s then start_view env p s else event_view env flv s)"

definition caching :: "'s relayEnv \<Rightarrow> 's FlvTag \<Rightarrow> 's Pub \<Rightarrow> 's Pub" where
  "caching env flv p = (case Data flv of FlvVideo d \<Rightarrow> pub_cache (re_flv env) flv d p | _ \<Rightarrow> p)"

text \<open>The codecs report errors and do not panic.\<close>

definition calm :: "'s relayEnv \<Rightarrow> bool" where
  "calm env \<longleftrightarrow> (\<forall>d p. encodeAudioData (re_flv env) d \<noteq> Panic p) \<and> (\<forall>d p. encodeVideoData (re_flv env) d \<noteq> Panic p)
     \<and> (\<forall>d p. encodeScriptData (re_flv env) d \<noteq> Panic p) \<and> (\<forall>p. script_body env \<noteq> Panic p)"

lemma script_data_dropped:
  "EncodeBodyAnyValues amf (Some (NetStreamSetDataFrame b GoNil)) [] =
     EncodeBodyAnyValues amf (Some (NetStreamSetDataFrame [] GoNil)) []"
  by (simp add: EncodeBodyAnyValues_def)

lemma callback_view:
  assumes "calm env" and "Data flv \<noteq> FlvOther"
  shows "ignoring (onEventCallback env (Some i) sid flv) w =
    (Ok (), w\<lparr>w_wire := w_wire w @ written env i sid (Timestamp flv) flv\<rparr>)"
proof (cases "Data flv")
  case (FlvScript d)
  obtain r where "\<And>b. EncodeBodyAnyValues (re_amf env) (Some (NetStreamSetDataFrame b GoNil)) [] = r"
    using script_data_dropped by blast
  then show ?thesis using assms(1)
    by (cases "encodeScriptData (re_flv env) d"; cases "fst r")
      (auto simp: FlvScript onEventCallback_def written_def tag_message_def ignoring_def bind_io_def pure_io_def Conn_Write_def
        NewAMFEncoder_def calm_def script_body_def map_result_def Let_def split: option.split)
qed (use assms in \<open>auto simp: onEventCallback_def written_def tag_message_def ignoring_def bind_io_def pure_io_def Conn_Write_def
      calm_def map_result_def split: result.split option.split\<close>)

section \<open>All subscribers\<close>

text \<open>The effect on one subscriber of what it is sent.\<close>

definition at_sub :: "(Sub \<Rightarrow> relayWrites \<times> Sub) \<Rightarrow> nat \<Rightarrow> 's relayWorld \<Rightarrow> 's relayWorld" where
  "at_sub v k w = w\<lparr>w_subs := (w_subs w)[k := snd (v (w_subs w ! k))], w_wire := w_wire w @ fst (v (w_subs w ! k))\<rparr>"

lemma at_sub_fields [simp]:
  "w_streams (at_sub v k w) = w_streams w" "w_pubsubs (at_sub v k w) = w_pubsubs w" "w_pubs (at_sub v k w) = w_pubs w"
  "w_handlers (at_sub v k w) = w_handlers w" "w_subs (at_sub v k w) = (w_subs w)[k := snd (v (w_subs w ! k))]"
  "w_wire (at_sub v k w) = w_wire w @ fst (v (w_subs w ! k))"
  "at_sub v k w\<lparr>w_subs := ss, w_wire := ms\<rparr> = w\<lparr>w_subs := ss, w_wire := ms\<rparr>"
  by (simp_all add: at_sub_def)

lemma onEvent_view:
  assumes "calm env" and "Data flv \<noteq> FlvOther" and "k < length (w_subs w)"
    and "sub_eventCallback (w_subs w ! k) = Some (Some i, sid)"
  shows "ignoring (Sub_onEvent env k flv) w = (Ok (), at_sub (event_view env flv) k w)"
proof (cases "sub_closed (w_subs w ! k)")
  case True
  then show ?thesis by (simp add: Sub_onEvent_def ignoring_def event_view_def at_sub_def)
next
  case False
  define last where "last = (if Timestamp flv \<noteq> 0 \<and> sub_lastTimestamp (w_subs w ! k) = 0 then Timestamp flv
    else sub_lastTimestamp (w_subs w ! k))"
  define s where "s = (w_subs w ! k)\<lparr>sub_lastTimestamp := last\<rparr>"
  have s: "s = (if Timestamp flv \<noteq> 0 \<and> sub_lastTimestamp (w_subs w ! k) = 0
      then (w_subs w ! k)\<lparr>sub_lastTimestamp := Timestamp flv\<rparr> else w_subs w ! k)" "sub_lastTimestamp s = last"
    by (simp_all add: s_def last_def)
  have view: "event_view env flv (w_subs w ! k) = (written env i sid (Timestamp flv - last) flv, s)"
    using False assms(4) by (simp add: event_view_def Let_def s [symmetric])
  have tag: "written env i sid t (flv\<lparr>Timestamp := t'\<rparr>) = written env i sid t flv" for t t'
    by (simp add: written_def tag_message_def)
  have "ignoring (onEventCallback env (Some i) sid (flv\<lparr>Timestamp := Timestamp flv - last\<rparr>)) (put_sub k s w) =
    (Ok (), put_sub k s w\<lparr>w_wire := w_wire w @ written env i sid (Timestamp flv - last) flv\<rparr>)"
    using callback_view [of env "flv\<lparr>Timestamp := Timestamp flv - last\<rparr>" i sid "put_sub k s w"] assms(1,2)
    by (simp add: tag put_sub_def)
  moreover have "Sub_onEvent env k flv w =
    onEventCallback env (Some i) sid (flv\<lparr>Timestamp := Timestamp flv - last\<rparr>) (put_sub k s w)"
    using False assms(4) by (simp add: Sub_onEvent_def Let_def s [symmetric]) (simp add: s_def)
  ultimately show ?thesis
    by (simp add: ignoring_def view at_sub_def put_sub_def)
qed

lemma clone_view:
  assumes "calm env" and "Data flv \<noteq> FlvOther" and "k < length (w_subs w)"
    and "sub_eventCallback (w_subs w ! k) = Some (Some i, sid)"
  shows "send_clone env flv k w = (Ok (), at_sub (event_view env flv) k w)"
  using onEvent_view [OF assms] assms(2)
  by (cases "Data flv") (simp_all add: send_clone_def cloneView_def bind_io_def pure_io_def)

lemma view_callback [simp]:
  "sub_eventCallback (snd (event_view env flv s)) = sub_eventCallback s"
  "sub_eventCallback (snd (cached_view env v s)) = sub_eventCallback s"
  by (auto simp: event_view_def cached_view_def Let_def split: option.split)

lemma send_cached_view:
  assumes "calm env" and "\<And>f. v = Some f \<Longrightarrow> Data f \<noteq> FlvOther" and "k < length (w_subs w)"
    and "sub_eventCallback (w_subs w ! k) = Some (Some i, sid)"
  shows "send_cached env v k w = (Ok (), at_sub (cached_view env v) k w)"
  using clone_view [OF assms(1) assms(2) assms(3,4)]
  by (cases v) (simp_all add: send_cached_def cached_view_def at_sub_def)

lemma send_video_view:
  assumes "calm env" and "is_video flv" and "\<And>f. pub_avcSeqHeader p = Some f \<or> pub_lastKeyFrame p = Some f \<Longrightarrow> is_video f"
    and "k < length (w_subs w)" and "sub_eventCallback (w_subs w ! k) = Some (Some i, sid)"
  shows "send_video env p flv k w = (Ok (), at_sub (publish_view env p flv) k w)"
proof (cases "sub_initialized (w_subs w ! k)")
  case True
  then show ?thesis using clone_view [OF assms(1) _ assms(4,5), of flv] assms(2)
    by (auto simp: send_video_def publish_view_def is_video_def at_sub_def)
next
  case False
  let ?w1 = "at_sub (cached_view env (pub_avcSeqHeader p)) k w"
  have video: "Data f \<noteq> FlvOther" if "pub_avcSeqHeader p = Some f \<or> pub_lastKeyFrame p = Some f" for f
    using assms(3) [OF that] by (auto simp: is_video_def)
  have 1: "send_cached env (pub_avcSeqHeader p) k w = (Ok (), ?w1)"
    by (rule send_cached_view [OF assms(1) _ assms(4,5)]) (simp add: video)
  have 2: "send_cached env (pub_lastKeyFrame p) k ?w1 = (Ok (), at_sub (cached_view env (pub_lastKeyFrame p)) k ?w1)"
    by (rule send_cached_view [OF assms(1)]) (use assms(4,5) in \<open>simp_all add: video\<close>)
  have "send_video env p flv k w = (let w2 = at_sub (cached_view env (pub_lastKeyFrame p)) k ?w1 in
      (Ok (), put_sub k ((w_subs w2 ! k)\<lparr>sub_initialized := True\<rparr>) w2))"
    using False by (simp add: send_video_def bind_io_def 1 2 Let_def del: at_sub_fields)
  also have "\<dots> = (Ok (), at_sub (publish_view env p flv) k w)"
    using False assms(2,4)
    by (simp add: publish_view_def start_view_def at_sub_def put_sub_def split_beta Let_def)
  finally show ?thesis .
qed

text \<open>A loop over different subscribers sends each what it is sent from the state before the loop.\<close>

definition at_subs :: "(Sub \<Rightarrow> relayWrites \<times> Sub) \<Rightarrow> nat list \<Rightarrow> 's relayWorld \<Rightarrow> 's relayWorld" where
  "at_subs v ks w = w\<lparr>w_subs := [if k \<in> set ks then snd (v (w_subs w ! k)) else w_subs w ! k. k \<leftarrow> [0..<length (w_subs w)]],
     w_wire := w_wire w @ concat [fst (v (w_subs w ! k)). k \<leftarrow> ks]\<rparr>"

lemma at_subs_nil [simp]: "at_subs v [] w = w"
  by (simp add: at_subs_def map_nth)

lemma at_subs_cons:
  assumes "k \<notin> set ks" and "k < length (w_subs w)"
  shows "at_subs v ks (at_sub v k w) = at_subs v (k # ks) w"
proof -
  have "[if j \<in> set ks then snd (v ((w_subs w)[k := snd (v (w_subs w ! k))] ! j)) else (w_subs w)[k := snd (v (w_subs w ! k))] ! j.
      j \<leftarrow> [0..<length (w_subs w)]] =
    [if j \<in> set (k # ks) then snd (v (w_subs w ! j)) else w_subs w ! j. j \<leftarrow> [0..<length (w_subs w)]]"
    using assms by (intro map_cong) (auto simp: nth_list_update)
  moreover have "[fst (v ((w_subs w)[k := snd (v (w_subs w ! k))] ! j)). j \<leftarrow> ks] = [fst (v (w_subs w ! j)). j \<leftarrow> ks]"
    using assms(1) by (intro map_cong refl) (metis nth_list_update_neq)
  ultimately show ?thesis
    unfolding at_subs_def at_sub_fields length_list_update by (simp only: list.map concat.simps append_assoc)
qed

lemma each_view:
  assumes "distinct ks" and "\<And>k. k \<in> set ks \<Longrightarrow> k < length (w_subs w)"
    and "\<And>k w'. k \<in> set ks \<Longrightarrow> w_subs w' ! k = w_subs w ! k \<Longrightarrow> length (w_subs w') = length (w_subs w) \<Longrightarrow>
      f k w' = (Ok (), at_sub v k w')"
  shows "each f ks w = (Ok (), at_subs v ks w)"
  using assms
proof (induction ks arbitrary: w)
  case (Cons k ks)
  have "each f ks (at_sub v k w) = (Ok (), at_subs v ks (at_sub v k w))"
  proof (rule Cons.IH)
    fix k' and w' :: "'a relayWorld"
    assume "k' \<in> set ks" "w_subs w' ! k' = w_subs (at_sub v k w) ! k'" "length (w_subs w') = length (w_subs (at_sub v k w))"
    moreover from this have "k' \<noteq> k" using Cons.prems(1) by auto
    ultimately show "f k' w' = (Ok (), at_sub v k' w')"
      using Cons.prems(3) [of k' w'] by simp
  qed (use Cons.prems in auto)
  then show ?case using Cons.prems by (simp add: bind_io_def at_subs_cons)
qed simp

lemma Publish_result:
  assumes ok: "relay_ok A w" and "calm env" and q: "q < length (w_pubs w)" and flv: "Data flv \<noteq> FlvOther"
  shows "Pub_Publish env q flv w = (Ok (),
     at_subs (publish_view env (caching env flv (w_pubs w ! q)) flv) (pb_subs (w_pubsubs w ! pub_pb (w_pubs w ! q)))
       (w\<lparr>w_pubs := (w_pubs w)[q := caching env flv (w_pubs w ! q)]\<rparr>))"
proof -
  let ?p = "w_pubs w ! q" and ?p' = "caching env flv (w_pubs w ! q)"
  let ?ks = "pb_subs (w_pubsubs w ! pub_pb ?p)" and ?w = "w\<lparr>w_pubs := (w_pubs w)[q := caching env flv (w_pubs w ! q)]\<rparr>"
  from ok have h: "heaps_ok w" and c: "handlers_ok w" and v: "cached_ok w" by (simp_all add: relay_ok_def)
  have ks: "distinct ?ks" "\<And>k. k \<in> set ?ks \<Longrightarrow> k < length (w_subs w)"
    using heaps_okD(3,4) [OF h heaps_okD(6) [OF h q]] by auto
  have cached: "is_video f" if "pub_avcSeqHeader ?p' = Some f \<or> pub_lastKeyFrame ?p' = Some f" for f
    using v q that by (auto simp: cached_ok_def caching_def pub_cache_def is_video_def Let_def split: flvData.splits if_splits
        dest!: nth_mem)
  have cb: "\<exists>i sid. sub_eventCallback (w_subs w' ! k) = Some (Some i, sid)"
    if "k \<in> set ?ks" "w_subs w' ! k = w_subs w ! k" for k and w' :: "'a relayWorld"
    using handlers_okD(1) [OF c ks(2) [OF that(1)]] that(2) by auto
  show ?thesis
  proof (cases "is_video flv")
    case True
    then obtain d where d: "Data flv = FlvVideo d" by (auto simp: is_video_def)
    have "each (send_video env ?p' flv) ?ks ?w = (Ok (), at_subs (publish_view env ?p' flv) ?ks ?w)"
      using send_video_view [OF assms(2) True cached] cb ks by (intro each_view) fastforce+
    then show ?thesis by (simp add: Pub_Publish_def Let_def d caching_def)
  next
    case False
    then have same: "?p' = ?p" and view: "publish_view env ?p' flv = event_view env flv"
      by (auto simp: caching_def is_video_def publish_view_def split: flvData.split)
    have "each (send_clone env flv) ?ks w = (Ok (), at_subs (event_view env flv) ?ks w)"
      using clone_view [OF assms(2) flv] cb ks by (intro each_view) fastforce+
    then show ?thesis using False flv unfolding view unfolding same
      by (cases "Data flv") (auto simp: Pub_Publish_def Let_def is_video_def)
  qed
qed

section \<open>The wire of one connection\<close>

definition wire_of :: "nat \<Rightarrow> 's relayWorld \<Rightarrow> (int \<times> uint32 \<times> ChunkMessage) list" where
  "wire_of i w = map snd (filter (\<lambda>x. fst x = i) (w_wire w))"

lemma view_wire:
  assumes "sub_eventCallback s = Some (Some i, sid)" and "x \<in> set (fst (publish_view env p flv s))"
  shows "fst x = i"
proof -
  have event: "x \<in> set (fst (event_view env f s')) \<Longrightarrow> fst x = i" if "sub_eventCallback s' = Some (Some i, sid)" for f s'
    using that by (auto simp: event_view_def written_def Let_def split: result.splits if_splits)
  have cached: "x \<in> set (fst (cached_view env v s')) \<Longrightarrow> fst x = i" if "sub_eventCallback s' = Some (Some i, sid)" for v s'
    using event that by (auto simp: cached_view_def split: option.splits)
  show ?thesis
    using assms event [OF assms(1)] cached [OF assms(1)] cached [of "snd (cached_view env (pub_avcSeqHeader p) s)"]
    by (auto simp: publish_view_def start_view_def split_beta Let_def split: if_splits)
qed

lemma concat_one:
  assumes "distinct ks" and "k \<in> set ks" and "\<And>j x. j \<in> set ks \<Longrightarrow> x \<in> set (g j) \<Longrightarrow> P x \<longleftrightarrow> j = k"
  shows "filter P (concat (map g ks)) = g k"
proof -
  obtain as bs where ks: "ks = as @ k # bs" using assms(2) by (auto dest: split_list)
  have "filter P (concat (map g cs)) = []" if "set cs \<subseteq> set ks - {k}" for cs
    using that assms(3) by (induction cs) (auto simp: filter_empty_conv)
  moreover have "filter P (g k) = g k" using assms(3) [OF assms(2)] by (simp add: filter_id_conv)
  ultimately show ?thesis using assms(1) by (simp add: ks)
qed

lemma published_to:
  assumes ok: "relay_ok A w" and "calm env" and q: "q < length (w_pubs w)" and flv: "Data flv \<noteq> FlvOther"
    and k: "k \<in> set (pb_subs (w_pubsubs w ! pub_pb (w_pubs w ! q)))" and i: "h_sub (w_handlers w i) = Some k"
  shows "wire_of i (snd (Pub_Publish env q flv w)) =
      wire_of i w @ map snd (fst (publish_view env (caching env flv (w_pubs w ! q)) flv (w_subs w ! k)))"
    and "w_subs (snd (Pub_Publish env q flv w)) ! k = snd (publish_view env (caching env flv (w_pubs w ! q)) flv (w_subs w ! k))"
    and "w_pubs (snd (Pub_Publish env q flv w)) = (w_pubs w)[q := caching env flv (w_pubs w ! q)]"
proof -
  let ?v = "publish_view env (caching env flv (w_pubs w ! q)) flv"
  let ?ks = "pb_subs (w_pubsubs w ! pub_pb (w_pubs w ! q))"
  from ok have h: "heaps_ok w" and c: "handlers_ok w" by (simp_all add: relay_ok_def)
  note ks = heaps_okD(3,4) [OF h heaps_okD(6) [OF h q]]
  have "fst x = i \<longleftrightarrow> j = k" if j: "j \<in> set ?ks" and x: "x \<in> set (fst (?v (w_subs w ! j)))" for j x
  proof -
    obtain i' sid where "sub_eventCallback (w_subs w ! j) = Some (Some i', sid)" "h_sub (w_handlers w i') = Some j"
      using handlers_okD(1) [OF c ks(2) [OF j]] by auto
    moreover from this have "fst x = i'" using view_wire x by blast
    ultimately show ?thesis using i handlers_okD(3) [OF c i] by auto
  qed
  then have "filter (\<lambda>x. fst x = i) (concat (map (\<lambda>k. fst (?v (w_subs w ! k))) ?ks)) = fst (?v (w_subs w ! k))"
    using concat_one [OF ks(1) k, of "\<lambda>k. fst (?v (w_subs w ! k))" "\<lambda>x. fst x = i"] by blast
  then show "wire_of i (snd (Pub_Publish env q flv w)) = wire_of i w @ map snd (fst (?v (w_subs w ! k)))"
    by (simp add: Publish_result [OF assms(1-4)] at_subs_def wire_of_def)
  show "w_subs (snd (Pub_Publish env q flv w)) ! k = snd (?v (w_subs w ! k))"
    "w_pubs (snd (Pub_Publish env q flv w)) = (w_pubs w)[q := caching env flv (w_pubs w ! q)]"
    using k ks(2) [OF k] by (simp_all add: Publish_result [OF assms(1-4)] at_subs_def)
qed

section \<open>Media through the system\<close>

lemmas [simp del] = relay_step.simps

lemma media_tag_data: "media_tag (re_flv env) ts msg = Some flv \<Longrightarrow> Data flv \<noteq> FlvOther \<and> Timestamp flv = ts"
  by (auto simp: media_tag_def split: message.splits result.splits)

lemma media_callback_publishes:
  assumes "relay_ok A w" and "calm env" and q: "h_pub (w_handlers w j) = Some q" and tag: "media_tag (re_flv env) ts msg = Some flv"
  shows "media_callback (relay_conn_env env ms j) ts msg w = (Ok (), snd (Pub_Publish env q flv w))"
proof -
  have "q < length (w_pubs w)" using assms(1) handlers_okD(4) [OF _ q] by (simp add: relay_ok_def)
  then have "fst (Pub_Publish env q flv w) = Ok ()"
    using Publish_result [OF assms(1,2), of q flv] media_tag_data [OF tag] by simp
  then have "relay_publish env j flv w = (Ok (), snd (Pub_Publish env q flv w))"
    by (cases "Pub_Publish env q flv w") (simp add: relay_publish_def q ignoring_def)
  then show ?thesis
    using tag by (auto simp: media_tag_def media_callback_def relay_conn_env_def relay_handler_def relay_OnAudio_def
        relay_OnVideo_def bind_io_def pure_io_def split: message.splits result.splits)
qed

lemma media_step:
  assumes S: "system_ok S" and "calm env" and j: "y_conns S j = Some c" and s: "fmlookup (c_streams c) sid = Some s"
    and pub: "str_state s = streamStateServerPublish" and q: "h_pub (w_handlers (y_world S) j) = Some q"
    and tag: "media_tag (re_flv env) ts m = Some flv"
  shows "relay_step env ms (Received j csid ts \<lparr>cm_StreamID = sid, cm_Message = m\<rparr>) S =
    (let w' = snd (Pub_Publish env q flv (y_world S)) in
     S\<lparr>y_conns := (y_conns S)(j \<mapsto> c\<lparr>c_user := w'\<rparr>), y_world := w'\<rparr>)"
proof -
  let ?env = "relay_conn_env env ms j" and ?c = "c\<lparr>c_user := y_world S\<rparr>"
  have "wf_tables (tables c)" and ok: "relay_ok (open_conns S) (y_world S)" using S j by (auto simp: system_ok_def)
  then have h: "str_handler s = handler_of (str_state s)" using wf_tablesD(2) s unfolding tables_def by blast
  note call = media_callback_publishes [OF ok assms(2) q tag, of ms]
  have "media m" using tag by (auto simp: media_def media_tag_def split: message.splits)
  then have "stream_handle ?env s csid ts m ?c = with_user (media_callback ?env ts m) ?c"
    using pub h call by (intro media_published) simp_all
  also have "\<dots> = (Ok (), c\<lparr>c_user := snd (Pub_Publish env q flv (y_world S))\<rparr>)"
    by (simp add: with_user_def call)
  finally have "handleMessage ?env csid ts \<lparr>cm_StreamID = sid, cm_Message = m\<rparr> ?c =
      (Ok (), c\<lparr>c_user := snd (Pub_Publish env q flv (y_world S))\<rparr>)"
    using s by (simp add: handleMessage_def streams_At_def)
  then show ?thesis by (simp add: relay_step.simps j Let_def)
qed

text \<open>
  Connection \<open>j\<close> publishes on its stream \<open>sid\<close> as publisher \<open>q\<close>, and connection \<open>i\<close> plays that as
  subscriber \<open>k\<close>.
\<close>

definition plays :: "'s relaySystem \<Rightarrow> nat \<Rightarrow> uint32 \<Rightarrow> nat \<Rightarrow> nat \<Rightarrow> nat \<Rightarrow> bool" where
  "plays S j sid q i k \<longleftrightarrow>
     (\<exists>c s. y_conns S j = Some c \<and> fmlookup (c_streams c) sid = Some s \<and> str_state s = streamStateServerPublish)
   \<and> h_pub (w_handlers (y_world S) j) = Some q \<and> y_conns S i \<noteq> None \<and> h_sub (w_handlers (y_world S) i) = Some k
   \<and> k \<in> set (pb_subs (w_pubsubs (y_world S) ! pub_pb (w_pubs (y_world S) ! q)))"

lemma plays_open:
  assumes S: "system_ok S" and p: "plays S j sid q i k"
  shows "q < length (w_pubs (y_world S))" and "k < length (w_subs (y_world S))" and "\<not> sub_closed (w_subs (y_world S) ! k)"
    and "\<exists>sid'. sub_eventCallback (w_subs (y_world S) ! k) = Some (Some i, sid')"
proof -
  let ?w = "y_world S"
  have hs: "handlers_ok ?w" and l: "live_ok (open_conns S) ?w" using S by (simp_all add: system_ok_def relay_ok_def)
  have A: "i \<in> open_conns S" "j \<in> open_conns S" using p by (auto simp: open_conns_def plays_def)
  have q: "h_pub (w_handlers ?w j) = Some q" and k: "h_sub (w_handlers ?w i) = Some k"
    and mem: "k \<in> set (pb_subs (w_pubsubs ?w ! pub_pb (w_pubs ?w ! q)))" using p by (simp_all add: plays_def)
  show "q < length (w_pubs ?w)" "k < length (w_subs ?w)" "\<exists>sid'. sub_eventCallback (w_subs ?w ! k) = Some (Some i, sid')"
    using handlers_okD(2,3,4) [OF hs] q k by auto
  show "\<not> sub_closed (w_subs ?w ! k)"
    by (rule live_okD(3) [OF l A(1) k live_okD(2) [OF l A(2) q] mem])
qed

text \<open>A readable message of the publisher: the wire of the player grows by what its subscriber is sent.\<close>

lemma plays_step:
  fixes env :: "'s relayEnv" and ms csid
  assumes S: "system_ok S" and calm: "calm env" and p: "plays S j sid q i k" and tag: "media_tag (re_flv env) ts m = Some flv"
  defines "S' \<equiv> relay_step env ms (Received j csid ts \<lparr>cm_StreamID = sid, cm_Message = m\<rparr>) S"
    and "view \<equiv> publish_view env (caching env flv (w_pubs (y_world S) ! q)) flv (w_subs (y_world S) ! k)"
  shows "system_ok S'" and "plays S' j sid q i k"
    and "wire_of i (y_world S') = wire_of i (y_world S) @ map snd (fst view)"
    and "w_subs (y_world S') ! k = snd view"
    and "w_pubs (y_world S') ! q = caching env flv (w_pubs (y_world S) ! q)"
proof -
  let ?w = "y_world S" and ?w' = "snd (Pub_Publish env q flv (y_world S))"
  obtain c s where c: "y_conns S j = Some c" "fmlookup (c_streams c) sid = Some s" "str_state s = streamStateServerPublish"
    using p by (auto simp: plays_def)
  have ok: "relay_ok (open_conns S) ?w" using S by (simp add: system_ok_def)
  have q: "h_pub (w_handlers ?w j) = Some q" and k: "h_sub (w_handlers ?w i) = Some k"
    and mem: "k \<in> set (pb_subs (w_pubsubs ?w ! pub_pb (w_pubs ?w ! q)))" using p by (simp_all add: plays_def)
  note len = plays_open(1) [OF S p]
  have data: "Data flv \<noteq> FlvOther" using media_tag_data [OF tag] by simp
  note to = published_to [OF ok calm len data mem k]
  note shape = relay_shapeD [OF Publish_keeps(1) [of env q flv ?w]]
  have S': "S' = S\<lparr>y_conns := (y_conns S)(j \<mapsto> c\<lparr>c_user := ?w'\<rparr>), y_world := ?w'\<rparr>"
    using media_step [OF S calm c q tag] by (simp add: S'_def Let_def)
  show "system_ok S'" unfolding S'_def by (rule relay_step_ok [OF S])
  show "plays S' j sid q i k"
    using p c shape(2,3,6) len by (auto simp: plays_def S')
  show "wire_of i (y_world S') = wire_of i ?w @ map snd (fst view)" "w_subs (y_world S') ! k = snd view"
    "w_pubs (y_world S') ! q = caching env flv (w_pubs ?w ! q)"
    using to len by (simp_all add: S' view_def)
qed

section \<open>Delivery\<close>

text \<open>
  The payload of a message survives the decoder and the encoder.
\<close>

definition carried :: "'s relayEnv \<Rightarrow> message \<Rightarrow> bool" where
  "carried env msg \<longleftrightarrow>
     (case msg of
        MsgAudioMessage p \<Rightarrow> \<exists>d. decodeAudioData (re_flv env) p = Ok d \<and> encodeAudioData (re_flv env) d = Ok p
      | MsgVideoMessage p \<Rightarrow> \<exists>d. decodeVideoData (re_flv env) p = Ok d \<and> encodeVideoData (re_flv env) d = Ok p
      | _ \<Rightarrow> False)"

definition media_csid :: "message \<Rightarrow> int" where
  "media_csid msg = (case msg of MsgAudioMessage _ \<Rightarrow> 5 | _ \<Rightarrow> 6)"

text \<open>Timestamps count from the first one a subscriber saw that was not zero.\<close>

fun rebased :: "uint32 \<Rightarrow> uint32 \<Rightarrow> (int \<times> uint32 \<times> message) list \<Rightarrow> (int \<times> uint32 \<times> ChunkMessage) list" where
  "rebased sid t0 [] = []"
| "rebased sid t0 ((csid, ts, m) # xs) =
     (let t = (if ts \<noteq> 0 \<and> t0 = 0 then ts else t0) in
      (media_csid m, ts - t, \<lparr>cm_StreamID = sid, cm_Message = m\<rparr>) # rebased sid t xs)"

text \<open>Messages of one connection on one stream, as events of the system.\<close>

definition stream_events :: "nat \<Rightarrow> uint32 \<Rightarrow> (int \<times> uint32 \<times> message) list \<Rightarrow> relayEvent list" where
  "stream_events j sid xs = map (\<lambda>(csid, ts, m). Received j csid ts \<lparr>cm_StreamID = sid, cm_Message = m\<rparr>) xs"

lemma carried_view:
  assumes "carried env m" and "sub_initialized s" and "\<not> sub_closed s" and "sub_eventCallback s = Some (Some i, sid)"
  obtains flv where "media_tag (re_flv env) ts m = Some flv"
    and "\<And>p. publish_view env p flv s = (let t = (if ts \<noteq> 0 \<and> sub_lastTimestamp s = 0 then ts else sub_lastTimestamp s) in
      ([(i, media_csid m, ts - t, \<lparr>cm_StreamID = sid, cm_Message = m\<rparr>)], s\<lparr>sub_lastTimestamp := t\<rparr>))"
proof -
  have same: "s = s\<lparr>sub_lastTimestamp := sub_lastTimestamp s\<rparr>" by simp
  from assms(1) consider
      (audio) b d where "m = MsgAudioMessage b" "decodeAudioData (re_flv env) b = Ok d" "encodeAudioData (re_flv env) d = Ok b"
    | (video) b d where "m = MsgVideoMessage b" "decodeVideoData (re_flv env) b = Ok d" "encodeVideoData (re_flv env) d = Ok b"
    by (auto simp: carried_def split: message.splits)
  then show ?thesis
  proof cases
    case audio
    show ?thesis
      by (rule that) (use audio assms(2-4) in \<open>auto simp: media_tag_def publish_view_def event_view_def written_def
          tag_message_def map_result_def media_csid_def Let_def\<close>)
  next
    case video
    show ?thesis
      by (rule that) (use video assms(2-4) in \<open>auto simp: media_tag_def publish_view_def event_view_def written_def
          tag_message_def map_result_def media_csid_def Let_def\<close>)
  qed
qed

lemma stream_events_delivered:
  assumes "system_ok S" and "calm env" and "plays S j sid q i k" and "sub_initialized (w_subs (y_world S) ! k)"
    and "sub_eventCallback (w_subs (y_world S) ! k) = Some (Some i, sid')" and "\<forall>(csid, ts, m) \<in> set xs. carried env m"
  shows "wire_of i (y_world (fold (relay_step env ms) (stream_events j sid xs) S)) =
    wire_of i (y_world S) @ rebased sid' (sub_lastTimestamp (w_subs (y_world S) ! k)) xs"
  using assms
proof (induction xs arbitrary: S)
  case (Cons x xs)
  obtain csid ts m where x: "x = (csid, ts, m)" by (cases x)
  then have "carried env m" using Cons.prems(6) by simp
  then obtain flv where tag: "media_tag (re_flv env) ts m = Some flv"
    and view: "\<And>p. publish_view env p flv (w_subs (y_world S) ! k) =
      (let t = (if ts \<noteq> 0 \<and> sub_lastTimestamp (w_subs (y_world S) ! k) = 0 then ts else sub_lastTimestamp (w_subs (y_world S) ! k)) in
      ([(i, media_csid m, ts - t, \<lparr>cm_StreamID = sid', cm_Message = m\<rparr>)], (w_subs (y_world S) ! k)\<lparr>sub_lastTimestamp := t\<rparr>))"
    using carried_view [OF _ Cons.prems(4) plays_open(3) [OF Cons.prems(1,3)] Cons.prems(5), where ts = ts] by blast
  note step = plays_step [OF Cons.prems(1-3) tag, where ms = ms and csid = csid, unfolded view]
  have "wire_of i (y_world (fold (relay_step env ms) (stream_events j sid xs)
      (relay_step env ms (Received j csid ts \<lparr>cm_StreamID = sid, cm_Message = m\<rparr>) S))) =
    wire_of i (y_world (relay_step env ms (Received j csid ts \<lparr>cm_StreamID = sid, cm_Message = m\<rparr>) S))
      @ rebased sid' (sub_lastTimestamp (w_subs (y_world (relay_step env ms
          (Received j csid ts \<lparr>cm_StreamID = sid, cm_Message = m\<rparr>) S)) ! k)) xs"
    by (rule Cons.IH [OF step(1) Cons.prems(2) step(2)]) (use Cons.prems step(4) in \<open>auto simp: Let_def\<close>)
  then show ?case
    using step(3,4) by (simp add: x stream_events_def Let_def)
qed (simp add: stream_events_def)

text \<open>
  A play that is not finished: between \<^verbatim>\<open>Sub\<close>, which appends the subscriber, and the assignment of
  its callback, a publish from another connection calls the nil callback, which panics in the
  publisher's connection.
\<close>

lemma play_window:
  assumes ok: "relay_ok A w" and calm: "calm env" and q: "q < length (w_pubs w)" and audio: "Data flv = FlvAudio d"
  shows "fst (Pub_Publish env q flv (snd (Pubsub_Sub (pub_pb (w_pubs w ! q)) w))) = Panic ''nil pointer dereference''"
proof -
  let ?p = "pub_pb (w_pubs w ! q)" and ?k = "length (w_subs w)" and ?ks = "pb_subs (w_pubsubs w ! pub_pb (w_pubs w ! q))"
  define w' where "w' = snd (Pubsub_Sub ?p w)"
  from ok have h: "heaps_ok w" and c: "handlers_ok w" by (simp_all add: relay_ok_def)
  note p = heaps_okD(6) [OF h q]
  have ks: "distinct ?ks" "\<And>k. k \<in> set ?ks \<Longrightarrow> k < ?k" using heaps_okD(3,4) [OF h p] by auto
  have subs: "w_subs w' = w_subs w @ [\<lparr>sub_initialized = False, sub_closed = False, sub_lastTimestamp = 0, sub_eventCallback = None\<rparr>]"
    and pbs: "pb_subs (w_pubsubs w' ! ?p) = ?ks @ [?k]" and pubs: "w_pubs w' = w_pubs w"
    using p by (simp_all add: w'_def Pubsub_Sub_def Let_def)
  have old: "w_subs w' ! k = w_subs w ! k" if "k \<in> set ?ks" for k using ks(2) [OF that] by (simp add: subs nth_append)
  have flv: "Data flv \<noteq> FlvOther" using audio by simp
  have "each (send_clone env flv) ?ks w' = (Ok (), at_subs (event_view env flv) ?ks w')"
  proof (rule each_view [OF ks(1)])
    fix k and w'' :: "'a relayWorld"
    assume k: "k \<in> set ?ks" and same: "w_subs w'' ! k = w_subs w' ! k" "length (w_subs w'') = length (w_subs w')"
    then obtain i sid where "sub_eventCallback (w_subs w'' ! k) = Some (Some i, sid)"
      using handlers_okD(1) [OF c ks(2) [OF k]] old [OF k] by auto
    then show "send_clone env flv k w'' = (Ok (), at_sub (event_view env flv) k w'')"
      using ks(2) [OF k] same by (intro clone_view [OF calm flv]) (simp_all add: subs)
  qed (use ks(2) in \<open>auto simp: subs less_Suc_eq\<close>)
  moreover have "fst (send_clone env flv ?k (at_subs (event_view env flv) ?ks w')) = Panic ''nil pointer dereference''"
    using ks(2) by (auto simp: at_subs_def subs send_clone_def cloneView_def audio bind_io_def pure_io_def ignoring_def
        Sub_onEvent_def Let_def nth_append split: if_splits)
  moreover have "each f (xs @ [x]) w = bind_io (each f xs) (\<lambda>_. f x) w" for f :: "nat \<Rightarrow> ('a relayWorld, unit) io" and xs x w
    by (induction xs arbitrary: w) (auto simp: bind_io_def prod_eq_iff split: result.split)
  ultimately show ?thesis
    by (simp add: Pub_Publish_def Let_def audio pubs pbs bind_io_def flip: w'_def)
qed

end
