(* ===== verification/Wire_Input.thy ===== *)
theory Wire_Input
  imports Dialogue Chunk_Transfer
begin

text \<open>
  From bytes on the wire to what a message does: a message that arrives in one chunk is read and
  decoded by the connection's loop, and the loop goes on, or ends with the error of its handler.
\<close>

section \<open>A message in one chunk\<close>

text \<open>
  A message in one chunk with a full header, read from a connection: it is decoded under the type
  of the header, and nothing after it is taken. An acknowledgement may be sent meanwhile.
\<close>

lemma acknowledge_says:
  assumes "c_faults c = []"
  obtains rx' ms where "acknowledge (controlStreamWrite env) (rx, c) = (Ok (), (rx', said ms c))"
    and "readers rx' = readers rx" and "peerState rx' = peerState rx" and "rx_pending rx' = rx_pending rx"
proof (cases "ackThreshold (ackWindowSize (peerState rx)) \<le> fragmentReadBytes (rx_r rx)")
  case True
  have "sendAck (controlStreamWrite env) n c = (Ok (), said [(2, 0, 0, MsgAck n)] c)" for n
    using stream_Write_Ok [OF assms, of "e_amf env" "MsgAck n" "put_uint32_be n" "newStream 0" 2 0]
    by (simp add: sendAck_def controlStreamWrite_def said_def newStream_def encodeAck_def buf_Write_def)
  with True show thesis
    by (intro that [of "rx\<lparr>rx_r := ResetFragmentReadBytes (rx_r rx)\<rparr>" "[(2, 0, 0, MsgAck (totalReadBytes (rx_r rx)))]"])
      (simp_all add: acknowledge_def ResetFragmentReadBytes_def csr_pending_def)
next
  case False
  then show thesis by (intro that [of rx "[]"]) (simp_all add: acknowledge_def said_def)
qed

lemma one_chunk_message:
  assumes csid: "2 \<le> csid" "csid \<le> 319" and c: "c_faults c = []"
    and pend: "rx_pending rx = basicHeader_bytes \<lparr>bh_fmt = 0, bh_chunkStreamID = csid\<rparr> @ messageHeader_bytes 0 mh @ bs @ rest"
    and bs: "bs \<noteq> []" "unat (mh_messageLength mh) = length bs" "length bs < 2 ^ 24"
      "length bs \<le> unat (chunkSize (peerState rx))"
    and rx: "has_room rx csid" "buf (restartReader (reader_of rx csid)) = []"
  obtains rx' ms where "streamer_Read amf (controlStreamWrite env) (rx, c) =
      (bind_result (fst (message_Decode amf (mh_messageTypeID mh) bs))
         (\<lambda>msg. Ok (csid, mh_timestamp mh, \<lparr>cm_StreamID = mh_messageStreamID mh, cm_Message = msg\<rparr>)), (rx', said ms c))"
    and "rx_pending rx' = rest" and "peerState rx' = peerState rx"
proof -
  let ?bh = "\<lparr>bh_fmt = 0, bh_chunkStreamID = csid\<rparr>"
  define r1 where "r1 = applyChunkHeader ?bh (decoded_messageHeader 0 zero_messageHeader mh) (restartReader (reader_of rx csid))"
  have r1: "buf r1 = []" "messageLength r1 = mh_messageLength mh" "messageTypeID r1 = mh_messageTypeID mh"
    "messageStreamID r1 = mh_messageStreamID mh" "timestamp r1 = mh_timestamp mh" "timestampDelta r1 = 0"
    "basicHeader r1 = ?bh"
    using rx(2) by (simp_all add: r1_def applyChunkHeader_def decoded_messageHeader_def)
  have miss: "missing r1 = int (length bs)" using r1 bs(2) by (simp add: missing_def)
  have "of_nat (length bs) = mh_messageLength mh" using bs(2) by (simp flip: bs(2))
  then have amount: "length bs = chunkAmount (peerState rx) r1"
    using bs(2,4) by (auto simp: chunkAmount_def miss word_less_nat_alt)
  have pos: "0 < missing r1" using miss bs(1) by simp
  obtain rr where rc: "readChunk rx = (Ok csid, rx\<lparr>rx_r := rr, readers := fmupd csid (deliver bs r1) (readers rx)\<rparr>)"
    and rr: "csr_pending rr = rest"
    by (rule readChunk_receives [of csid ?bh rx mh bs rest])
      (use csid pend bs(2,3) rx(1) amount pos in \<open>simp_all add: valid_fmt_def flip: r1_def\<close>)
  define rx1 where "rx1 = rx\<lparr>rx_r := rr, readers := fmupd csid (deliver bs r1) (readers rx)\<rparr>"
  obtain rx2 ms where ack: "acknowledge (controlStreamWrite env) (rx1, c) = (Ok (), (rx2, said ms c))"
    and rx2: "readers rx2 = readers rx1" "peerState rx2 = peerState rx1" "rx_pending rx2 = rx_pending rx1"
    by (rule acknowledge_says [OF c])
  have dl: "deliver bs r1 = r1\<lparr>completed := True, buf := bs\<rparr>"
    using r1 miss by (simp add: deliver_def missing_def completeReader_def)
  have lk: "fmlookup (readers rx2) csid = Some (r1\<lparr>completed := True, buf := bs\<rparr>)" by (simp add: rx2 rx1_def dl)
  have "chunkRound (controlStreamWrite env) (rx, c) = (Ok csid, (rx2, said ms c))"
    using rc ack by (simp add: chunkRound_def bind_io_def with_rx_def flip: rx1_def)
  then have "newChunkReader (controlStreamWrite env) (rx, c) = (Ok csid, (rx2, said ms c))"
    using lk by (subst newChunkReader.simps) (simp add: chunkCompleted_def)
  then show thesis
    using lk r1 rr rx2
    by (intro that [of "rx2\<lparr>readers := fmupd csid (r1\<lparr>completed := True, buf := snd (message_Decode amf (mh_messageTypeID mh) bs)\<rparr>) (readers rx2)\<rparr>" ms])
      (auto simp: streamer_Read_def bind_io_def with_rx_def decodeFrom_def rx1_def bind_result_def split: prod.split result.split)
qed


lemma high_bit: "drop_bit 31 (v AND 0x80000000) \<noteq> (0 :: uint32) \<longleftrightarrow> 0x80000000 \<le> v"
proof -
  have "drop_bit 31 (v AND 0x80000000) = drop_bit 31 v AND 1" by simp
  moreover have u: "unat (drop_bit 31 v) = unat v div 2 ^ 31" unfolding unat_drop_bit_eq by (simp add: drop_bit_eq_div)
  moreover have lt: "unat v < 2 ^ 32" using unsigned_less [of v] by simp
  moreover have "drop_bit 31 v AND 1 = drop_bit 31 v"
  proof (cases "unat v < 2 ^ 31")
    case True
    then have "unat (drop_bit 31 v) = 0" using u by simp
    then show ?thesis by (simp add: unat_eq_zero)
  next
    case False
    then have "unat (drop_bit 31 v) = 1" using u lt by simp
    then have "drop_bit 31 v = 1" by (simp add: word_unat_eq_iff)
    then show ?thesis by simp
  qed
  ultimately show ?thesis by (simp add: word_le_nat_alt flip: unat_eq_zero) linarith
qed


lemma decode_chunk_size:
  "fst (message_Decode amf TypeIDSetChunkSize (put_uint32_be v)) =
     (if 0x80000000 \<le> v then Err (Errorf ''Invalid format: bit must be 0'' [])
      else if v = 0 then Err (Errorf ''Invalid format: chunk size is 0'' [])
      else Ok (MsgSetChunkSize v))"
proof -
  have "\<not> 0x80000000 \<le> v \<Longrightarrow> v AND 0x7fffffff = v"
    by (intro chunk_size_bits(1)) (simp add: word_le_nat_alt)
  then show ?thesis
    using high_bit [of v] by (auto simp: message_Decode_def decodeSetChunkSize_def bind_io_def Let_def)
qed

section \<open>The loop after a message\<close>

text \<open>What \<^verbatim>\<open>handleMessage\<close> passes over: the loop goes on after these errors.\<close>

definition passed_over :: "rtmp_error \<Rightarrow> bool" where
  "passed_over e \<longleftrightarrow> (case e of UnknownDataBodyDecodeError _ _ \<Rightarrow> True | UnknownCommandBodyDecodeError _ _ _ \<Rightarrow> True | _ \<Rightarrow> False)"

lemma handleMessage_error:
  assumes "fmlookup (c_streams c) (cm_StreamID cmsg) = Some s"
    and "stream_handle env s csid ts (cm_Message cmsg) c = (Err e, c')"
  shows "handleMessage env csid ts cmsg c = (if passed_over e then Ok () else Err e, c')"
  using assms by (cases e) (simp_all add: handleMessage_def streams_At_def passed_over_def)

lemma loop_unfolds:
  assumes "streamer_Read (e_amf env) (controlStreamWrite env) st = (Ok (csid, ts, cmsg), (rx, c))"
    and "handleMessage env csid ts cmsg (c\<lparr>c_peer := peerState rx\<rparr>) = (r, c')"
  shows "runHandleMessageLoop env None st =
     (case r of
        Ok _ \<Rightarrow> runHandleMessageLoop env None (rx\<lparr>peerState := c_peer c'\<rparr>, c')
      | Err e \<Rightarrow> (Err e, (rx\<lparr>peerState := c_peer c'\<rparr>, c'))
      | Panic p \<Rightarrow> (Panic p, (rx\<lparr>peerState := c_peer c'\<rparr>, c')))"
proof -
  have "oneMessage env st = (r, (rx\<lparr>peerState := c_peer c'\<rparr>, c'))"
    using assms by (simp add: oneMessage_def bind_io_def on_conn_def Let_def)
  then show ?thesis by (subst runHandleMessageLoop.simps) (simp split: result.split)
qed

end
