(* ===== verification/Conn_Properties.thy ===== *)
theory Conn_Properties
  imports Dialogue Codec_Properties Wire_Input
begin

text \<open>
  The properties of connections: what holds after any input, in which order the user is called,
  how streams change state, what the server answers, and where answers and media go.
\<close>

section \<open>Any input\<close>

text \<open>
  C4 (safety). The user of a server is called in order, whatever the client sends and however the
  connection ends: nothing but \<^verbatim>\<open>OnConnect\<close> before a connect was accepted, \<^verbatim>\<open>OnPublish\<close> and
  \<^verbatim>\<open>OnPlay\<close> only after a stream was created, and media only after a publish was accepted. (The
  callbacks for unknown messages can come at any time.)
\<close>

theorem callbacks_in_order:
  assumes "wf_config (config_normalize (uc_ControlState cfg))" and "uc_Handler cfg = Some (logging h)"
  shows "orderly (call_log (snd (snd (handleConn amf ms (Some cfg) ended w ([], u)))))"
  by (rule handleConn_orderly [OF assms])

definition sample_user :: "(callLog \<times> unit) userConfig" where
  "sample_user = zero_userConfig\<lparr>uc_Handler := Some (logging DefaultHandler)\<rparr>"

lemma sample_user_wf: "wf_config (config_normalize (uc_ControlState sample_user))"
  using wf_default_config by (simp add: sample_user_def zero_userConfig_def defaultStreamControlStateConfig_def)

theorem callbacks_in_order_witness:
  "orderly (call_log (snd (snd (handleConn sample_amf sample_ms (Some sample_user) None (sample_world sample_request) ([], ())))))"
  using callbacks_in_order [OF sample_user_wf, of DefaultHandler] by (simp add: sample_user_def)

text \<open>
  C5 (invariant). After any messages of the client, each stream is found under its own ID with
  the handler of its state, no more streams and chunk streams exist than configured, the peer's
  chunk size is positive and within its bounds, no transaction is waited for twice or after it
  was answered, and no more messages were ignored than the configuration allows.
\<close>

theorem connection_invariant:
  fixes env :: "'u env"
  assumes "wf_config (config_normalize (uc_ControlState cfg))"
    and "0 < cfg_MaxMessageStreams (config_normalize (uc_ControlState cfg))"
    and "st = snd (handleMessageLoop env ended (serving env (resume w (newConn rwc (Some cfg) u))))"
  shows "(\<forall>k s. fmlookup (c_streams (snd st)) k = Some s \<longrightarrow> str_streamID s = k \<and> str_handler s = handler_of (str_state s))
    \<and> int (fcard (fmdom (c_streams (snd st)))) \<le> max 0 (MaxMessageStreams (snd st))
    \<and> int (fcard (fmdom (readers (fst st)))) \<le> max 0 (cfg_MaxChunkStreams (rx_config (fst st)))
    \<and> wf_control (peerState (fst st)) \<and> wf_waits (c_streams (snd st)) (c_heap (snd st))
    \<and> c_ignored (snd st) \<le> IgnoreMessagesOnNotExistStreamThreshold (c_config (snd st))"
proof -
  let ?new = "newConn rwc (Some cfg) u"
  have "conn_ok ?new" by (rule newConn_ok) (simp add: assms(1))
  moreover have "c_streams (snd ?new) = fmempty" "0 < MaxMessageStreams (snd ?new)"
    using assms(2) by (simp_all add: newConn_def Let_def conn_config_def ConnConfig_normalize_def)
  ultimately have ok: "conn_ok st" unfolding assms(3) by (intro handleMessageLoop_ok serving_ok)
  then have "wf_tables (c_streams (snd st), c_heap (snd st), c_config (snd st))" by (simp add: conn_ok_def tables_def)
  note t = this wf_tablesD(1,2) [OF this]
  then show ?thesis using ok by (auto simp: conn_ok_def readers_within_def wf_tables_def)
qed

theorem connection_invariant_witness:
  "wf_control (peerState (fst (snd (handleMessageLoop (conn_env sample_amf sample_ms (Some sample_user)) None
     (serving (conn_env sample_amf sample_ms (Some sample_user))
       (resume (sample_world []) (newConn \<lparr>segs = [[2, 0, 0, 0, 0, 0, 4, 1, 0, 0, 0, 0, 0, 0, 2, 0]], net_end = EOF\<rparr>
         (Some sample_user) ([], ()))))))))"
  using connection_invariant [OF sample_user_wf, of _ "conn_env sample_amf sample_ms (Some sample_user)" None "sample_world []"]
  by (simp add: sample_user_def zero_userConfig_def zero_config_def config_normalize_def)

section \<open>States\<close>

lemma handleMessage_change:
  assumes "wf_tables (tables c)" and "fmlookup (c_streams c) (cm_StreamID cmsg) = Some s"
  shows "table_change s (tables c) (tables (snd (handleMessage env csid ts cmsg c)))"
proof -
  have id: "str_streamID s = cm_StreamID cmsg"
    using wf_tablesD(1) assms unfolding tables_def by blast
  have "tables (snd (handleMessage env csid ts cmsg c)) = tables (snd (stream_handle env s csid ts (cm_Message cmsg) c))"
    using assms(2) by (auto simp: handleMessage_def streams_At_def split: prod.splits result.splits rtmp_error.splits)
  then show ?thesis using stream_handle_change(1) [OF assms(1), of s] assms(2) id by simp
qed

text \<open>
  C15 (safety). One message changes the state of at most the stream it is for, and only from not
  connected to connected or from inactive to publishing or playing. A stream that appears is
  inactive and was asked for on a connected control stream, and only such a stream can make
  another one disappear.
\<close>

theorem stream_lifecycle:
  assumes "wf_tables (tables c)" and "(r, c') = handleMessage env csid ts cmsg c"
  shows "(\<forall>s s'. fmlookup (c_streams c) k = Some s \<and> fmlookup (c_streams c') k = Some s' \<and> str_state s' \<noteq> str_state s \<longrightarrow>
        k = cm_StreamID cmsg \<and> stream_step (str_state s) (str_state s'))
    \<and> ((fmlookup (c_streams c) k = None) \<noteq> (fmlookup (c_streams c') k = None) \<longrightarrow>
        (\<exists>s. fmlookup (c_streams c) (cm_StreamID cmsg) = Some s \<and> str_state s = streamStateServerConnected))
    \<and> (\<forall>s'. fmlookup (c_streams c) k = None \<and> fmlookup (c_streams c') k = Some s' \<longrightarrow>
        str_state s' = streamStateServerInactive)"
proof (cases "fmlookup (c_streams c) (cm_StreamID cmsg)")
  case None
  then have "c_streams c' = c_streams c" using assms(2) by (auto simp: handleMessage_def streams_At_def split: if_splits)
  then show ?thesis by auto
next
  case (Some s)
  have id: "str_streamID s = cm_StreamID cmsg"
    using wf_tablesD(1) assms(1) Some unfolding tables_def by blast
  have "table_change s (tables c) (tables c')"
    using handleMessage_change [OF assms(1) Some, of env csid ts] assms(2) by (metis snd_conv)
  then show ?thesis
    unfolding tables_def by (cases rule: table_changeE) (use id Some in \<open>auto simp: in_state_def split: if_splits\<close>)
qed

section \<open>A server's answers\<close>

text \<open>A new server connection whose control stream is in the given state, and its environment.\<close>

definition sample_conn :: "streamState \<Rightarrow> unit connState" where
  "sample_conn st = (snd (newConn \<lparr>segs = [], net_end = EOF\<rparr> None ()))
     \<lparr>c_streams := fmupd 0 (in_state st (newStream 0)) fmempty\<rparr>"

abbreviation sample_control :: "streamState \<Rightarrow> Stream" where
  "sample_control st \<equiv> in_state st (newStream 0)"

definition sample_env :: "unit env" where
  "sample_env = conn_env sample_amf sample_ms None"

definition sample_command :: "string \<Rightarrow> int64 \<Rightarrow> byte list \<Rightarrow> ChunkMessage" where
  "sample_command name tid body = \<lparr>cm_StreamID = 0, cm_Message = MsgCommandMessage name tid EncodingTypeAMF0 body\<rparr>"

lemma sample_conn_ok:
  "can_send sample_env (sample_conn st) (sample_control st)"
  "c_user (sample_conn st) = ()" "fmlookup (c_streams (sample_conn st)) 0 = Some (sample_control st)"
  "e_amf sample_env = sample_amf" "e_ms sample_env = sample_ms" "e_handler sample_env = DefaultHandler"
  "fcard (fmdom (c_streams (sample_conn st))) = 1" "MaxMessageStreams (sample_conn st) = 4294967295"
  by (auto simp: can_send_def sample_conn_def newConn_def Let_def conn_config_def ConnConfig_normalize_def zero_userConfig_def
      zero_config_def config_normalize_def tables_def wf_tables_def wf_waits_def waits_def stream_ok_def in_state_def
      newStream_def sample_env_def conn_env_def split: if_splits)

lemma sample_encodes:
  "amf_encode sample_amf (GoString ''_result'') = Ok (2 # put_uint16_be 7 @ map char_byte ''_result'')"
  "amf_encode sample_amf (GoString ''_error'') = Ok (2 # put_uint16_be 6 @ map char_byte ''_error'')"
  "amf_encode sample_amf (GoString ''onStatus'') = Ok (2 # put_uint16_be 8 @ map char_byte ''onStatus'')"
  "amf_encode sample_amf (GoInt64 i) = Ok (0 # put_uint32_be (ucast (drop_bit 32 i)) @ put_uint32_be (ucast i))"
  by (simp_all add: sample_amf_def sample_encode_def)

text \<open>
  A \<^verbatim>\<open>connect\<close> that the user accepts is answered with the window size, the peer
  bandwidth and a stream-begin event on chunk stream 2 and then, on the chunk stream of the
  request, with \<^verbatim>\<open>_result\<close> for transaction 1; the control stream is connected, and nothing else
  of the connection changes.
\<close>

lemma connect_accepted:
  assumes "can_send env c s" and "str_state s = streamStateServerNotConnected"
    and "cm_StreamID cmsg = str_streamID s" and "cm_Message cmsg = MsgCommandMessage ''connect'' tid EncodingTypeAMF0 body"
    and "CmdBodyDecoderFor (e_amf env) (e_ms env) ''connect'' tid body = (Ok (NetConnectionConnect cmd), rest)"
    and "OnConnect (e_handler env) ts cmd (c_user c) = (Ok (), u)"
    and "EncodeBodyAnyValues (e_amf env) (Some (NetConnectionConnectResult (RPresetProperties (c_config c))
        (newConnectSuccessResult c))) [] = (Ok (), bs)"
    and "amf_encode (e_amf env) (GoString ''_result'') = Ok nb" and "amf_encode (e_amf env) (GoInt64 1) = Ok tb"
  shows "handleMessage env csid ts cmsg c =
    (Ok (), update_stream (str_streamID s) (in_state streamStateServerConnected) (said
         [(2, ts, str_streamID s, MsgWinAckSize (ackWindowSize (c_self c))),
          (2, ts, str_streamID s, MsgSetPeerBandwidth (bandwidthWindowSize (c_self c)) (bandwidthLimitType (c_self c))),
          (2, ts, str_streamID s, MsgUserCtrl (UserCtrlEventStreamBegin (str_streamID s))),
          (csid, ts, str_streamID s, MsgCommandMessage ''_result'' 1 EncodingTypeAMF0 bs)] (c\<lparr>c_user := u\<rparr>)))"
proof (rule handleMessage_at [where s = s])
  show "fmlookup (c_streams c) (cm_StreamID cmsg) = Some s" using assms(1,3) by (simp add: can_send_def)
qed (simp add: assms(4) handle_command [OF _ _ assms(5)] or_else_def connect_accept [OF assms(1,2,6-9)])

theorem stream_lifecycle_witness:
  "\<exists>s'. fmlookup (c_streams (snd (handleMessage sample_env 3 0 (sample_command ''connect'' 1 [3, 0, 0, 9])
      (sample_conn streamStateServerNotConnected)))) 0 = Some s' \<and>
    (str_state s' = streamStateServerNotConnected \<or> str_state s' = streamStateServerConnected)"
proof -
  have "wf_tables (tables (sample_conn streamStateServerNotConnected))"
    using sample_conn_ok(1) [of streamStateServerNotConnected] by (simp add: can_send_def)
  from stream_lifecycle [OF this, OF surjective_pairing [symmetric], of 0 sample_env 3 0 "sample_command ''connect'' 1 [3, 0, 0, 9]"]
  show ?thesis by (auto simp: sample_conn_ok(3) stream_step_def in_state_def sample_command_def)
qed

text \<open>
  C28 (bounds). A peer announces a chunk size, any of the \<open>2 ^ 32\<close> values its message can hold, in a
  chunk on chunk stream 2. Read, decoded and handled, the size the reader uses from the next chunk on
  is the announced one cut to the protocol's maximum, if that is within the configured one. Zero, a
  value with the highest bit set, and one beyond the configured maximum are errors that end the
  connection with the size as it was. The bytes behind the message are not touched.
\<close>

theorem peer_chunk_size:
  assumes "c_faults c = []" and "fmlookup (c_streams c) 0 = Some s"
    and "rx_pending rx = basicHeader_bytes \<lparr>bh_fmt = 0, bh_chunkStreamID = 2\<rparr>
           @ messageHeader_bytes 0 (zero_messageHeader\<lparr>mh_timestamp := t, mh_messageLength := 4, mh_messageTypeID := TypeIDSetChunkSize\<rparr>)
           @ put_uint32_be v @ rest"
    and "4 \<le> chunkSize (peerState rx)" and "has_room rx 2" and "buf (restartReader (reader_of rx 2)) = []"
  shows "let r = oneMessage env (rx, c); peer = peerState (fst (snd r)); sz = min v MaxChunkSize in
    rx_pending (fst (snd r)) = rest
    \<and> (if 0 < v \<and> v < 0x80000000 \<and> sz \<le> cfg_MaxChunkSize (scs_config (peerState rx))
        then fst r = Ok () \<and> peer = (peerState rx)\<lparr>chunkSize := sz\<rparr>
        else (\<exists>e. fst r = Err e) \<and> peer = peerState rx)"
proof -
  let ?mh = "zero_messageHeader\<lparr>mh_timestamp := t, mh_messageLength := 4, mh_messageTypeID := TypeIDSetChunkSize\<rparr>"
  have "unat (4 :: uint32) \<le> unat (chunkSize (peerState rx))" using assms(4) by (simp only: word_le_nat_alt)
  then obtain rx' ms where rd: "streamer_Read (e_amf env) (controlStreamWrite env) (rx, c) =
      (bind_result (fst (message_Decode (e_amf env) TypeIDSetChunkSize (put_uint32_be v)))
         (\<lambda>msg. Ok (2, t, \<lparr>cm_StreamID = 0, cm_Message = msg\<rparr>)), (rx', said ms c))"
    and rx': "rx_pending rx' = rest" "peerState rx' = peerState rx"
    using one_chunk_message [of 2 c rx ?mh "put_uint32_be v" rest "e_amf env" env] assms
    by (auto simp: zero_messageHeader_def simp flip: length_greater_0_conv)
  have at: "streams_At 0 c' = (Ok s, c')" if "c_streams c' = c_streams c" for c'
    using that assms(2) by (simp add: streams_At_def)
  have set: "SetChunkSize v p = (if min v MaxChunkSize \<le> cfg_MaxChunkSize (scs_config p)
      then (Ok (), p\<lparr>chunkSize := min v MaxChunkSize\<rparr>)
      else (Err (Errorf ''Exceeded configured max chunk size: Limit = %d, Value = %d''
               [uint (cfg_MaxChunkSize (scs_config p)), uint (min v MaxChunkSize)]), p))" for p
    by (auto simp: SetChunkSize_def Let_def min_def)
  consider "0x80000000 \<le> v" | "v = 0" | "0 < v" "v < 0x80000000" using not_le [of "0x80000000" v] word_gt_0 [of v] by blast
  then show ?thesis
  proof cases
    case 3
    then have "oneMessage env (rx, c) = on_conn (handleMessage env 2 t \<lparr>cm_StreamID = 0, cm_Message = MsgSetChunkSize v\<rparr>) (rx', said ms c)"
      using rd by (auto simp: oneMessage_def bind_io_def decode_chunk_size bind_result_def word_gt_0)
    then show ?thesis
      using 3 rx' by (simp add: on_conn_def handleMessage_def at stream_handle_def with_peer_def set Let_def)
  qed (use rd rx' in \<open>auto simp: oneMessage_def bind_io_def decode_chunk_size bind_result_def Let_def\<close>)
qed


definition sample_rx :: "byte list \<Rightarrow> chunkReadSide" where
  "sample_rx bs = fst (newConn \<lparr>segs = [bs], net_end = EOF\<rparr> None ())"

lemma sample_rx_ok:
  "rx_pending (sample_rx bs) = bs" "has_room (sample_rx bs) csid" "buf (restartReader (reader_of (sample_rx bs) csid)) = []"
  "peerState (sample_rx bs) = NewStreamControlState None" "chunkSize (NewStreamControlState None) = 128"
  "cfg_MaxChunkSize (scs_config (NewStreamControlState None)) = 0xffffff" "c_faults (sample_conn st) = []"
  by (simp_all add: sample_rx_def sample_conn_def newConn_def Let_def csr_pending_def net_pending_def has_room_def reader_of_def
      restartReader_def zero_reader_def ConnConfig_normalize_def zero_userConfig_def NewStreamControlState_def
      defaultStreamControlStateConfig_def config_normalize_def zero_config_def fcard.rep_eq)

theorem peer_chunk_size_witness:
  "chunkSize (peerState (fst (snd (oneMessage sample_env
     (sample_rx [2, 0, 0, 0, 0, 0, 4, 1, 0, 0, 0, 0, 127, 255, 255, 255, 9], sample_conn streamStateServerConnected))))) = 0xffffff"
  using peer_chunk_size [where env = sample_env and c = "sample_conn streamStateServerConnected" and v = "0x7fffffff" and t = 0
      and rx = "sample_rx [2, 0, 0, 0, 0, 0, 4, 1, 0, 0, 0, 0, 127, 255, 255, 255, 9]" and rest = "[9]"]
  by (simp add: sample_rx_ok sample_conn_ok(3) Let_def basicHeader_bytes_def messageHeader_bytes_def zero_messageHeader_def
      put_uint24_be_def put_uint32_be_def put_uint32_le_def ext_bytes_def)

text \<open>
  C31 (error). A \<^verbatim>\<open>connect\<close> that the user refuses is answered with \<^verbatim>\<open>_error\<close>, and no stream changes its
  state. The user's error ends the message loop, which returns it, with one exception: an error of
  the kind \<^verbatim>\<open>handleMessage\<close> passes over as an unknown body. After such an error the loop goes on
  with a connection that was refused, and reads the next message.
\<close>

theorem connect_refused:
  fixes env :: "'u env" and rx :: chunkReadSide and c0 :: "'u connState"
  assumes "streamer_Read (e_amf env) (controlStreamWrite env) st = (Ok (csid, ts, cmsg), (rx, c0))"
    and "c = c0\<lparr>c_peer := peerState rx\<rparr>" and "cm_StreamID cmsg = str_streamID s"
    and "cm_Message cmsg = MsgCommandMessage ''connect'' tid EncodingTypeAMF0 body"
    and "can_send env c s" and "str_state s = streamStateServerNotConnected"
    and "CmdBodyDecoderFor (e_amf env) (e_ms env) ''connect'' tid body = (Ok (NetConnectionConnect cmd), rest)"
    and "OnConnect (e_handler env) ts cmd (c_user c) = (Err e, u)" and "e \<noteq> ErrPassThroughMsg"
    and "EncodeBodyAnyValues (e_amf env) (Some (NetConnectionConnectResult (RPresetProperties (c_config c))
        (newConnectErrorResult c))) [] = (Ok (), bs)"
    and "amf_encode (e_amf env) (GoString ''_error'') = Ok nb" and "amf_encode (e_amf env) (GoInt64 1) = Ok tb"
  shows "let c' = said [(csid, ts, str_streamID s, MsgCommandMessage ''_error'' 1 EncodingTypeAMF0 bs)] (c\<lparr>c_user := u\<rparr>) in
    handleMessage env csid ts cmsg c = (if passed_over e then Ok () else Err e, c')
    \<and> runHandleMessageLoop env None st = (if passed_over e then runHandleMessageLoop env None (rx, c') else (Err e, (rx, c')))"
proof -
  let ?c' = "said [(csid, ts, str_streamID s, MsgCommandMessage ''_error'' 1 EncodingTypeAMF0 bs)] (c\<lparr>c_user := u\<rparr>)"
  have "stream_handle env s csid ts (cm_Message cmsg) c = (Err e, ?c')"
    using handle_command [OF _ _ assms(7)] connect_refuse [OF assms(5,6,8,10-12)] assms(4,9)
    by (simp add: or_else_def)
  moreover have "fmlookup (c_streams c) (cm_StreamID cmsg) = Some s" using assms(3,5) by (simp add: can_send_def)
  ultimately have hm: "handleMessage env csid ts cmsg c = (if passed_over e then Ok () else Err e, ?c')"
    by (rule handleMessage_error [rotated])
  have "c_peer ?c' = peerState rx" by (simp add: assms(2) said_def)
  then show ?thesis
    using hm loop_unfolds [OF assms(1) hm [unfolded assms(2)]] by (simp add: Let_def assms(2))
qed

definition refusing_env :: "unit env" where
  "refusing_env = \<lparr>e_amf = sample_amf, e_ms = sample_ms, e_handler = DefaultHandler\<lparr>
     OnConnect := (\<lambda>_ _. fail_io (Errorf ''denied'' [])), OnPublish := (\<lambda>_ _ _ _. fail_io (Errorf ''denied'' []))\<rparr>\<rparr>"

lemma sample_bodies:
  "CmdBodyDecoderFor sample_amf sample_ms ''connect'' 1 [3, 0, 0, 9] = (Ok (NetConnectionConnect zero_command), [])"
  "CmdBodyDecoderFor sample_amf sample_ms ''createStream'' 2 [5] = (Ok NetConnectionCreateStream, [])"
  "EncodeBodyAnyValues sample_amf (Some (NetConnectionConnectResult p i)) [] = (Ok (), [3, 0, 0, 9, 3, 0, 0, 9])"
  "EncodeBodyAnyValues sample_amf (Some (NetConnectionCreateStreamResult k)) [] = (Ok (), 5 # 0 # put_uint32_be 0 @ put_uint32_be k)"
  "EncodeBodyAnyValues sample_amf (Some (NetStreamOnStatus st)) [] = (Ok (), [5, 3, 0, 0, 9])"
  by (simp_all add: CmdBodyDecoderFor_known DecodeBodyConnect_def DecodeBodyCreateStream_def io_simps sample_amf_def
      sample_ms_def wrap_result_def bind_result_def FromArgs_CreateStream_def EncodeBodyAnyValues_def encodeArgs_Ok bind_io_def
      sample_encode_def properties_value_def information_value_def status_value_def)

lemma sample_control_simps [simp]:
  "str_state (in_state st s) = st" "str_streamID (in_state st s) = str_streamID s" "str_streamID (newStream k) = k"
  by (simp_all add: in_state_def newStream_def)

lemma refusing_env_simps [simp]:
  "e_amf refusing_env = sample_amf" "e_ms refusing_env = sample_ms"
  "can_send refusing_env c s = can_send sample_env c s"
  "OnConnect (e_handler refusing_env) = (\<lambda>_ _. fail_io (Errorf ''denied'' []))"
  "OnPublish (e_handler refusing_env) = (\<lambda>_ _ _ _. fail_io (Errorf ''denied'' []))"
  by (simp_all add: refusing_env_def can_send_def)

definition refused_rx :: chunkReadSide where
  "refused_rx = sample_rx ([3, 0, 0, 0, 0, 0, 23, 20, 0, 0, 0, 0] @ [2, 0, 7] @ map char_byte ''connect''
     @ [0, 0, 0, 0, 0, 0, 0, 0, 1] @ [3, 0, 0, 9])"

lemma refused_read:
  obtains rx ms where "streamer_Read sample_amf (controlStreamWrite env) (refused_rx, sample_conn streamStateServerNotConnected) =
    (Ok (3, 0, sample_command ''connect'' 1 [3, 0, 0, 9]), (rx, said ms (sample_conn streamStateServerNotConnected)))"
    and "peerState rx = NewStreamControlState None"
proof -
  let ?msg = "MsgCommandMessage ''connect'' 1 EncodingTypeAMF0 [3, 0, 0, 9]"
  let ?bs = "[2, 0, 7] @ map char_byte ''connect'' @ [0, 0, 0, 0, 0, 0, 0, 0, 1] @ [3, 0, 0, 9]"
  let ?mh = "zero_messageHeader\<lparr>mh_messageLength := 23, mh_messageTypeID := 20\<rparr>"
  have "message_Encode sample_amf ?msg [] = (Ok (), ?bs)"
    by (simp add: encodeCommandMessage_Ok sample_amf_def sample_encode_def put_uint16_be_def put_uint32_be_def)
  then have d: "fst (message_Decode sample_amf 20 ?bs) = Ok ?msg"
    using decode_encoded [of sample_amf ?msg ?bs 20] sample_string_ok [of "''connect''"] sample_int64_ok [of 1] by simp
  have p: "rx_pending refused_rx = basicHeader_bytes \<lparr>bh_fmt = 0, bh_chunkStreamID = 3\<rparr> @ messageHeader_bytes 0 ?mh @ ?bs @ []"
    by (simp add: refused_rx_def sample_rx_ok basicHeader_bytes_def messageHeader_bytes_def zero_messageHeader_def
        put_uint24_be_def put_uint32_be_def put_uint32_le_def ext_bytes_def)
  obtain rx ms where "streamer_Read sample_amf (controlStreamWrite env) (refused_rx, sample_conn streamStateServerNotConnected) =
      (bind_result (fst (message_Decode sample_amf (mh_messageTypeID ?mh) ?bs))
         (\<lambda>msg. Ok (3, mh_timestamp ?mh, \<lparr>cm_StreamID = mh_messageStreamID ?mh, cm_Message = msg\<rparr>)),
       (rx, said ms (sample_conn streamStateServerNotConnected)))" "peerState rx = peerState refused_rx"
    by (rule one_chunk_message [of 3 "sample_conn streamStateServerNotConnected" refused_rx ?mh ?bs "[]" sample_amf env])
      (use p in \<open>simp_all add: sample_rx_ok zero_messageHeader_def refused_rx_def\<close>)
  then show thesis
    using d by (intro that [of rx ms]) (simp_all add: bind_result_def zero_messageHeader_def sample_command_def refused_rx_def sample_rx_ok)
qed

theorem connect_refused_witness:
  "fst (runHandleMessageLoop refusing_env None (refused_rx, sample_conn streamStateServerNotConnected)) = Err (Errorf ''denied'' [])"
proof -
  obtain rx ms where rd: "streamer_Read sample_amf (controlStreamWrite refusing_env) (refused_rx, sample_conn streamStateServerNotConnected) =
    (Ok (3, 0, sample_command ''connect'' 1 [3, 0, 0, 9]), (rx, said ms (sample_conn streamStateServerNotConnected)))"
    by (rule refused_read [of refusing_env])
  let ?c = "(said ms (sample_conn streamStateServerNotConnected))\<lparr>c_peer := peerState rx\<rparr>"
  have "can_send sample_env ?c (sample_control streamStateServerNotConnected)"
    using sample_conn_ok(1) [of streamStateServerNotConnected] by (simp add: can_send_def said_def tables_def)
  then show ?thesis
    using connect_refused [where env = refusing_env and st = "(refused_rx, sample_conn streamStateServerNotConnected)"
        and csid = 3 and ts = 0 and cmsg = "sample_command ''connect'' 1 [3, 0, 0, 9]" and rx = rx
        and c = ?c and s = "sample_control streamStateServerNotConnected" and tid = 1 and body = "[3, 0, 0, 9]"
        and cmd = zero_command and rest = "[]" and u = "()" and bs = "[3, 0, 0, 9, 3, 0, 0, 9]"] rd
    by (simp add: sample_bodies sample_encodes sample_command_def passed_over_def Let_def sample_conn_ok)
qed

text \<open>
  A connected client that asks for a stream gets the smallest unused ID, in the
  answer and in the table, where the new stream is inactive.
\<close>

lemma create_stream_accepted:
  assumes "can_send env c s" and "str_state s = streamStateServerConnected"
    and "cm_StreamID cmsg = str_streamID s" and "cm_Message cmsg = MsgCommandMessage ''createStream'' tid EncodingTypeAMF0 body"
    and "CmdBodyDecoderFor (e_amf env) (e_ms env) ''createStream'' tid body = (Ok NetConnectionCreateStream, rest)"
    and "OnCreateStream (e_handler env) ts (c_user c) = (Ok (), u)"
    and "int (fcard (fmdom (c_streams c))) < MaxMessageStreams c"
    and "0 \<le> k" and "k < MaxMessageStreams c" and "fmlookup (c_streams c) (word_of_int k) = None"
    and "\<And>j. 0 \<le> j \<Longrightarrow> j < k \<Longrightarrow> fmlookup (c_streams c) (word_of_int j) \<noteq> None"
    and "EncodeBodyAnyValues (e_amf env) (Some (NetConnectionCreateStreamResult (word_of_int k))) [] = (Ok (), bs)"
    and "amf_encode (e_amf env) (GoString ''_result'') = Ok nb" and "amf_encode (e_amf env) (GoInt64 tid) = Ok tb"
  shows "handleMessage env csid ts cmsg c =
    (Ok (), said [(csid, ts, str_streamID s, MsgCommandMessage ''_result'' tid EncodingTypeAMF0 bs)]
       (c\<lparr>c_user := u, c_streams := fmupd (word_of_int k)
          (in_state streamStateServerInactive (newStream (word_of_int k))) (c_streams c)\<rparr>))"
proof (rule handleMessage_at [where s = s])
  show "fmlookup (c_streams c) (cm_StreamID cmsg) = Some s" using assms(1,3) by (simp add: can_send_def)
qed (simp add: assms(4) handle_command [OF _ _ assms(5)] or_else_def createStream_accept [OF assms(1,2,6-14)])

text \<open>
  A client that asks for one stream too many is told so under its transaction, and
  the connection goes on as it was.
\<close>

lemma create_stream_refused_when_full:
  assumes "can_send env c s" and "str_state s = streamStateServerConnected"
    and "cm_StreamID cmsg = str_streamID s" and "cm_Message cmsg = MsgCommandMessage ''createStream'' tid EncodingTypeAMF0 body"
    and "CmdBodyDecoderFor (e_amf env) (e_ms env) ''createStream'' tid body = (Ok NetConnectionCreateStream, rest)"
    and "OnCreateStream (e_handler env) ts (c_user c) = (Ok (), u)"
    and "MaxMessageStreams c \<le> int (fcard (fmdom (c_streams c)))"
    and "EncodeBodyAnyValues (e_amf env) (Some (NetConnectionCreateStreamResult 0)) [] = (Ok (), bs)"
    and "amf_encode (e_amf env) (GoString ''_error'') = Ok nb" and "amf_encode (e_amf env) (GoInt64 tid) = Ok tb"
  shows "handleMessage env csid ts cmsg c =
    (Ok (), said [(csid, ts, str_streamID s, MsgCommandMessage ''_error'' tid EncodingTypeAMF0 bs)] (c\<lparr>c_user := u\<rparr>))"
proof (rule handleMessage_at [where s = s])
  show "fmlookup (c_streams c) (cm_StreamID cmsg) = Some s" using assms(1,3) by (simp add: can_send_def)
qed (simp add: assms(4) handle_command [OF _ _ assms(5)] or_else_def createStream_full [OF assms(1,2,6-10)])

text \<open>
  A client that asks to publish on an inactive stream, with the user's consent,
  is sent the status of a started publication, and from then on the stream is publishing.
\<close>

lemma publish_accepted:
  assumes "can_send env c s" and "str_state s = streamStateServerInactive"
    and "cm_StreamID cmsg = str_streamID s" and "cm_Message cmsg = MsgCommandMessage ''publish'' tid EncodingTypeAMF0 body"
    and "CmdBodyDecoderFor (e_amf env) (e_ms env) ''publish'' tid body = (Ok (NetStreamPublish name ty), rest)"
    and "OnPublish (e_handler env) (str_streamID s) ts name ty (c_user c) = (Ok (), u)"
    and "EncodeBodyAnyValues (e_amf env) (Some (NetStreamOnStatus
        (newOnStatus NetStreamOnStatusCodePublishStart ''Publish succeeded.''))) [] = (Ok (), bs)"
    and "amf_encode (e_amf env) (GoString ''onStatus'') = Ok nb" and "amf_encode (e_amf env) (GoInt64 0) = Ok tb"
  shows "handleMessage env csid ts cmsg c = (Ok (), update_stream (str_streamID s) (in_state streamStateServerPublish)
       (said [(csid, ts, str_streamID s, MsgCommandMessage ''onStatus'' 0 EncodingTypeAMF0 bs)] (c\<lparr>c_user := u\<rparr>)))"
proof (rule handleMessage_at [where s = s])
  show "fmlookup (c_streams c) (cm_StreamID cmsg) = Some s" using assms(1,3) by (simp add: can_send_def)
qed (simp add: assms(4) handle_command [OF _ _ assms(5)] or_else_def publish_accept [OF assms(1,2,6-9)])

definition sample_publish :: "byte list" where
  "sample_publish = [5] @ [2, 0, 3] @ map char_byte ''abc'' @ [2, 0, 4] @ map char_byte ''live''"

lemma sample_publish_body:
  "CmdBodyDecoderFor sample_amf sample_ms ''publish'' tid sample_publish = (Ok (NetStreamPublish ''abc'' ''live''), [])"
proof -
  have "EncodeBodyAnyValues sample_amf (Some (NetStreamPublish ''abc'' ''live'')) [] = (Ok (), sample_publish)"
    by (simp add: sample_publish_def EncodeBodyAnyValues_def encodeArgs_Ok bind_io_def sample_amf_def sample_encode_def
        put_uint16_be_def)
  from body_roundtrip [OF _ this, of "''publish''" sample_ms tid] show ?thesis
    using sample_string_ok [of "''abc''"] sample_string_ok [of "''live''"] sample_nil_ok by simp
qed

section \<open>Media\<close>

text \<open>
  Audio and video reach \<^verbatim>\<open>OnAudio\<close> and \<^verbatim>\<open>OnVideo\<close> exactly when their stream is
  publishing; on every other stream that has a handler they are unknown messages.
\<close>

lemma media_dispatched:
  assumes "wf_tables (tables c)" and "fmlookup (c_streams c) (str_streamID s) = Some s"
    and "handler_of (str_state s) \<noteq> None" and "msg = MsgAudioMessage p \<or> msg = MsgVideoMessage p"
    and "fst (media_callback env ts msg (c_user c)) \<noteq> Err ErrPassThroughMsg"
  shows "stream_handle env s csid ts msg c =
    with_user (if str_state s = streamStateServerPublish then media_callback env ts msg
               else OnUnknownMessage (e_handler env) ts msg) c"
proof -
  have h: "str_handler s = handler_of (str_state s)" using wf_tablesD(2) assms(1,2) unfolding tables_def by blast
  have m: "media msg" using assms(4) by (auto simp: media_def)
  show ?thesis
    using media_published [OF m _ h assms(5)]
      media_elsewhere [where env = env and csid = csid and ts = ts and c = c, OF m _ h assms(3)] by simp
qed

text \<open>
  A stream that a client created has no handler: the first audio, video or other
  message that is neither a command nor data makes the connection's loop panic.
\<close>

lemma client_stream_panics:
  assumes "ClientConn_CreateStream_answer amf t cc = (Ok s, cc')" and "msg = MsgAudioMessage p \<or> msg = MsgVideoMessage p"
  shows "fmlookup (c_streams (cc_conn cc')) (str_streamID s) = Some s
    \<and> stream_handle env s csid ts msg (cc_conn cc') = (Panic ''nil pointer dereference'', cc_conn cc')"
proof -
  obtain k where "streams_Create k (cc_conn cc) = (Ok s, cc_conn cc')"
    using assms(1) by (auto simp: ClientConn_CreateStream_answer_def bind_io_def with_cc_def prod_eq_iff split: result.splits)
  then have "s = newStream k" "fmlookup (c_streams (cc_conn cc')) k = Some s"
    using str.create_then_find [of k "cc_conn cc" s] streams_Create_cases [of k "cc_conn cc" s]
    by (simp_all add: stream_find_def)
  moreover have "media msg" using assms(2) by (auto simp: media_def)
  ultimately show ?thesis using media_no_handler [of msg s] by (simp add: newStream_def)
qed

section \<open>Tables\<close>

text \<open>
  C29 (refinement). The table of streams is a finite map with a limit: creating adds a new
  stream under a free ID while there is room, deleting removes exactly one, looking up changes
  nothing, and whatever fails changes nothing.
\<close>

theorem stream_table_is_a_map:
  assumes "wf_streams c"
  shows "(fst (streams_Create k c) = Ok s \<longleftrightarrow> stream_find c k = None
        \<and> int (fcard (fmdom (c_streams c))) < MaxMessageStreams c \<and> s = newStream k)
    \<and> (fst (streams_Create k c) = Ok s \<longrightarrow> stream_find (snd (streams_Create k c)) = (stream_find c)(k \<mapsto> s))
    \<and> (fst (streams_Delete k c) = Ok () \<longleftrightarrow> stream_find c k \<noteq> None)
    \<and> (fst (streams_Delete k c) = Ok () \<longrightarrow> stream_find (snd (streams_Delete k c)) = (stream_find c)(k := None))
    \<and> (fst (streams_At k c) = Ok s \<longleftrightarrow> stream_find c k = Some s) \<and> snd (streams_At k c) = c
    \<and> ((\<forall>s. fst (streams_Create k c) \<noteq> Ok s) \<longrightarrow> snd (streams_Create k c) = c)
    \<and> (fst (streams_Delete k c) \<noteq> Ok () \<longrightarrow> snd (streams_Delete k c) = c)"
proof -
  have "fst (streams_Create k c) = Ok s \<Longrightarrow> stream_find (snd (streams_Create k c)) = (stream_find c)(k \<mapsto> s)"
    using str.create_Ok [of k c s "snd (streams_Create k c)"] by (simp add: prod_eq_iff)
  moreover have "stream_find c k \<noteq> None \<Longrightarrow> fst (streams_Delete k c) = Ok () \<and>
      stream_find (snd (streams_Delete k c)) = (stream_find c)(k := None)"
    using str.delete_found [OF assms, of k] by force
  moreover have "stream_find c k = None \<Longrightarrow> fst (streams_Delete k c) \<noteq> Ok () \<and> snd (streams_Delete k c) = c"
    using str.delete_missing [of c k] by force
  moreover have "(\<forall>s. fst (streams_Create k c) \<noteq> Ok s) \<Longrightarrow> snd (streams_Create k c) = c"
    by (auto simp: streams_Create_def split: option.splits)
  ultimately show ?thesis
    using streams_Create_cases [of k c s] by (auto simp: streams_At_def stream_find_def split: option.splits)
qed

theorem stream_table_is_a_map_witness:
  "stream_find (snd (streams_Delete 0 (sample_conn streamStateUnknown))) = (stream_find (sample_conn streamStateUnknown))(0 := None)"
proof -
  have "wf_streams (sample_conn streamStateUnknown)"
    using sample_conn_ok(1) [of streamStateUnknown] by (intro wf_tables_streams) (simp add: can_send_def)
  from stream_table_is_a_map [OF this, of 0] show ?thesis by (simp add: stream_find_def sample_conn_ok(3))
qed

definition free_id :: "'u connState \<Rightarrow> nat \<Rightarrow> bool" where
  "free_id c k \<longleftrightarrow> int k < MaxMessageStreams c \<and> stream_find c (of_nat k) = None"

lemma room_free:
  assumes "int (fcard (fmdom (c_streams c))) < MaxMessageStreams c" and "MaxMessageStreams c \<le> 2 ^ 32"
  shows "\<exists>k. free_id c k"
proof -
  define n where "n = fcard (fmdom (c_streams c))"
  have n: "n < 2 ^ 32" using assms by (simp add: n_def)
  have "inj_on (of_nat :: nat \<Rightarrow> uint32) {0..n}"
  proof (rule inj_onI)
    fix x y assume "x \<in> {0..n}" "y \<in> {0..n}" "(of_nat x :: uint32) = of_nat y"
    then have "unat (of_nat x :: uint32) = unat (of_nat y :: uint32)" "x < 2 ^ 32" "y < 2 ^ 32" using n by auto
    then show "x = y" by (simp add: unat_of_nat take_bit_nat_eq_self)
  qed
  then have "card ((of_nat :: nat \<Rightarrow> uint32) ` {0..n}) = Suc n" by (simp add: card_image)
  then have "\<not> (of_nat :: nat \<Rightarrow> uint32) ` {0..n} \<subseteq> fset (fmdom (c_streams c))"
    using card_mono [of "fset (fmdom (c_streams c))" "(of_nat :: nat \<Rightarrow> uint32) ` {0..n}"]
    by (auto simp: n_def fcard.rep_eq)
  then obtain k where "k \<le> n" "fmlookup (c_streams c) (of_nat k) = None"
    by (auto simp: image_subset_iff fmdom_notD)
  then show ?thesis using assms(1) by (intro exI [of _ k]) (simp add: free_id_def stream_find_def n_def)
qed

text \<open>
  C30 (equivalence). The search for a free ID agrees with its specification, the least number
  that is no ID of a stream, on every table that has room.
\<close>

theorem smallest_free_stream:
  assumes "int (fcard (fmdom (c_streams c))) < MaxMessageStreams c" and "MaxMessageStreams c \<le> 2 ^ 32"
  shows "CreateIfAvailable c = streams_Create (of_nat (LEAST k. free_id c k)) c"
proof -
  let ?k = "LEAST k. free_id c k"
  have k: "free_id c ?k" using room_free [OF assms] by (rule LeastI_ex)
  have "stream_find c (word_of_int j) \<noteq> None" if "0 \<le> j" "j < int ?k" for j
  proof -
    have "\<not> free_id c (nat j)" using that not_less_Least [of "nat j"] by (simp add: nat_less_iff)
    then show ?thesis using that k by (simp add: free_id_def)
  qed
  then have "CreateIfAvailable c = streams_Create (word_of_int (int ?k)) c"
    unfolding CreateIfAvailable_def using k by (intro createFrom_free [OF assms(1)]) (auto simp: free_id_def)
  then show ?thesis by simp
qed

theorem smallest_free_stream_witness:
  "CreateIfAvailable (sample_conn streamStateServerConnected) =
    streams_Create (of_nat (LEAST k. free_id (sample_conn streamStateServerConnected) k)) (sample_conn streamStateServerConnected)"
  by (rule smallest_free_stream) (simp_all add: sample_conn_ok)

section \<open>What is ignored\<close>

text \<open>
  Messages for streams that do not exist are ignored, if the configuration says
  so, up to the threshold; the next one ends the connection.
\<close>

lemma missing_streams_threshold:
  assumes "\<And>csid ts cmsg. (csid, ts, cmsg) \<in> set ms \<Longrightarrow> fmlookup (c_streams c) (cm_StreamID cmsg) = None"
    and "IgnoreMessagesOnNotExistStream (c_config c)" and "c_ignored c = 0"
    and "length ms = unat (IgnoreMessagesOnNotExistStreamThreshold (c_config c))"
    and "fmlookup (c_streams c) (cm_StreamID cmsg) = None"
  shows "\<exists>c' e. handle_all env ms c = (Ok (), c') \<and> c_streams c' = c_streams c
    \<and> handleMessage env csid ts cmsg c' = (Err e, c')"
proof -
  have "handle_all env ms c = (Ok (), c\<lparr>c_ignored := of_nat (length ms)\<rparr>)"
    by (rule missing_streams_ignored) (use assms in auto)
  moreover have "handleMessage env csid ts cmsg (c\<lparr>c_ignored := of_nat (length ms)\<rparr>) =
      (Err (Errorf ''Specified stream is not created yet: StreamID = %d'' [uint (cm_StreamID cmsg)]), c\<lparr>c_ignored := of_nat (length ms)\<rparr>)"
    using assms(4,5) by (simp add: missing_stream_ignored)
  ultimately show ?thesis by force
qed

text \<open>
  C17 (termination). The loop over the messages ends on every finite input, and it returns nil
  only if the write loop ended without an error: the end of the connection, a malformed message
  and a panic are all errors of the loop.
\<close>

theorem loop_returns:
  assumes "r = fst (handleMessageLoop env ended st)"
  shows "(\<forall>p. r \<noteq> Panic p) \<and> (r = Ok () \<longrightarrow> (\<exists>n. ended = Some (n, None)))"
proof -
  have "r \<noteq> Panic p" for p
    unfolding assms handleMessageLoop_def recovered_def by (auto split: prod.splits result.splits)
  then show ?thesis using handleMessageLoop_nil [of env ended st] assms by simp
qed

theorem loop_returns_witness:
  "fst (handleMessageLoop sample_env None (newConn \<lparr>segs = [[4, 1]], net_end = EOF\<rparr> None ())) \<noteq> Ok ()"
  using loop_returns [OF refl, of sample_env None "newConn \<lparr>segs = [[4, 1]], net_end = EOF\<rparr> None ()"] by blast

section \<open>A client's requests\<close>

text \<open>
  A request to connect that could not be sent leaves its transaction behind: the
  next request fails before anything is sent, on a connection that works again.
\<close>

lemma failed_connect_blocks_retry:
  assumes "fmlookup (c_streams c) (str_streamID s) = Some s" and "fmlookup (str_transactions s) 1 = None"
    and "fst (Connect_request amf s body c) = Err e"
  shows "\<exists>s' e'. fmlookup (c_streams (snd (Connect_request amf s body c))) (str_streamID s) = Some s'
    \<and> Connect_request amf s' body' (snd (Connect_request amf s body c)) = (Err e', snd (Connect_request amf s body c))"
proof -
  let ?s' = "s\<lparr>str_transactions := fmupd 1 (length (c_heap c)) (str_transactions s)\<rparr>"
  define c1 where "c1 = c\<lparr>c_streams := fmupd (str_streamID s) ?s' (c_streams c), c_heap := c_heap c @ [new_transaction]\<rparr>"
  have create: "with_transactions (str_streamID s) (transactions_Create 1) c = (Ok (length (c_heap c)), c1)"
    using assms(1,2) by (simp add: with_transactions_def transactions_Create_def Let_def c1_def)
  define c2 where "c2 = snd (Connect_request amf s body c)"
  have "same_tables c1 c2"
    using writeCommandMessage_same
    by (auto simp: c2_def Connect_request_def bind_io_def create split: result.split)
  then have s': "fmlookup (c_streams c2) (str_streamID s) = Some ?s'" by (simp add: same_tables_def c1_def)
  have "fmupd (str_streamID s) ?s' (c_streams c2) = c_streams c2"
    using s' by (intro fmap_ext) auto
  then have "with_transactions (str_streamID s) (transactions_Create 1) c2 =
      (Err (Errorf ''Transaction already exists: TransactionID = %d'' [1]), c2)"
    using s' by (simp add: with_transactions_def transactions_Create_def Let_def)
  then have "Connect_request amf ?s' body' c2 = (Err (Errorf ''Transaction already exists: TransactionID = %d'' [1]), c2)"
    by (simp add: Connect_request_def bind_io_def)
  then show ?thesis using s' unfolding c2_def by blast
qed

lemma sample_control_fields:
  "str_transactions (sample_control st) = fmempty" "str_encTy (sample_control st) = EncodingTypeAMF0"
  by (simp_all add: in_state_def newStream_def)

text \<open>
  \<^verbatim>\<open>CreateStream\<close> with a chunk size switches to it before the peer is told, and stays
  with it when telling the peer fails: the two sides then disagree about the size of chunks.
\<close>

lemma chunk_size_switched_early:
  assumes "0 < sz" and "sz \<noteq> chunkSize (c_self c)" and "c_faults c = Some e # fs"
  shows "\<exists>e' c'. CreateStream_request amf s sz c = (Err e', c') \<and> chunkSize (c_self c') = sz \<and> c_sent c' = c_sent c"
  using assms
  by (cases "sz > 0x7fffffff")
    (auto simp: CreateStream_request_def change_chunk_size_def WriteSetChunkSize_def bind_io_def stream_Write_def word_less_1)

section \<open>Closing and serving\<close>

text \<open>
  Closing a connection calls \<^verbatim>\<open>OnClose\<close> and closes the streamer and the
  transport exactly once: the second and every later call returns nil and does nothing.
\<close>

lemma closed_once:
  assumes "life_ok l" and "\<not> l_isClosed l"
  shows "fst (Conn_Close h arms transport l) = transport
    \<and> l_user (snd (Conn_Close h arms transport l)) = OnClose h (l_user l)
    \<and> l_transport_closes (snd (Conn_Close h arms transport l)) = 1 \<and> stopClosed (l_streamer (snd (Conn_Close h arms transport l)))
    \<and> Conn_Close h arms' transport' (snd (Conn_Close h arms transport l)) = (Ok (), snd (Conn_Close h arms transport l))"
  using Conn_Close_ok [OF assms(1), of h arms transport] assms(2)
  by (auto simp: life_ok_def) (simp add: Conn_Close_def [of h arms' transport'])

text \<open>
  C32 (functional). A server hands every connection it accepts to \<^verbatim>\<open>handleConn\<close>, in order, and goes
  on after a failed \<^verbatim>\<open>Accept\<close>; it returns, with \<^verbatim>\<open>ErrClosed\<close>, at the first failure after a
  \<^verbatim>\<open>Close\<close> and at no other moment.
\<close>

theorem server_serves:
  assumes "srv_listener srv = None" and "\<not> server_closed srv"
    and "\<And>r. CloseCalled r \<notin> set as" and "\<And>e. AcceptFailed e \<notin> set bs"
  shows "fst (Serve l as srv) = None \<and> fst (snd (Serve l as srv)) = accepted_conns as
    \<and> fst (Serve l (as @ CloseCalled r # bs @ AcceptFailed e # evs) srv) = Some (Err ErrClosed)
    \<and> fst (snd (Serve l (as @ CloseCalled r # bs @ AcceptFailed e # evs) srv)) = accepted_conns (as @ CloseCalled r # bs)"
proof -
  have fresh: "server_closed (srv\<lparr>srv_listener := Some l\<rparr>) = False"
    using assms(2) by (simp add: server_closed_def)
  have "served False as = as" using assms(3) by (induction as rule: accepted_conns.induct) auto
  then show ?thesis
    using served_cut [OF assms(3,4), of r e evs] by (simp add: Serve_loop [OF assms(1)] acceptLoop_serves fresh)
qed

theorem server_serves_witness:
  "fst (Serve 0 [Accepted (1::nat), AcceptFailed EOF, Accepted 2, CloseCalled (Ok ()), AcceptFailed EOF] NewServer) = Some (Err ErrClosed)"
  using server_serves [of NewServer "[Accepted (1::nat), AcceptFailed EOF, Accepted 2]" "[]" 0 "Ok ()" EOF "[]"]
  by (simp add: NewServer_def server_closed_def)

text \<open>
  A server that was closed before it serves serves all the same: it accepts and handles
  connections until its listener fails.
\<close>

lemma closed_server_serves:
  assumes "srv_listener srv = None"
  shows "server_closed (snd (Server_Close r srv))
    \<and> fst (Serve l (map Accepted cs) (snd (Server_Close r srv))) = None
    \<and> fst (snd (Serve l (map Accepted cs) (snd (Server_Close r srv)))) = cs"
proof -
  have "srv_listener (snd (Server_Close r srv)) = None"
    using assms by (auto simp: Server_Close_def getDoneChLocked_def Let_def split: option.splits)
  moreover have "acceptLoop (map Accepted cs) s = (None, cs, s)" for s by (induction cs) auto
  ultimately show ?thesis by (simp add: Serve_loop Server_Close_closed)
qed

end
