(* ===== verification/Relay_Properties.thy ===== *)
theory Relay_Properties
  imports Relay_View Conn_Properties
begin

section \<open>A relay with two connections\<close>

text \<open>Codecs whose tags are their payloads, but for a video's first two bytes.\<close>

definition sample_flv :: "byte list flvCodec" where
  "sample_flv = \<lparr>decodeAudioData = (\<lambda>b. Ok \<lparr>SoundFormat = 10, SoundRate = 3, SoundSize = 1, SoundType = 1, AACPacketType = 1, AudioBody = b\<rparr>),
     encodeAudioData = (\<lambda>d. Ok (AudioBody d)),
     decodeVideoData = (\<lambda>b. case b of f # p # r \<Rightarrow> Ok \<lparr>FrameType = f, CodecID = 7, AVCPacketType = p, CompositionTime = 0, VideoBody = r\<rparr>
       | _ \<Rightarrow> Err ErrUnexpectedEOF),
     encodeVideoData = (\<lambda>d. Ok (FrameType d # AVCPacketType d # VideoBody d)),
     decodeScriptData = Ok, encodeScriptData = Ok,
     TagTypeAudio = 8, TagTypeVideo = 9, TagTypeScriptData = 18, AVCPacketTypeSequenceHeader = 0, FrameTypeKeyFrame = 1\<rparr>"

definition sample_relay :: "byte list relayEnv" where
  "sample_relay = \<lparr>re_flv = sample_flv, re_amf = sample_amf, re_write = (\<lambda>_ _ _. None)\<rparr>"

lemma sample_fields:
  "re_flv sample_relay = sample_flv" "AVCPacketTypeSequenceHeader sample_flv = 0" "FrameTypeKeyFrame sample_flv = 1"
  "encodeAudioData sample_flv = (\<lambda>d. Ok (AudioBody d))"
  "encodeVideoData sample_flv = (\<lambda>d. Ok (FrameType d # AVCPacketType d # VideoBody d))"
  by (simp_all add: sample_relay_def sample_flv_def)

lemma sample_calm: "calm sample_relay"
  by (simp add: calm_def sample_relay_def sample_flv_def script_body_def map_result_def EncodeBodyAnyValues_def encodeArgs.simps
      amf_Encode_def sample_amf_def sample_encode_def bind_io_def Let_def)

definition on_stream :: "uint32 \<Rightarrow> string \<Rightarrow> int64 \<Rightarrow> byte list \<Rightarrow> ChunkMessage" where
  "on_stream sid name tid body = \<lparr>cm_StreamID = sid, cm_Message = MsgCommandMessage name tid EncodingTypeAMF0 body\<rparr>"

definition sample_play :: "byte list" where
  "sample_play = [5] @ 2 # put_uint16_be 3 @ map char_byte ''abc''"

lemma sample_play_body:
  "CmdBodyDecoderFor sample_amf sample_ms ''play'' tid sample_play = (Ok (NetStreamPlay ''abc'' 0), [])"
proof -
  have "amf_decode_string sample_amf (2 # put_uint16_be 3 @ map char_byte ''abc'' @ r) = (Ok ''abc'', r)" for r
    using sample_string_ok [of "''abc''"] by (simp add: amf_string_ok_def sample_amf_def sample_encode_def)
  moreover have "amf_decode_value sample_amf (5 # r) = (Ok GoNil, r)" for r
    by (simp add: sample_amf_def io_simps)
  moreover have "ReadAtLeast buf_Read 9 9 [] = (Err EOF, [])" by code_simp
  then have "amf_decode_int64 sample_amf [] = (Err EOF, [])"
    by (simp add: sample_amf_def sample_decode_number_def bind_io_def)
  ultimately show ?thesis
    by (simp add: CmdBodyDecoderFor_known DecodeBodyPlay_def sample_play_def bind_io_def wrap_io_def pure_io_def
        wrap_result_def bind_result_def)
qed

text \<open>A connection of the relay, as far as its dialogue goes on: its streams are known.\<close>

definition talking :: "(uint32, Stream) fmap \<Rightarrow> 'u connState \<Rightarrow> bool" where
  "talking ss c \<longleftrightarrow> wf_tables (tables c) \<and> c_faults c = [] \<and> MaxMessageStreams c = 4294967295 \<and> c_streams c = ss"

abbreviation control_only :: "streamState \<Rightarrow> (uint32, Stream) fmap" where
  "control_only st \<equiv> fmupd 0 (sample_control st) fmempty"

abbreviation control_and :: "streamState \<Rightarrow> (uint32, Stream) fmap" where
  "control_and st \<equiv> fmupd 1 (in_state st (newStream 1)) (control_only streamStateServerConnected)"

abbreviation relay_sample_env :: "nat \<Rightarrow> byte list relayWorld env" where
  "relay_sample_env i \<equiv> relay_conn_env sample_relay sample_ms i"

lemma relay_sample_simps [simp]:
  "e_amf (relay_sample_env i) = sample_amf" "e_ms (relay_sample_env i) = sample_ms"
  "e_handler (relay_sample_env i) = relay_handler sample_relay i"
  by (simp_all add: relay_conn_env_def sample_relay_def)

lemma talking_can_send:
  assumes "talking ss c" and "fmlookup ss k = Some (in_state st (newStream k))"
  shows "can_send env c (in_state st (newStream k))"
  using assms by (simp add: talking_def can_send_def) (simp add: in_state_def newStream_def)

lemma fmupd_again: "fmupd k v (fmupd k v' m) = fmupd k v m" "k \<noteq> j \<Longrightarrow> fmupd k v (fmupd j u m) = fmupd j u (fmupd k v m)"
  by (rule fmap_ext, auto)+

lemma relay_handler_simps [simp]:
  "OnConnect (relay_handler env i) = (\<lambda>_ _. return_io ())" "OnCreateStream (relay_handler env i) = (\<lambda>_. return_io ())"
  "OnPublish (relay_handler env i) = (\<lambda>_ _ name _. relay_OnPublish i name)"
  "OnPlay (relay_handler env i) = (\<lambda>sid _ name _. relay_OnPlay i sid name)"
  by (simp_all add: relay_handler_def DefaultHandler_def)

lemma in_state_again [simp]: "in_state st (in_state st' s) = in_state st s"
  by (simp add: in_state_def)

lemma relay_connected:
  assumes "talking (control_only streamStateServerNotConnected) c"
  obtains c' where "handleMessage (relay_sample_env i) 3 0 (on_stream 0 ''connect'' 1 [3, 0, 0, 9]) c = (Ok (), c')"
    and "talking (control_only streamStateServerConnected) c'" and "c_user c' = c_user c"
proof -
  let ?m = "on_stream 0 ''connect'' 1 [3, 0, 0, 9]"
  have can: "can_send (relay_sample_env i) c (sample_control streamStateServerNotConnected)"
    by (rule talking_can_send [OF assms]) simp
  have "\<exists>ms. handleMessage (relay_sample_env i) 3 0 ?m c =
    (Ok (), update_stream (str_streamID (sample_control streamStateServerNotConnected)) (in_state streamStateServerConnected)
      (said ms (c\<lparr>c_user := c_user c\<rparr>)))"
    by (rule exI, rule connect_accepted [OF can, of _ 1 "[3, 0, 0, 9]" zero_command "[]"])
      (simp_all add: on_stream_def sample_bodies sample_encodes)
  then obtain ms where r: "handleMessage (relay_sample_env i) 3 0 ?m c =
    (Ok (), update_stream 0 (in_state streamStateServerConnected) (said ms c))" by auto
  have "wf_tables (tables (snd (handleMessage (relay_sample_env i) 3 0 ?m c)))"
    by (rule handleMessage_tables) (use assms in \<open>simp add: talking_def\<close>)
  with assms r show ?thesis
    by (intro that [OF r]) (auto simp: talking_def update_stream_def fmupd_again)
qed

lemma relay_created:
  assumes "talking (control_only streamStateServerConnected) c"
  obtains c' where "handleMessage (relay_sample_env i) 3 0 (on_stream 0 ''createStream'' 2 [5]) c = (Ok (), c')"
    and "talking (control_and streamStateServerInactive) c'" and "c_user c' = c_user c"
proof -
  let ?m = "on_stream 0 ''createStream'' 2 [5]"
  have can: "can_send (relay_sample_env i) c (sample_control streamStateServerConnected)"
    by (rule talking_can_send [OF assms]) simp
  have taken: "fmlookup (c_streams c) (word_of_int j) \<noteq> None" if "0 \<le> j" "j < 1" for j
  proof -
    have "j = 0" using that by simp
    then show ?thesis using assms by (simp add: talking_def)
  qed
  have "\<exists>ms. handleMessage (relay_sample_env i) 3 0 ?m c = (Ok (), said ms (c\<lparr>c_user := c_user c, c_streams := fmupd (word_of_int 1)
          (in_state streamStateServerInactive (newStream (word_of_int 1))) (c_streams c)\<rparr>))"
    by (rule exI, rule create_stream_accepted [where rest = "[]" and tid = 2 and body = "[5]", OF can _ _ _ _ _ _ _ _ _ taken])
      (use assms in \<open>simp_all add: on_stream_def sample_bodies sample_encodes talking_def del: One_nat_def\<close>)
  then obtain ms where r: "handleMessage (relay_sample_env i) 3 0 ?m c =
    (Ok (), said ms (c\<lparr>c_user := c_user c, c_streams := fmupd 1 (in_state streamStateServerInactive (newStream 1)) (c_streams c)\<rparr>))"
    by auto
  have "wf_tables (tables (snd (handleMessage (relay_sample_env i) 3 0 ?m c)))"
    by (rule handleMessage_tables) (use assms in \<open>simp add: talking_def\<close>)
  with assms r show ?thesis
    by (intro that [OF r]) (auto simp: talking_def)
qed

lemma relay_asked:
  assumes "talking (control_and streamStateServerInactive) c"
    and "(m = on_stream 1 ''publish'' 4 sample_publish \<and> st = streamStateServerPublish \<and> relay_OnPublish i ''abc'' (c_user c) = (Ok (), u))
      \<or> (m = on_stream 1 ''play'' 4 sample_play \<and> st = streamStateServerPlay \<and> relay_OnPlay i 1 ''abc'' (c_user c) = (Ok (), u))"
  obtains c' where "handleMessage (relay_sample_env i) 3 0 m c = (Ok (), c')" and "talking (control_and st) c'" and "c_user c' = u"
proof -
  let ?s = "in_state streamStateServerInactive (newStream 1)"
  have can: "can_send (relay_sample_env i) c ?s"
    by (rule talking_can_send [OF assms(1)]) simp
  have h: "str_handler ?s = Some serverDataInactiveHandler" by (simp add: in_state_def handler_of_def)
  obtain hd where handler: "handler_of st = Some hd" "st \<noteq> streamStateUnknown"
    using assms(2) by (auto simp: handler_of_def)
  obtain name body v cb failed started where m: "m = on_stream 1 name 4 body" "name \<noteq> ''_result''" "name \<noteq> ''_error''"
      and v: "CmdBodyDecoderFor sample_amf sample_ms name 4 body = (Ok v, [])"
      and ask: "onCommand (relay_sample_env i) ?s 3 0 4 v = ask_user (relay_sample_env i) ?s 3 0 cb failed started st"
      and cb: "cb (c_user c) = (Ok (), u)"
    using assms(2)
  proof (elim disjE conjE)
    assume "m = on_stream 1 ''publish'' 4 sample_publish" "st = streamStateServerPublish" "relay_OnPublish i ''abc'' (c_user c) = (Ok (), u)"
    then show ?thesis
      by (intro that [of "''publish''" sample_publish "NetStreamPublish ''abc'' ''live''" "relay_OnPublish i ''abc''"])
        (simp_all add: sample_publish_body onCommand_def inactive_onCommand_def h)
  next
    assume "m = on_stream 1 ''play'' 4 sample_play" "st = streamStateServerPlay" "relay_OnPlay i 1 ''abc'' (c_user c) = (Ok (), u)"
    then show ?thesis
      by (intro that [of "''play''" sample_play "NetStreamPlay ''abc'' 0" "relay_OnPlay i 1 ''abc''"])
        (simp_all add: sample_play_body onCommand_def inactive_onCommand_def h)
  qed
  have "\<exists>ms. ask_user (relay_sample_env i) ?s 3 0 cb failed started st c =
      (Ok (), update_stream (str_streamID ?s) (in_state st) (said ms (c\<lparr>c_user := u\<rparr>)))"
    by (rule exI, rule ask_user_accept [where callback = cb, OF can handler cb]) (simp_all add: sample_bodies sample_encodes)
  then obtain ms where "ask_user (relay_sample_env i) ?s 3 0 cb failed started st c =
      (Ok (), update_stream 1 (in_state st) (said ms (c\<lparr>c_user := u\<rparr>)))" by auto
  then have r: "handleMessage (relay_sample_env i) 3 0 m c = (Ok (), update_stream 1 (in_state st) (said ms (c\<lparr>c_user := u\<rparr>)))"
    using assms(1) v by (intro handleMessage_at [where s = ?s]) (simp_all add: m(1) on_stream_def talking_def
        handle_command [OF m(2,3)] or_else_def ask)
  have "wf_tables (tables (snd (handleMessage (relay_sample_env i) 3 0 m c)))"
    by (rule handleMessage_tables) (use assms in \<open>simp add: talking_def\<close>)
  with assms(1) r show ?thesis
    by (intro that [OF r]) (auto simp: talking_def update_stream_def fmupd_again)
qed

lemma talking_user [simp]: "talking ss (c\<lparr>c_user := w\<rparr>) = talking ss c"
  by (simp add: talking_def tables_def)

lemma relay_step_Ok:
  assumes "y_conns S i = Some c" and "handleMessage (relay_conn_env env ms i) csid ts m (c\<lparr>c_user := y_world S\<rparr>) = (Ok (), c')"
  shows "relay_step env ms (Received i csid ts m) S = S\<lparr>y_conns := (y_conns S)(i \<mapsto> c'), y_world := c_user c'\<rparr>"
  using assms by (simp add: relay_step.simps)

definition joining :: "nat \<Rightarrow> ChunkMessage \<Rightarrow> relayEvent list" where
  "joining i m = [Opened, Received i 3 0 (on_stream 0 ''connect'' 1 [3, 0, 0, 9]),
     Received i 3 0 (on_stream 0 ''createStream'' 2 [5]), Received i 3 0 m]"

lemma sample_joins:
  assumes "y_opened S = i"
    and "(m = on_stream 1 ''publish'' 4 sample_publish \<and> st = streamStateServerPublish
        \<and> relay_OnPublish i ''abc'' (relay_OnServe i (y_world S)) = (Ok (), u))
      \<or> (m = on_stream 1 ''play'' 4 sample_play \<and> st = streamStateServerPlay
        \<and> relay_OnPlay i 1 ''abc'' (relay_OnServe i (y_world S)) = (Ok (), u))"
  obtains c where "fold (relay_step sample_relay sample_ms) (joining i m) S =
      S\<lparr>y_conns := (y_conns S)(i \<mapsto> c), y_opened := i + 1, y_world := u\<rparr>"
    and "talking (control_and st) c"
proof -
  let ?w = "relay_OnServe i (y_world S)" and ?run = "relay_step sample_relay sample_ms"
  define c0 where "c0 = snd (serving (relay_sample_env i) (newConn \<lparr>segs = [], net_end = EOF\<rparr> (Some (relay_config sample_relay i)) (y_world S)))"
  have user: "c_user c0 = ?w"
    by (simp add: c0_def serving_def newConn_def Let_def) (simp add: relay_handler_def)
  have "talking (control_only streamStateServerNotConnected) c0"
    by (auto simp: c0_def talking_def serving_def newConn_def Let_def tables_def wf_tables_def wf_waits_def waits_def stream_ok_def
        in_state_def newStream_def handler_of_def relay_config_def ConnConfig_normalize_def zero_userConfig_def
        conn_config_def zero_config_def config_normalize_def split: if_splits)
  then have 0: "talking (control_only streamStateServerNotConnected) (c0\<lparr>c_user := ?w\<rparr>)" by simp
  obtain c1 where 1: "handleMessage (relay_sample_env i) 3 0 (on_stream 0 ''connect'' 1 [3, 0, 0, 9]) (c0\<lparr>c_user := ?w\<rparr>) = (Ok (), c1)"
    "talking (control_only streamStateServerConnected) (c1\<lparr>c_user := ?w\<rparr>)" "c_user c1 = ?w"
    by (rule relay_connected [OF 0, of i]) simp
  obtain c2 where 2: "handleMessage (relay_sample_env i) 3 0 (on_stream 0 ''createStream'' 2 [5]) (c1\<lparr>c_user := ?w\<rparr>) = (Ok (), c2)"
    "talking (control_and streamStateServerInactive) (c2\<lparr>c_user := ?w\<rparr>)" "c_user c2 = ?w"
    by (rule relay_created [OF 1(2), of i]) simp
  obtain c3 where 3: "handleMessage (relay_sample_env i) 3 0 m (c2\<lparr>c_user := ?w\<rparr>) = (Ok (), c3)" "talking (control_and st) c3" "c_user c3 = u"
    by (rule relay_asked [OF 2(2), of m st i u]) (use assms(2) in simp_all)
  define at where "at c w = S\<lparr>y_conns := (y_conns S)(i \<mapsto> c), y_opened := i + 1, y_world := w\<rparr>" for c w
  have at: "y_conns (at c w) i = Some c" "y_world (at c w) = w"
    "at c w\<lparr>y_conns := (y_conns (at c w))(i \<mapsto> c'), y_world := w'\<rparr> = at c' w'" for c w c' w'
    by (cases S, simp add: at_def)+
  have "?run Opened S = at c0 ?w" using assms(1) user by (simp add: relay_step.simps Let_def c0_def at_def)
  moreover have "?run (Received i 3 0 (on_stream 0 ''connect'' 1 [3, 0, 0, 9])) (at c0 ?w) = at c1 ?w"
    using relay_step_Ok [OF at(1), unfolded at, OF 1(1)] unfolding 1(3) .
  moreover have "?run (Received i 3 0 (on_stream 0 ''createStream'' 2 [5])) (at c1 ?w) = at c2 ?w"
    using relay_step_Ok [OF at(1), unfolded at, OF 2(1)] unfolding 2(3) .
  moreover have "?run (Received i 3 0 m) (at c2 ?w) = at c3 u"
    using relay_step_Ok [OF at(1), unfolded at, OF 3(1)] unfolding 3(3) .
  ultimately have "fold ?run (joining i m) S = at c3 u"
    by (simp add: joining_def)
  then show ?thesis unfolding at_def by (rule that) (rule 3(2))
qed

lemma run_more: "relay_run env ms (evs @ evs') = fold (relay_step env ms) evs' (relay_run env ms evs)"
  by (simp add: relay_run_def)

text \<open>Connection 0 publishes \<^verbatim>\<open>abc\<close>, connection 1 plays it.\<close>

definition relay_sample_events :: "relayEvent list" where
  "relay_sample_events = joining 0 (on_stream 1 ''publish'' 4 sample_publish) @ joining 1 (on_stream 1 ''play'' 4 sample_play)"

definition relay_sample_world :: "byte list relayWorld" where
  "relay_sample_world = \<lparr>w_streams = [''abc'' \<mapsto> 0], w_pubsubs = [\<lparr>pb_name = ''abc'', pb_pub = Some 0, pb_subs = [0]\<rparr>],
     w_pubs = [\<lparr>pub_pb = 0, pub_avcSeqHeader = None, pub_lastKeyFrame = None\<rparr>],
     w_subs = [\<lparr>sub_initialized = False, sub_closed = False, sub_lastTimestamp = 0, sub_eventCallback = Some (Some 1, 1)\<rparr>],
     w_handlers = (\<lambda>_. zero_relayHandler)(0 := \<lparr>h_conn = Some 0, h_pub = Some 0, h_sub = None\<rparr>,
       1 := \<lparr>h_conn = Some 1, h_pub = None, h_sub = Some 0\<rparr>), w_wire = []\<rparr>"

lemma sample_first:
  defines "w1 \<equiv> published_by 0 ''abc'' (relay_OnServe 0 NewRelayService)"
  obtains c0 where "relay_run sample_relay sample_ms (joining 0 (on_stream 1 ''publish'' 4 sample_publish)) =
      relay_start\<lparr>y_conns := [0 \<mapsto> c0], y_opened := 1, y_world := w1\<rparr>"
    and "talking (control_and streamStateServerPublish) c0"
proof -
  have 1: "relay_OnPublish 0 ''abc'' (relay_OnServe 0 (y_world relay_start)) = (Ok (), w1)"
    by (simp add: w1_def OnPublish_result relay_start_def NewRelayService_def relay_OnServe_def put_handler_def zero_relayHandler_def)
  show ?thesis
    by (rule sample_joins [of relay_start 0 _ streamStateServerPublish w1], simp add: relay_start_def, use 1 in blast,
        rule that) (simp_all add: relay_start_def relay_run_def)
qed

lemma relay_sample_run:
  obtains c0 c1 where "y_conns (relay_run sample_relay sample_ms relay_sample_events) 0 = Some c0"
    and "y_conns (relay_run sample_relay sample_ms relay_sample_events) 1 = Some c1"
    and "talking (control_and streamStateServerPublish) c0" and "talking (control_and streamStateServerPlay) c1"
    and "y_world (relay_run sample_relay sample_ms relay_sample_events) = relay_sample_world"
proof -
  let ?w1 = "published_by 0 ''abc'' (relay_OnServe 0 (NewRelayService :: byte list relayWorld))"
  obtain c0 where c0: "relay_run sample_relay sample_ms (joining 0 (on_stream 1 ''publish'' 4 sample_publish)) =
      relay_start\<lparr>y_conns := [0 \<mapsto> c0], y_opened := 1, y_world := ?w1\<rparr>" "talking (control_and streamStateServerPublish) c0"
    by (rule sample_first)
  let ?S = "relay_start\<lparr>y_conns := [0 \<mapsto> c0], y_opened := 1, y_world := ?w1\<rparr>"
  have 2: "relay_OnPlay 1 1 ''abc'' (relay_OnServe 1 (y_world ?S)) = (Ok (), relay_sample_world)"
    by (simp add: OnPlay_result NewRelayService_def relay_OnServe_def put_handler_def zero_relayHandler_def
        played_by_def published_by_def relay_sample_world_def Let_def fun_eq_iff)
  obtain c1 where c1: "fold (relay_step sample_relay sample_ms) (joining 1 (on_stream 1 ''play'' 4 sample_play)) ?S =
      ?S\<lparr>y_conns := (y_conns ?S)(1 \<mapsto> c1), y_opened := 1 + 1, y_world := relay_sample_world\<rparr>"
    "talking (control_and streamStateServerPlay) c1"
    by (rule sample_joins [of ?S 1 _ streamStateServerPlay relay_sample_world]) (use 2 in auto)
  show ?thesis
    by (rule that [of c0 c1]) (use c0 c1 in \<open>simp_all add: run_more relay_sample_events_def\<close>)
qed

section \<open>Media\<close>

text \<open>
  C2 (functional). A relay after any history of connections and messages: audio and video that the
  publisher of a name sends, with payloads the codec carries, are written to each connection that
  plays the name and has been started, all of them, unchanged and in order, on that connection's
  own stream, with timestamps counted from the first one it saw. Nothing else is written to it.
\<close>

theorem relay_delivers:
  assumes "calm env" and "S = relay_run env ms evs" and "plays S j sid q i k" and "sub_initialized (w_subs (y_world S) ! k)"
    and "sub_eventCallback (w_subs (y_world S) ! k) = Some (Some i, sid')" and "\<forall>(csid, ts, m) \<in> set xs. carried env m"
  shows "wire_of i (y_world (relay_run env ms (evs @ stream_events j sid xs))) =
    wire_of i (y_world S) @ rebased sid' (sub_lastTimestamp (w_subs (y_world S) ! k)) xs"
  using stream_events_delivered [OF relay_run_ok [of env ms evs, folded assms(2)] assms(1,3-6), where ms = ms] assms(2)
  by (simp add: relay_run_def)

lemma sample_plays: "plays (relay_run sample_relay sample_ms relay_sample_events) 0 1 0 1 0"
proof -
  obtain c0 c1 where "y_conns (relay_run sample_relay sample_ms relay_sample_events) 0 = Some c0"
    "y_conns (relay_run sample_relay sample_ms relay_sample_events) 1 = Some c1" "talking (control_and streamStateServerPublish) c0"
    "y_world (relay_run sample_relay sample_ms relay_sample_events) = relay_sample_world"
    by (rule relay_sample_run)
  then show ?thesis
    by (auto simp: plays_def talking_def relay_sample_world_def intro!: exI [of _ c0])
qed

lemma relay_sample_world_run: "y_world (relay_run sample_relay sample_ms relay_sample_events) = relay_sample_world"
  by (rule relay_sample_run)

text \<open>The sequence header of the sample publisher, and its first key frame.\<close>

definition sample_header :: "byte list FlvTag" where
  "sample_header = \<lparr>TagType = 9, Timestamp = 20, Data = FlvVideo \<lparr>FrameType = 1, CodecID = 7, AVCPacketType = 0,
     CompositionTime = 0, VideoBody = [9]\<rparr>\<rparr>"

definition sample_started :: "byte list relaySystem" where
  "sample_started = relay_run sample_relay sample_ms (relay_sample_events @ stream_events 0 1 [(6, 20, MsgVideoMessage [1, 0, 9])])"

lemma sample_started_ok:
  "plays sample_started 0 1 0 1 0"
  "w_subs (y_world sample_started) ! 0 = \<lparr>sub_initialized = True, sub_closed = False, sub_lastTimestamp = 20, sub_eventCallback = Some (Some 1, 1)\<rparr>"
  "wire_of 1 (y_world sample_started) = [(6, 0, \<lparr>cm_StreamID = 1, cm_Message = MsgVideoMessage [1, 0, 9]\<rparr>),
     (6, 0, \<lparr>cm_StreamID = 1, cm_Message = MsgVideoMessage [1, 0, 9]\<rparr>)]"
proof -
  have tag: "media_tag (re_flv sample_relay) 20 (MsgVideoMessage [1, 0, 9]) = Some sample_header"
    by (simp add: media_tag_def sample_relay_def sample_flv_def sample_header_def)
  note step = plays_step [OF relay_run_ok sample_calm sample_plays tag, where ms = sample_ms and csid = 6]
  have started: "sample_started = relay_step sample_relay sample_ms (Received 0 6 20 \<lparr>cm_StreamID = 1, cm_Message = MsgVideoMessage [1, 0, 9]\<rparr>)
      (relay_run sample_relay sample_ms relay_sample_events)"
    by (simp add: sample_started_def run_more stream_events_def)
  show "plays sample_started 0 1 0 1 0"
    "w_subs (y_world sample_started) ! 0 = \<lparr>sub_initialized = True, sub_closed = False, sub_lastTimestamp = 20, sub_eventCallback = Some (Some 1, 1)\<rparr>"
    "wire_of 1 (y_world sample_started) = [(6, 0, \<lparr>cm_StreamID = 1, cm_Message = MsgVideoMessage [1, 0, 9]\<rparr>),
     (6, 0, \<lparr>cm_StreamID = 1, cm_Message = MsgVideoMessage [1, 0, 9]\<rparr>)]"
    using step(2-4) [folded started]
    by (simp_all add: relay_sample_world_run relay_sample_world_def publish_view_def is_video_def sample_header_def start_view_def
        caching_def pub_cache_def sample_fields cached_view_def event_view_def written_def tag_message_def
        map_result_def wire_of_def)
qed

theorem relay_delivers_witness:
  "wire_of 1 (y_world (relay_run sample_relay sample_ms ((relay_sample_events @ stream_events 0 1 [(6, 20, MsgVideoMessage [1, 0, 9])])
      @ stream_events 0 1 [(4, 30, MsgAudioMessage [5, 6]), (6, 45, MsgVideoMessage [2, 1, 7])]))) =
    wire_of 1 (y_world sample_started)
      @ [(5, 10, \<lparr>cm_StreamID = 1, cm_Message = MsgAudioMessage [5, 6]\<rparr>), (6, 25, \<lparr>cm_StreamID = 1, cm_Message = MsgVideoMessage [2, 1, 7]\<rparr>)]"
  using relay_delivers [OF sample_calm sample_started_def sample_started_ok(1), of 1 "[(4, 30, MsgAudioMessage [5, 6]), (6, 45, MsgVideoMessage [2, 1, 7])]"]
  by (simp add: sample_started_ok(2) carried_def sample_relay_def sample_flv_def media_csid_def)

text \<open>The message of a cached tag.\<close>

definition video_on :: "uint32 \<Rightarrow> byte list \<Rightarrow> ChunkMessage" where
  "video_on sid b = \<lparr>cm_StreamID = sid, cm_Message = MsgVideoMessage b\<rparr>"

text \<open>An inter frame changes no cache.\<close>

definition inter_frame :: "'s relayEnv \<Rightarrow> byte list \<Rightarrow> bool" where
  "inter_frame env b \<longleftrightarrow> (\<exists>d. decodeVideoData (re_flv env) b = Ok d
     \<and> AVCPacketType d \<noteq> AVCPacketTypeSequenceHeader (re_flv env) \<and> FrameType d \<noteq> FrameTypeKeyFrame (re_flv env))"

text \<open>What the publisher has cached: both tags and the payloads they encode to.\<close>

definition caches :: "'s relayEnv \<Rightarrow> 's Pub \<Rightarrow> uint32 \<times> byte list \<Rightarrow> uint32 \<times> byte list \<Rightarrow> bool" where
  "caches env p header key \<longleftrightarrow>
     (\<exists>f d. pub_avcSeqHeader p = Some f \<and> Timestamp f = fst header \<and> Data f = FlvVideo d \<and> encodeVideoData (re_flv env) d = Ok (snd header))
   \<and> (\<exists>f d. pub_lastKeyFrame p = Some f \<and> Timestamp f = fst key \<and> Data f = FlvVideo d \<and> encodeVideoData (re_flv env) d = Ok (snd key))"

definition rebase :: "uint32 \<Rightarrow> uint32 \<Rightarrow> uint32" where
  "rebase t0 ts = (if ts \<noteq> 0 \<and> t0 = 0 then ts else t0)"

lemma cached_started:
  assumes "caches env p header key" and "sub_eventCallback s = Some (Some i, sid)" and "\<not> sub_closed s"
  shows "start_view env p s =
    (let t1 = rebase (sub_lastTimestamp s) (fst header); t2 = rebase t1 (fst key) in
     ([(i, 6, fst header - t1, video_on sid (snd header)), (i, 6, fst key - t2, video_on sid (snd key))],
      s\<lparr>sub_lastTimestamp := t2, sub_initialized := True\<rparr>))"
proof -
  have "event_view env f s' = ([(i, 6, Timestamp f - rebase (sub_lastTimestamp s') (Timestamp f), video_on sid b)],
      s'\<lparr>sub_lastTimestamp := rebase (sub_lastTimestamp s') (Timestamp f)\<rparr>)"
    if "Data f = FlvVideo d" "encodeVideoData (re_flv env) d = Ok b" "sub_eventCallback s' = Some (Some i, sid)" "\<not> sub_closed s'"
    for f d b s'
    using that by (cases s') (auto simp: event_view_def written_def tag_message_def map_result_def rebase_def video_on_def Let_def)
  then show ?thesis
    using assms by (auto simp: caches_def start_view_def cached_view_def Let_def)
qed

lemma inter_frame_started:
  assumes "calm env" and "system_ok S" and "plays S j sid q i k" and "\<not> sub_initialized (w_subs (y_world S) ! k)"
    and "sub_eventCallback (w_subs (y_world S) ! k) = Some (Some i, sid')"
    and "caches env (w_pubs (y_world S) ! q) header key" and "inter_frame env b"
  defines "t1 \<equiv> rebase (sub_lastTimestamp (w_subs (y_world S) ! k)) (fst header)"
  shows "wire_of i (y_world (relay_step env ms (Received j csid ts \<lparr>cm_StreamID = sid, cm_Message = MsgVideoMessage b\<rparr>) S)) =
    wire_of i (y_world S) @ [(6, fst header - t1, video_on sid' (snd header)), (6, fst key - rebase t1 (fst key), video_on sid' (snd key))]"
proof -
  obtain d where d: "decodeVideoData (re_flv env) b = Ok d" "AVCPacketType d \<noteq> AVCPacketTypeSequenceHeader (re_flv env)"
    "FrameType d \<noteq> FrameTypeKeyFrame (re_flv env)" using assms(7) by (auto simp: inter_frame_def)
  let ?f = "\<lparr>TagType = TagTypeVideo (re_flv env), Timestamp = ts, Data = FlvVideo d\<rparr>"
  have tag: "media_tag (re_flv env) ts (MsgVideoMessage b) = Some ?f" by (simp add: media_tag_def d)
  have "caching env ?f (w_pubs (y_world S) ! q) = w_pubs (y_world S) ! q"
    by (simp add: caching_def pub_cache_def d)
  then have "publish_view env (caching env ?f (w_pubs (y_world S) ! q)) ?f (w_subs (y_world S) ! k) =
      start_view env (w_pubs (y_world S) ! q) (w_subs (y_world S) ! k)"
    using assms(4) by (simp add: publish_view_def is_video_def)
  with plays_step(3) [OF assms(2,1,3) tag, where ms = ms and csid = csid] show ?thesis
    using cached_started [OF assms(6,5) plays_open(3) [OF assms(2,3)]] by (simp add: t1_def Let_def)
qed

text \<open>
  C37 (functional). A connection that starts to play in the middle of a stream: at the next
  inter frame it is written, in its place, the cached sequence header and then the cached key
  frame, on its own stream and with timestamps counted from its first one.
\<close>

theorem new_subscriber_starts:
  assumes "calm env" and "S = relay_run env ms evs" and "plays S j sid q i k" and "\<not> sub_initialized (w_subs (y_world S) ! k)"
    and "sub_eventCallback (w_subs (y_world S) ! k) = Some (Some i, sid')"
    and "caches env (w_pubs (y_world S) ! q) header key" and "inter_frame env b"
    and "t1 = rebase (sub_lastTimestamp (w_subs (y_world S) ! k)) (fst header)"
  shows "wire_of i (y_world (relay_run env ms (evs @ stream_events j sid [(csid, ts, MsgVideoMessage b)]))) =
    wire_of i (y_world S) @ [(6, fst header - t1, video_on sid' (snd header)), (6, fst key - rebase t1 (fst key), video_on sid' (snd key))]"
  using inter_frame_started [OF assms(1) relay_run_ok [of env ms evs, folded assms(2)] assms(3-7), of ms csid ts] assms(2,8)
  by (simp add: run_more stream_events_def)

text \<open>
  C38 (error). When sound arrives before the next video, the subscriber's first timestamp is the
  sound's, which is later than those of the cached header and key frame: the header is written
  with a timestamp that has wrapped around below zero.
\<close>

theorem cached_header_wraps:
  assumes "calm env" and "S = relay_run env ms evs" and "plays S j sid q i k" and "\<not> sub_initialized (w_subs (y_world S) ! k)"
    and "sub_eventCallback (w_subs (y_world S) ! k) = Some (Some i, sid')" and "sub_lastTimestamp (w_subs (y_world S) ! k) = 0"
    and "caches env (w_pubs (y_world S) ! q) header key" and "inter_frame env b" and "carried env (MsgAudioMessage a)"
    and "fst header < ta"
  shows "wire_of i (y_world (relay_run env ms (evs @ stream_events j sid [(ca, ta, MsgAudioMessage a), (cv, tv, MsgVideoMessage b)]))) =
      wire_of i (y_world S) @ [(5, 0, \<lparr>cm_StreamID = sid', cm_Message = MsgAudioMessage a\<rparr>),
        (6, fst header - ta, video_on sid' (snd header)), (6, fst key - ta, video_on sid' (snd key))]
    \<and> unat (fst header - ta) = 2 ^ 32 - (unat ta - unat (fst header))"
proof -
  have S: "system_ok S" using relay_run_ok assms(2) by simp
  have ta: "ta \<noteq> 0" using assms(10) by auto
  obtain d where d: "decodeAudioData (re_flv env) a = Ok d" "encodeAudioData (re_flv env) d = Ok a"
    using assms(9) by (auto simp: carried_def)
  let ?f = "\<lparr>TagType = TagTypeAudio (re_flv env), Timestamp = ta, Data = FlvAudio d\<rparr>" and ?s = "w_subs (y_world S) ! k"
  have tag: "media_tag (re_flv env) ta (MsgAudioMessage a) = Some ?f" by (simp add: media_tag_def d)
  have "publish_view env (caching env ?f (w_pubs (y_world S) ! q)) ?f ?s =
    ([(i, 5, 0, \<lparr>cm_StreamID = sid', cm_Message = MsgAudioMessage a\<rparr>)], ?s\<lparr>sub_lastTimestamp := ta\<rparr>)"
    using plays_open(3) [OF S assms(3)] assms(5,6) ta d
    by (simp add: publish_view_def is_video_def event_view_def written_def tag_message_def map_result_def)
  note step = plays_step [OF S assms(1,3) tag, where ms = ms and csid = ca, unfolded this]
  have cached: "caching env ?f p = p" for p by (simp add: caching_def)
  have "wire_of i (y_world (relay_step env ms (Received j cv tv \<lparr>cm_StreamID = sid, cm_Message = MsgVideoMessage b\<rparr>)
      (relay_step env ms (Received j ca ta \<lparr>cm_StreamID = sid, cm_Message = MsgAudioMessage a\<rparr>) S))) =
    wire_of i (y_world (relay_step env ms (Received j ca ta \<lparr>cm_StreamID = sid, cm_Message = MsgAudioMessage a\<rparr>) S))
      @ [(6, fst header - ta, video_on sid' (snd header)), (6, fst key - ta, video_on sid' (snd key))]"
    using inter_frame_started [OF assms(1) step(1,2) _ _ _ assms(8), of sid' header key ms cv tv] step(4,5) assms(4,5,7) ta
    by (simp add: cached rebase_def)
  moreover have "unat (fst header - ta) = 2 ^ 32 - (unat ta - unat (fst header))"
    using assms(10) by (simp add: unat_sub_if' word_less_nat_alt)
  ultimately show ?thesis
    using step(3) assms(2) by (simp add: run_more stream_events_def)
qed

text \<open>Connection 1 comes when a header and a key frame have gone by.\<close>

definition late_events :: "relayEvent list" where
  "late_events = (joining 0 (on_stream 1 ''publish'' 4 sample_publish)
     @ stream_events 0 1 [(6, 20, MsgVideoMessage [1, 0, 9]), (6, 40, MsgVideoMessage [1, 1, 7])])
     @ joining 1 (on_stream 1 ''play'' 4 sample_play)"

definition sample_key :: "byte list FlvTag" where
  "sample_key = \<lparr>TagType = 9, Timestamp = 40, Data = FlvVideo \<lparr>FrameType = 1, CodecID = 7, AVCPacketType = 1,
     CompositionTime = 0, VideoBody = [7]\<rparr>\<rparr>"

definition late_world :: "byte list FlvTag option \<Rightarrow> byte list FlvTag option \<Rightarrow> byte list relayWorld" where
  "late_world header key = \<lparr>w_streams = [''abc'' \<mapsto> 0], w_pubsubs = [\<lparr>pb_name = ''abc'', pb_pub = Some 0, pb_subs = []\<rparr>],
     w_pubs = [\<lparr>pub_pb = 0, pub_avcSeqHeader = header, pub_lastKeyFrame = key\<rparr>], w_subs = [],
     w_handlers = (\<lambda>_. zero_relayHandler)(0 := \<lparr>h_conn = Some 0, h_pub = Some 0, h_sub = None\<rparr>), w_wire = []\<rparr>"

lemma late_plays:
  "plays (relay_run sample_relay sample_ms late_events) 0 1 0 1 0"
  "w_subs (y_world (relay_run sample_relay sample_ms late_events)) ! 0 =
     \<lparr>sub_initialized = False, sub_closed = False, sub_lastTimestamp = 0, sub_eventCallback = Some (Some 1, 1)\<rparr>"
  "caches sample_relay (w_pubs (y_world (relay_run sample_relay sample_ms late_events)) ! 0) (20, [1, 0, 9]) (40, [1, 1, 7])"
  "wire_of 1 (y_world (relay_run sample_relay sample_ms late_events)) = []"
proof -
  let ?run = "relay_step sample_relay sample_ms" and ?first = "joining 0 (on_stream 1 ''publish'' 4 sample_publish)"
  obtain c0 where c0: "relay_run sample_relay sample_ms ?first =
      relay_start\<lparr>y_conns := [0 \<mapsto> c0], y_opened := 1, y_world := published_by 0 ''abc'' (relay_OnServe 0 NewRelayService)\<rparr>"
    "talking (control_and streamStateServerPublish) c0"
    by (rule sample_first)
  define at where "at c w = relay_start\<lparr>y_conns := [0 \<mapsto> c], y_opened := 1, y_world := w\<rparr>" for c and w :: "byte list relayWorld"
  have at: "y_conns (at c w) 0 = Some c" "y_world (at c w) = w" "y_opened (at c w) = 1"
    "at c w\<lparr>y_conns := (y_conns (at c w))(0 \<mapsto> c'), y_world := w'\<rparr> = at c' w'" for c w c' w'
    by (simp_all add: at_def)
  have "published_by 0 ''abc'' (relay_OnServe 0 NewRelayService) = late_world None None"
    by (simp add: published_by_def relay_OnServe_def put_handler_def NewRelayService_def late_world_def zero_relayHandler_def
        Let_def fun_eq_iff)
  with c0 have 0: "relay_run sample_relay sample_ms ?first = at c0 (late_world None None)" by (simp add: at_def)
  have ok: "system_ok (at c0 (late_world None None))" using relay_run_ok [of sample_relay sample_ms ?first] 0 by simp
  have stream: "fmlookup (c_streams c0) 1 = Some (in_state streamStateServerPublish (newStream 1))"
    using c0(2) by (simp add: talking_def)
  have pub: "h_pub (w_handlers (y_world (at c (late_world h k))) 0) = Some 0" for c h k by (simp add: at late_world_def)
  have step: "?run (Received 0 6 ts \<lparr>cm_StreamID = 1, cm_Message = m\<rparr>) (at c (late_world h k)) =
      at (c\<lparr>c_user := snd (Pub_Publish sample_relay 0 flv (late_world h k))\<rparr>) (snd (Pub_Publish sample_relay 0 flv (late_world h k)))"
    if "system_ok (at c (late_world h k))" "media_tag (re_flv sample_relay) ts m = Some flv" "c_streams c = c_streams c0" for c h k ts m flv
    using media_step [OF that(1) sample_calm at(1) _ _ pub that(2), where ms = sample_ms and csid = 6 and sid = 1] stream that(3)
    by (simp add: at Let_def)
  have tags: "media_tag (re_flv sample_relay) 20 (MsgVideoMessage [1, 0, 9]) = Some sample_header"
    "media_tag (re_flv sample_relay) 40 (MsgVideoMessage [1, 1, 7]) = Some sample_key"
    by (simp_all add: media_tag_def sample_relay_def sample_flv_def sample_header_def sample_key_def)
  have pubs: "snd (Pub_Publish sample_relay 0 sample_header (late_world None None)) = late_world (Some sample_header) (Some sample_header)"
    "snd (Pub_Publish sample_relay 0 sample_key (late_world (Some sample_header) (Some sample_header))) =
      late_world (Some sample_header) (Some sample_key)"
    by (simp_all add: Pub_Publish_def late_world_def sample_header_def sample_key_def pub_cache_def sample_fields Let_def)
  let ?c1 = "c0\<lparr>c_user := late_world (Some sample_header) (Some sample_header)\<rparr>"
  note 1 = step [OF ok tags(1) refl, unfolded pubs(1)]
  have ok1: "system_ok (at ?c1 (late_world (Some sample_header) (Some sample_header)))"
    using relay_step_ok [OF ok] 1 by metis
  note 2 = step [OF ok1 tags(2), unfolded pubs(2)]
  let ?S = "at (?c1\<lparr>c_user := late_world (Some sample_header) (Some sample_key)\<rparr>) (late_world (Some sample_header) (Some sample_key))"
  let ?w = "relay_sample_world\<lparr>w_pubs := [\<lparr>pub_pb = 0, pub_avcSeqHeader = Some sample_header, pub_lastKeyFrame = Some sample_key\<rparr>]\<rparr>"
  have "relay_OnPlay 1 1 ''abc'' (relay_OnServe 1 (y_world ?S)) = (Ok (), ?w)"
    by (simp add: at OnPlay_result relay_OnServe_def put_handler_def zero_relayHandler_def late_world_def
        played_by_def relay_sample_world_def Let_def fun_eq_iff)
  then obtain c1 where c1: "fold ?run (joining 1 (on_stream 1 ''play'' 4 sample_play)) ?S =
      ?S\<lparr>y_conns := (y_conns ?S)(1 \<mapsto> c1), y_opened := 1 + 1, y_world := ?w\<rparr>"
    using sample_joins [OF at(3), of "on_stream 1 ''play'' 4 sample_play" streamStateServerPlay _ _ ?w] by metis
  have run: "relay_run sample_relay sample_ms late_events = ?S\<lparr>y_conns := (y_conns ?S)(1 \<mapsto> c1), y_opened := 1 + 1, y_world := ?w\<rparr>"
    using 1 2 c1 by (simp add: late_events_def run_more 0 stream_events_def)
  show "plays (relay_run sample_relay sample_ms late_events) 0 1 0 1 0"
    using stream by (auto simp: run plays_def relay_sample_world_def at)
  show "w_subs (y_world (relay_run sample_relay sample_ms late_events)) ! 0 =
     \<lparr>sub_initialized = False, sub_closed = False, sub_lastTimestamp = 0, sub_eventCallback = Some (Some 1, 1)\<rparr>"
    "caches sample_relay (w_pubs (y_world (relay_run sample_relay sample_ms late_events)) ! 0) (20, [1, 0, 9]) (40, [1, 1, 7])"
    "wire_of 1 (y_world (relay_run sample_relay sample_ms late_events)) = []"
    by (simp_all add: run relay_sample_world_def caches_def sample_header_def sample_key_def sample_fields wire_of_def)
qed

theorem new_subscriber_starts_witness:
  "wire_of 1 (y_world (relay_run sample_relay sample_ms (late_events @ stream_events 0 1 [(6, 60, MsgVideoMessage [2, 1, 8])]))) =
    [(6, 0, video_on 1 [1, 0, 9]), (6, 20, video_on 1 [1, 1, 7])]"
proof -
  have "inter_frame sample_relay [2, 1, 8]" by (simp add: inter_frame_def sample_relay_def sample_flv_def)
  then show ?thesis
    using new_subscriber_starts [OF sample_calm refl late_plays(1) _ _ late_plays(3)]
    by (simp add: late_plays(2,4) rebase_def del: One_nat_def)
qed

theorem cached_header_wraps_witness:
  "wire_of 1 (y_world (relay_run sample_relay sample_ms
      (late_events @ stream_events 0 1 [(4, 50, MsgAudioMessage [5]), (6, 60, MsgVideoMessage [2, 1, 8])]))) =
    [(5, 0, \<lparr>cm_StreamID = 1, cm_Message = MsgAudioMessage [5]\<rparr>), (6, - 30, video_on 1 [1, 0, 9]),
     (6, - 10, video_on 1 [1, 1, 7])]"
proof -
  have "inter_frame sample_relay [2, 1, 8]" "carried sample_relay (MsgAudioMessage [5])"
    by (simp_all add: inter_frame_def carried_def sample_relay_def sample_flv_def)
  then show ?thesis
    using cached_header_wraps [OF sample_calm refl late_plays(1) _ _ _ late_plays(3), of 1 "[2, 1, 8]" "[5]" 50 4 6 60]
    by (simp add: late_plays(2,4) del: One_nat_def)
qed

text \<open>
  C13 (refinement). Publishing a tag, a loop over the subscribers that goes through the heaps, is
  one update of all subscribers at once: each is sent, and becomes, what the tag and its own
  state before the loop say; the publisher caches the tag; nothing else changes, and errors of
  single connections stop nobody.
\<close>

theorem publish_broadcasts:
  assumes "calm env" and "w = y_world (relay_run env ms evs)" and "q < length (w_pubs w)" and "Data flv \<noteq> FlvOther"
    and "p' = caching env flv (w_pubs w ! q)"
  shows "Pub_Publish env q flv w = (Ok (),
     at_subs (publish_view env p' flv) (pb_subs (w_pubsubs w ! pub_pb (w_pubs w ! q))) (w\<lparr>w_pubs := (w_pubs w)[q := p']\<rparr>))"
  using Publish_result [OF _ assms(1,3,4), of "open_conns (relay_run env ms evs)"] relay_run_ok [of env ms evs] assms(2,5)
  by (simp add: system_ok_def)

theorem publish_broadcasts_witness:
  "Pub_Publish sample_relay 0 sample_header relay_sample_world = (Ok (),
     at_subs (publish_view sample_relay (caching sample_relay sample_header (w_pubs relay_sample_world ! 0)) sample_header) [0]
       (relay_sample_world\<lparr>w_pubs := [caching sample_relay sample_header (w_pubs relay_sample_world ! 0)]\<rparr>))"
  using publish_broadcasts [OF sample_calm refl _ _ refl, of 0 sample_ms relay_sample_events sample_header]
  by (simp add: relay_sample_world_run) (simp add: relay_sample_world_def sample_header_def)

section \<open>The state of the relay\<close>

text \<open>
  C3 (invariant). Whatever clients connect, send and leave: a stream that is publishing has a
  publisher (so media never meets a nil one), whose pubsub is the one in the map under its name,
  and no other connection holds that name; a stream that is playing has a subscriber, whose
  events go to its own connection.
\<close>

theorem relay_in_order:
  assumes "S = relay_run env ms evs" and "y_conns S i = Some c" and "fmlookup (c_streams c) sid = Some s" and "w = y_world S"
  shows "(str_state s = streamStateServerPublish \<longrightarrow>
      (\<exists>pb p. pubsub_of i w = Some pb \<and> w_streams w (pb_name pb) = Some p \<and> w_pubsubs w ! p = pb
        \<and> (\<forall>j pb'. y_conns S j \<noteq> None \<longrightarrow> pubsub_of j w = Some pb' \<longrightarrow> pb_name pb' = pb_name pb \<longrightarrow> j = i)))
    \<and> (str_state s = streamStateServerPlay \<longrightarrow>
      (\<exists>k sid'. h_sub (w_handlers w i) = Some k \<and> sub_eventCallback (w_subs w ! k) = Some (Some i, sid')))"
proof -
  have S: "system_ok S" using relay_run_ok assms(1) by simp
  then have h: "heaps_ok w" and hs: "handlers_ok w" and l: "live_ok (open_conns S) w"
    using assms(4) by (simp_all add: system_ok_def relay_ok_def)
  have has: "accepted_for (str_state s) = Some j \<Longrightarrow> relay_has i j w" for j
    using S assms(2-4) by (auto simp: system_ok_def)
  have i: "i \<in> open_conns S" using assms(2) by (simp add: open_conns_def)
  have one: "j = i" if "y_conns S j \<noteq> None" "h_pub (w_handlers w i) = Some q" "h_pub (w_handlers w j) = Some q'"
    "pb_name (w_pubsubs w ! pub_pb (w_pubs w ! q')) = pb_name (w_pubsubs w ! pub_pb (w_pubs w ! q))" for j q q'
  proof -
    have "pub_pb (w_pubs w ! q') = pub_pb (w_pubs w ! q)"
      using live_okD(2) [OF l i that(2)] live_okD(2) [OF l _ that(3)] that(1,4) by (simp add: open_conns_def)
    then have "q' = q"
      using heaps_okD(7) [OF h handlers_okD(4) [OF hs that(2)]] heaps_okD(7) [OF h handlers_okD(4) [OF hs that(3)]] by simp
    then show ?thesis using handlers_okD(5) [OF hs that(2), of j] that(3) by simp
  qed
  show ?thesis
  proof (intro conjI impI)
    assume "str_state s = streamStateServerPublish"
    then obtain q where q: "h_pub (w_handlers w i) = Some q" using has [of CallPublish] by auto
    with live_okD(2) [OF l i q] one [OF _ q]
    show "\<exists>pb p. pubsub_of i w = Some pb \<and> w_streams w (pb_name pb) = Some p \<and> w_pubsubs w ! p = pb
        \<and> (\<forall>j pb'. y_conns S j \<noteq> None \<longrightarrow> pubsub_of j w = Some pb' \<longrightarrow> pb_name pb' = pb_name pb \<longrightarrow> j = i)"
      by (fastforce simp: pubsub_of_def)
  next
    assume "str_state s = streamStateServerPlay"
    then show "\<exists>k sid'. h_sub (w_handlers w i) = Some k \<and> sub_eventCallback (w_subs w ! k) = Some (Some i, sid')"
      using has [of CallPlay] handlers_okD(3) [OF hs, of i] by auto
  qed
qed

theorem relay_in_order_witness:
  "\<exists>pb. pubsub_of 0 (y_world (relay_run sample_relay sample_ms relay_sample_events)) = Some pb
    \<and> w_streams (y_world (relay_run sample_relay sample_ms relay_sample_events)) (pb_name pb) \<noteq> None"
proof -
  obtain c0 c1 where c0: "y_conns (relay_run sample_relay sample_ms relay_sample_events) 0 = Some c0"
    "talking (control_and streamStateServerPublish) c0" by (rule relay_sample_run)
  then have "fmlookup (c_streams c0) 1 = Some (in_state streamStateServerPublish (newStream 1))" by (simp add: talking_def)
  from relay_in_order [OF refl c0(1) this refl] show ?thesis by auto
qed

text \<open>
  The script data of a publisher never reaches a player: what is encoded goes into a
  field that is not sent, so whatever the publisher sends, the relay does the same.
\<close>

lemma script_data_lost:
  assumes "decodeScriptData (re_flv env) p = Ok d" and "decodeScriptData (re_flv env) p' = Ok d'"
    and "encodeScriptData (re_flv env) d = Ok b" and "encodeScriptData (re_flv env) d' = Ok b'"
  shows "relay_OnSetDataFrame env i ts p w = relay_OnSetDataFrame env i ts p' w"
proof -
  let ?f = "\<lambda>d. \<lparr>TagType = TagTypeScriptData (re_flv env), Timestamp = ts, Data = FlvScript d\<rparr>"
  have "onEventCallback env conn sid (?f d\<lparr>Timestamp := t\<rparr>) = onEventCallback env conn sid (?f d'\<lparr>Timestamp := t\<rparr>)" for conn sid t
    using assms(3,4) script_data_dropped [of _ b] script_data_dropped [of _ b']
    by (simp add: onEventCallback_def bind_io_def pure_io_def fun_eq_iff)
  then have sub: "Sub_onEvent env k (?f d) = Sub_onEvent env k (?f d')" for k
    by (auto simp: Sub_onEvent_def fun_eq_iff Let_def split: option.split)
  have "send_clone env (?f d) = send_clone env (?f d')"
    by (intro ext) (simp add: send_clone_def cloneView_def bind_io_def pure_io_def sub)
  then show ?thesis
    by (simp add: relay_OnSetDataFrame_def assms(1,2) relay_publish_def Pub_Publish_def ignoring_def Let_def split: option.split)
qed

text \<open>
  C39 (error). A client that publishes under a second name leaves the first one behind: the handler
  keeps one publisher only. Whatever happens then, also when the client has left, nobody can ever
  publish under the first name again.
\<close>

theorem second_publish_leaks:
  assumes "S = relay_run env ms evs" and "y_conns S i \<noteq> None"
    and "relay_OnPublish i a (y_world S) = (Ok (), w1)" and "relay_OnPublish i b w1 = (Ok (), w2)"
  shows "\<exists>e. fst (relay_OnPublish j a (y_world (fold (relay_step env ms) evs' (S\<lparr>y_world := w2\<rparr>)))) = Err e"
proof -
  have S: "system_ok S" using relay_run_ok assms(1) by simp
  have "system_ok (S\<lparr>y_world := w1\<rparr>)" by (rule publishing_ok [OF S assms(2,3)])
  from publishing_ok [OF this, of i b w2] have S2: "system_ok (S\<lparr>y_world := w2\<rparr>)" using assms(2,4) by simp
  have "abandoned (open_conns S) a (length (w_pubsubs (y_world S))) w2" by (rule twice_abandons [OF S assms(2-4)])
  then have "abandoned (open_conns (S\<lparr>y_world := w2\<rparr>)) a (length (w_pubsubs (y_world S))) (y_world (S\<lparr>y_world := w2\<rparr>))"
    by (simp add: open_conns_def)
  from abandoned_for_ever [OF S2 this, of env ms evs'] show ?thesis
    by (simp add: OnPublish_result)
qed

theorem second_publish_leaks_witness:
  "\<exists>w2 e. fst (relay_OnPublish 7 ''x'' (y_world (fold (relay_step sample_relay sample_ms) [Ended 0, Ended 1]
     ((relay_run sample_relay sample_ms relay_sample_events)\<lparr>y_world := w2\<rparr>)))) = Err e"
proof -
  let ?S = "relay_run sample_relay sample_ms relay_sample_events"
  have open0: "y_conns ?S 0 \<noteq> None" using sample_plays by (auto simp: plays_def)
  have 1: "relay_OnPublish 0 ''x'' (y_world ?S) = (Ok (), published_by 0 ''x'' relay_sample_world)"
    by (simp add: OnPublish_result relay_sample_world_run) (simp add: relay_sample_world_def)
  have 2: "relay_OnPublish 0 ''y'' (published_by 0 ''x'' relay_sample_world) = (Ok (), published_by 0 ''y'' (published_by 0 ''x'' relay_sample_world))"
    by (simp add: OnPublish_result) (simp add: relay_sample_world_def)
  show ?thesis
    using second_publish_leaks [OF refl open0 1 2] by blast
qed

end
