(* ===== verification/Recorder.thy ===== *)
theory Recorder
  imports Codec_Properties Server Dialogue Flv
begin

text \<open>
  The recording server of \<^verbatim>\<open>example/server_demo\<close>: a handler that writes what a client publishes to a
  file in the directory for temporary files, under the name the client chose. Its handler meets
  the contract of \<open>Handler_Contract\<close>; what the names can do to the file system is the question.
\<close>

section \<open>Paths\<close>

text \<open>
  \<^verbatim>\<open>path/filepath\<close> of the standard library, as it is on Unix: \<^verbatim>\<open>Clean\<close> removes empty elements and
  \<^verbatim>\<open>.\<close>, and \<^verbatim>\<open>..\<close> with the element before it; at the root, \<^verbatim>\<open>..\<close> is dropped.
\<close>

fun split_path :: "string \<Rightarrow> string list" where
  "split_path [] = [[]]"
| "split_path (c # s) =
     (if c = CHR ''/'' then [] # split_path s
      else case split_path s of [] \<Rightarrow> [[c]] | e # es \<Rightarrow> (c # e) # es)"

fun slashed :: "string list \<Rightarrow> string" where
  "slashed [] = []"
| "slashed [e] = e"
| "slashed (e # es) = e @ ''/'' @ slashed es"

text \<open>The elements kept so far are a stack.\<close>

definition clean_elem :: "bool \<Rightarrow> string \<Rightarrow> string list \<Rightarrow> string list" where
  "clean_elem rooted e kept =
     (if e = '''' \<or> e = ''.'' then kept
      else if e = ''..'' then
        (case kept of
           [] \<Rightarrow> if rooted then [] else [e]
         | e' # kept' \<Rightarrow> if e' = ''..'' then e # kept else kept')
      else e # kept)"

definition Clean :: "string \<Rightarrow> string" where
  "Clean p =
     (if p = '''' then ''.''
      else
        let rooted = (hd p = CHR ''/'');
            es = rev (fold (clean_elem rooted) (split_path p) []) in
        if rooted then CHR ''/'' # slashed es else if es = [] then ''.'' else slashed es)"

definition Join :: "string list \<Rightarrow> string" where
  "Join elems = (case dropWhile (\<lambda>e. e = '''') elems of [] \<Rightarrow> '''' | es \<Rightarrow> Clean (slashed es))"

section \<open>The handler\<close>

text \<open>
  A file is known by the number of the call of \<^verbatim>\<open>os.OpenFile\<close> that opened it, an encoder by its file.
  The record keeps what was opened, which tags were encoded into which file, and what was closed.
\<close>

record 's recorder =
  r_flvFile :: "nat option"
  r_flvEnc :: "nat option"
  r_opened :: "string list"
  r_tags :: "(nat \<times> 's FlvTag) list"
  r_closed :: "nat list"

definition zero_recorder :: "'s recorder" where
  "zero_recorder = \<lparr>r_flvFile = None, r_flvEnc = None, r_opened = [], r_tags = [], r_closed = []\<rparr>"

text \<open>
  The parameters: the codec of tags, the directory for temporary files, the error of each
  \<^verbatim>\<open>os.OpenFile\<close> and of each \<^verbatim>\<open>flv.NewEncoder\<close>. Errors of \<^verbatim>\<open>Encode\<close> and of \<^verbatim>\<open>Close\<close> are not looked at.
\<close>

record 's recorderEnv =
  rc_flv :: "'s flvCodec"
  rc_TempDir :: string
  rc_OpenFile :: "string list \<Rightarrow> string \<Rightarrow> rtmp_error option"
  rc_NewEncoder :: "nat \<Rightarrow> rtmp_error option"

definition recordPath :: "string \<Rightarrow> string \<Rightarrow> string" where
  "recordPath tmp name = Join [tmp, Clean (Join [''/'', name @ ''.flv''])]"

definition recorder_OnPublish :: "'s recorderEnv \<Rightarrow> string \<Rightarrow> ('s recorder, unit) io" where
  "recorder_OnPublish env name r =
     (if name = '''' then (Err (Errorf ''PublishingName is empty'' []), r)
      else
        let p = recordPath (rc_TempDir env) name; f = length (r_opened r) in
        case rc_OpenFile env (r_opened r) p of
          Some e \<Rightarrow> (Err (Wrapf e ''Failed to create flv file''), r)
        | None \<Rightarrow>
            (let r1 = r\<lparr>r_flvFile := Some f, r_opened := r_opened r @ [p]\<rparr> in
             case rc_NewEncoder env f of
               Some e \<Rightarrow> (Err (Wrapf e ''Failed to create flv encoder''), r1\<lparr>r_closed := r_closed r1 @ [f]\<rparr>)
             | None \<Rightarrow> (Ok (), r1\<lparr>r_flvEnc := Some f\<rparr>)))"

text \<open>\<^verbatim>\<open>h.flvEnc.Encode(tag)\<close>, whose error is only logged\<close>

definition recorder_encode :: "'s FlvTag \<Rightarrow> ('s recorder, unit) io" where
  "recorder_encode flv r =
     (case r_flvEnc r of
        None \<Rightarrow> (Panic ''nil pointer dereference'', r)
      | Some f \<Rightarrow> (Ok (), r\<lparr>r_tags := r_tags r @ [(f, flv)]\<rparr>))"

definition recorder_OnSetDataFrame :: "'s recorderEnv \<Rightarrow> uint32 \<Rightarrow> byte list \<Rightarrow> ('s recorder, unit) io" where
  "recorder_OnSetDataFrame env ts payload r =
     (case decodeScriptData (rc_flv env) payload of
        Ok script \<Rightarrow> recorder_encode \<lparr>TagType = TagTypeScriptData (rc_flv env), Timestamp = ts, Data = FlvScript script\<rparr> r
      | Err e \<Rightarrow> (Ok (), r)
      | Panic p \<Rightarrow> (Panic p, r))"

definition recorder_OnAudio :: "'s recorderEnv \<Rightarrow> uint32 \<Rightarrow> byte list \<Rightarrow> ('s recorder, unit) io" where
  "recorder_OnAudio env ts payload =
     bind_io (pure_io (decodeAudioData (rc_flv env) payload)) (\<lambda>audio.
       recorder_encode \<lparr>TagType = TagTypeAudio (rc_flv env), Timestamp = ts, Data = FlvAudio audio\<rparr>)"

definition recorder_OnVideo :: "'s recorderEnv \<Rightarrow> uint32 \<Rightarrow> byte list \<Rightarrow> ('s recorder, unit) io" where
  "recorder_OnVideo env ts payload =
     bind_io (pure_io (decodeVideoData (rc_flv env) payload)) (\<lambda>video.
       recorder_encode \<lparr>TagType = TagTypeVideo (rc_flv env), Timestamp = ts, Data = FlvVideo video\<rparr>)"

definition recorder_OnClose :: "'s recorder \<Rightarrow> 's recorder" where
  "recorder_OnClose r = (case r_flvFile r of None \<Rightarrow> r | Some f \<Rightarrow> r\<lparr>r_closed := r_closed r @ [f]\<rparr>)"

text \<open>\<^verbatim>\<open>OnServe\<close>, \<^verbatim>\<open>OnConnect\<close> and \<^verbatim>\<open>OnCreateStream\<close> do nothing but log.\<close>

definition recorder_handler :: "'s recorderEnv \<Rightarrow> 's recorder Handler" where
  "recorder_handler env = DefaultHandler\<lparr>OnPublish := (\<lambda>_ _ name _. recorder_OnPublish env name),
     OnSetDataFrame := recorder_OnSetDataFrame env, OnAudio := recorder_OnAudio env,
     OnVideo := recorder_OnVideo env, OnClose := recorder_OnClose\<rparr>"

text \<open>The configuration of \<^verbatim>\<open>main.go\<close>.\<close>

definition recorder_config :: "'s recorderEnv \<Rightarrow> 's recorder userConfig" where
  "recorder_config env = zero_userConfig\<lparr>uc_Handler := Some (recorder_handler env),
     uc_ControlState := zero_config\<lparr>cfg_DefaultBandwidthWindowSize := 6 * 1024 * 1024 div 8\<rparr>\<rparr>"

section \<open>Where a recording goes\<close>

text \<open>An element that is a name: not empty, neither \<^verbatim>\<open>.\<close> nor \<^verbatim>\<open>..\<close>, and without a slash.\<close>

definition proper_name :: "string \<Rightarrow> bool" where
  "proper_name e \<longleftrightarrow> e \<noteq> '''' \<and> e \<noteq> ''.'' \<and> e \<noteq> ''..'' \<and> CHR ''/'' \<notin> set e"

text \<open>A path strictly below an absolute directory whose elements are names.\<close>

definition below :: "string list \<Rightarrow> string \<Rightarrow> bool" where
  "below dir p \<longleftrightarrow> (\<exists>es e. p = CHR ''/'' # slashed (dir @ es @ [e @ ''.flv'']) \<and> (\<forall>x \<in> set (es @ [e @ ''.flv'']). proper_name x))"

lemma split_not_nil [simp]: "split_path s \<noteq> []"
  by (induction s) (auto split: list.split)

lemma split_no_slash: "e \<in> set (split_path s) \<Longrightarrow> CHR ''/'' \<notin> set e"
proof (induction s arbitrary: e)
  case (Cons c s)
  then show ?case by (cases "split_path s") (auto split: if_splits)
qed simp

lemma split_append: "split_path (s @ CHR ''/'' # t) = split_path s @ split_path t"
proof (induction s)
  case (Cons c s)
  then show ?case by (cases "split_path s") auto
qed simp

lemma split_name: "CHR ''/'' \<notin> set e \<Longrightarrow> split_path e = [e]"
  by (induction e) auto

lemma split_suffix:
  assumes "CHR ''/'' \<notin> set t"
  shows "\<exists>es e. split_path (s @ t) = es @ [e @ t]"
proof (induction s)
  case Nil
  show ?case using split_name [OF assms] by auto
next
  case (Cons c s)
  then obtain es e where es: "split_path (s @ t) = es @ [e @ t]" by blast
  show ?case
  proof (cases es)
    case Nil
    then show ?thesis using es by (cases "c = CHR ''/''") (auto intro: exI [of _ "[[]]"] exI [of _ "[]"])
  next
    case (Cons x xs)
    then show ?thesis using es by (cases "c = CHR ''/''") auto
  qed
qed

lemma split_slashed: "es \<noteq> [] \<Longrightarrow> (\<And>e. e \<in> set es \<Longrightarrow> CHR ''/'' \<notin> set e) \<Longrightarrow> split_path (slashed es) = es"
proof (induction es rule: slashed.induct)
  case (3 e e' es)
  then show ?case by (simp add: split_append split_name)
qed (simp_all add: split_name)

lemma clean_proper_name: "proper_name e \<Longrightarrow> clean_elem rooted e kept = e # kept"
  by (auto simp: clean_elem_def proper_name_def)

lemma clean_all_proper: "(\<And>e. e \<in> set es \<Longrightarrow> proper_name e) \<Longrightarrow> fold (clean_elem rooted) es kept = rev es @ kept"
  by (induction es arbitrary: kept) (simp_all add: clean_proper_name)

text \<open>At the root, whatever there is to clean, only names are kept.\<close>

lemma clean_keeps_proper:
  assumes "\<And>e. e \<in> set es \<Longrightarrow> CHR ''/'' \<notin> set e" and "\<And>e. e \<in> set kept \<Longrightarrow> proper_name e"
  shows "e \<in> set (fold (clean_elem True) es kept) \<Longrightarrow> proper_name e"
  using assms
proof (induction es arbitrary: kept)
  case (Cons x xs)
  have "proper_name y" if "y \<in> set (clean_elem True x kept)" for y
  proof -
    have "''..'' \<notin> set kept" using Cons.prems(3) [of "''..''"] by (auto simp: proper_name_def)
    then have "y \<in> set kept \<or> y = x \<and> x \<noteq> '''' \<and> x \<noteq> ''.'' \<and> x \<noteq> ''..''"
      using that by (auto simp: clean_elem_def split: if_splits list.splits)
    then show ?thesis using Cons.prems(2) [of x] Cons.prems(3) by (auto simp: proper_name_def)
  qed
  then show ?case using Cons.IH [of "clean_elem True x kept"] Cons.prems(1,2) by simp
qed simp

lemma slashed_append: "xs \<noteq> [] \<Longrightarrow> ys \<noteq> [] \<Longrightarrow> slashed (xs @ ys) = slashed xs @ ''/'' @ slashed ys"
proof (induction xs rule: slashed.induct)
  case (2 e)
  then show ?case by (cases ys) simp_all
qed simp_all

lemma Clean_rooted: "Clean (CHR ''/'' # s) = CHR ''/'' # slashed (rev (fold (clean_elem True) (split_path s) []))"
  by (simp add: Clean_def Let_def clean_elem_def)

text \<open>
  The path of a recording: the directory, names that come of the client's name, and a last one with
  the suffix.
\<close>

lemma recordPath_below:
  assumes dir: "\<And>e. e \<in> set dir \<Longrightarrow> proper_name e"
  shows "below dir (recordPath (CHR ''/'' # slashed dir) name)"
proof -
  have no_slash: "CHR ''/'' \<notin> set ''.flv''" by simp
  obtain xs b where split: "split_path (name @ ''.flv'') = xs @ [b @ ''.flv'']"
    using split_suffix [OF no_slash, of name] by blast
  let ?l = "b @ ''.flv''"
  have "CHR ''/'' \<notin> set ?l" by (rule split_no_slash [of _ "name @ ''.flv''"]) (simp add: split)
  then have last: "proper_name ?l" by (auto simp: proper_name_def append_eq_Cons_conv)
  define kept where "kept = fold (clean_elem True) xs []"
  have kept: "proper_name e" if "e \<in> set kept" for e
    using clean_keeps_proper [of xs "[]" e] that split_no_slash [of _ "name @ ''.flv''"] by (simp add: kept_def split)
  define es where "es = rev kept"
  have "Join [''/'', name @ ''.flv''] = Clean (CHR ''/'' # CHR ''/'' # name @ ''.flv'')" by (simp add: Join_def)
  also have "\<dots> = CHR ''/'' # slashed (es @ [?l])"
    by (simp add: Clean_rooted split clean_proper_name [OF last] clean_elem_def [of _ "[]"] es_def kept_def)
  finally have inner: "Join [''/'', name @ ''.flv''] = CHR ''/'' # slashed (es @ [?l])" .
  have all: "\<And>e. e \<in> set (es @ [?l]) \<Longrightarrow> proper_name e" using kept last by (auto simp: es_def)
  have noslash: "e \<in> set ys \<Longrightarrow> CHR ''/'' \<notin> set e" if "\<And>e. e \<in> set ys \<Longrightarrow> proper_name e" for ys e
    using that by (auto simp: proper_name_def)
  have again: "split_path (slashed (es @ [?l])) = es @ [?l]"
    by (rule split_slashed, simp, rule noslash [of "es @ [?l]", OF all])
  then have cleaned: "Clean (Join [''/'', name @ ''.flv'']) = CHR ''/'' # slashed (es @ [?l])"
    unfolding inner Clean_rooted by (simp only: clean_all_proper [OF all]) simp
  have dirs: "split_path (slashed dir) = (if dir = [] then [[]] else dir)"
    using split_slashed [of dir] noslash [OF dir] by auto
  have "recordPath (CHR ''/'' # slashed dir) name = Clean (CHR ''/'' # slashed dir @ CHR ''/'' # CHR ''/'' # slashed (es @ [?l]))"
    by (simp only: recordPath_def cleaned) (simp add: Join_def)
  also have "\<dots> = CHR ''/'' # slashed (dir @ es @ [?l])"
    using clean_all_proper [OF dir] clean_all_proper [of es] all
    by (simp add: Clean_rooted split_append dirs again clean_elem_def [of _ "[]"] clean_proper_name [OF last])
  finally show ?thesis using all unfolding below_def by blast
qed

section \<open>The contract\<close>

text \<open>What was opened came of a name a client gave; a publish that was accepted has its encoder.\<close>

definition recorder_inv :: "'s recorderEnv \<Rightarrow> 's recorder \<Rightarrow> bool" where
  "recorder_inv env r \<longleftrightarrow> (\<forall>p \<in> set (r_opened r). \<exists>name. name \<noteq> '''' \<and> p = recordPath (rc_TempDir env) name)"

definition recorder_has :: "call \<Rightarrow> 's recorder \<Rightarrow> bool" where
  "recorder_has k r \<longleftrightarrow> (k = CallPublish \<longrightarrow> r_flvEnc r \<noteq> None)"

definition recorder_conn_env :: "'s recorderEnv \<Rightarrow> amf0 \<Rightarrow> mapstructure \<Rightarrow> 's recorder env" where
  "recorder_conn_env env amf ms = \<lparr>e_amf = amf, e_ms = ms, e_handler = recorder_handler env\<rparr>"

lemma encode_keeps:
  "r_opened (snd (recorder_encode flv r)) = r_opened r" "r_flvEnc (snd (recorder_encode flv r)) = r_flvEnc r"
  by (simp_all add: recorder_encode_def split: option.split)

lemma recorder_media_keeps:
  "r_opened (snd (recorder_OnAudio env ts p r)) = r_opened r" "r_flvEnc (snd (recorder_OnAudio env ts p r)) = r_flvEnc r"
  "r_opened (snd (recorder_OnVideo env ts p r)) = r_opened r" "r_flvEnc (snd (recorder_OnVideo env ts p r)) = r_flvEnc r"
  "r_opened (snd (recorder_OnSetDataFrame env ts p r)) = r_opened r" "r_flvEnc (snd (recorder_OnSetDataFrame env ts p r)) = r_flvEnc r"
  by (simp_all add: recorder_OnAudio_def recorder_OnVideo_def recorder_OnSetDataFrame_def bind_io_def pure_io_def encode_keeps
      split: result.split)

lemma OnPublish_keeps:
  "recorder_inv env r \<Longrightarrow> recorder_inv env (snd (recorder_OnPublish env name r))"
  "recorder_has j r \<Longrightarrow> recorder_has j (snd (recorder_OnPublish env name r))"
  "fst (recorder_OnPublish env name r) = Ok () \<Longrightarrow> recorder_has CallPublish (snd (recorder_OnPublish env name r))"
  by (auto simp: recorder_OnPublish_def recorder_inv_def recorder_has_def Let_def split: option.splits if_splits)

lemma recorder_callback:
  assumes "user_callback (recorder_handler env) k m"
  shows "recorder_inv env r \<Longrightarrow> recorder_inv env (snd (m r))" and "recorder_has j r \<Longrightarrow> recorder_has j (snd (m r))"
    and "fst (m r) = Ok () \<Longrightarrow> recorder_has k (snd (m r))"
proof -
  have "(recorder_inv env r \<longrightarrow> recorder_inv env (snd (m r))) \<and> (recorder_has j r \<longrightarrow> recorder_has j (snd (m r)))
    \<and> (fst (m r) = Ok () \<longrightarrow> recorder_has k (snd (m r)))"
    using assms
  proof (cases rule: user_callback.cases)
    case (publish sid ts name ty)
    then show ?thesis using OnPublish_keeps [where env = env and r = r and name = name] by (auto simp: recorder_handler_def)
  qed (auto simp: recorder_handler_def DefaultHandler_def recorder_inv_def recorder_has_def recorder_media_keeps)
  then show "recorder_inv env r \<Longrightarrow> recorder_inv env (snd (m r))" "recorder_has j r \<Longrightarrow> recorder_has j (snd (m r))"
    "fst (m r) = Ok () \<Longrightarrow> recorder_has k (snd (m r))" by blast+
qed

interpretation recording: handler_contract "recorder_conn_env env amf ms" "recorder_inv env" recorder_has for env amf ms
  by unfold_locales (simp_all add: recorder_conn_env_def recorder_callback)

section \<open>Whatever the client sends\<close>

lemma recorder_config_wf: "wf_config (config_normalize (uc_ControlState (recorder_config env)))"
  by (simp add: recorder_config_def zero_userConfig_def zero_config_def config_normalize_def wf_config_def)

lemma recorder_minding:
  "minding (recorder_inv env) recorder_has (snd (handleConn amf ms (Some (recorder_config env)) ended w zero_recorder))"
proof (rule recording.handleConn_minding [OF recorder_config_wf])
  show "conn_env amf ms (Some (recorder_config env)) = recorder_conn_env env amf ms"
    by (simp add: conn_env_def ConnConfig_normalize_def recorder_config_def recorder_conn_env_def)
qed (auto simp: recorder_conn_env_def recorder_handler_def DefaultHandler_def recorder_inv_def zero_recorder_def
    recorder_has_def recorder_OnClose_def split: option.split)

text \<open>
  C12 (safety). Whatever bytes a client sends to the recording server, with whatever names, every
  file the connection opens lies strictly below the directory for temporary files and has the
  suffix \<^verbatim>\<open>.flv\<close>: no name leads out of it.
\<close>

theorem recordings_stay_below:
  assumes "rc_TempDir env = CHR ''/'' # slashed dir" and "\<forall>e \<in> set dir. proper_name e"
    and "handleConn amf ms (Some (recorder_config env)) ended w zero_recorder = (res, rx, c)"
  shows "\<forall>p \<in> set (r_opened (c_user c)). below dir p"
proof -
  have "recorder_inv env (c_user c)"
    using recorder_minding [of env amf ms ended w] assms(3) by (simp add: minding_def remembers_def)
  then show ?thesis
    using recordPath_below [of dir] assms(1,2) by (auto simp: recorder_inv_def)
qed

definition sample_recorder :: "unit recorderEnv" where
  "sample_recorder = \<lparr>rc_flv = \<lparr>decodeAudioData = (\<lambda>_. Err EOF), encodeAudioData = (\<lambda>_. Err EOF), decodeVideoData = (\<lambda>_. Err EOF),
     encodeVideoData = (\<lambda>_. Err EOF), decodeScriptData = Ok \<circ> (\<lambda>_. ()), encodeScriptData = (\<lambda>_. Ok []), TagTypeAudio = 8,
     TagTypeVideo = 9, TagTypeScriptData = 18, AVCPacketTypeSequenceHeader = 0, FrameTypeKeyFrame = 1\<rparr>,
     rc_TempDir = ''/tmp'', rc_OpenFile = (\<lambda>_ _. None), rc_NewEncoder = (\<lambda>_. None)\<rparr>"

theorem recordings_stay_below_witness:
  "list_all (below [''tmp'']) (r_opened (c_user (snd (snd (handleConn sample_amf sample_ms (Some (recorder_config sample_recorder))
       None (sample_world sample_request) zero_recorder)))))
   \<and> r_opened (snd (recorder_OnPublish sample_recorder ''a/../../../etc//passwd'' zero_recorder)) = [''/tmp/etc/passwd.flv'']"
proof
  have "rc_TempDir sample_recorder = CHR ''/'' # slashed [''tmp'']" "\<forall>e \<in> set [''tmp'']. proper_name e"
    by (simp_all add: sample_recorder_def proper_name_def)
  from recordings_stay_below [OF this] show "list_all (below [''tmp'']) (r_opened (c_user (snd (snd
      (handleConn sample_amf sample_ms (Some (recorder_config sample_recorder)) None (sample_world sample_request) zero_recorder)))))"
    unfolding list_all_iff by (metis prod.collapse)
  have "recordPath ''/tmp'' ''a/../../../etc//passwd'' = ''/tmp/etc/passwd.flv''" by code_simp
  then show "r_opened (snd (recorder_OnPublish sample_recorder ''a/../../../etc//passwd'' zero_recorder)) = [''/tmp/etc/passwd.flv'']"
    by (simp add: recorder_OnPublish_def sample_recorder_def zero_recorder_def Let_def)
qed

text \<open>
  A file that was opened stays open for ever when a client publishes a second time: the handler
  forgets the first one, and closing the connection closes the second.
\<close>

lemma second_recording_leaks:
  assumes "recorder_OnPublish env a r = (Ok (), r1)" and "recorder_OnPublish env b r1 = (Ok (), r2)"
    and "\<forall>f \<in> set (r_closed r). f < length (r_opened r)"
  shows "length (r_opened r) < length (r_opened r2)" and "length (r_opened r) \<notin> set (r_closed (recorder_OnClose r2))"
  using assms by (auto simp: recorder_OnPublish_def recorder_OnClose_def Let_def split: option.splits if_splits)

section \<open>What is recorded\<close>

text \<open>Media on a publishing stream is encoded into the file, all of it, in order, with its timestamps.\<close>

lemma media_recorded:
  assumes "str_state s = streamStateServerPublish" and "str_handler s = handler_of (str_state s)"
    and "fmlookup (c_streams c) sid = Some s" and "r_flvEnc (c_user c) = Some f"
    and "\<And>csid ts m. (csid, ts, m) \<in> set xs \<Longrightarrow> media_tag (rc_flv env) ts m \<noteq> None"
  shows "handle_all (recorder_conn_env env amf ms) (map (\<lambda>(csid, ts, m). (csid, ts, \<lparr>cm_StreamID = sid, cm_Message = m\<rparr>)) xs) c =
    (Ok (), c\<lparr>c_user := (c_user c)\<lparr>r_tags := r_tags (c_user c)
       @ map (\<lambda>(csid, ts, m). (f, the (media_tag (rc_flv env) ts m))) xs\<rparr>\<rparr>)"
  using assms(3-)
proof (induction xs arbitrary: c)
  case (Cons x xs)
  obtain csid ts m where x: "x = (csid, ts, m)" by (cases x)
  let ?env = "recorder_conn_env env amf ms"
  obtain flv where flv: "media_tag (rc_flv env) ts m = Some flv" using Cons.prems(3) [of csid ts m] x by auto
  then have call: "media_callback ?env ts m (c_user c) = (Ok (), (c_user c)\<lparr>r_tags := r_tags (c_user c) @ [(f, flv)]\<rparr>)" and "media m"
    using Cons.prems(2) by (cases m; auto simp: media_callback_def media_def recorder_conn_env_def recorder_handler_def
        recorder_OnAudio_def recorder_OnVideo_def bind_io_def pure_io_def recorder_encode_def media_tag_def split: result.splits)+
  then have "stream_handle ?env s csid ts m c = (Ok (), c\<lparr>c_user := (c_user c)\<lparr>r_tags := r_tags (c_user c) @ [(f, flv)]\<rparr>\<rparr>)"
    using media_published [of m s ?env ts c csid] assms(1,2) by (simp add: with_user_def)
  then have "handleMessage ?env csid ts \<lparr>cm_StreamID = sid, cm_Message = m\<rparr> c =
      (Ok (), c\<lparr>c_user := (c_user c)\<lparr>r_tags := r_tags (c_user c) @ [(f, flv)]\<rparr>\<rparr>)"
    using Cons.prems(1) by (intro handleMessage_at [where s = s]) simp_all
  moreover have "media_tag (rc_flv env) ts m \<noteq> None" if "(csid, ts, m) \<in> set xs" for csid ts m
    using Cons.prems(3) [of csid ts m] that by simp
  ultimately show ?case
    using Cons.IH [of "c\<lparr>c_user := (c_user c)\<lparr>r_tags := r_tags (c_user c) @ [(f, flv)]\<rparr>\<rparr>"] Cons.prems(1,2)
    by (simp add: x bind_io_def flv)
qed simp

end
