(* ===== verification/Client_System.thy ===== *)
theory Client_System
  imports Conn
begin

text \<open>
  The goroutines of a client (\<^verbatim>\<open>client_conn.go\<close>): any number of callers of \<^verbatim>\<open>Connect\<close>,
  \<^verbatim>\<open>CreateStream\<close> and \<^verbatim>\<open>DeleteStream\<close>, and the message loop that resolves the transactions they
  wait for. A call is cut where another goroutine can get in between: after \<^verbatim>\<open>controllable\<close>, after
  the transaction is registered, after the request is written, and while it waits. Looking up the
  control stream and changing the chunk size go with registering, which they commute with; reading
  the resolved transaction goes with creating the stream the answer names.
\<close>

section \<open>Calls\<close>

datatype clientCall = RequestConnect "NetConnectionConnectCommand option" | RequestCreateStream uint32 | RequestDeleteStream uint32

datatype clientValue = NoValue | CreatedStream Stream

datatype clientPhase = Idle | Admitted clientCall | Requesting clientCall Stream nat | Waiting clientCall nat
  | Removing Stream uint32 | Forgetting uint32 | Returned "clientValue result"

text \<open>The transaction IDs are constants of the code.\<close>

fun call_tid :: "clientCall \<Rightarrow> int64" where
  "call_tid (RequestConnect _) = 1"
| "call_tid (RequestCreateStream _) = 2"
| "call_tid (RequestDeleteStream _) = 0"

fun before_open :: "amf0 \<Rightarrow> clientCall \<Rightarrow> Stream \<Rightarrow> ('u connState, unit) io" where
  "before_open amf (RequestCreateStream sz) s = change_chunk_size amf s sz"
| "before_open amf _ s = return_io ()"

definition open_request :: "amf0 \<Rightarrow> clientCall \<Rightarrow> ('u connState, Stream \<times> nat) io" where
  "open_request amf k =
     bind_io (streams_At ControlStreamID) (\<lambda>s.
     bind_io (before_open amf k s) (\<lambda>_.
     bind_io (with_transactions (str_streamID s) (transactions_Create (call_tid k))) (\<lambda>p.
       return_io (s, p))))"

definition open_removal :: "uint32 \<Rightarrow> ('u connState, Stream) io" where
  "open_removal target =
     bind_io (streams_At ControlStreamID) (\<lambda>s.
     bind_io (streams_At target) (\<lambda>_. return_io s))"

fun write_request :: "amf0 \<Rightarrow> clientCall \<Rightarrow> Stream \<Rightarrow> ('u connState, unit) io" where
  "write_request amf (RequestConnect body) s = writeCommandMessage amf s 3 0 ''connect'' 1
     (Some (NetConnectionConnect (case body of None \<Rightarrow> zero_command | Some c \<Rightarrow> c)))"
| "write_request amf (RequestCreateStream _) s = writeCommandMessage amf s 3 0 ''createStream'' 2 (Some NetConnectionCreateStream)"
| "write_request amf (RequestDeleteStream target) s = DeleteStream_request amf s target"

fun answer_call :: "'u env \<Rightarrow> clientCall \<Rightarrow> transaction \<Rightarrow> ('u ClientConn, clientValue) io" where
  "answer_call env (RequestConnect _) t =
     bind_io (pure_io (Connect_answer (e_amf env) (e_ms env) t)) (\<lambda>_. return_io NoValue)"
| "answer_call env (RequestCreateStream _) t =
     bind_io (ClientConn_CreateStream_answer (e_amf env) t) (\<lambda>s. return_io (CreatedStream s))"
| "answer_call env (RequestDeleteStream _) t = return_io NoValue"

section \<open>The system\<close>

record 'u clientSystem =
  cs_cc :: "'u ClientConn"
  cs_looping :: bool
  cs_phase :: "nat \<Rightarrow> clientPhase"

abbreviation cs_conn :: "'u clientSystem \<Rightarrow> 'u connState" where
  "cs_conn y \<equiv> cc_conn (cs_cc y)"

definition client_start :: "'u connState \<Rightarrow> 'u clientSystem" where
  "client_start c = \<lparr>cs_cc = \<lparr>cc_conn = c, cc_lastErr = None\<rparr>, cs_looping = True, cs_phase = (\<lambda>_. Idle)\<rparr>"

text \<open>
  One step of a caller. A panic ends the call and is its caller's to recover.
\<close>

definition advance :: "nat \<Rightarrow> ('u ClientConn, 'a) io \<Rightarrow> ('a \<Rightarrow> clientPhase) \<Rightarrow> 'u clientSystem \<Rightarrow> 'u clientSystem" where
  "advance g m phase y =
     (let r = m (cs_cc y) in
      y\<lparr>cs_cc := snd r, cs_phase := (cs_phase y)(g :=
        (case fst r of Ok a \<Rightarrow> phase a | Err e \<Rightarrow> Returned (Err e) | Panic p \<Rightarrow> Returned (Panic p)))\<rparr>)"

text \<open>
  The loop: it handles a message, or it ends, because a message cannot be handled (a panic is
  recovered), reading fails, or the write loop is done; then the error, if any, is recorded.
\<close>

definition loop_ends :: "unit result \<Rightarrow> 'u connState \<Rightarrow> 'u clientSystem \<Rightarrow> 'u clientSystem" where
  "loop_ends r c y = y\<lparr>cs_looping := False, cs_cc := startHandleMessageLoop r ((cs_cc y)\<lparr>cc_conn := c\<rparr>)\<rparr>"

definition loop_handles :: "'u env \<Rightarrow> int \<Rightarrow> uint32 \<Rightarrow> ChunkMessage \<Rightarrow> 'u clientSystem \<Rightarrow> 'u clientSystem" where
  "loop_handles env csid ts cmsg y =
     (let r = recovered (handleMessage env csid ts cmsg (cs_conn y)) in
      case fst r of
        Ok _ \<Rightarrow> y\<lparr>cs_cc := (cs_cc y)\<lparr>cc_conn := snd r\<rparr>\<rparr>
      | _ \<Rightarrow> loop_ends (fst r) (snd r) y)"

datatype clientEvent =
    Begin nat clientCall | Open nat | Send nat | Wake nat | Forget nat
  | MessageRead int uint32 ChunkMessage | LoopReturned "rtmp_error option"
  | Streamed Stream int uint32 message

text \<open>Who is in no call can begin one; a waiting call goes on only when its \<^verbatim>\<open>doneCh\<close> is closed.\<close>

fun client_step :: "'u env \<Rightarrow> clientEvent \<Rightarrow> 'u clientSystem \<Rightarrow> 'u clientSystem option" where
  "client_step env (Begin g k) y =
     (let begun = Some (advance g (pure_io (controllable (cs_cc y))) (\<lambda>_. Admitted k) y) in
      case cs_phase y g of Idle \<Rightarrow> begun | Returned _ \<Rightarrow> begun | _ \<Rightarrow> None)"
| "client_step env (Open g) y =
     (case cs_phase y g of
        Admitted (RequestDeleteStream target) \<Rightarrow> Some (advance g (with_cc (open_removal target)) (\<lambda>s. Removing s target) y)
      | Admitted k \<Rightarrow> Some (advance g (with_cc (open_request (e_amf env) k)) (\<lambda>(s, p). Requesting k s p) y)
      | _ \<Rightarrow> None)"
| "client_step env (Send g) y =
     (case cs_phase y g of
        Requesting k s p \<Rightarrow> Some (advance g (with_cc (write_request (e_amf env) k s)) (\<lambda>_. Waiting k p) y)
      | Removing s target \<Rightarrow>
          Some (advance g (with_cc (write_request (e_amf env) (RequestDeleteStream target) s)) (\<lambda>_. Forgetting target) y)
      | _ \<Rightarrow> None)"
| "client_step env (Wake g) y =
     (case cs_phase y g of
        Waiting k p \<Rightarrow>
          (if t_done (c_heap (cs_conn y) ! p)
           then Some (advance g (answer_call env k (c_heap (cs_conn y) ! p)) (\<lambda>v. Returned (Ok v)) y) else None)
      | _ \<Rightarrow> None)"
| "client_step env (Forget g) y =
     (case cs_phase y g of
        Forgetting target \<Rightarrow> Some (advance g (with_cc (streams_Delete target)) (\<lambda>_. Returned (Ok NoValue)) y)
      | _ \<Rightarrow> None)"
| "client_step env (MessageRead csid ts cmsg) y =
     (if cs_looping y then Some (loop_handles env csid ts cmsg y) else None)"
| "client_step env (LoopReturned e) y =
     (if cs_looping y then Some (loop_ends (case e of None \<Rightarrow> Ok () | Some e \<Rightarrow> Err e) (cs_conn y) y) else None)"
| "client_step env (Streamed s csid ts msg) y =
     Some (y\<lparr>cs_cc := snd (with_cc (stream_Write (e_amf env) s csid ts msg) (cs_cc y))\<rparr>)"

fun client_run :: "'u env \<Rightarrow> clientEvent list \<Rightarrow> 'u clientSystem \<Rightarrow> 'u clientSystem option" where
  "client_run env [] y = Some y"
| "client_run env (ev # evs) y = Option.bind (client_step env ev y) (client_run env evs)"

section \<open>A call alone\<close>

text \<open>Taken without a break, the steps are the operations of \<open>ClientConn\<close>.\<close>

lemma connect_uninterrupted:
  "ClientConn_Connect amf body cc =
     bind_io (pure_io (controllable cc)) (\<lambda>_.
     bind_io (with_cc (open_request amf (RequestConnect body))) (\<lambda>(s, p).
     bind_io (with_cc (write_request amf (RequestConnect body) s)) (\<lambda>_. return_io p))) cc"
  by (auto simp: ClientConn_Connect_def open_request_def Connect_request_def bind_io_def with_cc_def streams_At_def
      split: option.splits result.splits prod.splits)

lemma create_stream_uninterrupted:
  "ClientConn_CreateStream amf sz cc =
     bind_io (pure_io (controllable cc)) (\<lambda>_.
     bind_io (with_cc (open_request amf (RequestCreateStream sz))) (\<lambda>(s, p).
     bind_io (with_cc (write_request amf (RequestCreateStream sz) s)) (\<lambda>_. return_io p))) cc"
  by (auto simp: ClientConn_CreateStream_def open_request_def CreateStream_request_def bind_io_def with_cc_def streams_At_def
      split: option.splits result.splits prod.splits)

lemma delete_stream_uninterrupted:
  "ClientConn_DeleteStream amf target cc =
     bind_io (pure_io (controllable cc)) (\<lambda>_.
     bind_io (with_cc (open_removal target)) (\<lambda>s.
     bind_io (with_cc (write_request amf (RequestDeleteStream target) s)) (\<lambda>_. with_cc (streams_Delete target)))) cc"
  by (auto simp: ClientConn_DeleteStream_def open_removal_def bind_io_def with_cc_def streams_At_def
      split: option.splits result.splits prod.splits)

section \<open>What a message does to a client\<close>

text \<open>The streams of a client: the control stream, and those it created, which have no handler.\<close>

definition client_stream :: "Stream \<Rightarrow> bool" where
  "client_stream s \<longleftrightarrow> str_state s = streamStateUnknown \<or> str_state s = streamStateClientNotConnected"

lemma client_stream_handler:
  "stream_ok k s \<Longrightarrow> client_stream s \<Longrightarrow> str_handler s = None \<or> str_handler s = Some clientControlNotConnectedHandler"
  by (auto simp: stream_ok_def client_stream_def handler_of_def)

definition answers :: "message \<Rightarrow> bool" where
  "answers msg \<longleftrightarrow> (\<exists>name tid enc body. msg = MsgCommandMessage name tid enc body \<and> (name = ''_result'' \<or> name = ''_error''))"

lemma client_onCommand_keeps [simp]: "snd (client_onCommand body c) = c"
  by (cases body) (simp_all add: client_onCommand_def)

lemma client_handles:
  assumes "str_handler s = None \<or> str_handler s = Some clientControlNotConnectedHandler" and "\<not> answers msg"
  shows "tables (snd (stream_handle env s csid ts msg c)) = tables c"
proof -
  have user: "tables (snd (with_user m c)) = tables c" for m
    by (auto simp: with_user_def tables_def)
  have peer: "tables (snd (with_peer m c)) = tables c" for m
    by (auto simp: with_peer_def tables_def)
  have silent: "tables (snd (or_else m (with_user k) c)) = tables c" if "snd (m c) = c" for m k
    using that user by (cases "m c") (auto simp: or_else_def split: result.splits)
  show ?thesis
    using assms
    by (cases msg) (auto simp: stream_handle_def handleData_def handleCommand_def answers_def NewAMFDecoder_def bind_io_def
        peer onMessage_def onData_def onCommand_def intro!: silent split: result.splits prod.splits)
qed

text \<open>
  An answer goes to the transaction that was asked for, and to no other object; the table forgets
  the transaction.
\<close>

lemma client_message:
  fixes env :: "'u env" and csid :: int and ts :: uint32 and cmsg :: ChunkMessage
  assumes wf: "wf_tables (tables c)" and cl: "fmpred (\<lambda>_. client_stream) (c_streams c)"
  defines "c' \<equiv> snd (handleMessage env csid ts cmsg c)"
  shows "tables c' = tables c \<or>
    (\<exists>s name tid enc body p. cm_Message cmsg = MsgCommandMessage name tid enc body \<and> (name = ''_result'' \<or> name = ''_error'')
      \<and> fmlookup (c_streams c) (cm_StreamID cmsg) = Some s \<and> fmlookup (str_transactions s) tid = Some p
      \<and> c_streams c' = fmupd (cm_StreamID cmsg) (s\<lparr>str_transactions := fmdrop tid (str_transactions s)\<rparr>) (c_streams c)
      \<and> c_heap c' = (c_heap c)[p := \<lparr>t_commandName = name, t_encoding = enc, t_body = Some body, t_lastErr = None, t_done = True\<rparr>]
      \<and> c_config c' = c_config c)"
proof (cases "fmlookup (c_streams c) (cm_StreamID cmsg)")
  case None
  then show ?thesis by (auto simp: c'_def handleMessage_def streams_At_def tables_def)
next
  case (Some s)
  have ok: "str_streamID s = cm_StreamID cmsg" "wf_transactions (str_transactions s, c_heap c)" "stream_ok (cm_StreamID cmsg) s"
    using wf_tablesD [OF wf [unfolded tables_def] Some] by (simp_all add: stream_ok_def)
  have c': "c' = snd (stream_handle env s csid ts (cm_Message cmsg) c)"
    using Some by (auto simp: c'_def handleMessage_def streams_At_def split: prod.splits result.splits rtmp_error.splits)
  show ?thesis
  proof (cases "answers (cm_Message cmsg)")
    case False
    have "client_stream s" using cl Some by (auto dest: fmpredD)
    then show ?thesis using client_handles [OF client_stream_handler [OF ok(3)] False] c' by metis
  next
    case True
    then obtain name tid enc body where msg: "cm_Message cmsg = MsgCommandMessage name tid enc body" "name = ''_result'' \<or> name = ''_error''"
      by (auto simp: answers_def)
    have same: "fmupd (cm_StreamID cmsg) s (c_streams c) = c_streams c" using Some by (intro fmap_ext) auto
    have "c' = snd (with_transactions (cm_StreamID cmsg) (handleReply name tid enc body) c)"
      using c' msg ok(1) by (simp add: stream_handle_def handleCommand_def)
    then show ?thesis
      using Some msg same reply_then_delete(1) [OF ok(2)]
      by (cases "fmlookup (str_transactions s) tid")
        (auto simp: with_transactions_def handleReply_def transactions_At_def transactions_Delete_def bind_io_def wrap_io_def
          Let_def tables_def)
  qed
qed

section \<open>The invariant\<close>

definition asks :: "(nat \<Rightarrow> clientPhase) \<Rightarrow> nat \<Rightarrow> clientCall \<Rightarrow> nat \<Rightarrow> bool" where
  "asks phase g k p \<longleftrightarrow> phase g = Waiting k p \<or> (\<exists>s. phase g = Requesting k s p)"

text \<open>
  No two calls wait for the same transaction, and what the tables will resolve is waited for by a
  call that made the request of that ID on the control stream.
\<close>

definition requests_ok :: "(nat \<Rightarrow> clientPhase) \<Rightarrow> (uint32, Stream) fmap \<Rightarrow> transaction list \<Rightarrow> bool" where
  "requests_ok phase m h \<longleftrightarrow>
     (\<forall>g k p. asks phase g k p \<longrightarrow> p < length h
       \<and> (\<forall>g' k'. asks phase g' k' p \<longrightarrow> g' = g) \<and> (\<forall>j i. waits m j i p \<longrightarrow> j = ControlStreamID \<and> i = call_tid k))"

lemma requests_ok_fewer:
  assumes "requests_ok phase m h" and "\<And>g k p. asks phase' g k p \<Longrightarrow> asks phase g k p"
    and "\<And>j i p. waits m' j i p \<Longrightarrow> waits m j i p" and "length h \<le> length h'"
  shows "requests_ok phase' m' h'"
  using assms unfolding requests_ok_def by (meson order_less_le_trans)

lemma asks_upd: "asks (phase(g := x)) g' k p \<longleftrightarrow> (if g' = g then x = Waiting k p \<or> (\<exists>s. x = Requesting k s p) else asks phase g' k p)"
  by (simp add: asks_def)

lemma requests_ok_opened:
  assumes "requests_ok phase m h" and "wf_waits m h" and "fmlookup m ControlStreamID = Some s"
  shows "requests_ok (phase(g := Requesting k s' (length h)))
     (fmupd ControlStreamID (s\<lparr>str_transactions := fmupd (call_tid k) (length h) (str_transactions s)\<rparr>) m) (h @ [t])"
proof -
  have old: "p < length h" "asks phase g' k' p \<Longrightarrow> g' = g" "waits m j i p \<Longrightarrow> j = ControlStreamID \<and> i = call_tid k"
    if "asks phase g k p" for g k p g' k' j i using assms(1) that unfolding requests_ok_def by blast+
  have new: "\<not> waits m j i (length h)" for j i using assms(2) by (auto simp: wf_waits_def)
  have waits: "waits (fmupd ControlStreamID (s\<lparr>str_transactions := fmupd i (length h) (str_transactions s)\<rparr>) m) j i' p \<longleftrightarrow>
      (if j = ControlStreamID \<and> i' = i then p = length h else waits m j i' p)" for j i i' p
    using assms(3) by (auto simp: waits_def)
  show ?thesis unfolding requests_ok_def asks_upd waits
    by (auto simp: new split: if_splits dest: old(1,2) old(3) intro: less_SucI)
qed

section \<open>Operations that open no transaction\<close>

definition client_tables :: "'u connState \<Rightarrow> bool" where
  "client_tables c \<longleftrightarrow> wf_tables (tables c) \<and> fmpred (\<lambda>_. client_stream) (c_streams c)"

definition settles :: "'u connState \<Rightarrow> 'u connState \<Rightarrow> bool" where
  "settles c c' \<longleftrightarrow> client_tables c' \<and> c_heap c' = c_heap c \<and> (\<forall>j i p. waits (c_streams c') j i p \<longrightarrow> waits (c_streams c) j i p)"

definition settling :: "('u connState, 'a) io \<Rightarrow> bool" where
  "settling m \<longleftrightarrow> (\<forall>c. client_tables c \<longrightarrow> settles c (snd (m c)))"

lemma settles_trans: "settles c c' \<Longrightarrow> settles c' c'' \<Longrightarrow> settles c c''"
  by (simp add: settles_def)

lemma settling_tables: "(\<And>c. tables (snd (m c)) = tables c) \<Longrightarrow> settling m"
  by (simp add: settling_def settles_def client_tables_def tables_def)

lemma settling_bind:
  assumes "settling m" and "\<And>a. settling (f a)"
  shows "settling (bind_io m f)"
  unfolding settling_def
proof (intro allI impI)
  fix c :: "'a connState"
  assume "client_tables c"
  then have 1: "settles c (snd (m c))" using assms(1) by (simp add: settling_def)
  have "settles c (snd (f a (snd (m c))))" for a
    by (rule settles_trans [OF 1]) (use assms(2) [of a] 1 in \<open>simp add: settling_def settles_def\<close>)
  with 1 show "settles c (snd (bind_io m f c))"
    by (cases "m c") (auto simp: bind_io_def split: result.split)
qed

lemma settles_new:
  assumes "client_tables c" and "fmlookup (c_streams c) k = None" and "int (fcard (fmdom (c_streams c))) < MaxMessageStreams c"
  shows "settles c (c\<lparr>c_streams := fmupd k (newStream k) (c_streams c)\<rparr>)"
proof -
  have w: "wf_waits (c_streams c) (c_heap c)" "fmpred stream_ok (c_streams c)" "fmpred (\<lambda>_. client_stream) (c_streams c)"
    using assms(1) by (auto simp: client_tables_def wf_tables_def tables_def)
  have waits: "waits (fmupd k (newStream k) (c_streams c)) j i p \<Longrightarrow> waits (c_streams c) j i p" for j i p
    by (auto simp: waits_fmupd newStream_def split: if_splits)
  have "stream_ok k (newStream k)" "client_stream (newStream k)"
    by (simp_all add: stream_ok_def newStream_def handler_of_def client_stream_def)
  then show ?thesis
    using w assms(2,3) waits wf_waits_fewer [OF w(1) waits]
    by (simp add: settles_def client_tables_def wf_tables_def tables_def fcard_finsert_if fmdom_notI fmpred_upd)
qed

lemma settling_create: "settling (streams_Create k)"
  by (auto simp: settling_def streams_Create_def split: option.split intro: settles_new) (simp_all add: settles_def)

lemma settling_delete: "settling (streams_Delete k)"
  unfolding settling_def
proof (intro allI impI)
  fix c :: "'a connState"
  assume "client_tables c"
  then show "settles c (snd (streams_Delete k c))"
    using fcard_fmdrop_le [of k "c_streams c"]
    by (auto simp: streams_Delete_def settles_def client_tables_def wf_tables_def tables_def stream_ok_def 
        waits_fmdrop split: option.split elim: wf_waits_fewer dest: fmpredD)
qed
lemma change_chunk_size_tables:
  fixes c :: "'u connState"
  shows "tables (snd (change_chunk_size amf s sz c)) = tables c"
proof -
  have "tables (snd (stream_Write amf s 2 0 msg c')) = tables c'" for msg and c' :: "'u connState"
    by (rule tables_same, rule stream_Write_same)
  moreover have "tables (c\<lparr>c_self := x\<rparr>) = tables c" for x by (simp add: tables_def)
  ultimately show ?thesis by (simp add: change_chunk_size_def WriteSetChunkSize_def)
qed

lemma before_open_tables: "tables (snd (before_open amf k s c)) = tables c"
  by (cases k) (simp_all add: change_chunk_size_tables)

lemma settling_pure [intro]: "settling (pure_io r)" "settling (return_io a)" "settling (streams_At k)"
  by (auto intro!: settling_tables simp: pure_io_def streams_At_def split: option.split)

lemma settling_write_request: "settling (write_request amf k s)"
  by (rule settling_tables, cases k) (simp_all add: DeleteStream_request_def tables_same [OF writeCommandMessage_same])

lemma settling_removal: "settling (open_removal target)"
  unfolding open_removal_def by (intro settling_bind settling_pure)

text \<open>Opening a request fails and leaves the tables, or registers one new transaction.\<close>

lemma open_request_result:
  assumes "client_tables c"
  obtains (failed) "\<And>sp. fst (open_request amf k c) \<noteq> Ok sp" and "settles c (snd (open_request amf k c))"
  | (opened) s c1 where "tables c1 = tables c" and "fmlookup (c_streams c) ControlStreamID = Some s"
      and "fmlookup (str_transactions s) (call_tid k) = None"
      and "open_request amf k c = (Ok (s, length (c_heap c)), c1\<lparr>
        c_streams := fmupd ControlStreamID (s\<lparr>str_transactions := fmupd (call_tid k) (length (c_heap c)) (str_transactions s)\<rparr>) (c_streams c),
        c_heap := c_heap c @ [new_transaction]\<rparr>)"
proof (cases "fmlookup (c_streams c) ControlStreamID")
  case None
  then have "open_request amf k c = (Err (Errorf ''Stream is not found: StreamID = %d'' [0]), c)"
    by (simp add: open_request_def streams_At_def bind_io_def)
  then show ?thesis using assms by (intro failed) (auto simp: settles_def)
next
  case (Some s)
  define c1 where "c1 = snd (before_open amf k s c)"
  have c1: "tables c1 = tables c" by (simp add: c1_def before_open_tables)
  then have same: "c_streams c1 = c_streams c" "c_heap c1 = c_heap c" by (simp_all add: tables_def)
  have id: "str_streamID s = ControlStreamID"
    using assms Some wf_tablesD(1) [of "c_streams c" "c_heap c" "c_config c"] by (simp add: client_tables_def tables_def)
  have settled: "settles c c1" using assms c1 by (simp add: settles_def client_tables_def tables_def)
  show ?thesis
  proof (cases "fst (before_open amf k s c)")
    case (Ok u)
    then have before: "before_open amf k s c = (Ok (), c1)" by (simp add: c1_def prod_eq_iff)
    have same_map: "fmupd ControlStreamID s (c_streams c) = c_streams c" using Some by (intro fmap_ext) auto
    show ?thesis
    proof (cases "fmlookup (str_transactions s) (call_tid k)")
      case None
      then show ?thesis
        using Some same id before
        by (intro opened [of c1 s] c1) (simp_all add: open_request_def streams_At_def bind_io_def with_transactions_def transactions_Create_def Let_def)
    next
      case (Some p)
      then have "open_request amf k c =
          (Err (Errorf ''Transaction already exists: TransactionID = %d'' [sint (call_tid k)]), c1)"
        using \<open>fmlookup (c_streams c) ControlStreamID = Some s\<close> same same_map id before
        by (cases c1) (simp add: open_request_def streams_At_def bind_io_def with_transactions_def transactions_Create_def Let_def)
      then show ?thesis using settled by (intro failed) auto
    qed
  next
    case (Err e)
    then have "open_request amf k c = (Err e, c1)"
      using Some by (cases "before_open amf k s c") (simp add: open_request_def streams_At_def bind_io_def c1_def)
    then show ?thesis using settled by (intro failed) auto
  next
    case (Panic e)
    then have "open_request amf k c = (Panic e, c1)"
      using Some by (cases "before_open amf k s c") (simp add: open_request_def streams_At_def bind_io_def c1_def)
    then show ?thesis using settled by (intro failed) auto
  qed
qed
section \<open>Every step keeps the invariant\<close>

definition client_ok :: "'u clientSystem \<Rightarrow> bool" where
  "client_ok y \<longleftrightarrow> client_tables (cs_conn y) \<and> requests_ok (cs_phase y) (c_streams (cs_conn y)) (c_heap (cs_conn y))"

lemma client_ok_settled:
  assumes "client_ok y" and "settles (cs_conn y) (cs_conn y')" and "\<And>g k p. asks (cs_phase y') g k p \<Longrightarrow> asks (cs_phase y) g k p"
  shows "client_ok y'"
proof -
  have "requests_ok (cs_phase y') (c_streams (cs_conn y')) (c_heap (cs_conn y'))"
    by (rule requests_ok_fewer [of "cs_phase y" "c_streams (cs_conn y)" "c_heap (cs_conn y)"])
      (use assms in \<open>simp_all add: client_ok_def settles_def\<close>)
  then show ?thesis using assms(2) by (simp add: client_ok_def settles_def)
qed

lemma with_cc_conn [simp]: "cc_conn (snd (with_cc m cc)) = snd (m (cc_conn cc))" "fst (with_cc m cc) = fst (m (cc_conn cc))"
  by (simp_all add: with_cc_def)

lemma advance_simps [simp]:
  "cs_cc (advance g m phase y) = snd (m (cs_cc y))"
  "cs_looping (advance g m phase y) = cs_looping y"
  "cs_phase (advance g m phase y) = (cs_phase y)(g :=
     (case fst (m (cs_cc y)) of Ok a \<Rightarrow> phase a | Err e \<Rightarrow> Returned (Err e) | Panic p \<Rightarrow> Returned (Panic p)))"
  by (simp_all add: advance_def Let_def)

lemma client_ok_advance:
  assumes "client_ok y" and "settles (cs_conn y) (cc_conn (snd (m (cs_cc y))))"
    and "\<And>a k p s. fst (m (cs_cc y)) = Ok a \<Longrightarrow> phase a = Waiting k p \<or> phase a = Requesting k s p \<Longrightarrow> asks (cs_phase y) g k p"
  shows "client_ok (advance g m phase y)"
  using assms by (intro client_ok_settled [OF assms(1)]) (auto simp: asks_upd split: if_splits result.splits)

lemma client_ok_ready: "client_ok y \<Longrightarrow> client_tables (cs_conn y)"
  by (simp add: client_ok_def)

lemma settlingD: "settling m \<Longrightarrow> client_tables c \<Longrightarrow> settles c (snd (m c))"
  by (simp add: settling_def)

lemma settles_refl: "client_tables c \<Longrightarrow> settles c c"
  by (simp add: settles_def)

lemma client_ok_open:
  assumes "client_ok y"
  shows "client_ok (advance g (with_cc (open_request amf k)) (\<lambda>(s, p). Requesting k s p) y)"
  using client_ok_ready [OF assms]
proof (cases rule: open_request_result [of "cs_conn y" amf k])
  case failed
  then show ?thesis by (intro client_ok_advance assms) simp_all
next
  case (opened s c1)
  let ?m = "c_streams (cs_conn y)" and ?h = "c_heap (cs_conn y)"
  let ?s = "s\<lparr>str_transactions := fmupd (call_tid k) (length ?h) (str_transactions s)\<rparr>"
  have calls: "requests_ok (cs_phase y) ?m ?h" and wf: "wf_waits ?m ?h" "fmpred stream_ok ?m" "fmpred (\<lambda>_. client_stream) ?m"
    "int (fcard (fmdom ?m)) \<le> max 0 (cfg_MaxMessageStreams (ControlState (c_config (cs_conn y))))"
    using assms by (simp_all add: client_ok_def client_tables_def wf_tables_def tables_def)
  have "stream_ok ControlStreamID ?s" "client_stream ?s"
    using wf(2,3) opened(2) by (auto simp: stream_ok_def client_stream_def dest: fmpredD)
  moreover have "wf_waits (fmupd ControlStreamID ?s ?m) (?h @ [new_transaction])"
  proof -
    have new: "\<not> waits ?m j i (length ?h)" for j i using wf(1) by (auto simp: wf_waits_def)
    have "waits (fmupd ControlStreamID ?s ?m) j i p \<longleftrightarrow>
        (if j = ControlStreamID \<and> i = call_tid k then p = length ?h else waits ?m j i p)" for j i p
      using opened(2) by (auto simp: waits_def)
    then show ?thesis using wf(1) new unfolding wf_waits_def
      by (auto simp: nth_append new_transaction_def split: if_splits intro: less_SucI) 
  qed
  ultimately have "client_tables (snd (open_request amf k (cs_conn y)))"
    using wf opened(1,2,4) by (simp add: client_tables_def wf_tables_def tables_def fcard_finsert_if fmdomI fmpred_upd)
  then show ?thesis
    using requests_ok_opened [OF calls wf(1) opened(2), of g k s new_transaction] opened(4)
    by (simp add: client_ok_def)
qed

lemma client_ok_received:
  assumes "client_ok y"
  shows "client_ok (loop_handles env csid ts cmsg y)"
proof -
  let ?c = "cs_conn y" and ?c' = "snd (handleMessage env csid ts cmsg (cs_conn y))"
  have client_tables: "wf_tables (tables ?c)" "fmpred (\<lambda>_. client_stream) (c_streams ?c)"
    using client_ok_ready [OF assms] by (simp_all add: client_tables_def)
  have wf: "wf_tables (tables ?c')" by (rule handleMessage_tables [OF client_tables(1)])
  have phase: "cs_phase (loop_handles env csid ts cmsg y) = cs_phase y" "cs_conn (loop_handles env csid ts cmsg y) = ?c'"
    by (auto simp: loop_handles_def loop_ends_def startHandleMessageLoop_def recovered_def Let_def split: result.split)
  from client_message [OF client_tables, of env csid ts cmsg] consider "tables ?c' = tables ?c"
    | s name tid enc body p where "fmlookup (c_streams ?c) (cm_StreamID cmsg) = Some s"
        and "c_streams ?c' = fmupd (cm_StreamID cmsg) (s\<lparr>str_transactions := fmdrop tid (str_transactions s)\<rparr>) (c_streams ?c)"
        and "c_heap ?c' = (c_heap ?c)[p := \<lparr>t_commandName = name, t_encoding = enc, t_body = Some body, t_lastErr = None, t_done = True\<rparr>]"
    by blast
  then show ?thesis
  proof cases
    case 1
    then show ?thesis using assms phase by (simp add: client_ok_def client_tables_def tables_def)
  next
    case (2 s name tid enc body p)
    note s = 2(1) and c' = 2(2,3)
    have "client_stream s" using client_tables(2) s by (rule fmpredD)
    then have "client_stream (s\<lparr>str_transactions := fmdrop tid (str_transactions s)\<rparr>)" by (simp add: client_stream_def)
    then have "fmpred (\<lambda>_. client_stream) (c_streams ?c')" unfolding c'(1) using client_tables(2) by (intro fmpred_upd)
    moreover have fewer: "waits (c_streams ?c) j i q" if "waits (c_streams ?c') j i q" for j i q
      using that s by (auto simp: c'(1) waits_def split: if_splits)
    have "requests_ok (cs_phase y) (c_streams ?c') (c_heap ?c')"
      by (rule requests_ok_fewer [of "cs_phase y" "c_streams ?c" "c_heap ?c"])
        (use assms in \<open>simp_all add: client_ok_def fewer c'(2)\<close>)
    ultimately show ?thesis using wf phase by (simp add: client_ok_def client_tables_def)
  qed
qed
lemma settling_answer:
  assumes "client_tables (cc_conn cc)"
  shows "settles (cc_conn cc) (cc_conn (snd (answer_call env k t cc)))"
proof (cases k)
  case (RequestCreateStream sz)
  have "settles (cc_conn cc) (snd (streams_Create i (cc_conn cc)))" for i
    using settlingD [OF settling_create assms] .
  then show ?thesis using RequestCreateStream settles_refl [OF assms]
    by (auto simp: ClientConn_CreateStream_answer_def bind_io_def pure_io_def with_cc_def return_io_def split: result.split prod.split)
qed (use settles_refl [OF assms] in \<open>auto simp: bind_io_def pure_io_def return_io_def split: result.split\<close>)

lemma client_ok_loop_ends:
  assumes "client_ok y" and "\<And>p. r \<noteq> Panic p"
  shows "client_ok (loop_ends r (cs_conn y) y)"
  using assms by (cases r) (auto simp: client_ok_def loop_ends_def startHandleMessageLoop_def)

lemma client_step_ok:
  assumes "client_step env ev y = Some y'" and ok: "client_ok y"
  shows "client_ok y'"
proof (cases ev)
  case (Begin g k)
  then have "y' = advance g (pure_io (controllable (cs_cc y))) (\<lambda>_. Admitted k) y"
    using assms(1) by (auto simp: Let_def split: clientPhase.splits)
  then show ?thesis using settles_refl [OF client_ok_ready [OF ok]]
    by (auto intro!: client_ok_advance ok simp: pure_io_def)
next
  case (Open g)
  have removal: "client_ok (advance g (with_cc (open_removal target)) (\<lambda>s. Removing s target) y)" for target
    using settlingD [OF settling_removal client_ok_ready [OF ok]] by (intro client_ok_advance ok) auto
  show ?thesis
    using assms(1) Open removal client_ok_open [OF ok] by (auto split: clientPhase.splits clientCall.splits)
next
  case (Send g)
  have "settles (cs_conn y) (snd (write_request (e_amf env) k s (cs_conn y)))" for k s
    by (rule settlingD [OF settling_write_request client_ok_ready [OF ok]])
  then show ?thesis
    using assms(1) Send by (auto intro!: client_ok_advance ok simp: asks_def simp del: write_request.simps split: clientPhase.splits)
next
  case (Wake g)
  then show ?thesis
    using assms(1) settling_answer [OF client_ok_ready [OF ok]]
    by (auto intro!: client_ok_advance ok simp del: answer_call.simps split: clientPhase.splits if_splits)
next
  case (Forget g)
  then show ?thesis
    using assms(1) settlingD [OF settling_delete client_ok_ready [OF ok]]
    by (auto intro!: client_ok_advance ok split: clientPhase.splits)
next
  case (MessageRead csid ts cmsg)
  then show ?thesis using assms(1) client_ok_received [OF ok] by (auto split: if_splits)
next
  case (LoopReturned e)
  then show ?thesis using assms(1) client_ok_loop_ends [OF ok] by (auto split: if_splits option.splits)
next
  case (Streamed s csid ts msg)
  have "tables (snd (stream_Write (e_amf env) s csid ts msg c)) = tables c" for c :: "'a connState"
    by (rule tables_same, rule stream_Write_same)
  then have "settles (cs_conn y) (cs_conn y')"
    using assms(1) Streamed client_ok_ready [OF ok] by (auto simp: settles_def client_tables_def tables_def)
  then show ?thesis using assms(1) Streamed by (intro client_ok_settled [OF ok]) auto
qed

lemma client_run_append:
  "client_run env (evs @ evs') y = Option.bind (client_run env evs y) (client_run env evs')"
  by (induction evs arbitrary: y) (auto split: Option.bind_splits)

lemma client_run_ok:
  "client_run env evs y = Some y' \<Longrightarrow> client_ok y \<Longrightarrow> client_ok y'"
  by (induction evs arbitrary: y) (auto dest: client_step_ok split: Option.bind_splits)
section \<open>Waiting\<close>

text \<open>Only its own step ends a wait.\<close>

lemma waiting_stays:
  assumes "client_step env ev y = Some y'" and "ev \<noteq> Wake g" and "cs_phase y g = Waiting k p"
  shows "cs_phase y' g = Waiting k p"
  using assms
  by (cases ev) (auto simp: Let_def loop_handles_def loop_ends_def split: clientPhase.splits clientCall.splits if_splits result.splits)

lemma heap_grows:
  assumes "client_step env ev y = Some y'" and ok: "client_ok y" and "\<And>csid ts cmsg. ev \<noteq> MessageRead csid ts cmsg"
  shows "\<exists>new. c_heap (cs_conn y') = c_heap (cs_conn y) @ new"
proof -
  have same: "c_heap (snd (m (cs_conn y))) = c_heap (cs_conn y)" if "settling m" for m :: "('a connState, 'v) io"
    using settlingD [OF that client_ok_ready [OF ok]] by (simp add: settles_def)
  show ?thesis
  proof (cases ev)
    case (Begin g k)
    then show ?thesis using assms(1) by (auto simp: Let_def pure_io_def split: clientPhase.splits)
  next
    case (Open g)
    have opened: "\<exists>new. c_heap (snd (open_request (e_amf env) k (cs_conn y))) = c_heap (cs_conn y) @ new" for k
      using client_ok_ready [OF ok] by (cases rule: open_request_result [of _ "e_amf env" k]) (auto simp: settles_def)
    show ?thesis
      using assms(1) Open opened same [OF settling_removal] by (auto split: clientPhase.splits clientCall.splits)
  next
    case (Send g)
    then show ?thesis
      using assms(1) same [OF settling_write_request] by (auto simp del: write_request.simps split: clientPhase.splits)
  next
    case (Wake g)
    then show ?thesis
      using assms(1) settling_answer [OF client_ok_ready [OF ok]]
      by (auto simp: settles_def simp del: answer_call.simps split: clientPhase.splits if_splits)
  next
    case (Forget g)
    then show ?thesis using assms(1) same [OF settling_delete] by (auto split: clientPhase.splits)
  next
    case (LoopReturned e)
    then show ?thesis
      using assms(1) by (auto simp: loop_ends_def startHandleMessageLoop_def split: if_splits option.splits)
  next
    case (Streamed s csid ts msg)
    have "settling (stream_Write (e_amf env) s csid ts msg)"
      by (rule settling_tables, rule tables_same, rule stream_Write_same)
    from same [OF this] show ?thesis using assms(1) Streamed by auto
  qed (use assms(3) in auto)
qed

text \<open>
  A message resolves no transaction, or the one of its ID on its stream; whoever waits for that
  asked for it there.
\<close>

lemma received_heap:
  assumes "client_step env (MessageRead csid ts cmsg) y = Some y'" and ok: "client_ok y"
  shows "c_heap (cs_conn y') = c_heap (cs_conn y) \<or>
    (\<exists>name tid enc body p. cm_Message cmsg = MsgCommandMessage name tid enc body \<and> (name = ''_result'' \<or> name = ''_error'')
      \<and> p < length (c_heap (cs_conn y)) \<and> \<not> t_done (c_heap (cs_conn y) ! p)
      \<and> (\<forall>g k. asks (cs_phase y) g k p \<longrightarrow> cm_StreamID cmsg = ControlStreamID \<and> tid = call_tid k)
      \<and> c_heap (cs_conn y') = (c_heap (cs_conn y))[p :=
          \<lparr>t_commandName = name, t_encoding = enc, t_body = Some body, t_lastErr = None, t_done = True\<rparr>])"
proof -
  let ?c = "cs_conn y" and ?c' = "snd (handleMessage env csid ts cmsg (cs_conn y))"
  have client_tables: "wf_tables (tables ?c)" "fmpred (\<lambda>_. client_stream) (c_streams ?c)" and wf: "wf_waits (c_streams ?c) (c_heap ?c)"
    and calls: "requests_ok (cs_phase y) (c_streams ?c) (c_heap ?c)"
    using ok by (simp_all add: client_ok_def client_tables_def wf_tables_def tables_def)
  have conn: "cs_conn y' = ?c'"
    using assms(1) by (auto simp: loop_handles_def loop_ends_def startHandleMessageLoop_def recovered_def Let_def
        split: if_splits result.splits)
  consider "tables ?c' = tables ?c"
    | name tid enc body p where "cm_Message cmsg = MsgCommandMessage name tid enc body" and "name = ''_result'' \<or> name = ''_error''"
        and "waits (c_streams ?c) (cm_StreamID cmsg) tid p"
        and "c_heap ?c' = (c_heap ?c)[p := \<lparr>t_commandName = name, t_encoding = enc, t_body = Some body, t_lastErr = None, t_done = True\<rparr>]"
    using client_message [OF client_tables, of env csid ts cmsg] unfolding waits_def by blast
  then show ?thesis
  proof cases
    case 1
    then show ?thesis by (simp add: conn tables_def)
  next
    case (2 name tid enc body p)
    have "p < length (c_heap ?c)" "\<not> t_done (c_heap ?c ! p)" using 2(3) wf unfolding wf_waits_def by blast+
    moreover have "cm_StreamID cmsg = ControlStreamID \<and> tid = call_tid k" if "asks (cs_phase y) g k p" for g k
      using calls that 2(3) unfolding requests_ok_def by blast
    ultimately show ?thesis using 2(1,2,4)
      by (intro disjI2 exI [of _ name] exI [of _ tid] exI [of _ enc] exI [of _ body] exI [of _ p]) (simp add: conn)
  qed
qed
lemma heap_length:
  assumes "client_step env ev y = Some y'" and "client_ok y"
  shows "length (c_heap (cs_conn y)) \<le> length (c_heap (cs_conn y'))"
  using heap_grows [OF assms] received_heap [of env _ _ _ y y'] assms by (cases ev) fastforce+

text \<open>A resolved transaction does not change any more.\<close>

lemma done_stays:
  assumes "client_step env ev y = Some y'" and "client_ok y" and "p < length (c_heap (cs_conn y))" and "t_done (c_heap (cs_conn y) ! p)"
  shows "c_heap (cs_conn y') ! p = c_heap (cs_conn y) ! p"
proof (cases "\<exists>csid ts cmsg. ev = MessageRead csid ts cmsg")
  case True
  then obtain csid ts cmsg where "ev = MessageRead csid ts cmsg" by blast
  with received_heap [of env csid ts cmsg y y'] assms show ?thesis by (auto simp: nth_list_update)
next
  case False
  then obtain new where "c_heap (cs_conn y') = c_heap (cs_conn y) @ new" using heap_grows [OF assms(1,2)] by blast
  then show ?thesis using assms(3) by (simp add: nth_append)
qed

lemma answered_stays:
  assumes "client_run env evs y = Some y'" and "client_ok y" and "Wake g \<notin> set evs"
    and "cs_phase y g = Waiting k p" and "t_done (c_heap (cs_conn y) ! p)"
  shows "cs_phase y' g = Waiting k p" and "c_heap (cs_conn y') ! p = c_heap (cs_conn y) ! p"
proof -
  have "cs_phase y' g = Waiting k p \<and> c_heap (cs_conn y') ! p = c_heap (cs_conn y) ! p"
    using assms
  proof (induction evs arbitrary: y)
    case (Cons ev evs)
    then obtain y1 where step: "client_step env ev y = Some y1" "client_run env evs y1 = Some y'"
      by (auto split: Option.bind_splits)
    have p: "p < length (c_heap (cs_conn y))"
      using Cons.prems(2,4) by (auto simp: client_ok_def requests_ok_def asks_def)
    have "cs_phase y1 g = Waiting k p" using waiting_stays [OF step(1)] Cons.prems by auto
    moreover have "c_heap (cs_conn y1) ! p = c_heap (cs_conn y) ! p" by (rule done_stays [OF step(1) Cons.prems(2) p Cons.prems(5)])
    ultimately show ?case using Cons.IH [OF step(2) client_step_ok [OF step(1) Cons.prems(2)]] Cons.prems by simp
  qed auto
  then show "cs_phase y' g = Waiting k p" "c_heap (cs_conn y') ! p = c_heap (cs_conn y) ! p" by blast+
qed

text \<open>Without the loop nothing is resolved any more: who waits for an answer waits for ever.\<close>

lemma loop_stays_ended: "client_step env ev y = Some y' \<Longrightarrow> \<not> cs_looping y \<Longrightarrow> \<not> cs_looping y'"
  by (cases ev) (auto simp: Let_def split: clientPhase.splits clientCall.splits if_splits)

definition stranded :: "nat \<Rightarrow> 'u clientSystem \<Rightarrow> bool" where
  "stranded g y \<longleftrightarrow> \<not> cs_looping y \<and> (\<exists>k p. cs_phase y g = Waiting k p \<and> \<not> t_done (c_heap (cs_conn y) ! p))"

lemma stranded_step:
  assumes "client_step env ev y = Some y'" and "client_ok y" and "stranded g y"
  shows "stranded g y'" and "ev \<noteq> Wake g"
proof -
  obtain k p where w: "cs_phase y g = Waiting k p" "\<not> t_done (c_heap (cs_conn y) ! p)" and ended: "\<not> cs_looping y"
    using assms(3) by (auto simp: stranded_def)
  show ev: "ev \<noteq> Wake g" using w assms(1) by auto
  have p: "p < length (c_heap (cs_conn y))" using assms(2) w by (auto simp: client_ok_def requests_ok_def asks_def)
  have "ev \<noteq> MessageRead csid ts cmsg" for csid ts cmsg using assms(1) ended by auto
  then obtain new where "c_heap (cs_conn y') = c_heap (cs_conn y) @ new" using heap_grows [OF assms(1,2)] by blast
  then show "stranded g y'"
    using waiting_stays [OF assms(1) ev w(1)] w(2) p loop_stays_ended [OF assms(1) ended] by (simp add: stranded_def nth_append)
qed

lemma stranded_run:
  "client_run env evs y = Some y' \<Longrightarrow> client_ok y \<Longrightarrow> stranded g y \<Longrightarrow> stranded g y' \<and> Wake g \<notin> set evs"
proof (induction evs arbitrary: y)
  case (Cons ev evs)
  then obtain y1 where step: "client_step env ev y = Some y1" "client_run env evs y1 = Some y'"
    by (auto split: Option.bind_splits)
  show ?case
    using Cons.IH [OF step(2) client_step_ok [OF step(1) Cons.prems(2)]] stranded_step [OF step(1) Cons.prems(2,3)] by auto
qed simp

lemma stranded_waits: "stranded g y \<Longrightarrow> client_step env (Wake g) y = None"
  by (auto simp: stranded_def)

end
