(* ===== verification/Exchange.thy ===== *)
theory Exchange
  imports Conn_Properties
begin

text \<open>
  A client and a server of this library talking to each other: what \<^verbatim>\<open>Connect\<close> and
  \<^verbatim>\<open>CreateStream\<close> send, what the server does with it and answers, and what the waiting call
  returns. That the chunk layer carries the messages over is C1; here they only go through the
  message encoder of the one side and the decoder of the other.
\<close>

section \<open>The transport\<close>

definition relay :: "amf0 \<Rightarrow> message \<Rightarrow> message option" where
  "relay amf msg =
     (case message_TypeID msg of
        Ok ty \<Rightarrow>
          (case message_Encode amf msg [] of
             (Ok _, bs) \<Rightarrow> (case fst (message_Decode amf ty bs) of Ok m \<Rightarrow> Some m | _ \<Rightarrow> None)
           | _ \<Rightarrow> None)
      | _ \<Rightarrow> None)"

fun deliver :: "'u env \<Rightarrow> (int \<times> uint32 \<times> uint32 \<times> message) list \<Rightarrow> ('u connState, unit) io" where
  "deliver env [] = return_io ()"
| "deliver env ((csid, ts, sid, msg) # ms) =
     (case relay (e_amf env) msg of
        Some m \<Rightarrow> bind_io (handleMessage env csid ts \<lparr>cm_StreamID = sid, cm_Message = m\<rparr>) (\<lambda>_. deliver env ms)
      | None \<Rightarrow> panic_io ''lost'')"

text \<open>What a side has sent since an earlier state.\<close>

definition sent_since :: "'u connState \<Rightarrow> 'u connState \<Rightarrow> (int \<times> uint32 \<times> uint32 \<times> message) list" where
  "sent_since c c' = drop (length (c_sent c)) (c_sent c')"

lemma relay_same:
  assumes "message_Encode amf msg [] = (Ok (), bs)" and "message_TypeID msg = Ok ty" and "amf_fits amf msg"
  shows "relay amf msg = Some msg"
  using decode_encoded [OF assms] assms(1,2) by (simp add: relay_def)

lemma deliver_step:
  assumes "relay (e_amf env) msg = Some m"
    and "handleMessage env csid ts \<lparr>cm_StreamID = sid, cm_Message = m\<rparr> c = (Ok (), c')"
  shows "deliver env ((csid, ts, sid, msg) # ms) c = deliver env ms c'"
  using assms by (simp add: bind_io_def)

lemma relay_control [simp]:
  "relay amf (MsgWinAckSize sz) = Some (MsgWinAckSize sz)"
  "relay amf (MsgSetPeerBandwidth sz limit) = Some (MsgSetPeerBandwidth sz limit)"
  "relay amf (MsgUserCtrl (UserCtrlEventStreamBegin k)) = Some (MsgUserCtrl (UserCtrlEventStreamBegin k))"
  by (rule relay_same; simp add: encodeWinAckSize_def encodeSetPeerBandwidth_def encodeUserCtrl_def encodeStreamBegin_def
      buf_Write_def)+

lemma relay_chunk_size: "0 < sz \<Longrightarrow> sz \<le> 0x7fffffff \<Longrightarrow> relay amf (MsgSetChunkSize sz) = Some (MsgSetChunkSize sz)"
  by (rule relay_same) (auto simp: encodeSetChunkSize_def chunk_size_bits buf_Write_def)

section \<open>The codec\<close>

text \<open>
  What is relied on of the AMF0 codec: strings, integers and nil encode, and decode to
  themselves. AMF0 has a double for every number, which holds integers below \<open>2 ^ 53\<close>.
\<close>

definition speaks :: "amf0 \<Rightarrow> bool" where
  "speaks amf \<longleftrightarrow> amf_nil_ok amf \<and> (\<exists>bs. amf_encode amf GoNil = Ok bs)
     \<and> (\<forall>s. length s < 65536 \<longrightarrow> amf_string_ok amf s \<and> (\<exists>bs. amf_encode amf (GoString s) = Ok bs))
     \<and> (\<forall>i. 0 \<le> sint i \<and> sint i < 2 ^ 53 \<longrightarrow> amf_int64_ok amf i \<and> (\<exists>bs. amf_encode amf (GoInt64 i) = Ok bs))
     \<and> (\<forall>i. amf_uint32_ok amf i \<and> (\<exists>bs. amf_encode amf (GoUint32 i) = Ok bs))"

text \<open>The two objects of an answer to \<^verbatim>\<open>connect\<close>, of which the client makes structs again.\<close>

definition result_carried :: "amf0 \<Rightarrow> mapstructure \<Rightarrow> NetConnectionConnectResultProperties
    \<Rightarrow> NetConnectionConnectResultInformation \<Rightarrow> bool" where
  "result_carried amf ms p i \<longleftrightarrow>
     (\<exists>xs. amf_encode amf (properties_value p) = Ok xs
       \<and> (\<forall>rest. \<exists>m. amf_decode_value amf (xs @ rest) = (Ok (GoMap m), rest) \<and> ms_properties ms m = Ok p))
     \<and> (\<exists>ys. amf_encode amf (information_value i) = Ok ys
       \<and> (\<forall>rest. \<exists>m. amf_decode_value amf (ys @ rest) = (Ok (GoMap m), rest) \<and> ms_information ms m = Ok i))"

definition command_carried :: "amf0 \<Rightarrow> mapstructure \<Rightarrow> NetConnectionConnectCommand \<Rightarrow> bool" where
  "command_carried amf ms cmd \<longleftrightarrow> (\<exists>bs. amf_encode amf (command_value cmd) = Ok bs) \<and> amf_command_ok amf ms cmd"

lemma speaks_names:
  assumes "speaks amf" and "length name < 65536" and "0 \<le> sint tid" and "sint tid < 2 ^ 53"
  shows "\<exists>n. amf_encode amf (GoString name) = Ok n" and "\<exists>t. amf_encode amf (GoInt64 tid) = Ok t"
    and "amf_string_ok amf name" and "amf_int64_ok amf tid"
  using assms unfolding speaks_def by blast+

lemma relay_command:
  assumes "speaks amf" and "length name < 65536" and "0 \<le> sint tid" and "sint tid < 2 ^ 53"
  shows "relay amf (MsgCommandMessage name tid EncodingTypeAMF0 body) = Some (MsgCommandMessage name tid EncodingTypeAMF0 body)"
proof -
  obtain n t where "amf_encode amf (GoString name) = Ok n" "amf_encode amf (GoInt64 tid) = Ok t"
    using speaks_names [OF assms] by blast
  then show ?thesis
    using speaks_names(3,4) [OF assms] by (intro relay_same) (auto simp: encodeCommandMessage_Ok)
qed

lemma body_encodes:
  assumes "speaks amf"
  shows "\<exists>bs. EncodeBodyAnyValues amf (Some NetConnectionCreateStream) [] = (Ok (), bs)"
    and "\<exists>bs. EncodeBodyAnyValues amf (Some (NetConnectionCreateStreamResult k)) [] = (Ok (), bs)"
    and "command_carried amf ms cmd \<Longrightarrow> \<exists>bs. EncodeBodyAnyValues amf (Some (NetConnectionConnect cmd)) [] = (Ok (), bs)"
    and "result_carried amf ms p i \<Longrightarrow> \<exists>bs. EncodeBodyAnyValues amf (Some (NetConnectionConnectResult p i)) [] = (Ok (), bs)"
    and "length name < 65536 \<Longrightarrow> length ty < 65536 \<Longrightarrow>
      \<exists>bs. EncodeBodyAnyValues amf (Some (NetStreamPublish name ty)) [] = (Ok (), bs)"
proof -
  show "\<exists>bs. EncodeBodyAnyValues amf (Some (NetStreamPublish name ty)) [] = (Ok (), bs)" if n: "length name < 65536" "length ty < 65536"
  proof -
    obtain xs ys zs where "amf_encode amf GoNil = Ok xs" "amf_encode amf (GoString name) = Ok ys" "amf_encode amf (GoString ty) = Ok zs"
      using assms speaks_names(1) [OF assms n(1), of 0] speaks_names(1) [OF assms n(2), of 0] by (auto simp: speaks_def)
    then show ?thesis by (simp add: EncodeBodyAnyValues_def bind_io_def encodeArgs_Ok)
  qed
qed (use assms in \<open>auto simp: speaks_def command_carried_def result_carried_def EncodeBodyAnyValues_def bind_io_def encodeArgs_Ok
      dest!: spec [of _ k]\<close>)

section \<open>Requests and answers\<close>

text \<open>A transaction is opened and its request queued.\<close>

definition awaiting :: "int64 \<Rightarrow> Stream \<Rightarrow> 'u connState \<Rightarrow> 'u connState" where
  "awaiting tid s c = c\<lparr>c_streams := fmupd (str_streamID s)
       (s\<lparr>str_transactions := fmupd tid (length (c_heap c)) (str_transactions s)\<rparr>) (c_streams c),
     c_heap := c_heap c @ [new_transaction]\<rparr>"

lemma awaiting_simps [simp]:
  "fmlookup (c_streams (awaiting tid s c)) (str_streamID s) =
     Some (s\<lparr>str_transactions := fmupd tid (length (c_heap c)) (str_transactions s)\<rparr>)"
  "c_heap (awaiting tid s c) = c_heap c @ [new_transaction]" "c_faults (awaiting tid s c) = c_faults c"
  "c_sent (awaiting tid s c) = c_sent c" "c_peer (awaiting tid s c) = c_peer c" "c_self (awaiting tid s c) = c_self c"
  "c_config (awaiting tid s c) = c_config c" "c_user (awaiting tid s c) = c_user c"
  by (simp_all add: awaiting_def)

lemma awaiting_said: "awaiting tid s (said ms c) = said ms (awaiting tid s c)"
  by (simp add: awaiting_def said_def)

lemma request_sent:
  assumes can: "fmlookup (c_streams c) (str_streamID s) = Some s" "str_encTy s = EncodingTypeAMF0" "c_faults c = []"
    and free: "fmlookup (str_transactions s) tid = None"
    and body: "EncodeBodyAnyValues amf body [] = (Ok (), bs)"
    and amf: "speaks amf" "length name < 65536" "0 \<le> sint tid" "sint tid < 2 ^ 53"
  shows "bind_io (with_transactions (str_streamID s) (transactions_Create tid)) (\<lambda>p.
      bind_io (writeCommandMessage amf s 3 0 name tid body) (\<lambda>_. return_io p)) c =
    (Ok (length (c_heap c)),
     said [(3, 0, str_streamID s, MsgCommandMessage name tid EncodingTypeAMF0 bs)] (awaiting tid s c))"
proof -
  obtain n t where nt: "amf_encode amf (GoString name) = Ok n" "amf_encode amf (GoInt64 tid) = Ok t"
    using speaks_names [OF amf] by blast
  have "with_transactions (str_streamID s) (transactions_Create tid) c = (Ok (length (c_heap c)), awaiting tid s c)"
    using can(1) free by (simp add: with_transactions_def transactions_Create_def Let_def awaiting_def)
  then show ?thesis
    using command_writes [OF _ can(2) body nt, of "awaiting tid s c"] can(3) by (simp add: bind_io_def)
qed

lemma answer_received:
  assumes s: "fmlookup (c_streams c) sid = Some s" "str_streamID s = sid" "fmlookup (str_transactions s) tid = Some p"
    and p: "p < length (c_heap c)" "\<not> t_done (c_heap c ! p)" and name: "name = ''_result'' \<or> name = ''_error''"
  shows "\<exists>c'. handleMessage env csid ts \<lparr>cm_StreamID = sid, cm_Message = MsgCommandMessage name tid enc body\<rparr> c = (Ok (), c')
    \<and> c_heap c' ! p = \<lparr>t_commandName = name, t_encoding = enc, t_body = Some body, t_lastErr = None, t_done = True\<rparr>
    \<and> c_streams c' = fmupd sid (s\<lparr>str_transactions := fmdrop tid (str_transactions s)\<rparr>) (c_streams c)
    \<and> c_peer c' = c_peer c \<and> c_self c' = c_self c \<and> c_config c' = c_config c \<and> c_faults c' = c_faults c"
proof -
  let ?t = "\<lparr>t_commandName = name, t_encoding = enc, t_body = Some body, t_lastErr = None, t_done = True\<rparr>"
  let ?c' = "c\<lparr>c_streams := fmupd sid (s\<lparr>str_transactions := fmdrop tid (str_transactions s)\<rparr>) (c_streams c),
    c_heap := (c_heap c)[p := ?t]\<rparr>"
  have "transaction_Reply name enc body p (c_heap c) = (Ok (), (c_heap c)[p := ?t])"
    using p by (simp add: transaction_Reply_def Let_def) (cases "c_heap c ! p", simp)
  then have "stream_handle env s csid ts (MsgCommandMessage name tid enc body) c = (Ok (), ?c')"
    using name s by (auto simp: stream_handle_def handleCommand_def with_transactions_def handleReply_def transactions_At_def
        transactions_Delete_def bind_io_def wrap_io_def Let_def)
  then have "handleMessage env csid ts \<lparr>cm_StreamID = sid, cm_Message = MsgCommandMessage name tid enc body\<rparr> c = (Ok (), ?c')"
    using s by (intro handleMessage_at [where s = s]) simp_all
  then show ?thesis using p by (intro exI [of _ ?c']) simp
qed

text \<open>What the waiting call makes of the answer.\<close>

lemma connect_result_read:
  assumes "EncodeBodyAnyValues amf (Some (NetConnectionConnectResult p i)) [] = (Ok (), bs)" and "result_carried amf ms p i"
    and "t_encoding t = EncodingTypeAMF0" and "t_body t = Some bs" and "t_commandName t \<noteq> ''_error''"
  shows "Connect_answer amf ms t = Ok (NetConnectionConnectResult p i)"
proof -
  obtain xs ys where e: "amf_encode amf (properties_value p) = Ok xs" "amf_encode amf (information_value i) = Ok ys"
    and d: "\<And>rest. \<exists>m. amf_decode_value amf (xs @ rest) = (Ok (GoMap m), rest) \<and> ms_properties ms m = Ok p"
      "\<And>rest. \<exists>m. amf_decode_value amf (ys @ rest) = (Ok (GoMap m), rest) \<and> ms_information ms m = Ok i"
    using assms(2) unfolding result_carried_def by blast
  have bs: "bs = xs @ ys" using assms(1) e by (simp add: EncodeBodyAnyValues_def bind_io_def encodeArgs_Ok)
  obtain m where m: "amf_decode_value amf (xs @ ys) = (Ok (GoMap m), ys)" "ms_properties ms m = Ok p" using d(1) by blast
  obtain n where n: "amf_decode_value amf ys = (Ok (GoMap n), [])" "ms_information ms n = Ok i"
    using d(2) [of "[]"] by auto
  show ?thesis
    using assms(3-5) m n bs
    by (simp add: Connect_answer_def NewAMFDecoder_def DecodeBodyConnectResult_def io_simps bind_result_def wrap_result_def)
qed

lemma create_stream_result_read:
  assumes "EncodeBodyAnyValues amf (Some (NetConnectionCreateStreamResult k)) [] = (Ok (), bs)" and "speaks amf"
    and "t_encoding t = EncodingTypeAMF0" and "t_body t = Some bs" and "t_commandName t \<noteq> ''_error''"
  shows "CreateStream_answer amf t = Ok k"
proof -
  obtain xs ys where e: "amf_encode amf GoNil = Ok xs" "amf_encode amf (GoUint32 k) = Ok ys"
    using assms(2) unfolding speaks_def by meson
  have bs: "bs = xs @ ys" using assms(1) e by (simp add: EncodeBodyAnyValues_def bind_io_def encodeArgs_Ok)
  obtain v where v: "amf_decode_value amf (xs @ ys) = (Ok v, ys)"
    using assms(2) e(1) unfolding speaks_def amf_nil_ok_def by blast
  have "amf_decode_uint32 amf ys = (Ok k, [])"
    using assms(2) e(2) unfolding speaks_def amf_uint32_ok_def by (metis append_Nil2)
  then show ?thesis
    using assms(3-5) v bs
    by (simp add: CreateStream_answer_def NewAMFDecoder_def DecodeBodyCreateStreamResult_def io_simps bind_result_def wrap_result_def)
qed

section \<open>\<^verbatim>\<open>Connect\<close>\<close>

text \<open>A client ignores the messages its handler does not know.\<close>

lemma client_ignores:
  assumes "fmlookup (c_streams c) sid = Some s" and "str_handler s = Some clientControlNotConnectedHandler"
    and "OnUnknownMessage (e_handler env) ts msg (c_user c) = (Ok (), c_user c)"
    and "(\<exists>sz l. msg = MsgSetPeerBandwidth sz l) \<or> (\<exists>e. msg = MsgUserCtrl e)"
  shows "handleMessage env csid ts \<lparr>cm_StreamID = sid, cm_Message = msg\<rparr> c = (Ok (), c)"
  using assms by (intro handleMessage_at [where s = s])
    (auto simp: stream_handle_def onMessage_def or_else_def with_user_def)

lemma client_window:
  assumes "fmlookup (c_streams c) sid = Some s" and "\<not> cfg_MaxAckWindowSize (scs_config (c_peer c)) <s sz"
  shows "handleMessage env csid ts \<lparr>cm_StreamID = sid, cm_Message = MsgWinAckSize sz\<rparr> c =
    (Ok (), c\<lparr>c_peer := (c_peer c)\<lparr>ackWindowSize := sz\<rparr>\<rparr>)"
  using assms by (intro handleMessage_at [where s = s])
    (auto simp: stream_handle_def with_peer_def SetAckWindowSize_def)

lemma sent_since_said [simp]: "c_sent c' = c_sent c \<Longrightarrow> sent_since c (said ms c') = ms"
  by (simp add: sent_since_def)

lemma sent_since_update [simp]: "sent_since c (update_stream sid f c') = sent_since c c'"
  by (simp add: sent_since_def update_stream_def split: option.split)

lemma update_stream_streams:
  "fmlookup (c_streams c) k = Some s \<Longrightarrow> c_streams (update_stream k f c) = fmupd k (f s) (c_streams c)"
  by (simp add: update_stream_def)

text \<open>The server's side of an accepted \<^verbatim>\<open>connect\<close>.\<close>

lemma server_connects:
  assumes amf: "speaks (e_amf es)" and can: "can_send es d t" and st: "str_state t = streamStateServerNotConnected"
    and cmd: "EncodeBodyAnyValues (e_amf es) (Some (NetConnectionConnect cmd)) [] = (Ok (), xs)"
      "command_carried (e_amf es) (e_ms es) cmd"
    and user: "OnConnect (e_handler es) 0 cmd (c_user d) = (Ok (), u)"
    and reply: "EncodeBodyAnyValues (e_amf es) (Some (NetConnectionConnectResult (RPresetProperties (c_config d))
        (newConnectSuccessResult d))) [] = (Ok (), ys)"
  shows "deliver es [(3, 0, str_streamID t, MsgCommandMessage ''connect'' 1 EncodingTypeAMF0 xs)] d =
    (Ok (), update_stream (str_streamID t) (in_state streamStateServerConnected) (said
         [(2, 0, str_streamID t, MsgWinAckSize (ackWindowSize (c_self d))),
          (2, 0, str_streamID t, MsgSetPeerBandwidth (bandwidthWindowSize (c_self d)) (bandwidthLimitType (c_self d))),
          (2, 0, str_streamID t, MsgUserCtrl (UserCtrlEventStreamBegin (str_streamID t))),
          (3, 0, str_streamID t, MsgCommandMessage ''_result'' 1 EncodingTypeAMF0 ys)] (d\<lparr>c_user := u\<rparr>)))"
proof -
  obtain nb tb where nb: "amf_encode (e_amf es) (GoString ''_result'') = Ok nb" "amf_encode (e_amf es) (GoInt64 1) = Ok tb"
    using speaks_names [OF amf, of "''_result''" 1] by auto
  have "CmdBodyDecoderFor (e_amf es) (e_ms es) ''connect'' 1 xs = (Ok (NetConnectionConnect cmd), [])"
    using body_roundtrip [OF _ cmd(1), of "''connect''" "e_ms es" 1] cmd(2) by (simp add: command_carried_def)
  then have handle: "stream_handle es t 3 0 (MsgCommandMessage ''connect'' 1 EncodingTypeAMF0 xs) d =
    (Ok (), update_stream (str_streamID t) (in_state streamStateServerConnected) (said
         [(2, 0, str_streamID t, MsgWinAckSize (ackWindowSize (c_self d))),
          (2, 0, str_streamID t, MsgSetPeerBandwidth (bandwidthWindowSize (c_self d)) (bandwidthLimitType (c_self d))),
          (2, 0, str_streamID t, MsgUserCtrl (UserCtrlEventStreamBegin (str_streamID t))),
          (3, 0, str_streamID t, MsgCommandMessage ''_result'' 1 EncodingTypeAMF0 ys)] (d\<lparr>c_user := u\<rparr>)))"
    by (simp add: handle_command or_else_def connect_accept [OF can st user reply nb])
  show ?thesis
    by (subst deliver_step, rule relay_command, use amf in simp_all, rule handleMessage_at [where s = t])
      (use can handle in \<open>simp_all add: can_send_def\<close>)
qed

text \<open>The client's side of the answer.\<close>

lemma client_connected:
  assumes amf: "speaks (e_amf ec)" and s: "fmlookup (c_streams c) (str_streamID s) = Some s"
    "str_handler s = Some clientControlNotConnectedHandler"
    and quiet: "\<And>msg. OnUnknownMessage (e_handler ec) 0 msg (c_user c) = (Ok (), c_user c)"
    and win: "\<not> cfg_MaxAckWindowSize (scs_config (c_peer c)) <s win"
  shows "\<exists>c'. deliver ec
      [(2, 0, str_streamID s, MsgWinAckSize win), (2, 0, str_streamID s, MsgSetPeerBandwidth bw limit),
       (2, 0, str_streamID s, MsgUserCtrl (UserCtrlEventStreamBegin k)),
       (3, 0, str_streamID s, MsgCommandMessage ''_result'' 1 EncodingTypeAMF0 ys)] (said ms (awaiting 1 s c)) = (Ok (), c')
    \<and> c_heap c' ! length (c_heap c) = \<lparr>t_commandName = ''_result'', t_encoding = EncodingTypeAMF0, t_body = Some ys,
        t_lastErr = None, t_done = True\<rparr>
    \<and> ackWindowSize (c_peer c') = win
    \<and> c_streams c' = fmupd (str_streamID s) (s\<lparr>str_transactions := fmdrop 1 (str_transactions s)\<rparr>) (c_streams c)
    \<and> c_self c' = c_self c \<and> c_config c' = c_config c \<and> c_faults c' = c_faults c"
proof -
  let ?s = "s\<lparr>str_transactions := fmupd 1 (length (c_heap c)) (str_transactions s)\<rparr>"
  let ?c1 = "said ms (awaiting 1 s c)"
  let ?c2 = "?c1\<lparr>c_peer := (c_peer c)\<lparr>ackWindowSize := win\<rparr>\<rparr>"
  have look: "fmlookup (c_streams ?c1) (str_streamID s) = Some ?s" "fmlookup (c_streams ?c2) (str_streamID s) = Some ?s"
    by simp_all
  have 1: "handleMessage ec 2 0 \<lparr>cm_StreamID = str_streamID s, cm_Message = MsgWinAckSize win\<rparr> ?c1 = (Ok (), ?c2)"
    using client_window [OF look(1)] win by simp
  have 2: "handleMessage ec 2 0 \<lparr>cm_StreamID = str_streamID s, cm_Message = msg\<rparr> ?c2 = (Ok (), ?c2)"
    if "(\<exists>sz l. msg = MsgSetPeerBandwidth sz l) \<or> (\<exists>e. msg = MsgUserCtrl e)" for msg
    using that quiet s(2) by (intro client_ignores [OF look(2)]) simp_all
  obtain c' where 3: "handleMessage ec 3 0 \<lparr>cm_StreamID = str_streamID s,
        cm_Message = MsgCommandMessage ''_result'' 1 EncodingTypeAMF0 ys\<rparr> ?c2 = (Ok (), c')"
      "c_heap c' ! length (c_heap c) = \<lparr>t_commandName = ''_result'', t_encoding = EncodingTypeAMF0, t_body = Some ys,
        t_lastErr = None, t_done = True\<rparr>" "c_peer c' = c_peer ?c2"
      "c_self c' = c_self c" "c_config c' = c_config c" "c_faults c' = c_faults c"
      "c_streams c' = fmupd (str_streamID s) (?s\<lparr>str_transactions := fmdrop 1 (str_transactions ?s)\<rparr>) (c_streams ?c2)"
    using answer_received [OF look(2), of 1 "length (c_heap c)" "''_result''" ec 3 0 EncodingTypeAMF0 ys]
    by (auto simp: new_transaction_def)
  have "fmdrop 1 (fmupd 1 (length (c_heap c)) (str_transactions s)) = fmdrop 1 (str_transactions s)"
    by (rule fmap_ext) simp
  moreover have "deliver ec [(2, 0, str_streamID s, MsgWinAckSize win), (2, 0, str_streamID s, MsgSetPeerBandwidth bw limit),
       (2, 0, str_streamID s, MsgUserCtrl (UserCtrlEventStreamBegin k)),
       (3, 0, str_streamID s, MsgCommandMessage ''_result'' 1 EncodingTypeAMF0 ys)] ?c1 = (Ok (), c')"
    using 1 2 3(1) relay_command [OF amf, of "''_result''" 1 ys] by (simp add: bind_io_def)
  moreover have "fmupd (str_streamID s) x (fmupd (str_streamID s) y m) = fmupd (str_streamID s) x m" for x y and m :: "(uint32, Stream) fmap"
    by (rule fmap_ext) simp
  ultimately show ?thesis using 3(2-7) by (intro exI [of _ c']) (simp add: awaiting_def)
qed

text \<open>
  \<^verbatim>\<open>Connect\<close> of a client against a server whose user agrees: the request, carried
  over, makes the server connect its control stream and send four messages; carried back, these
  resolve the client's transaction, and \<^verbatim>\<open>Connect\<close> returns exactly the properties and the
  information the server gave. The client has the server's window size, and its transaction is
  gone, so that it could connect again.
\<close>

lemma client_connects:
  fixes ec :: "'c env" and es :: "'s env"
  assumes "speaks (e_amf ec)" and "e_amf es = e_amf ec" and "e_ms es = e_ms ec"
    and "can_send ec c s" and "str_state s = streamStateClientNotConnected" and "fmlookup (str_transactions s) 1 = None"
    and "can_send es d t" and "str_state t = streamStateServerNotConnected" and "str_streamID t = str_streamID s"
    and "OnConnect (e_handler es) 0 cmd (c_user d) = (Ok (), u)"
    and "\<And>msg. OnUnknownMessage (e_handler ec) 0 msg (c_user c) = (Ok (), c_user c)"
    and "\<not> cfg_MaxAckWindowSize (scs_config (c_peer c)) <s ackWindowSize (c_self d)"
    and "command_carried (e_amf ec) (e_ms ec) cmd"
    and "result_carried (e_amf ec) (e_ms ec) (RPresetProperties (c_config d)) (newConnectSuccessResult d)"
  shows "\<exists>c1 d1 c2 p. Connect_request (e_amf ec) s (Some cmd) c = (Ok p, c1)
    \<and> deliver es (sent_since c c1) d = (Ok (), d1) \<and> deliver ec (sent_since d d1) c1 = (Ok (), c2)
    \<and> c_streams d1 = fmupd (str_streamID t) (in_state streamStateServerConnected t) (c_streams d)
    \<and> t_done (c_heap c2 ! p)
    \<and> Connect_answer (e_amf ec) (e_ms ec) (c_heap c2 ! p) =
        Ok (NetConnectionConnectResult (RPresetProperties (c_config d)) (newConnectSuccessResult d))
    \<and> ackWindowSize (c_peer c2) = ackWindowSize (c_self d)
    \<and> fmlookup (c_streams c2) (str_streamID s) = Some (s\<lparr>str_transactions := fmdrop 1 (str_transactions s)\<rparr>)"
proof -
  obtain xs where xs: "EncodeBodyAnyValues (e_amf ec) (Some (NetConnectionConnect cmd)) [] = (Ok (), xs)"
    using body_encodes(3) assms(1,13) by blast
  obtain ys where ys: "EncodeBodyAnyValues (e_amf ec) (Some (NetConnectionConnectResult (RPresetProperties (c_config d))
      (newConnectSuccessResult d))) [] = (Ok (), ys)"
    using body_encodes(4) assms(1,14) by blast
  let ?c1 = "said [(3, 0, str_streamID s, MsgCommandMessage ''connect'' 1 EncodingTypeAMF0 xs)] (awaiting 1 s c)"
  have c: "fmlookup (c_streams c) (str_streamID s) = Some s" "str_encTy s = EncodingTypeAMF0" "c_faults c = []"
    using assms(4) by (simp_all add: can_send_def)
  have request: "Connect_request (e_amf ec) s (Some cmd) c = (Ok (length (c_heap c)), ?c1)"
    using request_sent [OF c assms(6) xs assms(1), of "''connect''"] by (simp add: Connect_request_def)
  have h: "str_handler s = Some clientControlNotConnectedHandler"
    using can_send_handler [OF assms(4)] assms(5) by (simp add: handler_of_def)
  note served = server_connects [of es d t cmd xs u ys, unfolded assms(2,3), OF assms(1,7,8) xs assms(13,10) ys]
  obtain c2 where c2: "deliver ec
      [(2, 0, str_streamID s, MsgWinAckSize (ackWindowSize (c_self d))),
       (2, 0, str_streamID s, MsgSetPeerBandwidth (bandwidthWindowSize (c_self d)) (bandwidthLimitType (c_self d))),
       (2, 0, str_streamID s, MsgUserCtrl (UserCtrlEventStreamBegin (str_streamID s))),
       (3, 0, str_streamID s, MsgCommandMessage ''_result'' 1 EncodingTypeAMF0 ys)] ?c1 = (Ok (), c2)"
    "c_heap c2 ! length (c_heap c) = \<lparr>t_commandName = ''_result'', t_encoding = EncodingTypeAMF0, t_body = Some ys,
        t_lastErr = None, t_done = True\<rparr>"
    "ackWindowSize (c_peer c2) = ackWindowSize (c_self d)"
    "c_streams c2 = fmupd (str_streamID s) (s\<lparr>str_transactions := fmdrop 1 (str_transactions s)\<rparr>) (c_streams c)"
    using client_connected [OF assms(1) c(1) h assms(11,12)] by blast
  have answer: "Connect_answer (e_amf ec) (e_ms ec) (c_heap c2 ! length (c_heap c)) =
      Ok (NetConnectionConnectResult (RPresetProperties (c_config d)) (newConnectSuccessResult d))"
    by (rule connect_result_read [OF ys assms(14)]) (simp_all add: c2(2))
  have t: "fmlookup (c_streams d) (str_streamID s) = Some t" using assms(7,9) by (simp add: can_send_def)
  have served: "deliver es (sent_since c ?c1) d = (Ok (), snd (deliver es (sent_since c ?c1) d))"
    "sent_since d (snd (deliver es (sent_since c ?c1) d)) =
      [(2, 0, str_streamID s, MsgWinAckSize (ackWindowSize (c_self d))),
       (2, 0, str_streamID s, MsgSetPeerBandwidth (bandwidthWindowSize (c_self d)) (bandwidthLimitType (c_self d))),
       (2, 0, str_streamID s, MsgUserCtrl (UserCtrlEventStreamBegin (str_streamID s))),
       (3, 0, str_streamID s, MsgCommandMessage ''_result'' 1 EncodingTypeAMF0 ys)]"
    "c_streams (snd (deliver es (sent_since c ?c1) d)) = fmupd (str_streamID t) (in_state streamStateServerConnected t) (c_streams d)"
    using served t assms(9) by (simp_all del: deliver.simps add: update_stream_streams)
  show ?thesis
    by (intro exI conjI, rule request, rule served(1), subst served(2), rule c2(1), rule served(3), simp add: c2(2),
        rule answer, rule c2(3), simp add: c2(4))
qed

section \<open>\<^verbatim>\<open>CreateStream\<close>\<close>

lemma deliver_append: "deliver env (xs @ ys) = bind_io (deliver env xs) (\<lambda>_. deliver env ys)"
  by (induction xs rule: deliver.induct) (auto simp: bind_io_def fun_eq_iff split: option.split prod.split result.split)

text \<open>What a change of the chunk size sends, and its effect on either side.\<close>

definition size_news :: "Stream \<Rightarrow> uint32 \<Rightarrow> uint32 \<Rightarrow> (int \<times> uint32 \<times> uint32 \<times> message) list" where
  "size_news s old sz = (if 0 < sz \<and> sz \<noteq> old then [(2, 0, str_streamID s, MsgSetChunkSize sz)] else [])"

definition sized_self :: "uint32 \<Rightarrow> 'u connState \<Rightarrow> 'u connState" where
  "sized_self sz c = c\<lparr>c_self := (c_self c)\<lparr>chunkSize := (if sz = 0 then chunkSize (c_self c) else sz)\<rparr>\<rparr>"

definition sized_peer :: "uint32 \<Rightarrow> 'u connState \<Rightarrow> 'u connState" where
  "sized_peer sz c = c\<lparr>c_peer := (c_peer c)\<lparr>chunkSize := (if sz = 0 then chunkSize (c_peer c) else sz)\<rparr>\<rparr>"

lemma client_sizes:
  assumes "c_faults c = []" and "sz \<le> 0x7fffffff"
  shows "change_chunk_size amf s sz c = (Ok (), said (size_news s (chunkSize (c_self c)) sz) (sized_self sz c))"
proof (cases "0 < sz \<and> sz \<noteq> chunkSize (c_self c)")
  case True
  then have nz: "sz \<noteq> 0" by auto
  then have "message_Encode amf (MsgSetChunkSize sz) [] = (Ok (), put_uint32_be sz)"
    using assms(2) by (simp add: encodeSetChunkSize_def chunk_size_bits buf_Write_def)
  moreover have "\<not> sz < 1" using nz by (simp add: word_less_1)
  ultimately show ?thesis
    using True assms stream_Write_Ok [of "sized_self sz c" amf "MsgSetChunkSize sz" "put_uint32_be sz" s 2 0]
    by (auto simp: change_chunk_size_def WriteSetChunkSize_def size_news_def sized_self_def said_def)
next
  case False
  then have "sized_self sz c = c" by (auto simp: sized_self_def word_gt_0)
  then show ?thesis using False by (auto simp: change_chunk_size_def size_news_def said_def)
qed

lemma server_sizes:
  assumes "fmlookup (c_streams d) (str_streamID s) = Some t" and "chunkSize (c_peer d) = old"
    and "sz \<le> MaxChunkSize" and "sz \<le> cfg_MaxChunkSize (scs_config (c_peer d))"
  shows "deliver es (size_news s old sz) d = (Ok (), sized_peer sz d)"
proof (cases "0 < sz \<and> sz \<noteq> old")
  case True
  have "sz \<le> 0x7fffffff" using assms(3) by (rule order_trans) simp
  moreover have "handleMessage es 2 0 \<lparr>cm_StreamID = str_streamID s, cm_Message = MsgSetChunkSize sz\<rparr> d = (Ok (), sized_peer sz d)"
    using assms True by (intro handleMessage_at [where s = t])
      (auto simp: stream_handle_def with_peer_def SetChunkSize_def sized_peer_def)
  ultimately show ?thesis using True by (simp add: size_news_def relay_chunk_size bind_io_def)
next
  case False
  then have "sized_peer sz d = d" using assms(2) by (auto simp: sized_peer_def word_gt_0)
  then show ?thesis using False by (auto simp: size_news_def)
qed

lemma sized_simps [simp]:
  "c_streams (sized_self sz c) = c_streams c" "c_heap (sized_self sz c) = c_heap c" "c_sent (sized_self sz c) = c_sent c"
  "c_faults (sized_self sz c) = c_faults c" "c_config (sized_self sz c) = c_config c"
  "c_streams (sized_peer sz c) = c_streams c" "c_sent (sized_peer sz c) = c_sent c" "c_user (sized_peer sz c) = c_user c"
  "c_config (sized_peer sz c) = c_config c" "can_send env (sized_peer sz c) s = can_send env c s"
  "free_id (sized_peer sz c) = free_id c"
  by (simp_all add: sized_self_def sized_peer_def can_send_def tables_def free_id_def stream_find_def fun_eq_iff)

text \<open>The search for a free ID has a result while there is room.\<close>

lemma least_free:
  assumes "int (fcard (fmdom (c_streams c))) < MaxMessageStreams c" and "MaxMessageStreams c \<le> 2 ^ 32"
  defines "k \<equiv> LEAST k. free_id c k"
  shows "int k < MaxMessageStreams c" and "fmlookup (c_streams c) (word_of_int (int k)) = None"
    and "0 \<le> j \<Longrightarrow> j < int k \<Longrightarrow> fmlookup (c_streams c) (word_of_int j) \<noteq> None"
proof -
  have k: "free_id c k" unfolding k_def using room_free [OF assms(1,2)] by (rule LeastI_ex)
  then show "int k < MaxMessageStreams c" "fmlookup (c_streams c) (word_of_int (int k)) = None"
    by (simp_all add: free_id_def stream_find_def)
  assume j: "0 \<le> j" "j < int k"
  then have "\<not> free_id c (nat j)" using not_less_Least [of "nat j" "free_id c"] by (simp add: k_def nat_less_iff)
  then show "fmlookup (c_streams c) (word_of_int j) \<noteq> None"
    using j \<open>int k < MaxMessageStreams c\<close> by (simp add: free_id_def stream_find_def)
qed

text \<open>The server's side of an accepted \<^verbatim>\<open>createStream\<close>.\<close>

lemma server_creates:
  assumes amf: "speaks (e_amf es)" and can: "can_send es d t" and st: "str_state t = streamStateServerConnected"
    and xs: "EncodeBodyAnyValues (e_amf es) (Some NetConnectionCreateStream) [] = (Ok (), xs)"
    and user: "OnCreateStream (e_handler es) 0 (c_user d) = (Ok (), u)"
    and room: "int (fcard (fmdom (c_streams d))) < MaxMessageStreams d" "MaxMessageStreams d \<le> 2 ^ 32"
    and k: "k = of_nat (LEAST k. free_id d k)"
    and reply: "EncodeBodyAnyValues (e_amf es) (Some (NetConnectionCreateStreamResult k)) [] = (Ok (), ys)"
  shows "deliver es [(3, 0, str_streamID t, MsgCommandMessage ''createStream'' 2 EncodingTypeAMF0 xs)] d =
    (Ok (), said [(3, 0, str_streamID t, MsgCommandMessage ''_result'' 2 EncodingTypeAMF0 ys)]
       (d\<lparr>c_user := u, c_streams := fmupd k (in_state streamStateServerInactive (newStream k)) (c_streams d)\<rparr>))"
proof -
  obtain nb tb where nb: "amf_encode (e_amf es) (GoString ''_result'') = Ok nb" "amf_encode (e_amf es) (GoInt64 2) = Ok tb"
    using speaks_names [OF amf, of "''_result''" 2] by auto
  have "CmdBodyDecoderFor (e_amf es) (e_ms es) ''createStream'' 2 xs = (Ok NetConnectionCreateStream, [])"
    using body_roundtrip [OF _ xs, of "''createStream''" "e_ms es" 2] amf by (simp add: speaks_def)
  moreover have k': "k = word_of_int (int (LEAST k. free_id d k))" by (simp add: k)
  have "onCommand es t 3 0 2 NetConnectionCreateStream d =
    (Ok (), said [(3, 0, str_streamID t, MsgCommandMessage ''_result'' 2 EncodingTypeAMF0 ys)]
       (d\<lparr>c_user := u, c_streams := fmupd k (in_state streamStateServerInactive (newStream k)) (c_streams d)\<rparr>))"
    unfolding k'
    by (rule createStream_accept [OF can st user room(1) _ least_free [OF room] _ nb]) (use reply k in simp_all)
  ultimately have handle: "stream_handle es t 3 0 (MsgCommandMessage ''createStream'' 2 EncodingTypeAMF0 xs) d =
    (Ok (), said [(3, 0, str_streamID t, MsgCommandMessage ''_result'' 2 EncodingTypeAMF0 ys)]
       (d\<lparr>c_user := u, c_streams := fmupd k (in_state streamStateServerInactive (newStream k)) (c_streams d)\<rparr>))"
    by (simp add: handle_command or_else_def)
  show ?thesis
    by (subst deliver_step, rule relay_command, use amf in simp_all, rule handleMessage_at [where s = t])
      (use can handle in \<open>simp_all add: can_send_def\<close>)
qed

text \<open>The client's side: the request, and the answer.\<close>

lemma client_asks:
  assumes amf: "speaks amf" and s: "fmlookup (c_streams c) 0 = Some s" "str_streamID s = 0" "str_encTy s = EncodingTypeAMF0"
    and c: "c_faults c = []" and free: "fmlookup (str_transactions s) 2 = None" and sz: "sz \<le> 0x7fffffff"
    and xs: "EncodeBodyAnyValues amf (Some NetConnectionCreateStream) [] = (Ok (), xs)"
  shows "ClientConn_CreateStream amf sz \<lparr>cc_conn = c, cc_lastErr = None\<rparr> = (Ok (length (c_heap c)),
    \<lparr>cc_conn = said (size_news s (chunkSize (c_self c)) sz @ [(3, 0, 0, MsgCommandMessage ''createStream'' 2 EncodingTypeAMF0 xs)])
       (awaiting 2 s (sized_self sz c)), cc_lastErr = None\<rparr>)"
proof -
  let ?ms = "size_news s (chunkSize (c_self c)) sz"
  have "CreateStream_request amf s sz c = (Ok (length (c_heap c)),
      said (?ms @ [(3, 0, 0, MsgCommandMessage ''createStream'' 2 EncodingTypeAMF0 xs)]) (awaiting 2 s (sized_self sz c)))"
    unfolding CreateStream_request_def
    by (subst bind_io_then, rule client_sizes [OF c sz], subst request_sent [OF _ s(3) _ free xs amf])
      (use s c in \<open>simp_all add: awaiting_said\<close>)
  then show ?thesis
    using s by (simp add: ClientConn_CreateStream_def controllable_def bind_io_def with_cc_def streams_At_def)
qed

lemma client_given:
  assumes amf: "speaks (e_amf ec)" and s: "fmlookup (c_streams c) 0 = Some s" "str_streamID s = 0"
    and ys: "EncodeBodyAnyValues (e_amf ec) (Some (NetConnectionCreateStreamResult k)) [] = (Ok (), ys)"
    and room: "fmlookup (c_streams c) k = None" "int (fcard (fmdom (c_streams c))) < MaxMessageStreams c"
  shows "\<exists>c' cc. deliver ec [(3, 0, 0, MsgCommandMessage ''_result'' 2 EncodingTypeAMF0 ys)] (said ms (awaiting 2 s c)) = (Ok (), c')
    \<and> ClientConn_CreateStream_answer (e_amf ec) (c_heap c' ! length (c_heap c)) \<lparr>cc_conn = c', cc_lastErr = None\<rparr> = (Ok (newStream k), cc)
    \<and> fmlookup (c_streams (cc_conn cc)) k = Some (newStream k) \<and> c_self (cc_conn cc) = c_self c
    \<and> c_faults (cc_conn cc) = c_faults c \<and> cc_lastErr cc = None \<and> t_done (c_heap c' ! length (c_heap c))"
proof -
  let ?s = "s\<lparr>str_transactions := fmupd 2 (length (c_heap c)) (str_transactions s)\<rparr>"
  let ?c1 = "said ms (awaiting 2 s c)"
  have look: "fmlookup (c_streams ?c1) 0 = Some ?s" using s(2) awaiting_simps(1) [of 2 s c] by simp
  obtain c' where c': "handleMessage ec 3 0 \<lparr>cm_StreamID = 0, cm_Message = MsgCommandMessage ''_result'' 2 EncodingTypeAMF0 ys\<rparr> ?c1
        = (Ok (), c')"
      "c_heap c' ! length (c_heap c) = \<lparr>t_commandName = ''_result'', t_encoding = EncodingTypeAMF0, t_body = Some ys,
        t_lastErr = None, t_done = True\<rparr>" "c_self c' = c_self c" "c_config c' = c_config c" "c_faults c' = c_faults c"
      "c_streams c' = fmupd 0 (?s\<lparr>str_transactions := fmdrop 2 (str_transactions ?s)\<rparr>) (c_streams ?c1)"
    using answer_received [OF look, of 2 "length (c_heap c)" "''_result''" ec 3 0 EncodingTypeAMF0 ys] s(2)
    by (auto simp: new_transaction_def)
  have "deliver ec [(3, 0, 0, MsgCommandMessage ''_result'' 2 EncodingTypeAMF0 ys)] ?c1 = (Ok (), c')"
    using c'(1) relay_command [OF amf, of "''_result''" 2 ys] by (simp add: bind_io_def)
  moreover have answer: "CreateStream_answer (e_amf ec) (c_heap c' ! length (c_heap c)) = Ok k"
    by (rule create_stream_result_read [OF ys amf]) (simp_all add: c'(2))
  moreover have "k \<noteq> 0" "0 |\<in>| fmdom (c_streams c)" using room(1) s by (auto simp: fmlookup_dom_iff)
  then have "streams_Create k c' = (Ok (newStream k), c'\<lparr>c_streams := fmupd k (newStream k) (c_streams c')\<rparr>)"
    using room s(2) by (simp add: streams_Create_def c'(4,6) awaiting_def fcard_finsert_if)
  ultimately show ?thesis
    using c'(2,3,5) by (intro exI [of _ c']) (simp add: ClientConn_CreateStream_answer_def bind_io_def with_cc_def)
qed

text \<open>
  C11 (functional). \<^verbatim>\<open>CreateStream\<close> of a client against a server that agrees: when the answer is
  back, both tables hold a stream under the same ID, the smallest the server had free, and the
  stream of the server is inactive. If a new chunk size was asked for, both sides use it, and
  if they agreed on one before they still do.
\<close>

theorem client_creates_stream:
  fixes ec :: "'c env" and es :: "'s env"
  assumes "speaks (e_amf ec)" and "e_amf es = e_amf ec"
    and "can_send ec c s" and "str_streamID s = 0" and "fmlookup (str_transactions s) 2 = None"
    and "can_send es d t" and "str_state t = streamStateServerConnected" and "str_streamID t = 0"
    and "OnCreateStream (e_handler es) 0 (c_user d) = (Ok (), u)"
    and "int (fcard (fmdom (c_streams d))) < MaxMessageStreams d" and "MaxMessageStreams d \<le> 2 ^ 32"
    and "k = of_nat (LEAST k. free_id d k)"
    and "fmlookup (c_streams c) k = None" and "int (fcard (fmdom (c_streams c))) < MaxMessageStreams c"
    and "chunkSize (c_peer d) = chunkSize (c_self c)" and "sz \<le> MaxChunkSize"
    and "sz \<le> cfg_MaxChunkSize (scs_config (c_peer d))"
  shows "\<exists>cc1 d1 c2 cc3 p. ClientConn_CreateStream (e_amf ec) sz \<lparr>cc_conn = c, cc_lastErr = None\<rparr> = (Ok p, cc1)
    \<and> deliver es (sent_since c (cc_conn cc1)) d = (Ok (), d1) \<and> deliver ec (sent_since d d1) (cc_conn cc1) = (Ok (), c2)
    \<and> ClientConn_CreateStream_answer (e_amf ec) (c_heap c2 ! p) \<lparr>cc_conn = c2, cc_lastErr = None\<rparr> = (Ok (newStream k), cc3)
    \<and> fmlookup (c_streams (cc_conn cc3)) k = Some (newStream k)
    \<and> c_streams d1 = fmupd k (in_state streamStateServerInactive (newStream k)) (c_streams d)
    \<and> chunkSize (c_self (cc_conn cc3)) = (if sz = 0 then chunkSize (c_self c) else sz)
    \<and> chunkSize (c_peer d1) = chunkSize (c_self (cc_conn cc3))"
proof -
  obtain xs where xs: "EncodeBodyAnyValues (e_amf ec) (Some NetConnectionCreateStream) [] = (Ok (), xs)"
    using body_encodes(1) assms(1) by blast
  obtain ys where ys: "EncodeBodyAnyValues (e_amf ec) (Some (NetConnectionCreateStreamResult k)) [] = (Ok (), ys)"
    using body_encodes(2) assms(1) by blast
  let ?news = "size_news s (chunkSize (c_self c)) sz @ [(3, 0, 0, MsgCommandMessage ''createStream'' 2 EncodingTypeAMF0 xs)]"
  let ?c1 = "said ?news (awaiting 2 s (sized_self sz c))"
  let ?d1 = "said [(3, 0, 0, MsgCommandMessage ''_result'' 2 EncodingTypeAMF0 ys)] ((sized_peer sz d)
    \<lparr>c_user := u, c_streams := fmupd k (in_state streamStateServerInactive (newStream k)) (c_streams d)\<rparr>)"
  have c: "fmlookup (c_streams c) 0 = Some s" "str_encTy s = EncodingTypeAMF0" "c_faults c = []"
    and d: "fmlookup (c_streams d) (str_streamID s) = Some t"
    using assms(3,4,6,8) by (simp_all add: can_send_def)
  have bound: "sz \<le> 0x7fffffff" using assms(16) by (rule order_trans) simp
  have "deliver es [(3, 0, str_streamID t, MsgCommandMessage ''createStream'' 2 EncodingTypeAMF0 xs)] (sized_peer sz d) =
      (Ok (), ?d1)"
    using server_creates [of es "sized_peer sz d" t xs u k ys] assms(1,2,6-12) xs ys by simp
  then have served: "deliver es ?news d = (Ok (), ?d1)"
    using server_sizes [OF d assms(15-17), of es] assms(8) unfolding deliver_append bind_io_def by simp
  obtain c2 cc3 where c2: "deliver ec [(3, 0, 0, MsgCommandMessage ''_result'' 2 EncodingTypeAMF0 ys)] ?c1 = (Ok (), c2)"
    "ClientConn_CreateStream_answer (e_amf ec) (c_heap c2 ! length (c_heap c)) \<lparr>cc_conn = c2, cc_lastErr = None\<rparr> = (Ok (newStream k), cc3)"
    "fmlookup (c_streams (cc_conn cc3)) k = Some (newStream k)" "c_self (cc_conn cc3) = c_self (sized_self sz c)"
    using client_given [of ec "sized_self sz c" s k ys ?news] assms(1,4,13,14) c(1) ys by auto
  have sent: "sent_since c ?c1 = ?news" "sent_since d ?d1 = [(3, 0, 0, MsgCommandMessage ''_result'' 2 EncodingTypeAMF0 ys)]"
    by simp_all
  show ?thesis
    by (intro exI conjI, rule client_asks [OF assms(1) c(1) assms(4) c(2,3) assms(5) bound xs], simp only: ClientConn.simps sent,
        rule served, simp only: ClientConn.simps sent, rule c2(1), rule c2(2), rule c2(3))
      (use assms(15) c2(4) in \<open>simp_all add: sized_self_def sized_peer_def\<close>)
qed

section \<open>\<^verbatim>\<open>Publish\<close> and media\<close>

lemma server_publishes:
  assumes amf: "speaks (e_amf es)" and can: "can_send es d t" and st: "str_state t = streamStateServerInactive"
    and names: "length name < 65536" "length ty < 65536"
    and xs: "EncodeBodyAnyValues (e_amf es) (Some (NetStreamPublish name ty)) [] = (Ok (), xs)"
    and user: "OnPublish (e_handler es) (str_streamID t) 0 name ty (c_user d) = (Ok (), u)"
    and ys: "EncodeBodyAnyValues (e_amf es) (Some (NetStreamOnStatus
        (newOnStatus NetStreamOnStatusCodePublishStart ''Publish succeeded.''))) [] = (Ok (), ys)"
  shows "deliver es [(3, 0, str_streamID t, MsgCommandMessage ''publish'' 0 EncodingTypeAMF0 xs)] d =
    (Ok (), update_stream (str_streamID t) (in_state streamStateServerPublish)
       (said [(3, 0, str_streamID t, MsgCommandMessage ''onStatus'' 0 EncodingTypeAMF0 ys)] (d\<lparr>c_user := u\<rparr>)))"
proof -
  obtain nb tb where nb: "amf_encode (e_amf es) (GoString ''onStatus'') = Ok nb" "amf_encode (e_amf es) (GoInt64 0) = Ok tb"
    using speaks_names [OF amf, of "''onStatus''" 0] by auto
  have "CmdBodyDecoderFor (e_amf es) (e_ms es) ''publish'' 0 xs = (Ok (NetStreamPublish name ty), [])"
    using body_roundtrip [OF _ xs, of "''publish''" "e_ms es" 0] speaks_names(3) [OF amf names(1), of 0]
      speaks_names(3) [OF amf names(2), of 0] amf by (simp add: speaks_def)
  then have handle: "stream_handle es t 3 0 (MsgCommandMessage ''publish'' 0 EncodingTypeAMF0 xs) d =
    (Ok (), update_stream (str_streamID t) (in_state streamStateServerPublish)
       (said [(3, 0, str_streamID t, MsgCommandMessage ''onStatus'' 0 EncodingTypeAMF0 ys)] (d\<lparr>c_user := u\<rparr>)))"
    by (simp add: handle_command or_else_def publish_accept [OF can st user ys nb])
  show ?thesis
    by (subst deliver_step, rule relay_command, use amf in simp_all, rule handleMessage_at [where s = t])
      (use can handle in \<open>simp_all add: can_send_def\<close>)
qed

lemma server_hears:
  assumes "fmlookup (c_streams d) sid = Some (in_state streamStateServerPublish t)"
    and "OnAudio (e_handler es) ts payload (c_user d) = (Ok (), v)"
  shows "deliver es [(csid, ts, sid, MsgAudioMessage payload)] d = (Ok (), d\<lparr>c_user := v\<rparr>)"
proof -
  have "relay (e_amf es) (MsgAudioMessage payload) = Some (MsgAudioMessage payload)"
    by (rule relay_same) (simp_all add: encodeAudioMessage_def buf_Write_def)
  moreover have "handleMessage es csid ts \<lparr>cm_StreamID = sid, cm_Message = MsgAudioMessage payload\<rparr> d = (Ok (), d\<lparr>c_user := v\<rparr>)"
    using assms by (intro handleMessage_at [OF _ trans [OF media_published]])
      (auto simp: media_def media_callback_def with_user_def in_state_def)
  ultimately show ?thesis by (simp add: bind_io_def)
qed

text \<open>
  C10 (functional). \<^verbatim>\<open>Publish\<close> of a client on a stream the server has inactive, and audio after it:
  the user of the server is asked with the very names the client gave, the server's stream is
  publishing, the status the server sends back changes nothing at the client (it knows no
  \<^verbatim>\<open>onStatus\<close>), and the payload the client then writes is what the server's user is given.
\<close>

theorem client_publishes:
  fixes ec :: "'c env" and es :: "'s env"
  assumes "speaks (e_amf ec)" and "e_amf es = e_amf ec" and "amf_value_consumes (e_amf ec)"
    and "\<And>b p. fst (amf_decode_value (e_amf ec) b) \<noteq> Panic p"
    and "fmlookup (c_streams c) (str_streamID s) = Some s" and "str_encTy s = EncodingTypeAMF0" and "c_faults c = []"
    and "can_send es d t" and "str_state t = streamStateServerInactive" and "str_streamID t = str_streamID s"
    and "length name < 65536" and "length ty < 65536"
    and "OnPublish (e_handler es) (str_streamID s) 0 name ty (c_user d) = (Ok (), u)"
    and "OnAudio (e_handler es) ts payload u = (Ok (), v)"
    and "EncodeBodyAnyValues (e_amf ec) (Some (NetStreamOnStatus
        (newOnStatus NetStreamOnStatusCodePublishStart ''Publish succeeded.''))) [] = (Ok (), ys)"
  shows "\<exists>c1 d1 c2 d2. Publish_request (e_amf ec) s (Some (name, ty)) c = (Ok (), c1)
    \<and> deliver es (sent_since c c1) d = (Ok (), d1) \<and> deliver ec (sent_since d d1) c1 = (Ok (), c1)
    \<and> c_streams d1 = fmupd (str_streamID t) (in_state streamStateServerPublish t) (c_streams d) \<and> c_user d1 = u
    \<and> stream_Write (e_amf ec) s csid ts (MsgAudioMessage payload) c1 = (Ok (), c2)
    \<and> deliver es (sent_since c1 c2) d1 = (Ok (), d2) \<and> c_user d2 = v \<and> c_streams d2 = c_streams d1"
proof -
  obtain xs where xs: "EncodeBodyAnyValues (e_amf ec) (Some (NetStreamPublish name ty)) [] = (Ok (), xs)"
    using body_encodes(5) [OF assms(1,11,12)] by blast
  obtain nb tb where nb: "amf_encode (e_amf ec) (GoString ''publish'') = Ok nb" "amf_encode (e_amf ec) (GoInt64 0) = Ok tb"
    using speaks_names [OF assms(1), of "''publish''" 0] by auto
  let ?c1 = "said [(3, 0, str_streamID s, MsgCommandMessage ''publish'' 0 EncodingTypeAMF0 xs)] c"
  let ?c2 = "said [(csid, ts, str_streamID s, MsgAudioMessage payload)] ?c1"
  let ?d1 = "update_stream (str_streamID t) (in_state streamStateServerPublish)
       (said [(3, 0, str_streamID t, MsgCommandMessage ''onStatus'' 0 EncodingTypeAMF0 ys)] (d\<lparr>c_user := u\<rparr>))"
  have t: "fmlookup (c_streams d) (str_streamID t) = Some t" using assms(8) by (simp add: can_send_def)
  have 1: "Publish_request (e_amf ec) s (Some (name, ty)) c = (Ok (), ?c1)"
    using command_writes [OF assms(7,6) xs nb] by (simp add: Publish_request_def)
  have sent: "sent_since c ?c1 = [(3, 0, str_streamID t, MsgCommandMessage ''publish'' 0 EncodingTypeAMF0 xs)]"
    "sent_since d ?d1 = [(3, 0, str_streamID s, MsgCommandMessage ''onStatus'' 0 EncodingTypeAMF0 ys)]"
    "sent_since ?c1 ?c2 = [(csid, ts, str_streamID s, MsgAudioMessage payload)]"
    using assms(10) by (simp_all, simp add: sent_since_def)
  have 2: "deliver es [(3, 0, str_streamID t, MsgCommandMessage ''publish'' 0 EncodingTypeAMF0 xs)] d = (Ok (), ?d1)"
    by (rule server_publishes [OF _ assms(8,9,11,12)]) (use assms(1,2,10,13,15) xs in simp_all)
  have "handleMessage ec 3 0 \<lparr>cm_StreamID = str_streamID s, cm_Message = MsgCommandMessage ''onStatus'' 0 EncodingTypeAMF0 ys\<rparr> ?c1 = (Ok (), ?c1)"
    using unknown_command_ignored [OF assms(3,4), where name = "''onStatus''"] assms(5) by (simp add: CmdBodyDecoders_def)
  then have 3: "deliver ec [(3, 0, str_streamID s, MsgCommandMessage ''onStatus'' 0 EncodingTypeAMF0 ys)] ?c1 = (Ok (), ?c1)"
    using relay_command [OF assms(1), of "''onStatus''" 0 ys] by (simp add: bind_io_def)
  have 4: "stream_Write (e_amf ec) s csid ts (MsgAudioMessage payload) ?c1 = (Ok (), ?c2)"
    using stream_Write_Ok [of ?c1 "e_amf ec" "MsgAudioMessage payload" payload s csid ts] assms(7)
    by (simp add: encodeAudioMessage_def buf_Write_def said_def)
  have d1: "c_streams ?d1 = fmupd (str_streamID t) (in_state streamStateServerPublish t) (c_streams d)" "c_user ?d1 = u"
    using t by (simp_all add: update_stream_def)
  have 5: "deliver es [(csid, ts, str_streamID s, MsgAudioMessage payload)] ?d1 = (Ok (), ?d1\<lparr>c_user := v\<rparr>)"
    by (rule server_hears [of _ _ t]) (use assms(10,14) d1 in simp_all)
  show ?thesis
    by (intro exI conjI, rule 1, simp only: sent, rule 2, simp only: sent, rule 3, rule d1(1), rule d1(2), rule 4,
        simp only: sent, rule 5) (use d1(1) in simp_all)
qed

section \<open>Both on one codec\<close>

text \<open>The sample codec, whose decoder of values also reads its object, and a \<^verbatim>\<open>mapstructure\<close> for it.\<close>

definition talking_value :: "(byte list, goValue) io" where
  "talking_value b =
     (if take 1 b = [5] then (Ok GoNil, drop 1 b)
      else if take 4 b = [3, 0, 0, 9] then (Ok (GoMap []), drop 4 b)
      else (Err (Errorf ''unsupported'' []), b))"

definition talking_env :: "unit env" where
  "talking_env = \<lparr>e_amf = sample_amf\<lparr>amf_decode_value := talking_value\<rparr>,
     e_ms = \<lparr>ms_command = (\<lambda>_. Ok zero_command), ms_properties = (\<lambda>_. Ok defaultProperties),
       ms_information = (\<lambda>_. Ok (newConnectSuccessResult (sample_conn streamStateServerNotConnected)))\<rparr>,
     e_handler = DefaultHandler\<rparr>"

lemma talking_speaks: "speaks (e_amf talking_env)"
proof -
  have "amf_string_ok (e_amf talking_env) n" if "length n < 65536" for n
    using sample_string_ok [OF that] by (simp add: amf_string_ok_def talking_env_def sample_amf_def)
  moreover have "amf_int64_ok (e_amf talking_env) i" for i
    using sample_int64_ok [of i] by (simp add: amf_int64_ok_def talking_env_def sample_amf_def)
  moreover have "amf_uint32_ok (e_amf talking_env) i" for i
    by (auto simp: amf_uint32_ok_def talking_env_def sample_amf_def sample_encode_def sample_decode_number_def bind_io_def)
  ultimately show ?thesis
    by (auto simp: speaks_def amf_nil_ok_def talking_env_def sample_amf_def sample_encode_def talking_value_def)
qed

lemma talking_decodes:
  "amf_value_consumes (e_amf talking_env)" "fst (amf_decode_value (e_amf talking_env) b) \<noteq> Panic p"
  by (auto simp: amf_value_consumes_def talking_env_def talking_value_def split: if_splits
      intro!: diff_less dest!: arg_cong [where f = length])

lemma sample_sizes:
  "chunkSize (c_peer (sample_conn st)) = 128" "chunkSize (c_self (sample_conn st)) = 128"
  "cfg_MaxChunkSize (scs_config (c_peer (sample_conn st))) = MaxChunkSize"
  by (simp_all add: sample_conn_def newConn_def Let_def conn_config_def ConnConfig_normalize_def zero_userConfig_def
      zero_config_def config_normalize_def NewStreamControlState_def)

lemma talking_carries:
  "command_carried (e_amf talking_env) (e_ms talking_env) zero_command"
  "result_carried (e_amf talking_env) (e_ms talking_env) (RPresetProperties (c_config (sample_conn streamStateServerNotConnected)))
     (newConnectSuccessResult (sample_conn streamStateServerNotConnected))"
  "\<not> cfg_MaxAckWindowSize (scs_config (c_peer (sample_conn a))) <s ackWindowSize (c_self (sample_conn b))"
  by (simp_all add: command_carried_def amf_command_ok_def result_carried_def talking_env_def sample_amf_def sample_encode_def
      command_value_def properties_value_def information_value_def io_simps talking_value_def)
    (simp_all add: sample_conn_def newConn_def Let_def conn_config_def ConnConfig_normalize_def zero_userConfig_def
      zero_config_def config_normalize_def NewStreamControlState_def)

theorem client_publishes_witness:
  "\<exists>c d c' d'. Publish_request (e_amf talking_env) (sample_control streamStateClientNotConnected) (Some (''abc'', ''live''))
       (sample_conn streamStateClientNotConnected) = (Ok (), c)
    \<and> deliver talking_env (sent_since (sample_conn streamStateClientNotConnected) c) (sample_conn streamStateServerInactive) = (Ok (), d)
    \<and> stream_Write (e_amf talking_env) (sample_control streamStateClientNotConnected) 4 7 (MsgAudioMessage [1, 2]) c = (Ok (), c')
    \<and> deliver talking_env (sent_since c c') d = (Ok (), d')"
  using client_publishes [of talking_env talking_env "sample_conn streamStateClientNotConnected"
        "sample_control streamStateClientNotConnected" "sample_conn streamStateServerInactive"
        "sample_control streamStateServerInactive" "''abc''" "''live''" "()" 7 "[1, 2]" "()" "[5, 3, 0, 0, 9]" 4,
        OF talking_speaks refl talking_decodes] sample_conn_ok(1) [of streamStateClientNotConnected]
      sample_conn_ok(1) [of streamStateServerInactive]
    by (fastforce simp: can_send_def sample_control_fields(2) talking_env_def DefaultHandler_def EncodeBodyAnyValues_def
        encodeArgs_Ok bind_io_def sample_amf_def sample_encode_def status_value_def)

theorem client_creates_stream_witness:
  "\<exists>cc d c p. ClientConn_CreateStream (e_amf talking_env) 4096
       \<lparr>cc_conn = sample_conn streamStateClientNotConnected, cc_lastErr = None\<rparr> = (Ok p, cc)
    \<and> deliver talking_env (sent_since (sample_conn streamStateClientNotConnected) (cc_conn cc)) (sample_conn streamStateServerConnected) = (Ok (), d)
    \<and> deliver talking_env (sent_since (sample_conn streamStateServerConnected) d) (cc_conn cc) = (Ok (), c)
    \<and> chunkSize (c_peer d) = 4096"
proof -
  let ?c = "sample_conn streamStateClientNotConnected" and ?d = "sample_conn streamStateServerConnected"
  have streams: "fmlookup (c_streams (sample_conn st)) j = (if j = 0 then Some (sample_control st) else None)" for j st
    by (simp add: sample_conn_def)
  have "(LEAST k. free_id ?d k) = 1"
    by (rule Least_equality) (auto simp: free_id_def stream_find_def streams sample_conn_ok Suc_le_eq intro!: gr0I split: if_splits)
  then have k: "1 = of_nat (LEAST k. free_id ?d k)" by simp
  have "chunkSize (c_peer ?d) = 128" "chunkSize (c_self ?c) = 128" "cfg_MaxChunkSize (scs_config (c_peer ?d)) = MaxChunkSize"
    by (rule sample_sizes)+
  then show ?thesis
    using client_creates_stream [of talking_env talking_env ?c "sample_control streamStateClientNotConnected" ?d
      "sample_control streamStateServerConnected" "()" 1 4096, OF talking_speaks _ _ _ _ _ _ _ _ _ _ k]
      sample_conn_ok(1) [of streamStateClientNotConnected] sample_conn_ok(1) [of streamStateServerConnected]
    by (fastforce simp: can_send_def sample_control_fields(1) streams sample_conn_ok talking_env_def DefaultHandler_def)
qed

end
