(* ===== verification/Client_Properties.thy ===== *)
theory Client_Properties
  imports Client_System Exchange
begin

text \<open>
  The properties of a client's goroutines: which call an answer belongs to, that an answered call
  returns, and what becomes of the calls that are waiting when the connection ends.
\<close>

section \<open>Reachable states\<close>

inductive client_reachable :: "'u env \<Rightarrow> 'u clientSystem \<Rightarrow> bool" for env :: "'u env" where
  dialled: "newClientConnWithSetup hs (w, newConn net config u) = (Ok (), (w', rx, c)) \<Longrightarrow> client_reachable env (client_start c)"
| stepped: "client_reachable env y \<Longrightarrow> client_step env ev y = Some y' \<Longrightarrow> client_reachable env y'"

lemma client_reachable_run:
  "client_reachable env y \<Longrightarrow> client_run env evs y = Some y' \<Longrightarrow> client_reachable env y'"
  by (induction evs arbitrary: y) (auto split: Option.bind_splits intro: stepped)

lemma newConn_empty: "newConn net config u = (rx, c) \<Longrightarrow> c_streams c = fmempty \<and> c_heap c = [] \<and> c_faults c = []"
  by (auto simp: newConn_def Let_def)

lemma dialled_streams:
  assumes "newClientConnWithSetup hs (w, newConn net config u) = (Ok (), (w', rx, c))"
  shows "c_streams c = fmupd 0 (in_state streamStateClientNotConnected (newStream 0)) fmempty" and "c_heap c = []"
    and "0 < MaxMessageStreams c" and "c_faults c = []"
proof -
  obtain rx0 c0 where conn: "newConn net config u = (rx0, c0)" by (cases "newConn net config u")
  have empty: "c_streams c0 = fmempty" "c_heap c0 = []" "c_faults c0 = []" using newConn_empty [OF conn] by simp_all
  define c1 where "c1 = c0\<lparr>c_peer := peerState (fst (resume w' (rx0, c0)))\<rparr>"
  have 1: "createControlStream streamStateClientNotConnected c1 = (Ok (), c)"
    using assms conn by (auto simp: newClientConnWithSetup_def on_conn_def Let_def c1_def resume_def prod_eq_iff split: result.splits prod.splits)
  have room: "0 < MaxMessageStreams c1"
  proof (rule ccontr)
    assume "\<not> 0 < MaxMessageStreams c1"
    then show False using 1 empty
      by (simp add: createControlStream_def streams_Create_def c1_def bind_io_def wrap_io_def fcard.rep_eq)
  qed
  have "createControlStream streamStateClientNotConnected c1 =
      (Ok (), c1\<lparr>c_streams := fmupd 0 (in_state streamStateClientNotConnected (newStream 0)) fmempty\<rparr>)"
    by (rule createControlStream_Ok [OF _ room]) (simp_all add: c1_def empty handler_of_def)
  with 1 room empty show "c_streams c = fmupd 0 (in_state streamStateClientNotConnected (newStream 0)) fmempty" "c_heap c = []"
    "0 < MaxMessageStreams c" "c_faults c = []"
    by (auto simp: c1_def)
qed

lemma dialled_ok:
  assumes "newClientConnWithSetup hs (w, newConn net config u) = (Ok (), (w', rx, c))"
  shows "client_ok (client_start c)"
  using dialled_streams [OF assms]
  by (auto simp: client_ok_def client_start_def client_tables_def wf_tables_def tables_def wf_waits_def waits_def requests_ok_def asks_def
      stream_ok_def in_state_def newStream_def client_stream_def fcard.rep_eq split: if_splits)

lemma client_reachable_ok: "client_reachable env y \<Longrightarrow> client_ok y"
  by (induction rule: client_reachable.induct) (auto dest: dialled_ok client_step_ok)

section \<open>Answers\<close>

text \<open>
  C7 (safety). An answer wakes exactly the call that asked for it. However the calls of a client
  and its message loop are interleaved, a transaction that a call waits for is resolved only by
  an answer on the control stream under the ID of that call's request; the call then finds the
  answer's own name, encoding and body; and nobody else's transaction is touched.
\<close>

theorem answer_wakes_its_caller:
  assumes "client_reachable env y" and "client_step env (MessageRead csid ts cmsg) y = Some y'"
    and "cs_phase y g = Waiting k p" and "\<not> t_done (c_heap (cs_conn y) ! p)" and "t_done (c_heap (cs_conn y') ! p)"
  shows "\<exists>name enc body. cmsg = \<lparr>cm_StreamID = ControlStreamID, cm_Message = MsgCommandMessage name (call_tid k) enc body\<rparr>
    \<and> name \<in> {''_result'', ''_error''}
    \<and> c_heap (cs_conn y') ! p = \<lparr>t_commandName = name, t_encoding = enc, t_body = Some body, t_lastErr = None, t_done = True\<rparr>
    \<and> (\<forall>h k' q. cs_phase y h = Waiting k' q \<and> h \<noteq> g \<longrightarrow> q \<noteq> p \<and> c_heap (cs_conn y') ! q = c_heap (cs_conn y) ! q)"
proof -
  have ok: "client_ok y" by (rule client_reachable_ok [OF assms(1)])
  have asks: "asks (cs_phase y) g k p" using assms(3) by (simp add: asks_def)
  have apart: "q \<noteq> p" if "cs_phase y h = Waiting k' q" "h \<noteq> g" for h k' q
    using ok asks that unfolding client_ok_def requests_ok_def asks_def by blast
  have "c_heap (cs_conn y') \<noteq> c_heap (cs_conn y)" using assms(4,5) by auto
  then obtain name tid enc body p' where
    msg: "cm_Message cmsg = MsgCommandMessage name tid enc body" "name = ''_result'' \<or> name = ''_error''"
    and owner: "\<And>g k. asks (cs_phase y) g k p' \<Longrightarrow> cm_StreamID cmsg = ControlStreamID \<and> tid = call_tid k"
    and heap: "p' < length (c_heap (cs_conn y))" "c_heap (cs_conn y') = (c_heap (cs_conn y))[p' :=
       \<lparr>t_commandName = name, t_encoding = enc, t_body = Some body, t_lastErr = None, t_done = True\<rparr>]"
    using received_heap [OF assms(2) ok] by blast
  have p: "p' = p" using assms(4,5) heap by (cases "p' = p") auto
  have "cmsg = \<lparr>cm_StreamID = ControlStreamID, cm_Message = MsgCommandMessage name (call_tid k) enc body\<rparr>"
    using msg(1) owner [of g k] asks p by (cases cmsg) auto
  moreover have "q \<noteq> p \<and> c_heap (cs_conn y') ! q = c_heap (cs_conn y) ! q" if "cs_phase y h = Waiting k' q" "h \<noteq> g" for h k' q
    using apart [OF that] heap(2) p by simp
  moreover have "c_heap (cs_conn y') ! p = \<lparr>t_commandName = name, t_encoding = enc, t_body = Some body, t_lastErr = None, t_done = True\<rparr>"
    using heap p by simp
  ultimately show ?thesis using msg(2) by blast
qed

text \<open>What a call returns for an answer.\<close>

lemma answer_connect:
  "fst (answer_call env (RequestConnect body) t cc) = bind_result (Connect_answer (e_amf env) (e_ms env) t) (\<lambda>_. Ok NoValue)"
  "snd (answer_call env (RequestConnect body) t cc) = cc"
  by (cases "Connect_answer (e_amf env) (e_ms env) t"; simp add: bind_io_def pure_io_def return_io_def bind_result_def)+

lemma answer_created:
  assumes "CreateStream_answer (e_amf env) t = Ok i"
    and "fmlookup (c_streams (cc_conn cc)) i = None" and "int (fcard (fmdom (c_streams (cc_conn cc)))) < MaxMessageStreams (cc_conn cc)"
  shows "fst (answer_call env (RequestCreateStream sz) t cc) = Ok (CreatedStream (newStream i))"
    and "fmlookup (c_streams (cc_conn (snd (answer_call env (RequestCreateStream sz) t cc)))) i = Some (newStream i)"
  using assms by (simp_all add: ClientConn_CreateStream_answer_def bind_io_def pure_io_def return_io_def with_cc_def streams_Create_def)

lemma answer_not_created:
  assumes "CreateStream_answer (e_amf env) t = Ok i"
    and "fmlookup (c_streams (cc_conn cc)) i \<noteq> None \<or> MaxMessageStreams (cc_conn cc) \<le> int (fcard (fmdom (c_streams (cc_conn cc))))"
  shows "\<exists>e. fst (answer_call env (RequestCreateStream sz) t cc) = Err e" and "cc_conn (snd (answer_call env (RequestCreateStream sz) t cc)) = cc_conn cc"
  using assms
  by (auto simp: ClientConn_CreateStream_answer_def bind_io_def pure_io_def return_io_def with_cc_def streams_Create_def split: option.split)

lemma answer_rejected:
  "CreateStream_answer (e_amf env) t = Err e \<Longrightarrow> fst (answer_call env (RequestCreateStream sz) t cc) = Err e"
  "CreateStream_answer (e_amf env) t = Panic m \<Longrightarrow> fst (answer_call env (RequestCreateStream sz) t cc) = Panic m"
  by (simp_all add: ClientConn_CreateStream_answer_def bind_io_def pure_io_def)

text \<open>
  C8 (liveness). An answered call returns. Once the transaction a call waits for is resolved, the
  call stays able to go on, whatever other calls and the loop do meanwhile, and when it does it
  returns: \<^verbatim>\<open>Connect\<close> with the verdict of the very answer that resolved it, \<^verbatim>\<open>CreateStream\<close> with the
  stream that answer names, now in the client's table, or with an error.
\<close>

theorem answered_call_returns:
  assumes "client_reachable env y" and "cs_phase y g = Waiting k p" and "t_done (c_heap (cs_conn y) ! p)"
    and "client_run env evs y = Some y'" and "Wake g \<notin> set evs" and "answer = c_heap (cs_conn y) ! p"
  shows "\<exists>y'' r. client_step env (Wake g) y' = Some y'' \<and> cs_phase y'' g = Returned r
    \<and> (case k of
         RequestConnect _ \<Rightarrow> r = bind_result (Connect_answer (e_amf env) (e_ms env) answer) (\<lambda>_. Ok NoValue)
           \<and> cs_conn y'' = cs_conn y'
       | RequestCreateStream _ \<Rightarrow>
           (case CreateStream_answer (e_amf env) answer of
              Ok i \<Rightarrow> (if fmlookup (c_streams (cs_conn y')) i = None
                         \<and> int (fcard (fmdom (c_streams (cs_conn y')))) < MaxMessageStreams (cs_conn y')
                       then r = Ok (CreatedStream (newStream i)) \<and> fmlookup (c_streams (cs_conn y'')) i = Some (newStream i)
                       else (\<exists>e. r = Err e) \<and> cs_conn y'' = cs_conn y')
            | Err e \<Rightarrow> r = Err e | Panic e \<Rightarrow> r = Panic e)
       | RequestDeleteStream _ \<Rightarrow> True)"
proof -
  have stays: "cs_phase y' g = Waiting k p" "c_heap (cs_conn y') ! p = answer"
    using answered_stays [OF assms(4) client_reachable_ok [OF assms(1)] assms(5,2,3)] assms(6) by simp_all
  define m :: "('a ClientConn, clientValue) io" where "m = answer_call env k answer"
  let ?y = "advance g m (\<lambda>v. Returned (Ok v)) y'"
  have step: "client_step env (Wake g) y' = Some ?y"
    using stays assms(3,6) by (simp add: m_def)
  have returned: "cs_phase ?y g = Returned (fst (m (cs_cc y')))"
    by (simp split: result.split)
  have conn: "cs_conn ?y = cc_conn (snd (m (cs_cc y')))" by simp
  show ?thesis
  proof (intro exI conjI, rule step, rule returned)
    show "case k of
         RequestConnect _ \<Rightarrow> fst (m (cs_cc y')) = bind_result (Connect_answer (e_amf env) (e_ms env) answer) (\<lambda>_. Ok NoValue)
           \<and> cs_conn ?y = cs_conn y'
       | RequestCreateStream _ \<Rightarrow>
           (case CreateStream_answer (e_amf env) answer of
              Ok i \<Rightarrow> (if fmlookup (c_streams (cs_conn y')) i = None
                         \<and> int (fcard (fmdom (c_streams (cs_conn y')))) < MaxMessageStreams (cs_conn y')
                       then fst (m (cs_cc y')) = Ok (CreatedStream (newStream i)) \<and> fmlookup (c_streams (cs_conn ?y)) i = Some (newStream i)
                       else (\<exists>e. fst (m (cs_cc y')) = Err e) \<and> cs_conn ?y = cs_conn y')
            | Err e \<Rightarrow> fst (m (cs_cc y')) = Err e | Panic e \<Rightarrow> fst (m (cs_cc y')) = Panic e)
       | RequestDeleteStream _ \<Rightarrow> True"
      unfolding conn m_def
      by (auto split: clientCall.split result.split simp del: answer_call.simps
          simp: answer_connect answer_created answer_not_created answer_rejected)
  qed
qed

section \<open>When the connection ends\<close>

fun actor :: "clientEvent \<Rightarrow> nat option" where
  "actor (Begin g _) = Some g" | "actor (Open g) = Some g" | "actor (Send g) = Some g" | "actor (Wake g) = Some g"
| "actor (Forget g) = Some g" | "actor _ = None"

lemma phase_of_others:
  assumes "client_step env ev y = Some y'" and "actor ev \<noteq> Some g"
  shows "cs_phase y' g = cs_phase y g"
  using assms
  by (cases ev) (auto simp: Let_def loop_handles_def loop_ends_def split: clientPhase.splits clientCall.splits if_splits result.splits)

text \<open>A request that has no answer yet, and one that failed.\<close>

definition pending :: "nat \<Rightarrow> clientCall \<Rightarrow> 'u clientSystem \<Rightarrow> bool" where
  "pending g k y \<longleftrightarrow> cs_phase y g = Admitted k \<or> (\<exists>p. asks (cs_phase y) g k p \<and> \<not> t_done (c_heap (cs_conn y) ! p))"

definition failed_call :: "nat \<Rightarrow> 'u clientSystem \<Rightarrow> bool" where
  "failed_call g y \<longleftrightarrow> (\<exists>r. cs_phase y g = Returned r \<and> (\<forall>v. r \<noteq> Ok v))"

lemma pending_step:
  assumes step: "client_step env ev y = Some y'" and ok: "client_ok y" and ended: "\<not> cs_looping y"
    and pending: "pending g k y" and request: "\<And>target. k \<noteq> RequestDeleteStream target"
  shows "pending g k y' \<or> failed_call g y'"
proof -
  have "ev \<noteq> MessageRead csid ts cmsg" for csid ts cmsg using step ended by auto
  then obtain new where heap: "c_heap (cs_conn y') = c_heap (cs_conn y) @ new" using heap_grows [OF step ok] by blast
  have undone: "\<not> t_done (c_heap (cs_conn y') ! p)" if "asks (cs_phase y) g k p" "\<not> t_done (c_heap (cs_conn y) ! p)" for p
    using that ok heap by (auto simp: client_ok_def requests_ok_def nth_append)
  show ?thesis
  proof (cases "actor ev = Some g")
    case False
    then show ?thesis
      using pending undone phase_of_others [OF step False] by (auto simp: pending_def asks_def)
  next
    case True
    consider "cs_phase y g = Admitted k" | s p where "cs_phase y g = Requesting k s p" "\<not> t_done (c_heap (cs_conn y) ! p)"
      | p where "cs_phase y g = Waiting k p" "\<not> t_done (c_heap (cs_conn y) ! p)"
      using pending by (auto simp: pending_def asks_def)
    then show ?thesis
    proof cases
      case 1
      then have y': "y' = advance g (with_cc (open_request (e_amf env) k)) (\<lambda>(s, p). Requesting k s p) y"
        using step True request by (cases ev) (auto simp: Let_def split: clientCall.splits)
      show ?thesis
        using client_ok_ready [OF ok]
      proof (cases rule: open_request_result [of "cs_conn y" "e_amf env" k])
        case failed
        then show ?thesis by (auto simp: y' failed_call_def split: result.split)
      next
        case (opened s c1)
        then show ?thesis by (simp add: y' pending_def asks_def new_transaction_def)
      qed
    next
      case (2 s p)
      then have y': "y' = advance g (with_cc (write_request (e_amf env) k s)) (\<lambda>_. Waiting k p) y"
        using step True by (cases ev) (auto simp: Let_def)
      show ?thesis
        using undone [of p] 2 unfolding y' by (auto simp: pending_def failed_call_def asks_def split: result.split)
    next
      case (3 p)
      then show ?thesis using step True by (cases ev) (auto simp: Let_def)
    qed
  qed
qed

lemma failed_stays:
  assumes "client_step env ev y = Some y'" and "failed_call g y" and "\<And>k. ev \<noteq> Begin g k"
  shows "failed_call g y'"
proof -
  have "actor ev \<noteq> Some g" using assms by (cases ev) (auto simp: failed_call_def)
  then show ?thesis using phase_of_others [OF assms(1)] assms(2) by (simp add: failed_call_def)
qed

lemma pending_run:
  assumes "client_run env evs y = Some y'" and "client_ok y" and "\<not> cs_looping y"
    and "pending g k y \<or> failed_call g y" and "\<And>target. k \<noteq> RequestDeleteStream target" and "\<And>k. Begin g k \<notin> set evs"
  shows "pending g k y' \<or> failed_call g y'"
  using assms
proof (induction evs arbitrary: y)
  case (Cons ev evs)
  then obtain y1 where step: "client_step env ev y = Some y1" "client_run env evs y1 = Some y'"
    by (auto split: Option.bind_splits)
  have "pending g k y1 \<or> failed_call g y1"
    using Cons.prems(4)
  proof
    assume "pending g k y"
    then show ?thesis by (rule pending_step [OF step(1) Cons.prems(2,3) _ Cons.prems(5)])
  next
    assume "failed_call g y"
    then show ?thesis using failed_stays [OF step(1)] Cons.prems(6) by auto
  qed
  then show ?case
    using Cons.IH [OF step(2) client_step_ok [OF step(1) Cons.prems(2)] loop_stays_ended [OF step(1) Cons.prems(3)]] Cons.prems(5,6)
    by auto
qed simp

text \<open>
  C9 (error). Requests outlive the connection. Once the message loop of a client has ended, for
  whatever reason, a \<^verbatim>\<open>Connect\<close> or \<^verbatim>\<open>CreateStream\<close> that was let in and has no answer never succeeds,
  and if it has come to waiting it never returns at all: nobody resolves its transaction, and the
  context it waits with is never done. A request is let in when the loop ended without an error,
  or before the error is recorded.
\<close>

theorem requests_outlive_the_connection:
  assumes "client_reachable env y" and "\<not> cs_looping y" and "pending g k y" and "\<And>target. k \<noteq> RequestDeleteStream target"
    and "client_run env evs y = Some y'" and "\<And>k. Begin g k \<notin> set evs"
  shows "(pending g k y' \<or> failed_call g y')
    \<and> (\<forall>p. cs_phase y g = Waiting k p \<longrightarrow> cs_phase y' g = Waiting k p \<and> client_step env (Wake g) y' = None)"
proof -
  have ok: "client_ok y" by (rule client_reachable_ok [OF assms(1)])
  have "cs_phase y' g = Waiting k p \<and> client_step env (Wake g) y' = None" if w: "cs_phase y g = Waiting k p" for p
  proof -
    have "\<not> t_done (c_heap (cs_conn y) ! p)" using assms(3) w by (auto simp: pending_def asks_def)
    then have "stranded g y" using w assms(2) by (simp add: stranded_def)
    from stranded_run [OF assms(5) ok this] have "stranded g y'" and nowake: "Wake g \<notin> set evs" by simp_all
    moreover have "cs_phase y' g = Waiting k p"
      using assms(5) nowake w
    proof (induction evs arbitrary: y)
      case (Cons ev evs)
      then show ?case using waiting_stays [of env ev _ _ g k p] by (auto split: Option.bind_splits)
    qed simp
    ultimately show ?thesis by (blast intro: stranded_waits)
  qed
  then show ?thesis using pending_run [OF assms(5) ok assms(2) _ assms(4,6)] assms(3) by blast
qed

section \<open>Two shortcomings of the fixed transaction IDs\<close>

text \<open>
  Every request of a kind has the same transaction ID, so a second one is refused while the first
  is not answered: a client cannot create two streams at the same time.
\<close>

lemma second_request_refused:
  assumes "client_ok y" and "cs_phase y g = Admitted k" and "\<And>target. k \<noteq> RequestDeleteStream target"
    and "waits (c_streams (cs_conn y)) ControlStreamID (call_tid k) p"
  shows "\<exists>y'. client_step env (Open g) y = Some y' \<and> failed_call g y'"
proof -
  let ?y = "advance g (with_cc (open_request (e_amf env) k)) (\<lambda>(s, p). Requesting k s p) y"
  have "client_step env (Open g) y = Some ?y" using assms(2,3) by (cases k) auto
  moreover have "failed_call g ?y"
    using client_ok_ready [OF assms(1)]
  proof (cases rule: open_request_result [of "cs_conn y" "e_amf env" k])
    case failed
    then show ?thesis by (auto simp: failed_call_def split: result.split)
  next
    case (opened s c1)
    then show ?thesis using assms(4) by (auto simp: waits_def)
  qed
  ultimately show ?thesis by blast
qed

text \<open>
  The loop wakes the caller before it forgets the transaction. In between, the caller that asks
  again at once is refused although its first request has been answered.
\<close>

lemma answered_but_registered:
  assumes "wf_transactions (tb, h)" and "fmlookup tb tid = Some p"
  shows "\<exists>h'. transaction_Reply name enc body p h = (Ok (), h') \<and> t_done (h' ! p)
    \<and> (\<exists>e. transactions_Create tid (tb, h') = (Err e, (tb, h')))"
  using reply_then_delete(1) [OF assms] assms by (auto simp: transactions_Create_def wf_transactions_def)

section \<open>A client that has dialled\<close>

lemma sample_dialled:
  "\<exists>w rx. newClientConnWithSetup \<lparr>SkipHandshakeVerification = False\<rparr>
     (sample_world sample_reply, newConn \<lparr>segs = [], net_end = EOF\<rparr> None ()) =
     (Ok (), (w, rx, sample_conn streamStateClientNotConnected))"
proof -
  let ?cfg = "\<lparr>SkipHandshakeVerification = False\<rparr>"
  have hs: "fst (HandshakeWithServer ?cfg (sample_world sample_reply)) = Ok ()"
    using both_sides_complete(1) [of "sample_world sample_reply" "sample_world sample_request" ?cfg "[]" ?cfg "[]"] sample_handshake [where xs = "[]" and ys = "[]"] by simp
  let ?n = "newConn \<lparr>segs = [], net_end = EOF\<rparr> None ()"
  have "createControlStream streamStateClientNotConnected (snd ?n) =
      (Ok (), (snd ?n)\<lparr>c_streams := fmupd 0 (in_state streamStateClientNotConnected (newStream 0)) fmempty\<rparr>)"
    by (rule createControlStream_Ok) (simp_all add: newConn_def Let_def conn_config_def ConnConfig_normalize_def zero_userConfig_def
      zero_config_def config_normalize_def handler_of_def)
  moreover have "(snd ?n)\<lparr>c_peer := peerState (fst ?n)\<rparr> = snd ?n" by (simp add: newConn_def Let_def)
  ultimately show ?thesis
    using hs
    by (cases "HandshakeWithServer ?cfg (sample_world sample_reply)")
      (simp add: newClientConnWithSetup_def wrap_io_def on_conn_def resume_def Let_def sample_conn_def)
qed

definition sample_client :: "unit clientSystem" where
  "sample_client = client_start (sample_conn streamStateClientNotConnected)"

lemma sample_client_reachable: "client_reachable env sample_client"
  using sample_dialled unfolding sample_client_def by (blast intro: dialled)

abbreviation sample_call :: clientCall where
  "sample_call \<equiv> RequestConnect None"

text \<open>The client after its request, and after the answer.\<close>

definition sample_asking :: "unit connState" where
  "sample_asking = said [(3, 0, 0, MsgCommandMessage ''connect'' 1 EncodingTypeAMF0 [3, 0, 0, 9])]
     (awaiting 1 (sample_control streamStateClientNotConnected) (sample_conn streamStateClientNotConnected))"

lemma sample_conn_fields:
  "c_heap (sample_conn st) = []" "c_faults (sample_conn st) = []" "c_sent (sample_conn st) = []"
  by (simp_all add: sample_conn_def newConn_def Let_def)

lemma sample_control_id: "str_streamID (sample_control st) = 0"
  by (simp add: in_state_def newStream_def)

lemma sample_opens:
  "open_request amf sample_call (sample_conn st) =
     (Ok (sample_control st, 0), awaiting 1 (sample_control st) (sample_conn st))"
  by (simp add: open_request_def streams_At_def sample_conn_ok bind_io_def return_io_def with_transactions_def transactions_Create_def
      sample_conn_fields sample_control_fields awaiting_def in_state_def newStream_def)

lemma sample_writes:
  "write_request (e_amf talking_env) sample_call (sample_control streamStateClientNotConnected)
     (awaiting 1 (sample_control streamStateClientNotConnected) (sample_conn streamStateClientNotConnected)) = (Ok (), sample_asking)"
proof -
  obtain n t where nt: "amf_encode (e_amf talking_env) (GoString ''connect'') = Ok n" "amf_encode (e_amf talking_env) (GoInt64 1) = Ok t"
    using speaks_names [OF talking_speaks, of "''connect''" 1] by auto
  have "EncodeBodyAnyValues (e_amf talking_env) (Some (NetConnectionConnect zero_command)) [] = (Ok (), [3, 0, 0, 9])"
    by (simp add: EncodeBodyAnyValues_def encodeArgs_Ok bind_io_def talking_env_def sample_amf_def sample_encode_def command_value_def)
  from command_writes [OF _ _ this nt, of "awaiting 1 (sample_control streamStateClientNotConnected) (sample_conn streamStateClientNotConnected)"
      "sample_control streamStateClientNotConnected" 3 0]
  show ?thesis
    by (simp add: sample_asking_def sample_conn_fields sample_control_fields sample_control_id)
qed

definition sample_asked :: "unit clientSystem" where
  "sample_asked = sample_client\<lparr>cs_cc := \<lparr>cc_conn = sample_asking, cc_lastErr = None\<rparr>,
     cs_phase := (\<lambda>_. Idle)(0 := Waiting sample_call 0)\<rparr>"

lemma sample_asks: "client_run talking_env [Begin 0 sample_call, Open 0, Send 0] sample_client = Some sample_asked"
  by (simp add: sample_asked_def sample_client_def client_start_def advance_def controllable_def pure_io_def with_cc_def
      sample_opens sample_writes del: write_request.simps)

lemma sample_asked_fields [simp]:
  "cs_conn sample_asked = sample_asking" "cs_looping sample_asked" "cs_phase sample_asked 0 = Waiting sample_call 0"
  "c_heap sample_asking = [new_transaction]"
  by (simp_all add: sample_asked_def sample_client_def client_start_def sample_asking_def sample_conn_fields)

lemma sample_asked_reachable: "client_reachable talking_env sample_asked"
  by (rule client_reachable_run [OF sample_client_reachable sample_asks])

abbreviation sample_verdict :: transaction where
  "sample_verdict \<equiv> \<lparr>t_commandName = ''_result'', t_encoding = EncodingTypeAMF0, t_body = Some [3, 0, 0, 9, 3, 0, 0, 9],
     t_lastErr = None, t_done = True\<rparr>"

abbreviation sample_answer :: ChunkMessage where
  "sample_answer \<equiv> \<lparr>cm_StreamID = 0, cm_Message = MsgCommandMessage ''_result'' 1 EncodingTypeAMF0 [3, 0, 0, 9, 3, 0, 0, 9]\<rparr>"

lemma sample_answered:
  obtains y where "client_step talking_env (MessageRead 3 0 sample_answer) sample_asked = Some y"
    and "cs_phase y 0 = Waiting sample_call 0" and "c_heap (cs_conn y) = [sample_verdict]"
proof -
  let ?s = "(sample_control streamStateClientNotConnected)\<lparr>str_transactions := fmupd 1 0 fmempty\<rparr>"
  have s: "fmlookup (c_streams sample_asking) 0 = Some ?s"
    by (simp add: sample_asking_def awaiting_def sample_conn_fields sample_control_id sample_control_fields)
  obtain c' where c': "handleMessage talking_env 3 0 sample_answer sample_asking = (Ok (), c')" "c_heap c' ! 0 = sample_verdict"
    using answer_received [OF s, of 1 0 "''_result''" talking_env 3 0 EncodingTypeAMF0 "[3, 0, 0, 9, 3, 0, 0, 9]"]
    by (auto simp: sample_control_id new_transaction_def)
  let ?y = "sample_asked\<lparr>cs_cc := (cs_cc sample_asked)\<lparr>cc_conn := c'\<rparr>\<rparr>"
  have step: "client_step talking_env (MessageRead 3 0 sample_answer) sample_asked = Some ?y"
    using c'(1) by (simp add: loop_handles_def recovered_def)
  have "length (c_heap c') = 1"
    using received_heap [OF step client_reachable_ok [OF sample_asked_reachable]] by auto
  then have "c_heap c' = [sample_verdict]" using c'(2) by (cases "c_heap c'") auto
  then show ?thesis using step by (intro that [of ?y]) simp_all
qed

theorem answer_wakes_its_caller_witness:
  "\<exists>y name enc body. client_run talking_env [Begin 0 sample_call, Open 0, Send 0, MessageRead 3 0 sample_answer] sample_client = Some y
    \<and> sample_answer = \<lparr>cm_StreamID = 0, cm_Message = MsgCommandMessage name 1 enc body\<rparr>
    \<and> t_body (c_heap (cs_conn y) ! 0) = Some body"
proof -
  obtain y where y: "client_step talking_env (MessageRead 3 0 sample_answer) sample_asked = Some y"
    "c_heap (cs_conn y) = [sample_verdict]"
    by (rule sample_answered)
  have "client_run talking_env ([Begin 0 sample_call, Open 0, Send 0] @ [MessageRead 3 0 sample_answer]) sample_client = Some y"
    using sample_asks y(1) by (simp only: client_run_append) simp
  then have "client_run talking_env [Begin 0 sample_call, Open 0, Send 0, MessageRead 3 0 sample_answer] sample_client = Some y"
    by (simp only: append_Cons append_Nil)
  moreover have "\<exists>name enc body. sample_answer = \<lparr>cm_StreamID = 0, cm_Message = MsgCommandMessage name (call_tid sample_call) enc body\<rparr>
      \<and> c_heap (cs_conn y) ! 0 = \<lparr>t_commandName = name, t_encoding = enc, t_body = Some body, t_lastErr = None, t_done = True\<rparr>"
    using answer_wakes_its_caller [OF sample_asked_reachable y(1), of 0 sample_call 0] y(2) by (auto simp: new_transaction_def)
  then have "\<exists>name enc body. sample_answer = \<lparr>cm_StreamID = 0, cm_Message = MsgCommandMessage name 1 enc body\<rparr>
      \<and> t_body (c_heap (cs_conn y) ! 0) = Some body"
    by (metis call_tid.simps(1) transaction.select_convs(3))
  ultimately show ?thesis by blast
qed

theorem answered_call_returns_witness:
  "\<exists>y r. client_run talking_env [Begin 0 sample_call, Open 0, Send 0, MessageRead 3 0 sample_answer, Begin 1 (RequestCreateStream 0), Wake 0]
       sample_client = Some y \<and> cs_phase y 0 = Returned r
    \<and> r = bind_result (Connect_answer (e_amf talking_env) (e_ms talking_env) sample_verdict) (\<lambda>_. Ok NoValue)"
proof -
  obtain y where y: "client_step talking_env (MessageRead 3 0 sample_answer) sample_asked = Some y"
    "cs_phase y 0 = Waiting sample_call 0" "c_heap (cs_conn y) = [sample_verdict]"
    by (rule sample_answered)
  have y_reachable: "client_reachable talking_env y" by (rule stepped [OF sample_asked_reachable y(1)])
  have "cs_phase y 1 = Idle" using phase_of_others [OF y(1), of 1] by (simp add: sample_asked_def)
  then obtain y1 where y1: "client_run talking_env [Begin 1 (RequestCreateStream 0)] y = Some y1" by simp
  have first: "client_run talking_env ([Begin 0 sample_call, Open 0, Send 0] @ [MessageRead 3 0 sample_answer] @ [Begin 1 (RequestCreateStream 0)])
      sample_client = Some y1"
    using sample_asks y(1) y1 by (simp only: client_run_append) simp
  have resolved: "t_done (c_heap (cs_conn y) ! 0)" "Wake 0 \<notin> set [Begin 1 (RequestCreateStream 0)]" "sample_verdict = c_heap (cs_conn y) ! 0"
    by (simp_all add: y(3))
  obtain y2 r where y2: "client_step talking_env (Wake 0) y1 = Some y2" "cs_phase y2 0 = Returned r"
    "r = bind_result (Connect_answer (e_amf talking_env) (e_ms talking_env) sample_verdict) (\<lambda>_. Ok NoValue)"
    using answered_call_returns [OF y_reachable y(2) resolved(1) y1 resolved(2,3)] unfolding clientCall.case by blast
  have "client_run talking_env (([Begin 0 sample_call, Open 0, Send 0] @ [MessageRead 3 0 sample_answer]
      @ [Begin 1 (RequestCreateStream 0)]) @ [Wake 0]) sample_client = Some y2"
    by (subst client_run_append, subst first) (simp add: y2(1) del: client_step.simps)
  then show ?thesis using y2(2,3) unfolding append_Cons append_Nil by blast
qed

theorem requests_outlive_the_connection_witness:
  "\<exists>y y'. client_run talking_env [Begin 0 sample_call, Open 0, Send 0, LoopReturned None] sample_client = Some y
    \<and> client_run talking_env [Begin 1 (RequestCreateStream 0), Open 1] y = Some y'
    \<and> cs_phase y' 0 = Waiting sample_call 0 \<and> client_step talking_env (Wake 0) y' = None"
proof -
  let ?y = "loop_ends (Ok ()) sample_asking sample_asked"
  have step: "client_step talking_env (LoopReturned None) sample_asked = Some ?y" by simp
  have ended: "\<not> cs_looping ?y" and waiting: "cs_phase ?y 0 = Waiting sample_call 0" and other: "cs_phase ?y 1 = Idle"
    and sound: "controllable (cs_cc ?y) = Ok ()" and heap: "c_heap (cs_conn ?y) = [new_transaction]"
    by (simp_all add: loop_ends_def startHandleMessageLoop_def controllable_def sample_asked_def)
  obtain y' where y': "client_run talking_env [Begin 1 (RequestCreateStream 0), Open 1] ?y = Some y'"
    using other sound by (simp add: pure_io_def)
  have "client_run talking_env ([Begin 0 sample_call, Open 0, Send 0] @ [LoopReturned None]) sample_client = Some ?y"
    using sample_asks step by (simp only: client_run_append) simp
  then have "client_run talking_env [Begin 0 sample_call, Open 0, Send 0, LoopReturned None] sample_client = Some ?y"
    by (simp only: append_Cons append_Nil)
  moreover have "cs_phase y' 0 = Waiting sample_call 0 \<and> client_step talking_env (Wake 0) y' = None"
    using requests_outlive_the_connection [OF stepped [OF sample_asked_reachable step] ended _ _ y', of 0 sample_call] waiting heap
    by (simp add: pending_def asks_def new_transaction_def del: client_step.simps)
  ultimately show ?thesis using y' by blast
qed

end
