(* ===== verification/Client_Demo.thy ===== *)
theory Client_Demo
  imports Client_Properties
begin

text \<open>
  The example client (\<^verbatim>\<open>example/client_demo\<close>): it dials, connects, creates a stream and publishes,
  stopping at the first error. Here it talks to a server of this library; its \<open>main\<close> is composed
  from the operations of \<open>Conn\<close> and \<open>Stream_Ops\<close>, and where it waits, the server handles what has
  been sent and the client's loop handles what comes back.
\<close>

section \<open>The program\<close>

text \<open>Both ends, and whether their message loops still run.\<close>

record ('c, 's) demoWorld =
  dw_client :: "'c ClientConn"
  dw_looping :: bool
  dw_server :: "'s connState"
  dw_serving :: bool

text \<open>
  The server handles what the client has sent since the state \<open>c0\<close>, and the client's loop what the
  server has sent meanwhile; a loop that has ended handles nothing.
\<close>

definition turn :: "'c env \<Rightarrow> 's env \<Rightarrow> 'c connState \<Rightarrow> ('c, 's) demoWorld \<Rightarrow> ('c, 's) demoWorld" where
  "turn ec es c0 w =
     (let c = cc_conn (dw_client w);
          rs = (if dw_serving w then recovered (deliver es (sent_since c0 c) (dw_server w)) else (Ok (), dw_server w));
          rc = (if dw_looping w then recovered (deliver ec (sent_since (dw_server w) (snd rs)) c) else (Ok (), c)) in
      \<lparr>dw_client = startHandleMessageLoop (fst rc) ((dw_client w)\<lparr>cc_conn := snd rc\<rparr>),
       dw_looping = (dw_looping w \<and> fst rc = Ok ()),
       dw_server = snd rs, dw_serving = (dw_serving w \<and> fst rs = Ok ())\<rparr>)"

text \<open>\<open>None\<close> is a program that waits for ever.\<close>

type_synonym ('w, 'a) program = "'w \<Rightarrow> 'a result option \<times> 'w"

definition program_then :: "('w, 'a) program \<Rightarrow> ('a \<Rightarrow> ('w, 'b) program) \<Rightarrow> ('w, 'b) program" where
  "program_then m f w =
     (case m w of
        (Some (Ok a), w1) \<Rightarrow> f a w1
      | (Some (Err e), w1) \<Rightarrow> (Some (Err e), w1)
      | (Some (Panic p), w1) \<Rightarrow> (Some (Panic p), w1)
      | (None, w1) \<Rightarrow> (None, w1))"

text \<open>A call that asks and waits for its transaction; one that only asks.\<close>

definition asking :: "'c env \<Rightarrow> 's env \<Rightarrow> ('c ClientConn, nat) io \<Rightarrow> (transaction \<Rightarrow> ('c ClientConn, 'a) io)
    \<Rightarrow> (('c, 's) demoWorld, 'a) program" where
  "asking ec es ask answer w =
     (case ask (dw_client w) of
        (Ok p, cc) \<Rightarrow>
          (let w1 = turn ec es (cc_conn (dw_client w)) (w\<lparr>dw_client := cc\<rparr>);
               t = c_heap (cc_conn (dw_client w1)) ! p in
           if t_done t then (Some (fst (answer t (dw_client w1))), w1\<lparr>dw_client := snd (answer t (dw_client w1))\<rparr>)
           else (None, w1))
      | (Err e, cc) \<Rightarrow> (Some (Err e), w\<lparr>dw_client := cc\<rparr>)
      | (Panic m, cc) \<Rightarrow> (Some (Panic m), w\<lparr>dw_client := cc\<rparr>))"

definition telling :: "'c env \<Rightarrow> 's env \<Rightarrow> ('c ClientConn, 'a) io \<Rightarrow> (('c, 's) demoWorld, 'a) program" where
  "telling ec es m w =
     (Some (fst (m (dw_client w))),
      turn ec es (cc_conn (dw_client w)) (w\<lparr>dw_client := snd (m (dw_client w))\<rparr>))"

definition demo_connect :: "'c env \<Rightarrow> 's env \<Rightarrow> (('c, 's) demoWorld, unit) program" where
  "demo_connect ec es = asking ec es (ClientConn_Connect (e_amf ec) None)
     (\<lambda>t. bind_io (pure_io (Connect_answer (e_amf ec) (e_ms ec) t)) (\<lambda>_. return_io ()))"

definition demo_create :: "'c env \<Rightarrow> 's env \<Rightarrow> (('c, 's) demoWorld, Stream) program" where
  "demo_create ec es = asking ec es (ClientConn_CreateStream (e_amf ec) 128) (ClientConn_CreateStream_answer (e_amf ec))"

definition demo_publish :: "'c env \<Rightarrow> 's env \<Rightarrow> Stream \<Rightarrow> (('c, 's) demoWorld, unit) program" where
  "demo_publish ec es stream =
     telling ec es (with_cc (Publish_request (e_amf ec) stream (Some (''testtesttesttest'', ''live''))))"

text \<open>
  \<open>main\<close> after \<^verbatim>\<open>Dial\<close>. The deferred \<^verbatim>\<open>Close\<close> waits for the writers, so that the last request is
  still sent.
\<close>

definition client_main :: "'c env \<Rightarrow> 's env \<Rightarrow> (('c, 's) demoWorld, unit) program" where
  "client_main ec es =
     program_then (demo_connect ec es) (\<lambda>_.
     program_then (demo_create ec es) (\<lambda>stream.
       demo_publish ec es stream))"

section \<open>Each call\<close>

lemma turn_Ok:
  assumes "dw_looping w" and "dw_serving w"
    and "deliver es (sent_since c0 (cc_conn (dw_client w))) (dw_server w) = (Ok (), d)"
    and "deliver ec (sent_since (dw_server w) d) (cc_conn (dw_client w)) = (Ok (), c)"
  shows "turn ec es c0 w = \<lparr>dw_client = (dw_client w)\<lparr>cc_conn := c\<rparr>, dw_looping = True, dw_server = d, dw_serving = True\<rparr>"
  using assms by (simp add: turn_def recovered_def startHandleMessageLoop_def Let_def)

text \<open>Both ends in a state from which a call succeeds.\<close>

definition demo_world :: "'c connState \<Rightarrow> 's connState \<Rightarrow> ('c, 's) demoWorld" where
  "demo_world c d = \<lparr>dw_client = \<lparr>cc_conn = c, cc_lastErr = None\<rparr>, dw_looping = True, dw_server = d, dw_serving = True\<rparr>"

lemma demo_world_simps [simp]:
  "dw_client (demo_world c d) = \<lparr>cc_conn = c, cc_lastErr = None\<rparr>" "dw_looping (demo_world c d)"
  "dw_server (demo_world c d) = d" "dw_serving (demo_world c d)"
  "(demo_world c d)\<lparr>dw_client := \<lparr>cc_conn = c', cc_lastErr = None\<rparr>\<rparr> = demo_world c' d"
  by (simp_all add: demo_world_def)

lemma turn_demo:
  assumes "deliver es (sent_since c0 c) d = (Ok (), d')" and "deliver ec (sent_since d d') c = (Ok (), c')"
  shows "turn ec es c0 (demo_world c d) = demo_world c' d'"
  using assms by (subst turn_Ok) (simp_all add: demo_world_def)

lemma asking_demo:
  assumes "ask \<lparr>cc_conn = c, cc_lastErr = None\<rparr> = (Ok p, \<lparr>cc_conn = c1, cc_lastErr = None\<rparr>)"
    and "deliver es (sent_since c c1) d = (Ok (), d')" and "deliver ec (sent_since d d') c1 = (Ok (), c2)"
    and "t_done (c_heap c2 ! p)" and "answer (c_heap c2 ! p) \<lparr>cc_conn = c2, cc_lastErr = None\<rparr> = (r, \<lparr>cc_conn = c3, cc_lastErr = None\<rparr>)"
  shows "asking ec es ask answer (demo_world c d) = (Some r, demo_world c3 d')"
  using assms by (simp add: asking_def turn_demo Let_def)

text \<open>A client of which only the control stream, without transactions, matters.\<close>

definition demo_client :: "'c env \<Rightarrow> 'c connState \<Rightarrow> bool" where
  "demo_client ec c \<longleftrightarrow> c_streams c = fmupd 0 (in_state streamStateClientNotConnected (newStream 0)) fmempty \<and> c_faults c = []
     \<and> 1 < MaxMessageStreams c"

definition demo_server :: "streamState \<Rightarrow> 's connState \<Rightarrow> bool" where
  "demo_server st d \<longleftrightarrow> c_streams d = fmupd 0 (in_state st (newStream 0)) fmempty \<and> c_faults d = []
     \<and> 1 < MaxMessageStreams d \<and> MaxMessageStreams d \<le> 2 ^ 32"

lemma new_stream_fields [simp]:
  "str_streamID (in_state st (newStream k)) = k" "str_encTy (in_state st (newStream k)) = EncodingTypeAMF0"
  "str_transactions (in_state st (newStream k)) = fmempty" "str_state (in_state st (newStream k)) = st"
  "str_handler (in_state st (newStream k)) = handler_of st" "in_state st (in_state st' s) = in_state st s"
  "(in_state st (newStream k))\<lparr>str_transactions := fmempty\<rparr> = in_state st (newStream k)"
  by (simp_all add: in_state_def newStream_def)

lemma demo_server_sends:
  assumes "demo_server st d"
  shows "can_send es d (in_state st (newStream 0))"
  using assms
  by (auto simp: demo_server_def can_send_def tables_def wf_tables_def wf_waits_def waits_def stream_ok_def fcard.rep_eq split: if_splits)

lemma demo_server_free:
  assumes "demo_server st d"
  shows "(LEAST k. free_id d k) = 1"
proof (rule Least_equality)
  show "free_id d 1" using assms by (simp add: demo_server_def free_id_def stream_find_def)
  fix k assume "free_id d k"
  then show "1 \<le> k" using assms by (cases k) (auto simp: demo_server_def free_id_def stream_find_def)
qed

lemma demo_connected:
  fixes ec :: "'c env" and es :: "'s env"
  assumes amf: "speaks (e_amf ec)" "e_amf es = e_amf ec" "e_ms es = e_ms ec"
    and c: "demo_client ec c" and quiet: "\<And>msg. OnUnknownMessage (e_handler ec) 0 msg (c_user c) = (Ok (), c_user c)"
    and d: "demo_server streamStateServerNotConnected d" and user: "OnConnect (e_handler es) 0 zero_command (c_user d) = (Ok (), u)"
    and win: "\<not> cfg_MaxAckWindowSize (scs_config (c_peer c)) <s ackWindowSize (c_self d)"
    and carried: "command_carried (e_amf ec) (e_ms ec) zero_command"
      "result_carried (e_amf ec) (e_ms ec) (RPresetProperties (c_config d)) (newConnectSuccessResult d)"
  obtains c2 d2 where "demo_connect ec es (demo_world c d) = (Some (Ok ()), demo_world c2 d2)"
    and "demo_client ec c2" and "c_self c2 = c_self c" and "demo_server streamStateServerConnected d2"
    and "c_user d2 = u" and "c_peer d2 = c_peer d"
proof -
  let ?s = "in_state streamStateClientNotConnected (newStream 0)" and ?t = "in_state streamStateServerNotConnected (newStream 0)"
  obtain xs where xs: "EncodeBodyAnyValues (e_amf ec) (Some (NetConnectionConnect zero_command)) [] = (Ok (), xs)"
    using body_encodes(3) amf(1) carried(1) by blast
  obtain ys where ys: "EncodeBodyAnyValues (e_amf ec) (Some (NetConnectionConnectResult (RPresetProperties (c_config d))
      (newConnectSuccessResult d))) [] = (Ok (), ys)"
    using body_encodes(4) amf(1) carried(2) by blast
  let ?c1 = "said [(3, 0, 0, MsgCommandMessage ''connect'' 1 EncodingTypeAMF0 xs)] (awaiting 1 ?s c)"
  let ?reply = "[(2, 0, 0, MsgWinAckSize (ackWindowSize (c_self d))),
     (2, 0, 0, MsgSetPeerBandwidth (bandwidthWindowSize (c_self d)) (bandwidthLimitType (c_self d))),
     (2, 0, 0, MsgUserCtrl (UserCtrlEventStreamBegin 0)), (3, 0, 0, MsgCommandMessage ''_result'' 1 EncodingTypeAMF0 ys)]"
  define d2 where "d2 = update_stream 0 (in_state streamStateServerConnected) (said ?reply (d\<lparr>c_user := u\<rparr>))"
  have s: "fmlookup (c_streams c) 0 = Some ?s" "c_faults c = []" using c by (simp_all add: demo_client_def)
  have "Connect_request (e_amf ec) ?s None c = (Ok (length (c_heap c)), ?c1)"
    using request_sent [of c ?s 1 "e_amf ec" _ xs "''connect''"] s xs amf(1) by (simp add: Connect_request_def)
  then have ask: "ClientConn_Connect (e_amf ec) None \<lparr>cc_conn = c, cc_lastErr = None\<rparr> =
      (Ok (length (c_heap c)), \<lparr>cc_conn = ?c1, cc_lastErr = None\<rparr>)"
    using s by (simp add: ClientConn_Connect_def controllable_def bind_io_def with_cc_def streams_At_def pure_io_def)
  have served: "deliver es [(3, 0, 0, MsgCommandMessage ''connect'' 1 EncodingTypeAMF0 xs)] d = (Ok (), d2)"
    using server_connects [OF _ demo_server_sends [OF d], of es zero_command xs u ys] amf xs ys carried(1) user by (simp add: d2_def)
  have h: "fmlookup (c_streams c) (str_streamID ?s) = Some ?s" "str_handler ?s = Some clientControlNotConnectedHandler"
    using s(1) by (simp_all add: handler_of_def)
  obtain c2 where c2: "deliver ec ?reply ?c1 = (Ok (), c2)"
    "c_heap c2 ! length (c_heap c) = \<lparr>t_commandName = ''_result'', t_encoding = EncodingTypeAMF0, t_body = Some ys,
        t_lastErr = None, t_done = True\<rparr>"
    "c_streams c2 = fmupd 0 (?s\<lparr>str_transactions := fmdrop 1 fmempty\<rparr>) (c_streams c)"
    "c_self c2 = c_self c" "c_config c2 = c_config c" "c_faults c2 = c_faults c"
    using client_connected [OF amf(1) h quiet win, unfolded new_stream_fields] by blast
  have answer: "Connect_answer (e_amf ec) (e_ms ec) (c_heap c2 ! length (c_heap c)) =
      Ok (NetConnectionConnectResult (RPresetProperties (c_config d)) (newConnectSuccessResult d))"
    by (rule connect_result_read [OF ys carried(2)]) (simp_all add: c2(2))
  have sent: "sent_since c ?c1 = [(3, 0, 0, MsgCommandMessage ''connect'' 1 EncodingTypeAMF0 xs)]" "sent_since d d2 = ?reply"
    by (simp_all add: d2_def)
  have "demo_connect ec es (demo_world c d) = (Some (Ok ()), demo_world c2 d2)"
    unfolding demo_connect_def
    by (rule asking_demo [where p = "length (c_heap c)" and ?c1.0 = "?c1" and ?c2.0 = c2], rule ask) (use served c2(1) sent c2(2) answer in \<open>simp_all add: bind_io_def pure_io_def return_io_def\<close>)
  moreover have "fmupd 0 ?s (c_streams c) = c_streams c" using c by (intro fmap_ext) (auto simp: demo_client_def)
  then have "demo_client ec c2" using c c2(3-6) by (simp add: demo_client_def)
  moreover have "c_streams d2 = fmupd 0 (in_state streamStateServerConnected (newStream 0)) fmempty"
    using d by (intro fmap_ext) (auto simp: d2_def demo_server_def update_stream_def)
  then have "demo_server streamStateServerConnected d2" "c_user d2 = u" "c_peer d2 = c_peer d"
    using d by (simp_all add: d2_def demo_server_def update_stream_def split: option.split)
  ultimately show ?thesis using c2(4) by (intro that [of c2 d2])
qed

lemma demo_created:
  fixes ec :: "'c env" and es :: "'s env"
  assumes amf: "speaks (e_amf ec)" "e_amf es = e_amf ec"
    and c: "demo_client ec c" and d: "demo_server streamStateServerConnected d"
    and user: "OnCreateStream (e_handler es) 0 (c_user d) = (Ok (), u)"
    and sizes: "chunkSize (c_peer d) = chunkSize (c_self c)" "128 \<le> cfg_MaxChunkSize (scs_config (c_peer d))"
  obtains c2 d2 where "demo_create ec es (demo_world c d) = (Some (Ok (newStream 1)), demo_world c2 d2)"
    and "fmlookup (c_streams c2) 1 = Some (newStream 1)" and "c_faults c2 = []" and "chunkSize (c_self c2) = 128"
    and "c_streams d2 = fmupd 1 (in_state streamStateServerInactive (newStream 1)) (c_streams d)" and "c_user d2 = u"
    and "c_faults d2 = []" and "c_config d2 = c_config d" and "chunkSize (c_peer d2) = 128" and "c_heap d2 = c_heap d"
proof -
  let ?s = "in_state streamStateClientNotConnected (newStream 0)" and ?t = "in_state streamStateServerConnected (newStream 0)"
  obtain xs where xs: "EncodeBodyAnyValues (e_amf ec) (Some NetConnectionCreateStream) [] = (Ok (), xs)"
    using body_encodes(1) amf(1) by blast
  obtain ys where ys: "EncodeBodyAnyValues (e_amf ec) (Some (NetConnectionCreateStreamResult 1)) [] = (Ok (), ys)"
    using body_encodes(2) amf(1) by blast
  let ?news = "size_news ?s (chunkSize (c_self c)) 128 @ [(3, 0, 0, MsgCommandMessage ''createStream'' 2 EncodingTypeAMF0 xs)]"
  let ?reply = "[(3, 0, 0, MsgCommandMessage ''_result'' 2 EncodingTypeAMF0 ys)]"
  let ?c1 = "said ?news (awaiting 2 ?s (sized_self 128 c))"
  define d2 where "d2 = said ?reply ((sized_peer 128 d)
    \<lparr>c_user := u, c_streams := fmupd 1 (in_state streamStateServerInactive (newStream 1)) (c_streams d)\<rparr>)"
  have s: "fmlookup (c_streams c) 0 = Some ?s" "c_faults c = []" and room: "fmlookup (c_streams c) 1 = None"
    "int (fcard (fmdom (c_streams c))) < MaxMessageStreams c"
    using c by (simp_all add: demo_client_def fcard.rep_eq)
  have t: "fmlookup (c_streams d) (str_streamID ?s) = Some ?t" "int (fcard (fmdom (c_streams d))) < MaxMessageStreams d"
    "MaxMessageStreams d \<le> 2 ^ 32"
    using d by (simp_all add: demo_server_def fcard.rep_eq)
  have ask: "ClientConn_CreateStream (e_amf ec) 128 \<lparr>cc_conn = c, cc_lastErr = None\<rparr> =
      (Ok (length (c_heap c)), \<lparr>cc_conn = ?c1, cc_lastErr = None\<rparr>)"
    by (rule client_asks [OF amf(1) s(1) _ _ s(2) _ _ xs]) simp_all
  have k: "1 = of_nat (LEAST k. free_id (sized_peer 128 d) k)" using demo_server_free [OF d] by simp
  have "deliver es [(3, 0, 0, MsgCommandMessage ''createStream'' 2 EncodingTypeAMF0 xs)] (sized_peer 128 d) = (Ok (), d2)"
    unfolding d2_def
    using server_creates [of es "sized_peer 128 d" ?t xs u 1 ys] demo_server_sends [OF d, of es] amf xs ys t(2,3) k user by simp
  then have served: "deliver es ?news d = (Ok (), d2)"
    using server_sizes [OF t(1) sizes(1) _ sizes(2), of es] unfolding deliver_append bind_io_def by simp
  obtain c' cc where c': "deliver ec ?reply ?c1 = (Ok (), c')"
    "ClientConn_CreateStream_answer (e_amf ec) (c_heap c' ! length (c_heap c)) \<lparr>cc_conn = c', cc_lastErr = None\<rparr> = (Ok (newStream 1), cc)"
    "fmlookup (c_streams (cc_conn cc)) 1 = Some (newStream 1)" "c_self (cc_conn cc) = c_self (sized_self 128 c)"
    "c_faults (cc_conn cc) = c_faults c" "cc_lastErr cc = None" "t_done (c_heap c' ! length (c_heap c))"
    using client_given [of ec "sized_self 128 c" ?s 1 ys ?news] amf(1) s room ys by auto
  have sent: "sent_since c ?c1 = ?news" "sent_since d d2 = ?reply" by (simp_all add: d2_def)
  have cc: "\<lparr>cc_conn = cc_conn cc, cc_lastErr = None\<rparr> = cc" using c'(6) by (cases cc) simp
  have "demo_create ec es (demo_world c d) = (Some (Ok (newStream 1)), demo_world (cc_conn cc) d2)"
    unfolding demo_create_def
    by (rule asking_demo [where p = "length (c_heap c)" and ?c1.0 = "?c1" and ?c2.0 = c'], rule ask)
      (simp_all only: sent served c'(1,2,7) cc)
  then show ?thesis
    by (rule that) (use c'(3-5) s(2) d in \<open>simp_all add: sized_self_def d2_def sized_peer_def demo_server_def\<close>)
qed

lemma demo_published:
  fixes ec :: "'c env" and es :: "'s env"
  assumes amf: "speaks (e_amf ec)" "e_amf es = e_amf ec" "amf_value_consumes (e_amf ec)" "\<And>b p. fst (amf_decode_value (e_amf ec) b) \<noteq> Panic p"
    and c: "fmlookup (c_streams c) 1 = Some (newStream 1)" "c_faults c = []"
    and d: "can_send es d (in_state streamStateServerInactive (newStream 1))"
    and user: "OnPublish (e_handler es) 1 0 ''testtesttesttest'' ''live'' (c_user d) = (Ok (), u)"
    and status: "EncodeBodyAnyValues (e_amf ec) (Some (NetStreamOnStatus
        (newOnStatus NetStreamOnStatusCodePublishStart ''Publish succeeded.''))) [] = (Ok (), ys)"
  obtains c2 d2 where "demo_publish ec es (newStream 1) (demo_world c d) = (Some (Ok ()), demo_world c2 d2)"
    and "c_self c2 = c_self c" and "c_user d2 = u" and "c_peer d2 = c_peer d"
    and "fmlookup (c_streams d2) 1 = Some (in_state streamStateServerPublish (newStream 1))"
proof -
  let ?t = "in_state streamStateServerInactive (newStream 1)"
  have enc: "str_encTy (newStream 1) = EncodingTypeAMF0" "str_streamID (newStream 1) = 1" by (simp_all add: newStream_def)
  obtain xs where xs: "EncodeBodyAnyValues (e_amf ec) (Some (NetStreamPublish ''testtesttesttest'' ''live'')) [] = (Ok (), xs)"
    using body_encodes(5) [OF amf(1), of "''testtesttesttest''" "''live''"] by auto
  obtain nb tb where nb: "amf_encode (e_amf ec) (GoString ''publish'') = Ok nb" "amf_encode (e_amf ec) (GoInt64 0) = Ok tb"
    using speaks_names [OF amf(1), of "''publish''" 0] by auto
  let ?c2 = "said [(3, 0, 1, MsgCommandMessage ''publish'' 0 EncodingTypeAMF0 xs)] c"
  define d2 where "d2 = update_stream 1 (in_state streamStateServerPublish)
       (said [(3, 0, 1, MsgCommandMessage ''onStatus'' 0 EncodingTypeAMF0 ys)] (d\<lparr>c_user := u\<rparr>))"
  have t: "fmlookup (c_streams d) 1 = Some ?t" using d by (simp add: can_send_def)
  have 1: "Publish_request (e_amf ec) (newStream 1) (Some (''testtesttesttest'', ''live'')) c = (Ok (), ?c2)"
    using command_writes [OF c(2) enc(1) xs nb] enc(2) by (simp add: Publish_request_def)
  have sent: "sent_since c ?c2 = [(3, 0, 1, MsgCommandMessage ''publish'' 0 EncodingTypeAMF0 xs)]"
    "sent_since d d2 = [(3, 0, 1, MsgCommandMessage ''onStatus'' 0 EncodingTypeAMF0 ys)]"
    by (simp_all add: d2_def)
  have 2: "deliver es [(3, 0, 1, MsgCommandMessage ''publish'' 0 EncodingTypeAMF0 xs)] d = (Ok (), d2)"
    using server_publishes [OF _ d, of "''testtesttesttest''" "''live''" xs u ys] amf(1,2) xs user status by (simp add: d2_def)
  have "handleMessage ec 3 0 \<lparr>cm_StreamID = 1, cm_Message = MsgCommandMessage ''onStatus'' 0 EncodingTypeAMF0 ys\<rparr> ?c2 = (Ok (), ?c2)"
    using unknown_command_ignored [OF amf(3,4), where name = "''onStatus''"] c(1) by (simp add: CmdBodyDecoders_def)
  then have 3: "deliver ec [(3, 0, 1, MsgCommandMessage ''onStatus'' 0 EncodingTypeAMF0 ys)] ?c2 = (Ok (), ?c2)"
    using relay_command [OF amf(1), of "''onStatus''" 0 ys] by (simp add: bind_io_def)
  have "demo_publish ec es (newStream 1) (demo_world c d) = (Some (Ok ()), demo_world ?c2 d2)"
    using 1 turn_demo [of es c ?c2 d d2 ec ?c2] 2 3 by (simp add: demo_publish_def telling_def with_cc_def sent)
  then show ?thesis
    by (rule that) (use t in \<open>simp_all add: d2_def update_stream_def\<close>)
qed

section \<open>The whole program\<close>

lemma demo_server_inactive:
  assumes "demo_server streamStateServerConnected d"
    and "c_streams d2 = fmupd 1 (in_state streamStateServerInactive (newStream 1)) (c_streams d)"
    and "c_config d2 = c_config d" and "c_faults d2 = []"
  shows "can_send es d2 (in_state streamStateServerInactive (newStream 1))"
  using assms
  by (auto simp: demo_server_def can_send_def tables_def wf_tables_def wf_waits_def waits_def stream_ok_def fcard.rep_eq split: if_splits
      intro!: fmpred_upd)

text \<open>
  C6 (functional). The example client does its job against a server of this library whose user
  agrees: from the connection that dialling has set up, \<open>main\<close> runs to its end without an error
  and without waiting for ever; the server's user has been asked to connect, to create a stream and
  to publish \<^verbatim>\<open>testtesttesttest\<close>, in this order and nothing else; stream 1 of the server is
  publishing; both loops still run, and both sides use chunks of 128 bytes.
\<close>

theorem client_demo_publishes:
  fixes ec :: "'c env" and es :: "'s env"
  assumes "speaks (e_amf ec)" and "e_amf es = e_amf ec" and "e_ms es = e_ms ec" and "amf_value_consumes (e_amf ec)"
    and "\<And>b p. fst (amf_decode_value (e_amf ec) b) \<noteq> Panic p"
    and "newClientConnWithSetup hs (wc, newConn net cfg uc) = (Ok (), (wc', rx, c))" and "1 < MaxMessageStreams c"
    and "d = snd (serving es (newConn net' cfg' us))" and "1 < MaxMessageStreams d" and "MaxMessageStreams d \<le> 2 ^ 32"
    and "\<And>msg u. OnUnknownMessage (e_handler ec) 0 msg u = (Ok (), u)"
    and "OnConnect (e_handler es) 0 zero_command (OnServe (e_handler es) us) = (Ok (), u1)"
    and "OnCreateStream (e_handler es) 0 u1 = (Ok (), u2)"
    and "OnPublish (e_handler es) 1 0 ''testtesttesttest'' ''live'' u2 = (Ok (), u3)"
    and "\<not> cfg_MaxAckWindowSize (scs_config (c_peer c)) <s ackWindowSize (c_self d)"
    and "command_carried (e_amf ec) (e_ms ec) zero_command"
    and "result_carried (e_amf ec) (e_ms ec) (RPresetProperties (c_config d)) (newConnectSuccessResult d)"
    and "EncodeBodyAnyValues (e_amf ec) (Some (NetStreamOnStatus
        (newOnStatus NetStreamOnStatusCodePublishStart ''Publish succeeded.''))) [] = (Ok (), ys)"
    and "chunkSize (c_peer d) = chunkSize (c_self c)" and "128 \<le> cfg_MaxChunkSize (scs_config (c_peer d))"
  shows "\<exists>c' d'. client_main ec es (demo_world c d) = (Some (Ok ()), demo_world c' d') \<and> c_user d' = u3
    \<and> fmlookup (c_streams d') 1 = Some (in_state streamStateServerPublish (newStream 1))
    \<and> chunkSize (c_self c') = 128 \<and> chunkSize (c_peer d') = 128"
proof -
  have c: "demo_client ec c" using dialled_streams [OF assms(6)] assms(7) by (simp add: demo_client_def)
  have d: "demo_server streamStateServerNotConnected d" "c_user d = OnServe (e_handler es) us"
    using assms(8-10) by (simp_all add: demo_server_def serving_def newConn_def Let_def)
  obtain c1 d1 where 1: "demo_connect ec es (demo_world c d) = (Some (Ok ()), demo_world c1 d1)"
    "demo_client ec c1" "c_self c1 = c_self c" "demo_server streamStateServerConnected d1" "c_user d1 = u1" "c_peer d1 = c_peer d"
    by (rule demo_connected [OF assms(1-3) c assms(11) d(1) assms(12) [folded d(2)] assms(15-17)])
  obtain c2 d2 where 2: "demo_create ec es (demo_world c1 d1) = (Some (Ok (newStream 1)), demo_world c2 d2)"
    "fmlookup (c_streams c2) 1 = Some (newStream 1)" "c_faults c2 = []" "chunkSize (c_self c2) = 128"
    "c_streams d2 = fmupd 1 (in_state streamStateServerInactive (newStream 1)) (c_streams d1)" "c_user d2 = u2"
    "c_faults d2 = []" "c_config d2 = c_config d1" "chunkSize (c_peer d2) = 128"
    by (rule demo_created [OF assms(1,2) 1(2,4) assms(13) [folded 1(5)] assms(19,20) [folded 1(3,6)]])
  obtain c3 d3 where 3: "demo_publish ec es (newStream 1) (demo_world c2 d2) = (Some (Ok ()), demo_world c3 d3)"
    "c_self c3 = c_self c2" "c_user d3 = u3" "c_peer d3 = c_peer d2"
    "fmlookup (c_streams d3) 1 = Some (in_state streamStateServerPublish (newStream 1))"
    by (rule demo_published [OF assms(1,2,4,5) 2(2,3) demo_server_inactive [OF 1(4) 2(5,8,7)] assms(14) [folded 2(6)] assms(18)])
  have "client_main ec es (demo_world c d) = (Some (Ok ()), demo_world c3 d3)"
    using 1(1) 2(1) 3(1) by (simp add: client_main_def program_then_def)
  then show ?thesis using 2(4,9) 3 by (intro exI [of _ c3] exI [of _ d3]) simp
qed

lemma sample_serving:
  "snd (serving talking_env (newConn \<lparr>segs = [], net_end = EOF\<rparr> None ())) = sample_conn streamStateServerNotConnected"
  by (simp add: serving_def sample_conn_def newConn_def Let_def)

theorem client_demo_publishes_witness:
  "\<exists>c d. client_main talking_env talking_env
       (demo_world (sample_conn streamStateClientNotConnected) (sample_conn streamStateServerNotConnected)) =
       (Some (Ok ()), demo_world c d)
    \<and> fmlookup (c_streams d) 1 = Some (in_state streamStateServerPublish (newStream 1))"
proof -
  obtain w rx where dial: "newClientConnWithSetup \<lparr>SkipHandshakeVerification = False\<rparr>
     (sample_world sample_reply, newConn \<lparr>segs = [], net_end = EOF\<rparr> None ()) =
     (Ok (), (w, rx, sample_conn streamStateClientNotConnected))"
    using sample_dialled by blast
  have user: "OnUnknownMessage (e_handler talking_env) 0 msg u = (Ok (), u)"
    "OnConnect (e_handler talking_env) 0 zero_command (OnServe (e_handler talking_env) ()) = (Ok (), ())"
    "OnCreateStream (e_handler talking_env) 0 () = (Ok (), ())"
    "OnPublish (e_handler talking_env) 1 0 ''testtesttesttest'' ''live'' () = (Ok (), ())" for msg u
    by (simp_all add: talking_env_def DefaultHandler_def)
  have status: "EncodeBodyAnyValues (e_amf talking_env) (Some (NetStreamOnStatus
      (newOnStatus NetStreamOnStatusCodePublishStart ''Publish succeeded.''))) [] = (Ok (), [5, 3, 0, 0, 9])"
    by (simp add: talking_env_def EncodeBodyAnyValues_def encodeArgs_Ok bind_io_def sample_amf_def sample_encode_def status_value_def)
  have room: "1 < MaxMessageStreams (sample_conn st)" "MaxMessageStreams (sample_conn st) \<le> 2 ^ 32" for st
    by (simp_all add: sample_conn_ok)
  have size: "chunkSize (c_peer (sample_conn st)) = chunkSize (c_self (sample_conn st'))"
    "128 \<le> cfg_MaxChunkSize (scs_config (c_peer (sample_conn st)))" for st st'
    by (simp_all add: sample_sizes)
  from client_demo_publishes [OF talking_speaks refl refl talking_decodes dial room(1) sample_serving [symmetric] room user
      talking_carries(3,1,2) status size]
  show ?thesis by blast
qed

end
