(* ===== verification/Spec2Isabelle.thy ===== *)
theory Spec2Isabelle
  imports Write_Drain Chunk_Properties Relay_Properties Recorder Client_Properties Client_Demo
begin

text \<open>
  A verification development for go-rtmp, an implementation of the RTMP protocol in Go: a server
  and a client that exchange messages over chunk streams multiplexed on one connection. The
  theories translate the code under \<^verbatim>\<open>src/\<close> into executable definitions, one theory for each
  part, and prove what makes each part correct.

  \<^bold>\<open>How the program is put together.\<close> A connection (\<^verbatim>\<open>conn.go\<close>) starts with a handshake
  (\<^verbatim>\<open>handshake/\<close>). Then one goroutine reads: \<^verbatim>\<open>ChunkStreamer.Read\<close> (\<^verbatim>\<open>chunk_streamer.go\<close>) collects
  chunks (\<^verbatim>\<open>chunk_header.go\<close>, \<^verbatim>\<open>chunk_stream_reader.go\<close>) until a message is complete and decodes it
  (\<^verbatim>\<open>message/\<close>); \<^verbatim>\<open>Conn.handleMessage\<close> finds the message stream (\<^verbatim>\<open>streams.go\<close>) whose handler
  (\<^verbatim>\<open>stream_handler.go\<close> and a file for each state) answers it (\<^verbatim>\<open>stream.go\<close>), calls the user
  (\<^verbatim>\<open>handler.go\<close>) and moves the stream to another state, or resolves a transaction a client waits
  for (\<^verbatim>\<open>transactions.go\<close>). Any goroutine writes: \<^verbatim>\<open>ChunkStreamer.Write\<close> fills the writer of a chunk
  stream and queues it, and one more goroutine, the write loop, sends queued messages chunk by
  chunk. \<^verbatim>\<open>server.go\<close> accepts connections, \<^verbatim>\<open>client.go\<close> and \<^verbatim>\<open>client_conn.go\<close> open them. Three programs
  under \<^verbatim>\<open>example/\<close> use the library: \<^verbatim>\<open>server_relay_demo\<close> passes what one connection publishes to the
  connections that play it, \<^verbatim>\<open>server_demo\<close> records it to a file, \<^verbatim>\<open>client_demo\<close> publishes.

  \<^bold>\<open>Which theory models what.\<close>

  \<^item> \<open>Prelude\<close>: results (\<^verbatim>\<open>Ok\<close>, \<^verbatim>\<open>Err\<close>, \<^verbatim>\<open>Panic\<close>), state passing and a small logic of triples for it,
    errors as values, byte order. \<open>Go_IO\<close>: \<^verbatim>\<open>io.ReadAtLeast\<close>, \<^verbatim>\<open>io.Copy\<close> and \<^verbatim>\<open>bytes.Buffer\<close>, and two locales, a
    reader and a writer, with interpretations for a connection that hands out its bytes in
    segments, for buffers, and for a sink that can fail.
  \<^item> \<open>Chunk_Header\<close>, \<open>Control_State\<close>, \<open>Amf\<close>, \<open>User_Control\<close>, \<open>Message\<close>, \<open>Body\<close>: the codecs.
  \<^item> \<open>Chunk_Stream\<close>, \<open>Chunk_Read\<close>, \<open>Chunk_Write\<close>: the state of one chunk stream, the reading half and
    the writing half of \<^verbatim>\<open>ChunkStreamer\<close>. \<open>Chunk_Transfer\<close>: what one half writes the other reads.
  \<^item> \<open>Write_Sched\<close>: the goroutines that write, as a step relation over events; \<open>Write_Transfer\<close>: its
    composition with the reading half; \<open>Write_Drain\<close>: no message is lost on the way, and the loop works its
    queue off; \<open>Write_Failure\<close>: the state of the writers up to a failure of the loop, and after it.
  \<^item> \<open>Sha256\<close>, \<open>Handshake\<close>: both handshakes, on both sides.
  \<^item> \<open>Registry\<close>: streams and transactions, the locale \<open>registry\<close> of what a table promises, and its two
    interpretations. \<open>Stream_Ops\<close>: what a stream sends. \<open>Stream_Handler\<close>: the handlers by state, and
    the relation \<open>table_change\<close> of what one message can do to the tables.
  \<^item> \<open>Conn\<close>: configuration, the message loop, serving, and the client's operations.
    \<open>Handler_Contract\<close>: the locale of what a connection promises its user and what a user keeps
    in return; \<open>Protocol\<close>: its interpretation for the order of the user's callbacks. \<open>Server\<close>:
    closing, \<^verbatim>\<open>handleConn\<close>, the accept loop. \<open>Dialogue\<close>: the answers of a server, message by
    message. \<open>Wire_Input\<close>: from the bytes of a message to the next round of the loop. \<open>Exchange\<close>: a client and a server of this library talking to each other.
  \<^item> \<open>Client_System\<close>: the goroutines of a client, its concurrent calls and its message loop, as steps
    on one state, with their invariant; \<open>Client_Properties\<close>: what that means for a call that waits.
    \<open>Client_Demo\<close>: \<^verbatim>\<open>client_demo\<close>, its \<^verbatim>\<open>main\<close> against a server of this library.
  \<^item> \<open>Flv\<close>: the tags both programs build from media messages. \<open>Relay\<close>: \<^verbatim>\<open>server_relay_demo\<close>, its
    service, publications, subscribers and handlers on a store of their own; \<open>Relay_System\<close>: its
    invariant, its two interpretations of the contract, and any number of connections served by one
    relay; \<open>Relay_View\<close>: what a publication and its subscribers look like to a stream of media
    messages. \<open>Recorder\<close>: \<^verbatim>\<open>server_demo\<close> with \<^verbatim>\<open>filepath.Clean\<close> and \<^verbatim>\<open>filepath.Join\<close>, and its
    interpretation of the contract.
  \<^item> \<open>Codec_Properties\<close>, \<open>Chunk_Properties\<close>, \<open>Conn_Properties\<close>, \<open>Exchange\<close>, \<open>Client_Properties\<close>,
    \<open>Client_Demo\<close>, \<open>Relay_Properties\<close>, \<open>Recorder\<close> and this theory state the properties, each with an
    instance at a concrete input.

  \<^bold>\<open>Correspondence.\<close> A struct is a record with the fields of the code; a nil pointer is \<open>None\<close>. A
  function that can fail is a function from a state to a result and a state. \<^verbatim>\<open>uint32\<close>, \<^verbatim>\<open>int32\<close>,
  \<^verbatim>\<open>int64\<close> and bytes are machine words, which wrap around as in Go; Go's \<^verbatim>\<open>int\<close> is taken as
  unbounded, which 64-bit platforms do not distinguish here. A panic is a result of its own, and
  \<open>recovered\<close> turns it into an error where the code recovers.

  \<^bold>\<open>Concurrency.\<close> A call of \<^verbatim>\<open>Write\<close> is split where another goroutine can run between two of its
  steps; \<open>sys_step\<close> lets the calls and the write loop take turns in any order, channels and locks
  decide which steps are enabled, and the arms of a \<^verbatim>\<open>select\<close> are separate steps. Invariants are
  proved by induction over reachable states. The layers above send through \<open>stream_Write\<close>, which
  records what was handed over, in order, and can be made to fail. \<open>client_step\<close> interleaves the calls
  of a client with its loop in the same way; a call that waits is a step that is not enabled.

  \<^bold>\<open>Termination and fuel.\<close> Reading a message and the message loop are total functions: each round
  consumes input, which is the measure. The loops of \<^verbatim>\<open>io\<close> carry fuel, a round for each byte still
  wanted, and the locale's laws show that a reader that keeps them never uses it up. An unknown body is
  decoded with as much fuel as it has bytes (\<open>decodeAll_fuel\<close>).

  \<^bold>\<open>Parameters.\<close> The AMF0 codec and \<^verbatim>\<open>mapstructure\<close> are third-party packages: records of functions.
  What a property relies on of them is a hypothesis about the values concerned
  (\<open>amf_fits\<close>, \<open>body_fits\<close>, \<open>amf_value_consumes\<close>, \<open>speaks\<close>), and \<open>sample_amf\<close> is an instance. The user's handler is
  a record of functions on a state of the user's; the two example servers are such handlers. The FLV
  codec is a third-party package too, a record of functions, and what the operating system answers
  when a recording is opened, or a connection when the relay writes to it, is a function of what was
  asked before. SHA-256 is Go's standard library and is written out.

  \<^bold>\<open>What is shown.\<close> Codecs are round trips; a chunk header and a message arrive however the bytes are
  segmented; concurrently written messages are delivered complete and in order, all of them once
  the loop has worked its queue off, as long as calls do not overlap in the shared encoder; a
  writer has one owner; the counters and limits of a connection hold after any input; the loops
  end; the user is called in protocol order; each request gets the answer the protocol asks for; a
  client that connects, creates a stream, publishes and sends audio to a server of this library
  gets all of it done, and so does the example client; an answer wakes the call that asked for it,
  and no other; closing and serving happen once. The relay hands every media message it accepts to
  every subscriber once and in order, starting a new one with the cached headers; recordings stay
  below the directory they are meant for. Where the code falls short of that, a
  property or a lemma states what happens instead:
  over-long basic headers, continuation chunks with extended timestamps, empty messages, a queue
  that blocks for ever, a refused connect that goes on, writers handed out after a failure or lost with a message that cannot be
  encoded, client streams without a handler, requests that wait for ever once the connection has ended,
  cached headers whose timestamp wraps around, script data
  that does not reach a subscriber, and a name that stays taken after a second publish.

  \<^bold>\<open>Not modelled.\<close> Log output and the texts of \<^verbatim>\<open>Error()\<close>; the \<^verbatim>\<open>main\<close> functions
  that open a listener; the FLV file format; callbacks of the relay that interleave inside
  a callback, apart from the lemma \<open>play_window\<close>; TLS and dialing; timers,
  which appear as an arm of a \<^verbatim>\<open>select\<close> that can always be taken; what \<^verbatim>\<open>Conn.Close\<close> does
  to a running message loop beyond making it end, which it can at any point (\<open>ended\<close>, \<open>LoopReturned\<close>); the data races of
  \<^verbatim>\<open>Stream.cmsg\<close>, of the control state and of the tables' \<^verbatim>\<open>At\<close>, which the code shares without a lock.
\<close>

section \<open>Delivery\<close>

definition sample_calls :: "event list" where
  "sample_calls =
     [EnterWrite 0 4 7 \<lparr>cm_StreamID = 0, cm_Message = MsgAudioMessage [1, 2, 3]\<rparr>,
      EnterWrite 1 6 9 \<lparr>cm_StreamID = 0, cm_Message = MsgVideoMessage [8, 9]\<rparr>,
      LockWait 0, LockWait 1, WaitDone 0, WaitDone 1,
      ResetEncoder 0, EncodeMessage 0, FillHeader 0, ResetEncoder 1, EncodeMessage 1, FillHeader 1,
      SchedWriter 0, SchedWriter 1, LoopTake]"

lemma sample_proper: "proper_run sample_amf sample_calls sample_system"
  by (simp add: sample_calls_def sample_system_def sample_config_def system_defs proper_def
      flight_of_def loadable_def has_writer_room_def writer_of_def)

lemma sample_run: "\<exists>P S. run_events sample_amf sample_calls ((\<lambda>_. None), sample_system) = Some ([], P, S)
    \<and> loop S = LoopRequeue 4"
  by (simp add: sample_calls_def sample_system_def sample_config_def system_defs noted_def shipped_def
      flight_of_def)

lemma sample_accepted: "accepted sample_amf sample_calls sample_system =
   [(4, \<lparr>fl_timestamp = 7, fl_typeID = 8, fl_streamID = 0, fl_payload = [1, 2, 3]\<rparr>),
    (6, \<lparr>fl_timestamp = 9, fl_typeID = 9, fl_streamID = 0, fl_payload = [8, 9]\<rparr>)]"
  by (simp add: sample_calls_def sample_system_def sample_config_def system_defs taken_on_def
      flight_of_def)

text \<open>
  C1 (liveness). Concurrent calls of \<^verbatim>\<open>Write\<close>, in any proper interleaving with the write loop, are
  delivered. At any time, a reader given exactly the bytes the loop wrote reads one chunk for each
  turn of the loop and completes exactly the messages whose last chunk went out, each on its chunk
  stream with its timestamp, type, message stream and payload, in the order in which their last
  chunks were sent; no byte is left over. From there, unless the streamer has been stopped and with
  no more chunk streams than the queue has places, the loop by its own steps reaches an empty
  queue, and then the messages that arrived are, on each chunk stream and in order, all those whose
  \<^verbatim>\<open>Write\<close> returned nil. A run is proper when chunk stream IDs are 2 to 319, the messages that are
  queued are non-empty and below 16 MiB with timestamps below \<open>0xffffff\<close>, a chunk stream changes
  its message stream only together with a timestamp that is not newer, and no call resets the
  shared encoder while another is between resetting and using it, which the code does not prevent.
\<close>

theorem concurrent_writes_are_delivered:
  assumes "S = NewChunkStreamer_system k (Some c)" and "faults k = []"
    and "0 < cfg_DefaultChunkSize c" and "0 \<le> cfg_MaxChunkStreams c"
    and "proper_run amf evs S" and "run_events amf evs (P, S) = Some (ms, P', S')"
  shows "arrives c k (turns evs) ms S'
    \<and> (cfg_MaxChunkStreams c \<le> int maxWriterQueueSize \<and> loop S' \<noteq> LoopEnded None \<longrightarrow>
        (\<exists>evs' ms' S''. set evs' \<subseteq> {LoopTake, LoopRequeued}
          \<and> run_events amf evs' (P', S') = Some (ms', P', S'') \<and> pipeline S'' = []
          \<and> arrives c k (turns (evs @ evs')) (ms @ ms') S''
          \<and> (\<forall>csid. flights_on csid (ms @ ms') = flights_on csid (accepted amf evs S))))"
  using proper_run_arrives [OF assms(1-4)] proper_run_drains [OF assms] assms(5,6) by blast

theorem concurrent_writes_are_delivered_witness:
  "\<exists>evs S ms rx'. set evs \<subseteq> {LoopTake, LoopRequeued} \<and> pipeline S = []
     \<and> receive (turns (sample_calls @ evs)) (sample_receiver (out (tx_w (tx S)))) = (Ok ms, rx') \<and> rx_pending rx' = []
     \<and> map fl_payload (flights_on 4 ms) = [[1, 2, 3]] \<and> map fl_payload (flights_on 6 ms) = [[8, 9]]"
proof -
  obtain P S where run: "run_events sample_amf sample_calls ((\<lambda>_. None), sample_system) = Some ([], P, S)"
    "loop S = LoopRequeue 4"
    using sample_run by blast
  have "cfg_MaxChunkStreams sample_config = 8" "0 < cfg_DefaultChunkSize sample_config"
    by (simp_all add: sample_config_def)
  then obtain evs ms S' where d: "set evs \<subseteq> {LoopTake, LoopRequeued}" "pipeline S' = []"
      "arrives sample_config \<lparr>out = [], faults = []\<rparr> (turns (sample_calls @ evs)) ms S'"
      "\<And>csid. flights_on csid ms = flights_on csid (accepted sample_amf sample_calls sample_system)"
    using concurrent_writes_are_delivered [OF sample_system_def _ _ _ sample_proper run(1)] run(2) by auto
  have "\<exists>rx'. receive (turns (sample_calls @ evs)) (sample_receiver (out (tx_w (tx S')))) = (Ok ms, rx')
      \<and> rx_pending rx' = []"
    using d(3) by (simp add: arrives_def sample_receiver_def sample_config_def NewStreamControlState_def
        csr_pending_def net_pending_def Let_def)
  moreover have "map fl_payload (flights_on 4 ms) = [[1, 2, 3]]" "map fl_payload (flights_on 6 ms) = [[8, 9]]"
    unfolding d(4) sample_accepted by simp_all
  ultimately show ?thesis
    using d(1,2) by (intro exI [of _ evs] exI [of _ S'] exI [of _ ms]) simp
qed

end
